(* ===== verification/Prelude.thy ===== *)
theory Prelude
  imports Main "HOL-Library.Word" "HOL-Library.AList" "HOL-Library.Char_ord"
    "HOL-Library.List_Lexorder" "HOL-Library.Multiset"
begin

text \<open>
  What the components share: effects with errors (a state, a sum of an error and a value), the
  rules that carry an invariant through them, the ASCII text functions of the Rust standard
  library, decimal numbers, and generic lemmas on lists.

  A Rust \<open>String\<close> is a \<open>string\<close> that holds its UTF-8 bytes, one \<open>char\<close> each, which is how Rust
  compares, slices and measures it; code that walks over characters works on code points.
\<close>

section \<open>Collections of rules\<close>

named_theorems keeps_intros \<open>rules that show that an action keeps a predicate of the state\<close>
named_theorems triple_intros \<open>rules that show what an action does to the state it starts from\<close>

section \<open>Effects\<close>

text \<open>
  An action reads and changes a state and either fails with an error or returns a value. A Rust
  function that takes \<open>&mut\<close> state and returns \<open>Result\<close> is one; \<open>?\<close> is \<open>and_then\<close>.
\<close>

type_synonym ('s, 'e, 'a) action = "'s \<Rightarrow> ('e + 'a) \<times> 's"

definition ret :: "'a \<Rightarrow> ('s, 'e, 'a) action" where
  "ret x = (\<lambda>s. (Inr x, s))"

definition throw :: "'e \<Rightarrow> ('s, 'e, 'a) action" where
  "throw e = (\<lambda>s. (Inl e, s))"

definition and_then :: "('s, 'e, 'a) action \<Rightarrow> ('a \<Rightarrow> ('s, 'e, 'b) action) \<Rightarrow> ('s, 'e, 'b) action" where
  "and_then m k = (\<lambda>s. case m s of (Inl e, t) \<Rightarrow> (Inl e, t) | (Inr x, t) \<Rightarrow> k x t)"

text \<open>\<open>match m \{ Err(e) => h e, Ok(x) => k x \}\<close>: the state of the failed action stays.\<close>

definition on_result ::
  "('s, 'e, 'a) action \<Rightarrow> ('e \<Rightarrow> ('s, 'f, 'b) action) \<Rightarrow> ('a \<Rightarrow> ('s, 'f, 'b) action) \<Rightarrow> ('s, 'f, 'b) action" where
  "on_result m h k = (\<lambda>s. case m s of (Inl e, t) \<Rightarrow> h e t | (Inr x, t) \<Rightarrow> k x t)"

definition reads :: "('s \<Rightarrow> 'a) \<Rightarrow> ('s, 'e, 'a) action" where
  "reads f = (\<lambda>s. (Inr (f s), s))"

definition changes :: "('s \<Rightarrow> 's) \<Rightarrow> ('s, 'e, unit) action" where
  "changes f = (\<lambda>s. (Inr (), f s))"

definition only_if :: "bool \<Rightarrow> ('s, 'e, unit) action \<Rightarrow> ('s, 'e, unit) action" where
  "only_if b m = (if b then m else ret ())"

primrec for_each :: "('b \<Rightarrow> ('s, 'e, unit) action) \<Rightarrow> 'b list \<Rightarrow> ('s, 'e, unit) action" where
  "for_each f [] = ret ()"
| "for_each f (x # xs) = and_then (f x) (\<lambda>_. for_each f xs)"

primrec map_each :: "('b \<Rightarrow> ('s, 'e, 'a) action) \<Rightarrow> 'b list \<Rightarrow> ('s, 'e, 'a list) action" where
  "map_each f [] = ret []"
| "map_each f (x # xs) = and_then (f x) (\<lambda>y. and_then (map_each f xs) (\<lambda>ys. ret (y # ys)))"

definition of_result :: "'e + 'a \<Rightarrow> ('s, 'e, 'a) action" where
  "of_result r = (\<lambda>s. (r, s))"

text \<open>\<open>Result::map_err\<close>, and an action of a part of the state.\<close>

definition map_error :: "('e \<Rightarrow> 'f) \<Rightarrow> ('s, 'e, 'a) action \<Rightarrow> ('s, 'f, 'a) action" where
  "map_error f m = on_result m (\<lambda>e. throw (f e)) ret"

definition on_part :: "('s \<Rightarrow> 'p) \<Rightarrow> ('p \<Rightarrow> 's \<Rightarrow> 's) \<Rightarrow> ('p, 'e, 'a) action \<Rightarrow> ('s, 'e, 'a) action" where
  "on_part get put m = (\<lambda>s. case m (get s) of (r, p) \<Rightarrow> (r, put p s))"

lemmas action_defs = ret_def throw_def and_then_def on_result_def reads_def changes_def only_if_def of_result_def

lemma ret_run [simp]: "ret x s = (Inr x, s)" by (simp add: ret_def)
lemma throw_run [simp]: "throw e s = (Inl e, s)" by (simp add: throw_def)
lemma reads_run [simp]: "reads f s = (Inr (f s), s)" by (simp add: reads_def)
lemma changes_run [simp]: "changes f s = (Inr (), f s)" by (simp add: changes_def)
lemma of_result_run [simp]: "of_result r s = (r, s)" by (simp add: of_result_def)

lemma and_then_ret [simp]: "and_then (ret x) k = k x"
  by (simp add: and_then_def ret_def)

lemma and_then_ok: "m s = (Inr x, t) \<Longrightarrow> and_then m k s = k x t"
  by (simp add: and_then_def)

lemma and_then_err: "m s = (Inl e, t) \<Longrightarrow> and_then m k s = (Inl e, t)"
  by (simp add: and_then_def)

section \<open>Invariants and triples of actions\<close>

text \<open>\<open>keeps P m\<close>: whatever \<open>m\<close> returns, \<open>P\<close> still holds of the state it leaves.\<close>

definition keeps :: "('s \<Rightarrow> bool) \<Rightarrow> ('s, 'e, 'a) action \<Rightarrow> bool" where
  "keeps P m \<longleftrightarrow> (\<forall>s. P s \<longrightarrow> P (snd (m s)))"

text \<open>\<open>triple P m Q E\<close>: from a state with \<open>P\<close>, a value comes with \<open>Q\<close> and an error with \<open>E\<close>.\<close>

definition triple :: "('s \<Rightarrow> bool) \<Rightarrow> ('s, 'e, 'a) action \<Rightarrow> ('a \<Rightarrow> 's \<Rightarrow> bool) \<Rightarrow> ('e \<Rightarrow> 's \<Rightarrow> bool) \<Rightarrow> bool" where
  "triple P m Q E \<longleftrightarrow> (\<forall>s. P s \<longrightarrow> (case m s of (Inl e, t) \<Rightarrow> E e t | (Inr x, t) \<Rightarrow> Q x t))"

lemma keepsI: "(\<And>s. P s \<Longrightarrow> P (snd (m s))) \<Longrightarrow> keeps P m"
  by (simp add: keeps_def)

lemma keepsD: "keeps P m \<Longrightarrow> P s \<Longrightarrow> P (snd (m s))"
  by (simp add: keeps_def)

lemma keepsD_eq: "keeps P m \<Longrightarrow> P s \<Longrightarrow> m s = (r, t) \<Longrightarrow> P t"
  by (metis keepsD snd_conv)

lemma keeps_ret [keeps_intros]: "keeps P (ret x)" by (simp add: keeps_def)
lemma keeps_throw [keeps_intros]: "keeps P (throw e)" by (simp add: keeps_def)
lemma keeps_reads [keeps_intros]: "keeps P (reads f)" by (simp add: keeps_def)
lemma keeps_of_result [keeps_intros]: "keeps P (of_result r)" by (simp add: keeps_def)

lemma keeps_changes: "(\<And>s. P s \<Longrightarrow> P (f s)) \<Longrightarrow> keeps P (changes f)"
  by (simp add: keeps_def)

lemma keeps_and_then [keeps_intros]:
  "keeps P m \<Longrightarrow> (\<And>x. keeps P (k x)) \<Longrightarrow> keeps P (and_then m k)"
  unfolding keeps_def and_then_def by (fastforce split: prod.splits sum.splits)

lemma keeps_on_result [keeps_intros]:
  "keeps P m \<Longrightarrow> (\<And>e. keeps P (h e)) \<Longrightarrow> (\<And>x. keeps P (k x)) \<Longrightarrow> keeps P (on_result m h k)"
  unfolding keeps_def on_result_def by (fastforce split: prod.splits sum.splits)

lemma keeps_map_error [keeps_intros]: "keeps P m \<Longrightarrow> keeps P (map_error f m)"
  unfolding map_error_def by (intro keeps_intros)

lemma keeps_on_part:
  assumes "keeps Q m" and "\<And>s. P s \<Longrightarrow> Q (get s)" and "\<And>s p. P s \<Longrightarrow> Q p \<Longrightarrow> P (put p s)"
  shows "keeps P (on_part get put m)"
  using assms unfolding keeps_def on_part_def by (auto split: prod.splits) (metis snd_conv)

lemma keeps_only_if [keeps_intros]: "(b \<Longrightarrow> keeps P m) \<Longrightarrow> keeps P (only_if b m)"
  by (simp add: only_if_def keeps_ret)

lemma keeps_if [keeps_intros]:
  "(b \<Longrightarrow> keeps P m) \<Longrightarrow> (\<not> b \<Longrightarrow> keeps P n) \<Longrightarrow> keeps P (if b then m else n)"
  by simp

lemma keeps_case_option [keeps_intros]:
  "(x = None \<Longrightarrow> keeps P m) \<Longrightarrow> (\<And>y. x = Some y \<Longrightarrow> keeps P (n y)) \<Longrightarrow> keeps P (case x of None \<Rightarrow> m | Some y \<Rightarrow> n y)"
  by (cases x) simp_all

lemma keeps_case_prod [keeps_intros]:
  "(\<And>a b. x = (a, b) \<Longrightarrow> keeps P (n a b)) \<Longrightarrow> keeps P (case x of (a, b) \<Rightarrow> n a b)"
  by (cases x) simp

lemma keeps_case_sum [keeps_intros]:
  "(\<And>a. x = Inl a \<Longrightarrow> keeps P (m a)) \<Longrightarrow> (\<And>b. x = Inr b \<Longrightarrow> keeps P (n b)) \<Longrightarrow> keeps P (case x of Inl a \<Rightarrow> m a | Inr b \<Rightarrow> n b)"
  by (cases x) simp_all

lemma keeps_for_each [keeps_intros]: "(\<And>x. x \<in> set xs \<Longrightarrow> keeps P (f x)) \<Longrightarrow> keeps P (for_each f xs)"
  by (induction xs) (auto intro!: keeps_intros)

lemma keeps_map_each [keeps_intros]: "(\<And>x. x \<in> set xs \<Longrightarrow> keeps P (f x)) \<Longrightarrow> keeps P (map_each f xs)"
  by (induction xs) (auto intro!: keeps_intros)

lemma triple_cases:
  assumes "triple P m Q E" and "P s"
  obtains (error) e t where "m s = (Inl e, t)" and "E e t"
  | (ok) x t where "m s = (Inr x, t)" and "Q x t"
proof (cases "m s")
  case (Pair r t)
  then show thesis using assms that by (cases r) (auto simp: triple_def)
qed

lemma tripleI:
  "(\<And>s e t. P s \<Longrightarrow> m s = (Inl e, t) \<Longrightarrow> E e t) \<Longrightarrow> (\<And>s x t. P s \<Longrightarrow> m s = (Inr x, t) \<Longrightarrow> Q x t) \<Longrightarrow> triple P m Q E"
  by (auto simp: triple_def split: prod.splits sum.splits)

lemma triple_ok: "triple P m Q E \<Longrightarrow> P s \<Longrightarrow> m s = (Inr x, t) \<Longrightarrow> Q x t"
  by (auto simp: triple_def)

lemma triple_err: "triple P m Q E \<Longrightarrow> P s \<Longrightarrow> m s = (Inl e, t) \<Longrightarrow> E e t"
  by (auto simp: triple_def)

lemma triple_and_then:
  "triple P m R E \<Longrightarrow> (\<And>x. triple (R x) (k x) Q E) \<Longrightarrow> triple P (and_then m k) Q E"
  by (fastforce simp: triple_def and_then_def split: prod.splits sum.splits)

lemma triple_on_result:
  "triple P m R F \<Longrightarrow> (\<And>e. triple (F e) (h e) Q E) \<Longrightarrow> (\<And>x. triple (R x) (k x) Q E) \<Longrightarrow> triple P (on_result m h k) Q E"
  by (fastforce simp: triple_def on_result_def split: prod.splits sum.splits)

lemma triple_ret: "(\<And>s. P s \<Longrightarrow> Q x s) \<Longrightarrow> triple P (ret x) Q E"
  by (simp add: triple_def)

lemma triple_throw: "(\<And>s. P s \<Longrightarrow> E e s) \<Longrightarrow> triple P (throw e) Q E"
  by (simp add: triple_def)

lemma triple_for_each:
  "(\<And>x. x \<in> set xs \<Longrightarrow> triple P (f x) (\<lambda>_. P) E) \<Longrightarrow> triple P (for_each f xs) (\<lambda>_. P) E"
  by (induction xs) (auto intro!: triple_ret triple_and_then[where R = "\<lambda>_. P"])

lemma triple_weaken:
  "triple P m Q E \<Longrightarrow> (\<And>s. P' s \<Longrightarrow> P s) \<Longrightarrow> (\<And>x s. Q x s \<Longrightarrow> Q' x s) \<Longrightarrow> (\<And>e s. E e s \<Longrightarrow> E' e s) \<Longrightarrow> triple P' m Q' E'"
  by (fastforce simp: triple_def split: prod.splits sum.splits)

section \<open>Text\<close>

text \<open>The Rust standard library's ASCII case functions, over the bytes of a string.\<close>

definition ascii_lower :: "char \<Rightarrow> char" where
  "ascii_lower c = (if 65 \<le> (of_char c :: nat) \<and> (of_char c :: nat) \<le> 90 then char_of ((of_char c :: nat) + 32) else c)"

definition to_ascii_lowercase :: "string \<Rightarrow> string" where
  "to_ascii_lowercase s = map ascii_lower s"

definition eq_ignore_ascii_case :: "string \<Rightarrow> string \<Rightarrow> bool" where
  "eq_ignore_ascii_case a b \<longleftrightarrow> to_ascii_lowercase a = to_ascii_lowercase b"

fun strip_prefix :: "'a list \<Rightarrow> 'a list \<Rightarrow> 'a list option" where
  "strip_prefix [] s = Some s"
| "strip_prefix (p # ps) [] = None"
| "strip_prefix (p # ps) (c # s) = (if p = c then strip_prefix ps s else None)"

definition starts_with :: "'a list \<Rightarrow> 'a list \<Rightarrow> bool" where
  "starts_with p s \<longleftrightarrow> strip_prefix p s \<noteq> None"

definition strip_suffix :: "'a list \<Rightarrow> 'a list \<Rightarrow> 'a list option" where
  "strip_suffix p s = map_option rev (strip_prefix (rev p) (rev s))"

definition ends_with :: "'a list \<Rightarrow> 'a list \<Rightarrow> bool" where
  "ends_with p s \<longleftrightarrow> strip_suffix p s \<noteq> None"

lemma strip_prefix_Some: "strip_prefix p s = Some r \<longleftrightarrow> s = p @ r"
  by (induction p s rule: strip_prefix.induct) auto

lemma strip_prefix_append [simp]: "strip_prefix p (p @ r) = Some r"
  by (simp add: strip_prefix_Some)

lemma strip_suffix_Some: "strip_suffix p s = Some r \<longleftrightarrow> s = r @ p"
  by (auto simp: strip_suffix_def strip_prefix_Some)
     (metis rev_append rev_rev_ident)

lemma starts_with_iff: "starts_with p s \<longleftrightarrow> (\<exists>r. s = p @ r)"
  by (auto simp: starts_with_def strip_prefix_Some)

lemma ends_with_iff: "ends_with p s \<longleftrightarrow> (\<exists>r. s = r @ p)"
  by (auto simp: ends_with_def strip_suffix_Some)

definition newline :: char where
  "newline = CHR 0x0A"

text \<open>\<open>str::split(c)\<close>: the pieces between the separators, at least one.\<close>

fun split_on :: "'a \<Rightarrow> 'a list \<Rightarrow> 'a list list" where
  "split_on c [] = [[]]"
| "split_on c (x # xs) = (if x = c then [] # split_on c xs
     else (case split_on c xs of [] \<Rightarrow> [[x]] | p # ps \<Rightarrow> (x # p) # ps))"

lemma split_on_not_Nil [simp]: "split_on c s \<noteq> []"
  by (induction s) (auto split: list.splits)

text \<open>\<open>slice::join\<close>.\<close>

fun join :: "'a list \<Rightarrow> 'a list list \<Rightarrow> 'a list" where
  "join sep [] = []"
| "join sep [x] = x"
| "join sep (x # y # ys) = x @ sep @ join sep (y # ys)"

lemma join_split_on: "join [c] (split_on c s) = s"
proof (induction s)
  case (Cons x xs)
  then show ?case by (cases "split_on c xs"; cases "tl (split_on c xs)") auto
qed simp

text \<open>Decimal numbers, as \<open>Display\<close> writes an unsigned integer.\<close>

definition digit :: "nat \<Rightarrow> char" where
  "digit n = char_of (48 + n mod 10)"

fun decimal :: "nat \<Rightarrow> string" where
  "decimal n = (if n < 10 then [digit n] else decimal (n div 10) @ [digit n])"

declare decimal.simps [simp del]

definition digit_value :: "char \<Rightarrow> nat" where
  "digit_value c = of_char c - 48"

definition decimal_value :: "string \<Rightarrow> nat" where
  "decimal_value s = foldl (\<lambda>n c. 10 * n + digit_value c) 0 s"

lemma digit_value_digit [simp]: "digit_value (digit n) = n mod 10"
  by (simp add: digit_value_def digit_def)

lemma decimal_value_decimal [simp]: "decimal_value (decimal n) = n"
proof (induction n rule: decimal.induct)
  case (1 n)
  then show ?case
    by (subst decimal.simps) (auto simp: decimal_value_def)
qed

lemma decimal_inj: "decimal m = decimal n \<longleftrightarrow> m = n"
  by (metis decimal_value_decimal)

section \<open>Lists\<close>

text \<open>\<open>slice::chunks(n)\<close> for a positive \<open>n\<close>; the fuel is the length, which is enough.\<close>

function chunks :: "nat \<Rightarrow> 'a list \<Rightarrow> 'a list list" where
  "chunks n xs = (if n = 0 \<or> xs = [] then [] else take n xs # chunks n (drop n xs))"
  by pat_completeness auto
termination
  by (relation "measure (\<lambda>(n, xs). length xs)") auto

declare chunks.simps [simp del]

lemma chunks_Nil [simp]: "chunks n [] = []"
  by (simp add: chunks.simps)

lemma chunks_Cons: "0 < n \<Longrightarrow> xs \<noteq> [] \<Longrightarrow> chunks n xs = take n xs # chunks n (drop n xs)"
  by (subst chunks.simps) simp

lemma concat_chunks: "0 < n \<Longrightarrow> concat (chunks n xs) = xs"
proof (induction n xs rule: chunks.induct)
  case (1 n xs)
  then show ?case by (cases "xs = []") (simp_all add: chunks_Cons)
qed

lemma chunks_bound: "c \<in> set (chunks n xs) \<Longrightarrow> length c \<le> n \<and> c \<noteq> [] \<and> set c \<subseteq> set xs"
proof (induction n xs rule: chunks.induct)
  case (1 n xs)
  show ?case
  proof (cases "n = 0 \<or> xs = []")
    case True
    then show ?thesis using 1 by (simp add: chunks.simps)
  next
    case False
    then have "chunks n xs = take n xs # chunks n (drop n xs)" by (simp add: chunks_Cons)
    then show ?thesis using 1 False by (auto dest: in_set_takeD in_set_dropD)
  qed
qed

text \<open>Collecting pairs into a \<open>HashMap\<close> or \<open>BTreeMap\<close>: the last entry of a key wins.\<close>

definition collect_map :: "('k \<times> 'v) list \<Rightarrow> ('k \<times> 'v) list" where
  "collect_map ps = foldl (\<lambda>m (k, v). AList.update k v m) [] ps"

lemma map_of_foldl_update:
  "map_of (foldl (\<lambda>m (k, v). AList.update k v m) m ps) = map_of m ++ map_of (rev ps)"
  by (induction ps arbitrary: m) (auto simp: update_conv' fun_eq_iff map_add_def split: option.splits)

lemma map_of_collect_map: "map_of (collect_map ps) = map_of (rev ps)"
  by (simp add: collect_map_def map_of_foldl_update)

lemma distinct_foldl_update:
  "distinct (map fst m) \<Longrightarrow> distinct (map fst (foldl (\<lambda>m (k, v). AList.update k v m) m ps))"
  by (induction ps arbitrary: m) (auto simp: distinct_update)

lemma distinct_collect_map [simp]: "distinct (map fst (collect_map ps))"
  by (simp add: collect_map_def distinct_foldl_update)

lemma map_of_collect_map_distinct: "distinct (map fst ps) \<Longrightarrow> map_of (collect_map ps) = map_of ps"
  by (simp add: map_of_collect_map fun_eq_iff)
     (metis (no_types, lifting) distinct_rev map_of_eq_Some_iff not_Some_eq rev_map set_rev)

text \<open>
  A map in the order of its keys, as \<open>BTreeMap\<close> keeps it: an update in place, an insertion before the
  first larger key.
\<close>

fun ordered_update :: "('k::linorder) \<Rightarrow> ('v option \<Rightarrow> 'v) \<Rightarrow> ('k \<times> 'v) list \<Rightarrow> ('k \<times> 'v) list" where
  "ordered_update k f [] = [(k, f None)]"
| "ordered_update k f ((j, v) # m) =
     (if k < j then (k, f None) # (j, v) # m
      else if k = j then (j, f (Some v)) # m
      else (j, v) # ordered_update k f m)"

lemma ordered_update_keys: "set (map fst (ordered_update k f m)) = insert k (set (map fst m))"
  by (induction k f m rule: ordered_update.induct) auto

lemma ordered_update_sorted:
  "sorted_wrt (<) (map fst m) \<Longrightarrow> sorted_wrt (<) (map fst (ordered_update k f m))"
proof (induction k f m rule: ordered_update.induct)
  case (2 k f j v m)
  then show ?case using ordered_update_keys [of k f m] by (auto simp: not_less order.order_iff_strict)
qed simp

lemma ordered_update_lookup:
  "sorted_wrt (<) (map fst m) \<Longrightarrow>
    map_of (ordered_update k f m) j = (if j = k then Some (f (map_of m k)) else map_of m j)"
proof (induction k f m rule: ordered_update.induct)
  case (2 k f i v m)
  have "map_of m k = None" if "k < i"
  proof -
    have "k \<notin> set (map fst m)" using 2 that by fastforce
    then show ?thesis by (simp add: map_of_eq_None_iff)
  qed
  then show ?case using 2 by auto
qed simp

text \<open>Sums of a list of actions' results and other list facts.\<close>

lemma find_Some_mem: "find P xs = Some x \<Longrightarrow> x \<in> set xs \<and> P x"
  by (induction xs) (auto split: if_splits)

lemma find_None_iff': "find P xs = None \<longleftrightarrow> (\<forall>x \<in> set xs. \<not> P x)"
  by (induction xs) auto

lemma distinct_map_unique: "distinct (map f xs) \<Longrightarrow> x \<in> set xs \<Longrightarrow> y \<in> set xs \<Longrightarrow> f x = f y \<Longrightarrow> x = y"
  by (meson distinct_map inj_onD)

lemma distinct_map_filter': "distinct (map f xs) \<Longrightarrow> distinct (map f (filter P xs))"
  by (simp add: distinct_map_filter)

end
