(* ===== verification/Domain.thy ===== *)
theory Domain
  imports Prelude
begin

text \<open>
  The definitions every layer shares, crate \<open>mailbag-domain\<close> (\<open>lib.rs\<close>, \<open>panic.rs\<close>): the account,
  its folders, the message as it is kept and shown, a cycle's batch and a folder's state, and a
  failure in the application's terms.
\<close>

section \<open>Accounts and folders\<close>

datatype account_id = AccountId (as_str: string)

datatype empty_account_id = EmptyAccountId

definition account_id_try_from :: "string \<Rightarrow> empty_account_id + account_id" where
  "account_id_try_from text = (if text = [] then Inl EmptyAccountId else Inr (AccountId text))"

instantiation account_id :: linorder
begin
definition less_eq_account_id :: "account_id \<Rightarrow> account_id \<Rightarrow> bool" where
  "less_eq_account_id a b \<longleftrightarrow> as_str a \<le> as_str b"
definition less_account_id :: "account_id \<Rightarrow> account_id \<Rightarrow> bool" where
  "less_account_id a b \<longleftrightarrow> as_str a < as_str b"
instance
  by standard (auto simp: less_eq_account_id_def less_account_id_def account_id.expand)
end

datatype folder_role = Inbox | Starred | Important | Junk | Trash | Archive | Drafts | Sent | AllMail

definition role_order :: "folder_role list" where
  "role_order = [Inbox, Starred, Important, Junk, Trash, Archive, Drafts, Sent, AllMail]"

definition is_view :: "folder_role \<Rightarrow> bool" where
  "is_view r = (case r of Starred \<Rightarrow> True | Important \<Rightarrow> True | AllMail \<Rightarrow> True | _ \<Rightarrow> False)"

record folder =
  folder_identity :: string
  folder_name :: string
  folder_parent :: "string option"
  folder_role :: "folder_role option"
  folder_selectable :: bool

record folder_ref =
  ref_account :: account_id
  ref_identity :: string

section \<open>Messages\<close>

record display_fields =
  fields_subject :: "string option"
  fields_from :: "string option"
  fields_to :: "string option"

datatype content_explanation =
    NoPlainText (has_html: bool)
  | Encrypted
  | SecuredWithSMime
  | UnknownCharset string
  | UnknownEncoding string
  | Undecodable

definition is_by_design :: "content_explanation \<Rightarrow> bool" where
  "is_by_design e = (case e of NoPlainText _ \<Rightarrow> True | Encrypted \<Rightarrow> True | SecuredWithSMime \<Rightarrow> True | _ \<Rightarrow> False)"

datatype received_content =
    Text string
  | Explained content_explanation
  | StructureUnreadable
  | TextNotReturned
  | NotDownloaded

record message =
  msg_identity :: string
  msg_fields :: display_fields
  msg_received :: "int option"
  msg_seen :: bool
  msg_flagged :: bool
  msg_content :: received_content
  msg_preview :: string

record message_list_row =
  row_identity :: string
  row_fields :: display_fields
  row_received :: "int option"
  row_seen :: bool
  row_flagged :: bool
  row_preview :: string

datatype message_flag = Seen | Flagged

lemma all_flags: "(\<forall>flag. P flag) \<longleftrightarrow> P Seen \<and> P Flagged"
  by (metis message_flag.exhaust)

lemma not_Seen_iff: "x \<noteq> Seen \<longleftrightarrow> x = Flagged"
  by (cases x) simp_all

text \<open>The derived \<open>Ord\<close>: the variants in their order.\<close>

instantiation message_flag :: linorder
begin
definition less_eq_message_flag :: "message_flag \<Rightarrow> message_flag \<Rightarrow> bool" where
  "less_eq_message_flag a b \<longleftrightarrow> a = Seen \<or> b = Flagged"
definition less_message_flag :: "message_flag \<Rightarrow> message_flag \<Rightarrow> bool" where
  "less_message_flag a b \<longleftrightarrow> a = Seen \<and> b = Flagged"
instance
proof
  fix x y z :: message_flag
  show "x \<le> y \<or> y \<le> x" by (cases x; cases y) (simp_all add: less_eq_message_flag_def)
  show "x \<le> y \<Longrightarrow> y \<le> x \<Longrightarrow> x = y" by (cases x; cases y) (simp_all add: less_eq_message_flag_def)
qed (auto simp: less_eq_message_flag_def less_message_flag_def not_Seen_iff dest: not_Seen_iff [THEN iffD1])
end

record message_flags =
  flags_seen :: bool
  flags_flagged :: bool

record pending_change =
  change_identity :: string
  change_flag :: message_flag
  change_wanted :: bool

section \<open>Cycles\<close>

record folder_numbers =
  num_uid_validity :: "32 word option"
  num_message_count :: "32 word"
  num_uid_next :: "32 word option"
  num_highest_modseq :: "64 word option"

record folder_state =
  state_server_position :: "string option"
  state_fill_place :: "string option"
  state_synchronized :: bool
  state_numbers :: "folder_numbers option"

definition default_state :: folder_state where
  "default_state = \<lparr>state_server_position = None, state_fill_place = None, state_synchronized = False, state_numbers = None\<rparr>"

record folder_batch =
  batch_removed :: "string list"
  batch_flag_states :: "(string \<times> message_flags) list"
  batch_known_arrived :: "(string \<times> message_flags) list"
  batch_arrived :: "message list"
  batch_state :: "folder_state option"

definition empty_batch :: folder_batch where
  "empty_batch = \<lparr>batch_removed = [], batch_flag_states = [], batch_known_arrived = [], batch_arrived = [], batch_state = None\<rparr>"

section \<open>Failures\<close>

datatype server_step =
    Connect | SecureConnection | SignIn | ListFolders | OpenMailbox | FetchMessages | FetchText | ChangeFlags

datatype failure_kind =
    AccountSettingsUnavailable | EncryptionNotConfigured | PasswordUnavailable | AuthorizationUnavailable
  | OnlineAccountsNotResponding | AccountRequestStopped | ServerUnavailable server_step
  | ServerRejectedSignIn | ServerStepFailed server_step | ServerNotResponding server_step
  | NoSignInMethod | MailboxChanged | ServiceUnreachable | ServiceNotResponding
  | ServiceRejectedSignIn | RequestRefused | UnexpectedAnswer | Stopped | StorageFull
  | MailNotSaved | StoredMailUnreadable

datatype remote_source = ServerAlert | ServerReply | ServiceMessage | System

record remote_text =
  remote_source :: remote_source
  remote_words :: string

record failure =
  failure_kind :: failure_kind
  failure_texts :: "remote_text list"
  failure_details :: string

datatype incomplete_list = ServerRefused (refused_reply: string) (refused_code: "string option")

definition technical_details :: "incomplete_list \<Rightarrow> string" where
  "technical_details l = (case l of
     ServerRefused _ (Some code) \<Rightarrow> ''Server code: '' @ code
   | ServerRefused _ None \<Rightarrow> [])"

text \<open>\<open>{kind:?}\<close>, the derived \<open>Debug\<close> of the two enumerations.\<close>

definition debug_step :: "server_step \<Rightarrow> string" where
  "debug_step s = (case s of
     Connect \<Rightarrow> ''Connect'' | SecureConnection \<Rightarrow> ''SecureConnection'' | SignIn \<Rightarrow> ''SignIn''
   | ListFolders \<Rightarrow> ''ListFolders'' | OpenMailbox \<Rightarrow> ''OpenMailbox'' | FetchMessages \<Rightarrow> ''FetchMessages''
   | FetchText \<Rightarrow> ''FetchText'' | ChangeFlags \<Rightarrow> ''ChangeFlags'')"

definition debug_kind :: "failure_kind \<Rightarrow> string" where
  "debug_kind k = (case k of
     AccountSettingsUnavailable \<Rightarrow> ''AccountSettingsUnavailable''
   | EncryptionNotConfigured \<Rightarrow> ''EncryptionNotConfigured''
   | PasswordUnavailable \<Rightarrow> ''PasswordUnavailable''
   | AuthorizationUnavailable \<Rightarrow> ''AuthorizationUnavailable''
   | OnlineAccountsNotResponding \<Rightarrow> ''OnlineAccountsNotResponding''
   | AccountRequestStopped \<Rightarrow> ''AccountRequestStopped''
   | ServerUnavailable s \<Rightarrow> ''ServerUnavailable('' @ debug_step s @ '')''
   | ServerRejectedSignIn \<Rightarrow> ''ServerRejectedSignIn''
   | ServerStepFailed s \<Rightarrow> ''ServerStepFailed('' @ debug_step s @ '')''
   | ServerNotResponding s \<Rightarrow> ''ServerNotResponding('' @ debug_step s @ '')''
   | NoSignInMethod \<Rightarrow> ''NoSignInMethod''
   | MailboxChanged \<Rightarrow> ''MailboxChanged''
   | ServiceUnreachable \<Rightarrow> ''ServiceUnreachable''
   | ServiceNotResponding \<Rightarrow> ''ServiceNotResponding''
   | ServiceRejectedSignIn \<Rightarrow> ''ServiceRejectedSignIn''
   | RequestRefused \<Rightarrow> ''RequestRefused''
   | UnexpectedAnswer \<Rightarrow> ''UnexpectedAnswer''
   | Stopped \<Rightarrow> ''Stopped''
   | StorageFull \<Rightarrow> ''StorageFull''
   | MailNotSaved \<Rightarrow> ''MailNotSaved''
   | StoredMailUnreadable \<Rightarrow> ''StoredMailUnreadable'')"

text \<open>\<open>Failure::from_panic\<close>.\<close>

definition from_panic :: "failure_kind \<Rightarrow> string option \<Rightarrow> failure" where
  "from_panic kind panic = \<lparr>failure_kind = kind, failure_texts = [],
     failure_details = ''Failure: '' @ debug_kind kind
       @ (case panic of Some p \<Rightarrow> [newline] @ ''Panic: '' @ p | None \<Rightarrow> [])\<rparr>"

lemma role_order_complete [simp]: "r \<in> set role_order"
  by (cases r) (simp_all add: role_order_def)

lemma role_order_distinct [simp]: "distinct role_order"
  by (simp add: role_order_def)

end
