(* ===== verification/Panics.thy ===== *)
theory Panics
  imports Domain
begin

text \<open>
  The message of a panic, kept on its thread until the work it stopped takes it (crate \<open>mailbag-domain\<close>,
  \<open>panic.rs\<close>). The hook of the process is installed before any work runs, so it writes every panic; what the
  previous hook prints is not modelled.
\<close>

text \<open>A panic: its message when that is a text, and the file and line it happened at.\<close>

type_synonym panic = "string option \<times> (string \<times> nat) option"

text \<open>\<open>LAST_PANIC\<close> of a thread.\<close>

type_synonym last_panic = "string option"

definition panic_hook :: "panic \<Rightarrow> last_panic \<Rightarrow> last_panic" where
  "panic_hook info kept =
     (let message = (case fst info of Some m \<Rightarrow> m | None \<Rightarrow> ''panic'')
      in Some (case snd info of
           Some (file, line) \<Rightarrow> message @ '' at '' @ file @ '':'' @ decimal line
         | None \<Rightarrow> message))"

definition take_panic :: "last_panic \<Rightarrow> string option \<times> last_panic" where
  "take_panic kept = (kept, None)"

text \<open>The work, as it was or stopped by a panic, on a thread with what it kept before.\<close>

definition catch_panic :: "panic + 'a \<Rightarrow> last_panic \<Rightarrow> (string + 'a) \<times> last_panic" where
  "catch_panic work kept = (case work of
     Inr result \<Rightarrow> (Inr result, kept)
   | Inl info \<Rightarrow>
       (case take_panic (panic_hook info kept) of
         (Some message, kept') \<Rightarrow> (Inl message, kept')
       | (None, kept') \<Rightarrow> (Inl ''panic'', kept')))"

text \<open>The pieces of work a thread runs one after the other.\<close>

fun catch_each :: "(panic + 'a) list \<Rightarrow> last_panic \<Rightarrow> (string + 'a) list \<times> last_panic" where
  "catch_each [] kept = ([], kept)"
| "catch_each (work # works) kept =
     (let (ended, kept1) = catch_panic work kept; (rest, kept2) = catch_each works kept1
      in (ended # rest, kept2))"

text \<open>
  Each piece of work that panics reports its own panic, whatever ran on the thread before it, and none is
  left for the next.
\<close>

lemma catch_each_own:
  "fst (catch_each works kept) = map (\<lambda>work. fst (catch_panic work None)) works \<and>
   (snd (catch_each works kept) \<noteq> None \<longrightarrow> snd (catch_each works kept) = kept)"
proof (induction works arbitrary: kept)
  case (Cons work works)
  have "fst (catch_panic work kept) = fst (catch_panic work None)"
    by (simp add: catch_panic_def take_panic_def panic_hook_def Let_def split: sum.split option.split)
  moreover have "snd (catch_panic work kept) = None \<or> snd (catch_panic work kept) = kept"
    by (simp add: catch_panic_def take_panic_def panic_hook_def Let_def split: sum.split option.split)
  ultimately show ?case using Cons.IH [of "snd (catch_panic work kept)"]
    by (auto simp: case_prod_beta Let_def)
qed simp

end
