(* ===== verification/Store_Tables.thy ===== *)
theory Store_Tables
  imports Domain "HOL-Library.Option_ord" "HOL-Library.Product_Lexorder"
begin

text \<open>
  The store's tables and the SQL statements behind its operations, crate \<open>mailbag-store\<close>:
  \<open>schema.sql\<close>, \<open>content.rs\<close> and \<open>folders.rs\<close>. A table is the list of its rows in the order of
  their row ids; a statement without \<open>ORDER BY\<close> returns that order, and no lemma depends on it.
  What SQLite answers to a statement besides its result (a full disk, a broken file) is the list
  \<open>conn_faults\<close>, one entry per statement, so that every theorem holds for every pattern of faults.
\<close>

section \<open>SQLite and rusqlite\<close>

datatype error_code =
    DiskFull | DatabaseCorrupt | NotADatabase | ConstraintViolation | OtherCode string

datatype sqlite_error =
    SqliteFailure error_code string
  | QueryReturnedNoRows
  | IntegralValueOutOfRange nat int
  | FromSqlConversionFailure nat string

definition sqlite_error_code :: "sqlite_error \<Rightarrow> error_code option" where
  "sqlite_error_code e = (case e of SqliteFailure code _ \<Rightarrow> Some code | _ \<Rightarrow> None)"

section \<open>The schema\<close>

record folder_row =
  fr_id :: nat
  fr_account :: string
  fr_identity :: string
  fr_name :: string
  fr_parent :: "string option"
  fr_role :: "string option"
  fr_selectable :: bool
  fr_server_position :: "string option"
  fr_fill_place :: "string option"
  fr_synchronized :: bool
  fr_uid_validity :: "int option"
  fr_message_count :: "int option"
  fr_uid_next :: "int option"
  fr_highest_modseq :: "int option"

record message_row =
  mr_id :: nat
  mr_account :: string
  mr_identity :: string
  mr_subject :: "string option"
  mr_sender :: "string option"
  mr_recipients :: "string option"
  mr_received :: "int option"
  mr_seen :: bool
  mr_flagged :: bool
  mr_seen_pending :: "bool option"
  mr_flagged_pending :: "bool option"
  mr_content_kind :: string
  mr_content_detail :: "string option"
  mr_preview :: string

record db =
  db_folders :: "folder_row list"
  db_messages :: "message_row list"
  db_memberships :: "(nat \<times> nat) list"

definition empty_db :: db where
  "empty_db = \<lparr>db_folders = [], db_messages = [], db_memberships = []\<rparr>"

text \<open>The two \<open>CHECK\<close> lists of \<open>schema.sql\<close>.\<close>

definition schema_role_codes :: "string list" where
  "schema_role_codes = [''inbox'', ''starred'', ''important'', ''junk'', ''trash'', ''archive'', ''drafts'', ''sent'', ''all_mail'']"

definition schema_content_codes :: "string list" where
  "schema_content_codes = [''text'', ''plain_text_missing'', ''html_only'', ''encrypted'', ''smime'', ''unknown_charset'',
     ''unknown_encoding'', ''undecodable'', ''structure_unreadable'', ''text_not_returned'', ''not_downloaded'']"

definition check_role :: "string option \<Rightarrow> bool" where
  "check_role r = (case r of None \<Rightarrow> True | Some code \<Rightarrow> code \<in> set schema_role_codes)"

text \<open>The row id SQLite gives a new row of an \<open>INTEGER PRIMARY KEY\<close> table: one above the largest.\<close>

definition fresh_id :: "nat list \<Rightarrow> nat" where
  "fresh_id ids = Suc (foldr max ids 0)"

section \<open>Statements\<close>

record connection =
  conn_db :: db
  conn_faults :: "(error_code \<times> string) option list"

type_synonym 'a sql = "(connection, sqlite_error, 'a) action"

text \<open>A statement that fails changes nothing.\<close>

definition statement :: "(db \<Rightarrow> sqlite_error + 'a \<times> db) \<Rightarrow> 'a sql" where
  "statement f = (\<lambda>c. let rest = c\<lparr>conn_faults := tl (conn_faults c)\<rparr> in
     (case conn_faults c of
        Some (code, words) # _ \<Rightarrow> (Inl (SqliteFailure code words), rest)
      | _ \<Rightarrow> (case f (conn_db c) of
                Inl e \<Rightarrow> (Inl e, rest)
              | Inr (x, d) \<Rightarrow> (Inr x, rest\<lparr>conn_db := d\<rparr>))))"

definition prepare :: "unit sql" where
  "prepare = statement (\<lambda>d. Inr ((), d))"

definition query :: "(db \<Rightarrow> 'a) \<Rightarrow> 'a sql" where
  "query f = statement (\<lambda>d. Inr (f d, d))"

definition execute :: "(db \<Rightarrow> db) \<Rightarrow> unit sql" where
  "execute f = statement (\<lambda>d. Inr ((), f d))"

fun all_rows :: "('e + 'a) list \<Rightarrow> 'e + 'a list" where
  "all_rows [] = Inr []"
| "all_rows (Inl e # rs) = Inl e"
| "all_rows (Inr x # rs) = (case all_rows rs of Inl e \<Rightarrow> Inl e | Inr xs \<Rightarrow> Inr (x # xs))"

text \<open>\<open>query_map(..).collect()\<close> and \<open>query_row\<close>, with the conversion of a row.\<close>

definition query_map :: "(db \<Rightarrow> 'r list) \<Rightarrow> ('r \<Rightarrow> sqlite_error + 'a) \<Rightarrow> 'a list sql" where
  "query_map rows convert = statement (\<lambda>d. map_sum id (\<lambda>xs. (xs, d)) (all_rows (map convert (rows d))))"

definition query_row :: "(db \<Rightarrow> 'r list) \<Rightarrow> ('r \<Rightarrow> sqlite_error + 'a) \<Rightarrow> 'a sql" where
  "query_row rows convert = statement (\<lambda>d. case rows d of
     [] \<Rightarrow> Inl QueryReturnedNoRows
   | r # _ \<Rightarrow> map_sum id (\<lambda>x. (x, d)) (convert r))"

text \<open>\<open>OptionalExtension::optional\<close>.\<close>

definition optional :: "'a sql \<Rightarrow> 'a option sql" where
  "optional m = on_result m (\<lambda>e. case e of QueryReturnedNoRows \<Rightarrow> ret None | _ \<Rightarrow> throw e) (\<lambda>x. ret (Some x))"

text \<open>A transaction that is not committed is rolled back when it is dropped.\<close>

definition transaction :: "'a sql \<Rightarrow> 'a sql" where
  "transaction body = (\<lambda>c. case and_then prepare (\<lambda>_. and_then body (\<lambda>x. and_then prepare (\<lambda>_. ret x))) c of
     (Inl e, c') \<Rightarrow> (Inl e, c'\<lparr>conn_db := conn_db c\<rparr>)
   | (Inr x, c') \<Rightarrow> (Inr x, c'))"

section \<open>Roles and contents as codes\<close>

definition role_code :: "folder_role \<Rightarrow> string" where
  "role_code r = (case r of
     Inbox \<Rightarrow> ''inbox'' | Starred \<Rightarrow> ''starred'' | Important \<Rightarrow> ''important'' | Junk \<Rightarrow> ''junk''
   | Trash \<Rightarrow> ''trash'' | Archive \<Rightarrow> ''archive'' | Drafts \<Rightarrow> ''drafts'' | Sent \<Rightarrow> ''sent'' | AllMail \<Rightarrow> ''all_mail'')"

definition role_from_code :: "string \<Rightarrow> folder_role option" where
  "role_from_code code = find (\<lambda>r. role_code r = code) role_order"

definition content_columns :: "received_content \<Rightarrow> string \<times> string option" where
  "content_columns content = (case content of
     Text text \<Rightarrow> (''text'', Some text)
   | Explained explanation \<Rightarrow> (case explanation of
        NoPlainText html \<Rightarrow> (if html then (''html_only'', None) else (''plain_text_missing'', None))
      | Encrypted \<Rightarrow> (''encrypted'', None)
      | SecuredWithSMime \<Rightarrow> (''smime'', None)
      | UnknownCharset name \<Rightarrow> (''unknown_charset'', Some name)
      | UnknownEncoding name \<Rightarrow> (''unknown_encoding'', Some name)
      | Undecodable \<Rightarrow> (''undecodable'', None))
   | StructureUnreadable \<Rightarrow> (''structure_unreadable'', None)
   | TextNotReturned \<Rightarrow> (''text_not_returned'', None)
   | NotDownloaded \<Rightarrow> (''not_downloaded'', None))"

definition content_from_columns :: "string \<Rightarrow> string option \<Rightarrow> received_content option" where
  "content_from_columns code detail =
    (if code = ''text'' \<and> detail \<noteq> None then Some (Text (the detail))
     else if code = ''plain_text_missing'' then Some (Explained (NoPlainText False))
     else if code = ''html_only'' then Some (Explained (NoPlainText True))
     else if code = ''encrypted'' then Some (Explained Encrypted)
     else if code = ''smime'' then Some (Explained SecuredWithSMime)
     else if code = ''unknown_charset'' \<and> detail \<noteq> None then Some (Explained (UnknownCharset (the detail)))
     else if code = ''unknown_encoding'' \<and> detail \<noteq> None then Some (Explained (UnknownEncoding (the detail)))
     else if code = ''undecodable'' then Some (Explained Undecodable)
     else if code = ''structure_unreadable'' then Some StructureUnreadable
     else if code = ''text_not_returned'' then Some TextNotReturned
     else if code = ''not_downloaded'' then Some NotDownloaded
     else None)"

definition damaged_row :: "nat \<Rightarrow> string \<Rightarrow> sqlite_error" where
  "damaged_row column reason = FromSqlConversionFailure column reason"

text \<open>A kind of value kept as a code: each value has a code the schema allows and is read back from it.\<close>

locale codec =
  fixes encode :: "'a \<Rightarrow> 'c"
    and decode :: "'c \<Rightarrow> 'a option"
    and allowed :: "'c \<Rightarrow> bool"
  assumes decode_encode: "decode (encode x) = Some x"
    and encode_allowed: "allowed (encode x)"
begin

lemma encode_inj: "encode x = encode y \<longleftrightarrow> x = y"
  by (metis decode_encode option.inject)

lemma decode_map: "map decode (map encode xs) = map Some xs"
  by (simp add: decode_encode)

end

interpretation role_codec: codec role_code role_from_code "\<lambda>code. check_role (Some code)"
proof
  fix r
  show "role_from_code (role_code r) = Some r"
    by (cases r) (simp_all add: role_from_code_def role_code_def role_order_def)
  show "check_role (Some (role_code r))"
    by (cases r) (simp_all add: check_role_def schema_role_codes_def role_code_def)
qed

interpretation content_codec: codec content_columns "\<lambda>(code, detail). content_from_columns code detail"
  "\<lambda>(code, _). code \<in> set schema_content_codes"
proof
  fix c
  show "(case content_columns c of (code, detail) \<Rightarrow> content_from_columns code detail) = Some c"
    by (cases c) (auto simp: content_columns_def content_from_columns_def split: content_explanation.split)
  show "case content_columns c of (code, uu) \<Rightarrow> code \<in> set schema_content_codes"
    by (cases c) (auto simp: content_columns_def schema_content_codes_def split: content_explanation.split)
qed

section \<open>Folders\<close>

definition sql_delete_folders :: "(folder_row \<Rightarrow> bool) \<Rightarrow> db \<Rightarrow> db" where
  "sql_delete_folders P d = d\<lparr>
     db_folders := filter (\<lambda>r. \<not> P r) (db_folders d),
     db_memberships := filter (\<lambda>(f, m). \<forall>r \<in> set (db_folders d). P r \<longrightarrow> fr_id r \<noteq> f) (db_memberships d)\<rparr>"

definition sql_delete_messages :: "(message_row \<Rightarrow> bool) \<Rightarrow> db \<Rightarrow> db" where
  "sql_delete_messages P d = d\<lparr>
     db_messages := filter (\<lambda>r. \<not> P r) (db_messages d),
     db_memberships := filter (\<lambda>(f, m). \<forall>r \<in> set (db_messages d). P r \<longrightarrow> mr_id r \<noteq> m) (db_memberships d)\<rparr>"

definition folder_at :: "string \<Rightarrow> string \<Rightarrow> folder_row \<Rightarrow> bool" where
  "folder_at account identity r \<longleftrightarrow> fr_account r = account \<and> fr_identity r = identity"

definition message_at :: "string \<Rightarrow> string \<Rightarrow> message_row \<Rightarrow> bool" where
  "message_at account identity r \<longleftrightarrow> mr_account r = account \<and> mr_identity r = identity"

definition delete_unlisted_folders :: "account_id \<Rightarrow> folder list \<Rightarrow> unit sql" where
  "delete_unlisted_folders account listed =
     and_then prepare (\<lambda>_.
     and_then (query (\<lambda>d. map (\<lambda>r. (fr_id r, fr_identity r)) (filter (\<lambda>r. fr_account r = as_str account) (db_folders d)))) (\<lambda>stored.
     for_each (\<lambda>(folder_id, identity).
       only_if (identity \<notin> folder_identity ` set listed)
         (execute (sql_delete_folders (\<lambda>r. fr_id r = folder_id)))) stored))"

definition sql_upsert_folder :: "string \<Rightarrow> folder \<Rightarrow> db \<Rightarrow> db" where
  "sql_upsert_folder account folder d =
     (if \<exists>r \<in> set (db_folders d). folder_at account (folder_identity folder) r
      then d\<lparr>db_folders := map (\<lambda>r. if folder_at account (folder_identity folder) r
               then r\<lparr>fr_name := folder_name folder, fr_parent := folder_parent folder,
                      fr_role := map_option role_code (folder_role folder), fr_selectable := folder_selectable folder\<rparr>
               else r) (db_folders d)\<rparr>
      else d\<lparr>db_folders := db_folders d @
        [\<lparr>fr_id = fresh_id (map fr_id (db_folders d)), fr_account = account, fr_identity = folder_identity folder,
          fr_name = folder_name folder, fr_parent = folder_parent folder,
          fr_role = map_option role_code (folder_role folder), fr_selectable = folder_selectable folder,
          fr_server_position = None, fr_fill_place = None, fr_synchronized = False,
          fr_uid_validity = None, fr_message_count = None, fr_uid_next = None, fr_highest_modseq = None\<rparr>]\<rparr>)"

text \<open>The \<open>CHECK\<close> on the role runs before the row is written.\<close>

definition constraint_failed :: sqlite_error where
  "constraint_failed = SqliteFailure ConstraintViolation ''constraint failed''"

definition upsert_folders :: "account_id \<Rightarrow> folder list \<Rightarrow> unit sql" where
  "upsert_folders account folders =
     and_then prepare (\<lambda>_.
     for_each (\<lambda>folder. statement (\<lambda>d.
       if check_role (map_option role_code (folder_role folder)) then Inr ((), sql_upsert_folder (as_str account) folder d)
       else Inl constraint_failed)) folders)"

definition stored_folder_id :: "folder_ref \<Rightarrow> nat sql" where
  "stored_folder_id folder =
     query_row (\<lambda>d. filter (folder_at (as_str (ref_account folder)) (ref_identity folder)) (db_folders d)) (\<lambda>r. Inr (fr_id r))"

text \<open>\<open>row.get::<_, Option<u32>>(column)\<close>: rusqlite checks the range.\<close>

definition get_u32 :: "nat \<Rightarrow> int option \<Rightarrow> sqlite_error + 32 word option" where
  "get_u32 column v = (case v of None \<Rightarrow> Inr None
     | Some i \<Rightarrow> if 0 \<le> i \<and> i < 2 ^ 32 then Inr (Some (word_of_int i)) else Inl (IntegralValueOutOfRange column i))"

definition bind_result :: "'e + 'a \<Rightarrow> ('a \<Rightarrow> 'e + 'b) \<Rightarrow> 'e + 'b" where
  "bind_result r k = (case r of Inl e \<Rightarrow> Inl e | Inr x \<Rightarrow> k x)"

definition state_from_row :: "folder_row \<Rightarrow> sqlite_error + folder_state" where
  "state_from_row r =
     bind_result (get_u32 4 (fr_message_count r)) (\<lambda>count.
     bind_result (case count of
         Some message_count \<Rightarrow>
           bind_result (get_u32 3 (fr_uid_validity r)) (\<lambda>uid_validity.
           bind_result (get_u32 5 (fr_uid_next r)) (\<lambda>uid_next.
           Inr (Some \<lparr>num_uid_validity = uid_validity, num_message_count = message_count, num_uid_next = uid_next,
             num_highest_modseq = map_option word_of_int (fr_highest_modseq r)\<rparr>)))
       | None \<Rightarrow> Inr None) (\<lambda>numbers.
     Inr \<lparr>state_server_position = fr_server_position r, state_fill_place = fr_fill_place r,
       state_synchronized = fr_synchronized r, state_numbers = numbers\<rparr>))"

definition read_folder_state :: "nat \<Rightarrow> folder_state sql" where
  "read_folder_state folder_id = query_row (\<lambda>d. filter (\<lambda>r. fr_id r = folder_id) (db_folders d)) state_from_row"

text \<open>The columns \<open>write_folder_state\<close> sets.\<close>

definition row_with_state :: "folder_state \<Rightarrow> folder_row \<Rightarrow> folder_row" where
  "row_with_state state r = r\<lparr>
     fr_server_position := state_server_position state,
     fr_fill_place := state_fill_place state,
     fr_synchronized := state_synchronized state,
     fr_uid_validity := map_option uint (Option.bind (state_numbers state) num_uid_validity),
     fr_message_count := map_option (\<lambda>n. uint (num_message_count n)) (state_numbers state),
     fr_uid_next := map_option uint (Option.bind (state_numbers state) num_uid_next),
     fr_highest_modseq := map_option sint (Option.bind (state_numbers state) num_highest_modseq)\<rparr>"

definition sql_set_folder_state :: "nat \<Rightarrow> folder_state \<Rightarrow> db \<Rightarrow> db" where
  "sql_set_folder_state folder_id state d =
     d\<lparr>db_folders := map (\<lambda>r. if fr_id r = folder_id then row_with_state state r else r) (db_folders d)\<rparr>"

definition write_folder_state :: "nat \<Rightarrow> folder_state \<Rightarrow> unit sql" where
  "write_folder_state folder_id state = execute (sql_set_folder_state folder_id state)"

definition stored_folder :: "folder_row \<Rightarrow> sqlite_error + folder" where
  "stored_folder row =
     bind_result (case fr_role row of
         None \<Rightarrow> Inr None
       | Some code \<Rightarrow> (case role_from_code code of
             Some role \<Rightarrow> Inr (Some role)
           | None \<Rightarrow> Inl (damaged_row 3 (''unknown role code '' @ code)))) (\<lambda>role.
     Inr \<lparr>folder_identity = fr_identity row, folder_name = fr_name row, folder_parent = fr_parent row,
       folder_role = role, folder_selectable = fr_selectable row\<rparr>)"

section \<open>Messages\<close>

text \<open>\<open>membership JOIN message .. WHERE membership.folder = ?\<close>\<close>

definition folder_messages :: "db \<Rightarrow> nat \<Rightarrow> message_row list" where
  "folder_messages d folder_id = filter (\<lambda>m. (folder_id, mr_id m) \<in> set (db_memberships d)) (db_messages d)"

definition read_folder_identities :: "nat \<Rightarrow> (string \<times> message_flags) list sql" where
  "read_folder_identities folder_id =
     and_then prepare (\<lambda>_.
     and_then (query (\<lambda>d. map (\<lambda>m. (mr_identity m, \<lparr>flags_seen = mr_seen m, flags_flagged = mr_flagged m\<rparr>))
       (folder_messages d folder_id))) (\<lambda>entries. ret (collect_map entries)))"

definition sql_has_message :: "string \<Rightarrow> string \<Rightarrow> db \<Rightarrow> bool" where
  "sql_has_message account identity d = (\<exists>m \<in> set (db_messages d). message_at account identity m)"

definition read_stored_identities :: "account_id \<Rightarrow> string list \<Rightarrow> string list sql" where
  "read_stored_identities account identities =
     and_then prepare (\<lambda>_.
     and_then (map_each (\<lambda>identity. and_then (query (sql_has_message (as_str account) identity))
       (\<lambda>found. ret (if found then [identity] else []))) identities) (\<lambda>found. ret (concat found)))"

definition sql_in_other_folder :: "folder_ref \<Rightarrow> string \<Rightarrow> db \<Rightarrow> bool" where
  "sql_in_other_folder folder identity d =
     (\<exists>m \<in> set (db_messages d). message_at (as_str (ref_account folder)) identity m \<and>
        (\<exists>f \<in> set (db_folders d). (fr_id f, mr_id m) \<in> set (db_memberships d) \<and> fr_identity f \<noteq> ref_identity folder))"

definition read_identities_in_other_folders :: "folder_ref \<Rightarrow> string list \<Rightarrow> string list sql" where
  "read_identities_in_other_folders folder identities =
     and_then prepare (\<lambda>_.
     and_then (map_each (\<lambda>identity. and_then (query (sql_in_other_folder folder identity))
       (\<lambda>found. ret (if found then [identity] else []))) identities) (\<lambda>found. ret (concat found)))"

definition sql_delete_membership :: "nat \<Rightarrow> string \<Rightarrow> string \<Rightarrow> db \<Rightarrow> db" where
  "sql_delete_membership folder_id account identity d =
     d\<lparr>db_memberships := filter (\<lambda>(f, m). \<not> (f = folder_id \<and>
        (\<exists>r \<in> set (db_messages d). message_at account identity r \<and> mr_id r = m))) (db_memberships d)\<rparr>"

definition delete_memberships :: "nat \<Rightarrow> account_id \<Rightarrow> string list \<Rightarrow> unit sql" where
  "delete_memberships folder_id account removed =
     and_then prepare (\<lambda>_. for_each (\<lambda>identity. execute (sql_delete_membership folder_id (as_str account) identity)) removed)"

definition sql_update_message :: "string \<Rightarrow> string \<Rightarrow> (message_row \<Rightarrow> message_row) \<Rightarrow> db \<Rightarrow> db" where
  "sql_update_message account identity assign d =
     d\<lparr>db_messages := map (\<lambda>m. if message_at account identity m then assign m else m) (db_messages d)\<rparr>"

definition set_flags_of :: "message_flags \<Rightarrow> message_row \<Rightarrow> message_row" where
  "set_flags_of flags m = m\<lparr>mr_seen := flags_seen flags, mr_flagged := flags_flagged flags\<rparr>"

definition set_flag_states :: "account_id \<Rightarrow> (string \<times> message_flags) list \<Rightarrow> unit sql" where
  "set_flag_states account flag_states =
     and_then prepare (\<lambda>_. for_each (\<lambda>(identity, flags).
       execute (sql_update_message (as_str account) identity (set_flags_of flags))) flag_states)"

text \<open>The two \<open>iif\<close> of the upsert: when the stored content stays.\<close>

definition keeps_content :: "string \<Rightarrow> string \<Rightarrow> bool" where
  "keeps_content new_kind old_kind \<longleftrightarrow> new_kind = ''not_downloaded'' \<or> (new_kind = ''text_not_returned'' \<and> old_kind = ''text'')"

definition merge_message :: "message \<Rightarrow> message_row \<Rightarrow> message_row" where
  "merge_message message m = (let (kind, detail) = content_columns (msg_content message) in m\<lparr>
     mr_subject := fields_subject (msg_fields message),
     mr_sender := fields_from (msg_fields message),
     mr_recipients := fields_to (msg_fields message),
     mr_received := msg_received message,
     mr_seen := msg_seen message,
     mr_flagged := msg_flagged message,
     mr_preview := msg_preview message,
     mr_content_kind := (if keeps_content kind (mr_content_kind m) then mr_content_kind m else kind),
     mr_content_detail := (if keeps_content kind (mr_content_kind m) then mr_content_detail m else detail)\<rparr>)"

definition new_message_row :: "nat \<Rightarrow> string \<Rightarrow> message \<Rightarrow> message_row" where
  "new_message_row message_id account message =
     \<lparr>mr_id = message_id, mr_account = account, mr_identity = msg_identity message,
      mr_subject = fields_subject (msg_fields message), mr_sender = fields_from (msg_fields message),
      mr_recipients = fields_to (msg_fields message), mr_received = msg_received message,
      mr_seen = msg_seen message, mr_flagged = msg_flagged message,
      mr_seen_pending = None, mr_flagged_pending = None,
      mr_content_kind = fst (content_columns (msg_content message)),
      mr_content_detail = snd (content_columns (msg_content message)),
      mr_preview = msg_preview message\<rparr>"

text \<open>\<open>INSERT .. ON CONFLICT DO UPDATE .. RETURNING id\<close> with the \<open>CHECK\<close> on the content's code.\<close>

definition sql_upsert_message :: "string \<Rightarrow> message \<Rightarrow> db \<Rightarrow> sqlite_error + nat \<times> db" where
  "sql_upsert_message account message d =
     (if fst (content_columns (msg_content message)) \<notin> set schema_content_codes then Inl constraint_failed
      else case find (message_at account (msg_identity message)) (db_messages d) of
        Some m \<Rightarrow> Inr (mr_id m, sql_update_message account (msg_identity message) (merge_message message) d)
      | None \<Rightarrow> (let message_id = fresh_id (map mr_id (db_messages d)) in
          Inr (message_id, d\<lparr>db_messages := db_messages d @ [new_message_row message_id account message]\<rparr>)))"

text \<open>\<open>INSERT OR IGNORE INTO membership\<close>: the primary key is ignored, a foreign key is not.\<close>

definition sql_relate :: "nat \<Rightarrow> nat \<Rightarrow> db \<Rightarrow> sqlite_error + unit \<times> db" where
  "sql_relate folder_id message_id d =
     (if folder_id \<notin> fr_id ` set (db_folders d) \<or> message_id \<notin> mr_id ` set (db_messages d) then Inl constraint_failed
      else Inr ((), d\<lparr>db_memberships := List.insert (folder_id, message_id) (db_memberships d)\<rparr>))"

definition store_arrived :: "nat \<Rightarrow> account_id \<Rightarrow> message list \<Rightarrow> unit sql" where
  "store_arrived folder_id account arrived =
     and_then prepare (\<lambda>_. and_then prepare (\<lambda>_.
     for_each (\<lambda>message.
       and_then (statement (sql_upsert_message (as_str account) message)) (\<lambda>message_id.
       statement (sql_relate folder_id message_id))) arrived))"

text \<open>\<open>INSERT OR IGNORE INTO membership .. SELECT ?1, id FROM message WHERE ..\<close>\<close>

definition sql_relate_known :: "nat \<Rightarrow> string \<Rightarrow> string \<Rightarrow> db \<Rightarrow> sqlite_error + unit \<times> db" where
  "sql_relate_known folder_id account identity d =
     (case find (message_at account identity) (db_messages d) of
        None \<Rightarrow> Inr ((), d)
      | Some m \<Rightarrow> sql_relate folder_id (mr_id m) d)"

definition relate_known :: "nat \<Rightarrow> account_id \<Rightarrow> (string \<times> message_flags) list \<Rightarrow> unit sql" where
  "relate_known folder_id account known_arrived =
     and_then prepare (\<lambda>_.
     and_then (for_each (\<lambda>(identity, _). statement (sql_relate_known folder_id (as_str account) identity)) known_arrived) (\<lambda>_.
     set_flag_states account known_arrived))"

definition row_changes :: "message_row \<Rightarrow> pending_change list" where
  "row_changes m =
     concat (map (\<lambda>(flag, wanted). case wanted of
         Some w \<Rightarrow> [\<lparr>change_identity = mr_identity m, change_flag = flag, change_wanted = w\<rparr>]
       | None \<Rightarrow> []) [(Seen, mr_seen_pending m), (Flagged, mr_flagged_pending m)])"

definition read_pending_changes :: "nat \<Rightarrow> pending_change list sql" where
  "read_pending_changes folder_id =
     and_then prepare (\<lambda>_.
     and_then (query (\<lambda>d. filter (\<lambda>m. mr_seen_pending m \<noteq> None \<or> mr_flagged_pending m \<noteq> None) (folder_messages d folder_id))) (\<lambda>rows.
     ret (concat (map row_changes rows))))"

definition sql_delete_orphans :: "string \<Rightarrow> db \<Rightarrow> db" where
  "sql_delete_orphans account d =
     sql_delete_messages (\<lambda>m. mr_account m = account \<and> mr_id m \<notin> snd ` set (db_memberships d)) d"

definition delete_messages_without_folder :: "account_id \<Rightarrow> unit sql" where
  "delete_messages_without_folder account = execute (sql_delete_orphans (as_str account))"

text \<open>\<open>COALESCE\<close> and \<open>NULLIF\<close>.\<close>

definition coalesce :: "'a option \<Rightarrow> 'a \<Rightarrow> 'a" where
  "coalesce x y = (case x of Some v \<Rightarrow> v | None \<Rightarrow> y)"

definition nullif :: "'a option \<Rightarrow> 'a \<Rightarrow> 'a option" where
  "nullif x v = (if x = Some v then None else x)"

definition listed_row :: "message_row \<Rightarrow> message_list_row" where
  "listed_row m = \<lparr>row_identity = mr_identity m,
     row_fields = \<lparr>fields_subject = mr_subject m, fields_from = mr_sender m, fields_to = mr_recipients m\<rparr>,
     row_received = mr_received m,
     row_seen = coalesce (mr_seen_pending m) (mr_seen m),
     row_flagged = coalesce (mr_flagged_pending m) (mr_flagged m),
     row_preview = mr_preview m\<rparr>"

text \<open>\<open>ORDER BY message.received DESC, message.id DESC\<close>; SQLite takes \<open>NULL\<close> for the least value.\<close>

definition newest_first :: "message_row list \<Rightarrow> message_row list" where
  "newest_first rows = rev (sort_key (\<lambda>m. (mr_received m, mr_id m)) rows)"

definition read_listed_rows :: "nat \<Rightarrow> message_list_row list sql" where
  "read_listed_rows folder_id =
     and_then prepare (\<lambda>_. query (\<lambda>d. map listed_row (newest_first (folder_messages d folder_id))))"

definition stored_content :: "message_row \<Rightarrow> sqlite_error + received_content" where
  "stored_content row = (case content_from_columns (mr_content_kind row) (mr_content_detail row) of
     Some content \<Rightarrow> Inr content
   | None \<Rightarrow> Inl (damaged_row 0 (''unknown content code '' @ mr_content_kind row)))"

end
