(* ===== verification/Store_Open.thy ===== *)
theory Store_Open
  imports Store_Tables
begin

unbundle bit_operations_syntax

text \<open>
  Opening the store's file and failures in the domain's terms, crate \<open>mailbag-store\<close>: \<open>open.rs\<close>
  and \<open>failure.rs\<close>. The disk is what SQLite and the file system answer: the outcome of each call
  that can fail, and the file's contents as SQLite reads them.
\<close>

section \<open>Failures of the store\<close>

datatype io_kind = DiskStorageFull | NotFound | OtherIo string

record io_error =
  io_kind :: io_kind
  io_words :: string

datatype store_operation = Read | Write

datatype store_error = Sqlite sqlite_error | File io_error

text \<open>The \<open>Debug\<close> of \<open>ErrorCode\<close>, and the \<open>Display\<close> of a rusqlite error.\<close>

definition debug_code :: "error_code \<Rightarrow> string" where
  "debug_code c = (case c of DiskFull \<Rightarrow> ''DiskFull'' | DatabaseCorrupt \<Rightarrow> ''DatabaseCorrupt''
     | NotADatabase \<Rightarrow> ''NotADatabase'' | ConstraintViolation \<Rightarrow> ''ConstraintViolation'' | OtherCode name \<Rightarrow> name)"

definition display_int :: "int \<Rightarrow> string" where
  "display_int i = (if i < 0 then ''-'' @ decimal (nat (- i)) else decimal (nat i))"

definition display_sqlite :: "sqlite_error \<Rightarrow> string" where
  "display_sqlite e = (case e of
     SqliteFailure _ words \<Rightarrow> words
   | QueryReturnedNoRows \<Rightarrow> ''Query returned no rows''
   | IntegralValueOutOfRange col value \<Rightarrow>
       (''Integer '' @ display_int value @ '' out of range at index '' @ decimal col)
   | FromSqlConversionFailure col reason \<Rightarrow>
       (''Conversion error from type Text at index: '' @ decimal col @ '', '' @ reason))"

definition storage_failure :: "store_operation \<Rightarrow> store_error \<Rightarrow> failure" where
  "storage_failure operation error =
     (let (disk_full, reported) = (case error of
          Sqlite e \<Rightarrow> (case sqlite_error_code e of
              Some code \<Rightarrow> (code = DiskFull, ''SQLite: '' @ debug_code code @ '': '' @ display_sqlite e)
            | None \<Rightarrow> (False, ''SQLite: '' @ display_sqlite e))
        | File e \<Rightarrow> (io_kind e = DiskStorageFull, ''File: '' @ io_words e));
      kind = (if disk_full then StorageFull else (case operation of Write \<Rightarrow> MailNotSaved | Read \<Rightarrow> StoredMailUnreadable))
      in \<lparr>failure_kind = kind, failure_texts = [],
          failure_details = ''Failure: '' @ debug_kind kind @ [newline] @ reported\<rparr>)"

lemma storage_failure_kind:
  "failure_kind (storage_failure operation error) =
    (if (\<exists>e. error = Sqlite e \<and> sqlite_error_code e = Some DiskFull) \<or> (\<exists>e. error = File e \<and> io_kind e = DiskStorageFull)
     then StorageFull else (case operation of Write \<Rightarrow> MailNotSaved | Read \<Rightarrow> StoredMailUnreadable))"
  by (auto simp: storage_failure_def Let_def split: store_error.split option.split)

section \<open>The schema's version\<close>

definition fnv_step :: "32 word \<Rightarrow> char \<Rightarrow> 32 word" where
  "fnv_step hash byte = (hash XOR of_char byte) * 0x01000193"

definition schema_hash :: "string \<Rightarrow> 32 word" where
  "schema_hash schema = foldl fnv_step 0x811c9dc5 schema"

definition schema_version :: "string \<Rightarrow> int" where
  "schema_version schema = sint (schema_hash schema)"

section \<open>The file\<close>

text \<open>
  \<open>file_reads\<close> is what the examination's queries fail with, when SQLite cannot read the file.
\<close>

record store_file =
  file_version :: int
  file_tables :: nat
  file_check :: string
  file_reads :: "sqlite_error option"
  file_db :: db

definition empty_file :: store_file where
  "empty_file = \<lparr>file_version = 0, file_tables = 0, file_check = ''ok'', file_reads = None, file_db = empty_db\<rparr>"

record disk =
  disk_file :: store_file
  disk_directory :: "io_error option"
  disk_open :: "sqlite_error option list"
  disk_remove :: "string \<Rightarrow> io_error option"
  disk_schema :: "sqlite_error option"
  disk_configure :: "sqlite_error option"
  disk_faults :: "(error_code \<times> string) option list"

type_synonym 'a disk_action = "(disk, store_error, 'a) action"

datatype existing_store = Usable | Empty | Discard string

definition fails_with :: "('e \<Rightarrow> store_error) \<Rightarrow> 'e option \<Rightarrow> unit disk_action" where
  "fails_with inject outcome = (case outcome of Some e \<Rightarrow> throw (inject e) | None \<Rightarrow> ret ())"

definition create_private_directory :: "unit disk_action" where
  "create_private_directory = and_then (reads disk_directory) (fails_with File)"

definition open_connection :: "unit disk_action" where
  "open_connection = and_then (reads disk_open) (\<lambda>outcomes.
     and_then (changes (disk_open_update tl)) (\<lambda>_.
     (case outcomes of Some e # _ \<Rightarrow> throw (Sqlite e) | _ \<Rightarrow> ret ())))"

definition examine_existing :: "string \<Rightarrow> existing_store disk_action" where
  "examine_existing schema = and_then (reads disk_file) (\<lambda>file.
     (case file_reads file of
        None \<Rightarrow>
          (if file_version file = 0 \<and> file_tables file = 0 then ret Empty
           else if file_version file \<noteq> schema_version schema then ret (Discard ''structure changed'')
           else if file_check file = ''ok'' then ret Usable
           else ret (Discard ''damaged''))
      | Some error \<Rightarrow> (case sqlite_error_code error of
           Some NotADatabase \<Rightarrow> ret (Discard ''not a store'')
         | Some DatabaseCorrupt \<Rightarrow> ret (Discard ''damaged'')
         | _ \<Rightarrow> throw (Sqlite error))))"

text \<open>Each of the store's files is removed; one that is not there is no failure.\<close>

definition discard_store :: "unit disk_action" where
  "discard_store =
     and_then (for_each (\<lambda>suffix. and_then (reads disk_remove) (\<lambda>remove.
         if (case remove suffix of Some error \<Rightarrow> io_kind error \<noteq> NotFound | None \<Rightarrow> False)
         then throw (File (the (remove suffix)))
         else only_if (suffix = '''') (changes (disk_file_update (\<lambda>_. empty_file)))))
       ['''', ''-wal'', ''-shm'']) (\<lambda>_. ret ())"

definition create_schema :: "string \<Rightarrow> unit disk_action" where
  "create_schema schema = and_then (reads disk_schema) (\<lambda>outcome. case outcome of
     Some e \<Rightarrow> throw (Sqlite e)
   | None \<Rightarrow> changes (disk_file_update (\<lambda>file.
       file\<lparr>file_version := schema_version schema, file_tables := 3, file_db := empty_db\<rparr>)))"

definition configure_connection :: "unit disk_action" where
  "configure_connection = and_then (reads disk_configure) (fails_with Sqlite)"

definition open_store :: "string \<Rightarrow> connection disk_action" where
  "open_store schema =
     and_then create_private_directory (\<lambda>_.
     and_then open_connection (\<lambda>_.
     and_then (examine_existing schema) (\<lambda>found.
     and_then (case found of
         Usable \<Rightarrow> ret ()
       | Empty \<Rightarrow> create_schema schema
       | Discard reason \<Rightarrow>
           and_then discard_store (\<lambda>_. and_then open_connection (\<lambda>_. create_schema schema))) (\<lambda>_.
     and_then configure_connection (\<lambda>_.
     reads (\<lambda>disk. \<lparr>conn_db = file_db (disk_file disk), conn_faults = disk_faults disk\<rparr>))))))"

end
