(* ===== verification/Store.thy ===== *)
theory Store
  imports Store_Open
begin

text \<open>
  The store's operations, crate \<open>mailbag-store\<close>, \<open>lib.rs\<close>: one connection, opened at the first
  use, and each operation as the statements it runs on it. The question whether the load was
  cancelled is asked under the lock, so its answer is an argument of the operation.
\<close>

record store =
  store_schema :: string
  store_disk :: disk
  store_connection :: "connection option"

type_synonym 'a store_action = "(store, failure, 'a) action"

datatype store_write = Stored | LoadCancelled

record folder_sync =
  sync_state :: folder_state
  sync_stored :: "(string \<times> message_flags) list"

definition store_at :: "string \<Rightarrow> disk \<Rightarrow> store" where
  "store_at schema disk = \<lparr>store_schema = schema, store_disk = disk, store_connection = None\<rparr>"

definition run_work :: "store_operation \<Rightarrow> 'a sql \<Rightarrow> connection \<Rightarrow> 'a store_action" where
  "run_work operation work c = (\<lambda>s. case work c of
     (Inl e, c') \<Rightarrow> (Inl (storage_failure operation (Sqlite e)), s\<lparr>store_connection := Some c'\<rparr>)
   | (Inr x, c') \<Rightarrow> (Inr x, s\<lparr>store_connection := Some c'\<rparr>))"

definition with_connection :: "store_operation \<Rightarrow> 'a sql \<Rightarrow> 'a store_action" where
  "with_connection operation work = (\<lambda>s. case store_connection s of
     Some c \<Rightarrow> run_work operation work c s
   | None \<Rightarrow> (case open_store (store_schema s) (store_disk s) of
       (Inl e, disk) \<Rightarrow> (Inl (storage_failure operation e), s\<lparr>store_disk := disk\<rparr>)
     | (Inr c, disk) \<Rightarrow> run_work operation work c (s\<lparr>store_disk := disk\<rparr>)))"

section \<open>Folder lists\<close>

definition replace_folders_work :: "account_id \<Rightarrow> folder list \<Rightarrow> store_write sql" where
  "replace_folders_work account folders = transaction (
     and_then (delete_unlisted_folders account folders) (\<lambda>_.
     and_then (delete_messages_without_folder account) (\<lambda>_.
     and_then (upsert_folders account folders) (\<lambda>_.
     ret Stored))))"

definition replace_folders :: "account_id \<Rightarrow> folder list \<Rightarrow> bool \<Rightarrow> store_write store_action" where
  "replace_folders account folders load_cancelled = with_connection Write (
     if load_cancelled then ret LoadCancelled else replace_folders_work account folders)"

definition read_folders :: "account_id \<Rightarrow> folder list store_action" where
  "read_folders account = with_connection Read (
     and_then prepare (\<lambda>_.
     query_map (\<lambda>d. filter (\<lambda>r. fr_account r = as_str account) (db_folders d)) stored_folder))"

section \<open>Cycles\<close>

definition read_folder_sync :: "folder_ref \<Rightarrow> folder_sync store_action" where
  "read_folder_sync folder = with_connection Write (
     and_then (stored_folder_id folder) (\<lambda>folder_id.
     and_then (read_folder_state folder_id) (\<lambda>state.
     and_then (read_folder_identities folder_id) (\<lambda>stored.
     ret \<lparr>sync_state = state, sync_stored = stored\<rparr>))))"

definition stored_identities :: "account_id \<Rightarrow> string list \<Rightarrow> string list store_action" where
  "stored_identities account identities = with_connection Read (read_stored_identities account identities)"

definition identities_in_other_folders :: "folder_ref \<Rightarrow> string list \<Rightarrow> string list store_action" where
  "identities_in_other_folders folder identities = with_connection Read (read_identities_in_other_folders folder identities)"

definition store_batch_body :: "folder_ref \<Rightarrow> folder_batch \<Rightarrow> store_write sql" where
  "store_batch_body folder batch =
     (let account = ref_account folder in
     and_then (stored_folder_id folder) (\<lambda>folder_id.
     and_then (only_if (batch_removed batch \<noteq> [])
       (and_then (delete_memberships folder_id account (batch_removed batch)) (\<lambda>_.
        delete_messages_without_folder account))) (\<lambda>_.
     and_then (set_flag_states account (batch_flag_states batch)) (\<lambda>_.
     and_then (store_arrived folder_id account (batch_arrived batch)) (\<lambda>_.
     and_then (relate_known folder_id account (batch_known_arrived batch)) (\<lambda>_.
     and_then (case batch_state batch of
         Some state \<Rightarrow> write_folder_state folder_id state
       | None \<Rightarrow> ret ()) (\<lambda>_.
     ret Stored)))))))"

definition store_batch :: "folder_ref \<Rightarrow> folder_batch \<Rightarrow> bool \<Rightarrow> store_write store_action" where
  "store_batch folder batch load_cancelled = with_connection Write (
     if load_cancelled then ret LoadCancelled else transaction (store_batch_body folder batch))"

section \<open>Pending changes\<close>

definition pending_changes :: "folder_ref \<Rightarrow> pending_change list store_action" where
  "pending_changes folder = with_connection Read (
     and_then (stored_folder_id folder) read_pending_changes)"

text \<open>\<open>flag_columns\<close>: the server's value of a flag and the pending one.\<close>

definition server_value :: "message_flag \<Rightarrow> message_row \<Rightarrow> bool" where
  "server_value flag m = (case flag of Seen \<Rightarrow> mr_seen m | Flagged \<Rightarrow> mr_flagged m)"

definition pending_value :: "message_flag \<Rightarrow> message_row \<Rightarrow> bool option" where
  "pending_value flag m = (case flag of Seen \<Rightarrow> mr_seen_pending m | Flagged \<Rightarrow> mr_flagged_pending m)"

definition set_server_value :: "message_flag \<Rightarrow> bool \<Rightarrow> message_row \<Rightarrow> message_row" where
  "set_server_value flag v m = (case flag of Seen \<Rightarrow> m\<lparr>mr_seen := v\<rparr> | Flagged \<Rightarrow> m\<lparr>mr_flagged := v\<rparr>)"

definition set_pending_value :: "message_flag \<Rightarrow> bool option \<Rightarrow> message_row \<Rightarrow> message_row" where
  "set_pending_value flag v m = (case flag of Seen \<Rightarrow> m\<lparr>mr_seen_pending := v\<rparr> | Flagged \<Rightarrow> m\<lparr>mr_flagged_pending := v\<rparr>)"

definition write_pending_flag :: "account_id \<Rightarrow> string \<Rightarrow> message_flag \<Rightarrow> bool \<Rightarrow> unit store_action" where
  "write_pending_flag account identity flag wanted = with_connection Write (
     execute (sql_update_message (as_str account) identity (set_pending_value flag (Some wanted))))"

definition update_messages :: "account_id \<Rightarrow> string list \<Rightarrow> (message_row \<Rightarrow> message_row) \<Rightarrow> unit store_action" where
  "update_messages account identities assignments = with_connection Write (transaction (
     and_then prepare (\<lambda>_.
     for_each (\<lambda>identity. execute (sql_update_message (as_str account) identity assignments)) identities)))"

text \<open>\<open>{server} = ?3, {pending} = NULLIF({pending}, ?3)\<close>\<close>

definition settle_row :: "message_flag \<Rightarrow> bool \<Rightarrow> message_row \<Rightarrow> message_row" where
  "settle_row flag v m = set_server_value flag v (set_pending_value flag (nullif (pending_value flag m) v) m)"

definition settle_flags :: "account_id \<Rightarrow> string list \<Rightarrow> message_flag \<Rightarrow> bool \<Rightarrow> unit store_action" where
  "settle_flags account identities flag v = update_messages account identities (settle_row flag v)"

definition drop_row :: "message_flag \<Rightarrow> bool \<Rightarrow> message_row \<Rightarrow> message_row" where
  "drop_row flag refused m = set_pending_value flag (nullif (pending_value flag m) refused) m"

definition drop_pending_flags :: "account_id \<Rightarrow> string list \<Rightarrow> message_flag \<Rightarrow> bool \<Rightarrow> unit store_action" where
  "drop_pending_flags account identities flag refused = update_messages account identities (drop_row flag refused)"

section \<open>What the window reads\<close>

definition read_folder_rows :: "folder_ref \<Rightarrow> message_list_row list option store_action" where
  "read_folder_rows folder = with_connection Read (
     and_then (optional (stored_folder_id folder)) (\<lambda>found. case found of
       None \<Rightarrow> ret None
     | Some folder_id \<Rightarrow>
         and_then (read_listed_rows folder_id) (\<lambda>rows.
         and_then (read_folder_state folder_id) (\<lambda>state.
         ret (if state_synchronized state \<or> rows \<noteq> [] then Some rows else None)))))"

definition read_message_content :: "account_id \<Rightarrow> string \<Rightarrow> received_content option store_action" where
  "read_message_content account identity = with_connection Read (
     optional (query_row (\<lambda>d. filter (message_at (as_str account) identity) (db_messages d)) stored_content))"

section \<open>Accounts\<close>

definition removed_accounts :: "account_id list \<Rightarrow> string list \<Rightarrow> account_id list" where
  "removed_accounts current stored =
     filter (\<lambda>account. account \<notin> set current)
       (concat (map (\<lambda>account. case account_id_try_from account of Inr a \<Rightarrow> [a] | Inl _ \<Rightarrow> []) stored))"

definition delete_other_accounts :: "account_id list \<Rightarrow> account_id list store_action" where
  "delete_other_accounts current = with_connection Write (transaction (
     and_then prepare (\<lambda>_.
     and_then (query (\<lambda>d. remdups (map fr_account (db_folders d)))) (\<lambda>stored_accounts.
     (let removed = removed_accounts current stored_accounts in
     and_then (for_each (\<lambda>account.
       and_then (execute (sql_delete_folders (\<lambda>r. fr_account r = as_str account))) (\<lambda>_.
       execute (sql_delete_messages (\<lambda>m. mr_account m = as_str account)))) removed) (\<lambda>_.
     ret removed))))))"

end
