(* ===== verification/Store_Ok.thy ===== *)
theory Store_Ok
  imports Store
begin

text \<open>
  The store's invariant and its preservation by each SQL statement of \<open>folders.rs\<close>: unique ids
  and identities, readable codes and numbers, memberships that name a folder and a message of one
  account, and no message outside every folder.
\<close>

section \<open>The invariant\<close>

definition folder_row_ok :: "folder_row \<Rightarrow> bool" where
  "folder_row_ok r \<longleftrightarrow> (\<exists>s. state_from_row r = Inr s) \<and> (\<exists>f. stored_folder r = Inr f)"

definition message_row_ok :: "message_row \<Rightarrow> bool" where
  "message_row_ok m \<longleftrightarrow> content_from_columns (mr_content_kind m) (mr_content_detail m) \<noteq> None"

lemma stored_content_iff: "stored_content m = Inr c \<longleftrightarrow> content_from_columns (mr_content_kind m) (mr_content_detail m) = Some c"
  by (auto simp: stored_content_def split: option.splits)

lemma message_row_ok_iff: "message_row_ok m \<longleftrightarrow> (\<exists>c. stored_content m = Inr c)"
  by (simp add: message_row_ok_def stored_content_iff)

definition folder_key :: "folder_row \<Rightarrow> string \<times> string" where
  "folder_key r = (fr_account r, fr_identity r)"

definition message_key :: "message_row \<Rightarrow> string \<times> string" where
  "message_key m = (mr_account m, mr_identity m)"

definition folders_ok :: "folder_row list \<Rightarrow> bool" where
  "folders_ok rs \<longleftrightarrow> distinct (map fr_id rs) \<and> distinct (map folder_key rs) \<and> (\<forall>r \<in> set rs. folder_row_ok r)"

definition messages_ok :: "message_row list \<Rightarrow> bool" where
  "messages_ok ms \<longleftrightarrow> distinct (map mr_id ms) \<and> distinct (map message_key ms) \<and> (\<forall>m \<in> set ms. message_row_ok m)"

text \<open>The folder and the message a membership names exist and belong to one account.\<close>

definition linked :: "db \<Rightarrow> nat \<times> nat \<Rightarrow> bool" where
  "linked d p \<longleftrightarrow> (\<exists>r \<in> set (db_folders d). \<exists>k \<in> set (db_messages d).
     fr_id r = fst p \<and> mr_id k = snd p \<and> fr_account r = mr_account k)"

definition memberships_ok :: "db \<Rightarrow> bool" where
  "memberships_ok d \<longleftrightarrow> distinct (db_memberships d) \<and> (\<forall>p \<in> set (db_memberships d). linked d p)"

definition tables_ok :: "db \<Rightarrow> bool" where
  "tables_ok d \<longleftrightarrow> folders_ok (db_folders d) \<and> messages_ok (db_messages d) \<and> memberships_ok d"

text \<open>Only accounts in \<open>A\<close> have messages that no folder holds.\<close>

definition orphans_in :: "string set \<Rightarrow> db \<Rightarrow> bool" where
  "orphans_in A d \<longleftrightarrow> (\<forall>m \<in> set (db_messages d). mr_id m \<notin> snd ` set (db_memberships d) \<longrightarrow> mr_account m \<in> A)"

definition db_ok :: "db \<Rightarrow> bool" where
  "db_ok d \<longleftrightarrow> tables_ok d \<and> orphans_in {} d"

lemma db_ok_empty [simp]: "db_ok empty_db"
  by (simp add: db_ok_def tables_ok_def empty_db_def folders_ok_def messages_ok_def memberships_ok_def orphans_in_def)

lemma orphans_in_mono: "orphans_in A d \<Longrightarrow> A \<subseteq> B \<Longrightarrow> orphans_in B d"
  by (auto simp: orphans_in_def)

section \<open>Rows\<close>

lemma fresh_id_less: "x \<in> set ids \<Longrightarrow> x < fresh_id ids"
  unfolding fresh_id_def by (induction ids) (auto simp: less_Suc_eq_le max.coboundedI1 max.coboundedI2)

lemma fresh_id_fresh: "fresh_id ids \<notin> set ids"
  using fresh_id_less by blast

lemma get_u32_uint [simp]: "get_u32 col (map_option uint w) = Inr w"
  using uint_lt2p [of "the w"] by (cases w) (auto simp: get_u32_def)

lemma state_from_row_with_state: "state_from_row (row_with_state state r) = Inr state"
proof (cases "state_numbers state")
  case None
  then show ?thesis
    by (cases state) (simp add: state_from_row_def row_with_state_def bind_result_def get_u32_def)
next
  case (Some numbers)
  have "get_u32 4 (Some (uint (num_message_count numbers))) = Inr (Some (num_message_count numbers))"
    using get_u32_uint [of 4 "Some (num_message_count numbers)"] by simp
  with Some show ?thesis
    by (cases state; cases numbers; cases "num_highest_modseq numbers")
       (simp_all add: state_from_row_def row_with_state_def bind_result_def)
qed

lemma stored_folder_with_state [simp]: "stored_folder (row_with_state state r) = stored_folder r"
  by (simp add: stored_folder_def row_with_state_def)

lemma row_with_state_keys [simp]:
  "fr_id (row_with_state state r) = fr_id r" "folder_key (row_with_state state r) = folder_key r"
  "fr_account (row_with_state state r) = fr_account r" "fr_identity (row_with_state state r) = fr_identity r"
  by (simp_all add: row_with_state_def folder_key_def)

lemma stored_content_new_row: "stored_content (new_message_row i a message) = Inr (msg_content message)"
  using content_codec.decode_encode [of "msg_content message"]
  by (simp add: stored_content_iff new_message_row_def case_prod_beta)

lemma content_code_allowed [simp]: "fst (content_columns c) \<in> set schema_content_codes"
  using content_codec.encode_allowed [of c] by (simp split: prod.splits)

lemma role_code_allowed [simp]: "check_role (map_option role_code r)"
  using role_codec.encode_allowed by (cases r) (auto simp: check_role_def)

text \<open>What a stored content becomes when a full record arrives.\<close>

definition merged_content :: "received_content \<Rightarrow> received_content \<Rightarrow> received_content" where
  "merged_content new old = (case new of
     NotDownloaded \<Rightarrow> old
   | TextNotReturned \<Rightarrow> (case old of Text t \<Rightarrow> Text t | _ \<Rightarrow> TextNotReturned)
   | _ \<Rightarrow> new)"

lemma kind_text_iff: "content_from_columns kind detail = Some c \<Longrightarrow> kind = ''text'' \<longleftrightarrow> (\<exists>t. c = Text t)"
  by (auto simp: content_from_columns_def split: if_splits)

lemma keeps_content_iff:
  "keeps_content (fst (content_columns new)) kind \<longleftrightarrow> new = NotDownloaded \<or> (new = TextNotReturned \<and> kind = ''text'')"
  by (cases new) (auto simp: keeps_content_def content_columns_def split: content_explanation.split)

lemma stored_content_merge:
  assumes "stored_content m = Inr old"
  shows "stored_content (merge_message message m) = Inr (merged_content (msg_content message) old)"
proof -
  let ?new = "msg_content message"
  have old: "content_from_columns (mr_content_kind m) (mr_content_detail m) = Some old"
    using assms by (simp add: stored_content_iff)
  have new: "content_from_columns (fst (content_columns ?new)) (snd (content_columns ?new)) = Some ?new"
    using content_codec.decode_encode [of ?new] by (simp add: case_prod_beta)
  have "merged_content ?new old = (if keeps_content (fst (content_columns ?new)) (mr_content_kind m) then old else ?new)"
    using kind_text_iff [OF old] by (auto simp: keeps_content_iff merged_content_def split: received_content.split)
  with old new show ?thesis
    by (simp add: stored_content_iff merge_message_def case_prod_beta)
qed

lemma merge_message_keys [simp]:
  "mr_id (merge_message message m) = mr_id m" "message_key (merge_message message m) = message_key m"
  "mr_account (merge_message message m) = mr_account m" "mr_identity (merge_message message m) = mr_identity m"
  by (simp_all add: merge_message_def message_key_def case_prod_beta)

text \<open>An assignment that leaves a row's keys and its content.\<close>

definition harmless :: "(message_row \<Rightarrow> message_row) \<Rightarrow> bool" where
  "harmless assign \<longleftrightarrow> (\<forall>m. mr_id (assign m) = mr_id m \<and> mr_account (assign m) = mr_account m \<and>
     mr_identity (assign m) = mr_identity m \<and> (message_row_ok m \<longrightarrow> message_row_ok (assign m)))"

lemma harmless_keys:
  "harmless assign \<Longrightarrow> mr_id (assign m) = mr_id m"
  "harmless assign \<Longrightarrow> mr_account (assign m) = mr_account m"
  "harmless assign \<Longrightarrow> mr_identity (assign m) = mr_identity m"
  "harmless assign \<Longrightarrow> message_key (assign m) = message_key m"
  "harmless assign \<Longrightarrow> message_row_ok m \<Longrightarrow> message_row_ok (assign m)"
  by (simp_all add: harmless_def message_key_def)

lemma harmless_merge: "harmless (merge_message message)"
  by (auto simp: harmless_def message_row_ok_iff dest: stored_content_merge)

lemma harmless_flags: "harmless (set_flags_of flags)"
  by (auto simp: harmless_def message_row_ok_def set_flags_of_def)

lemma harmless_pending: "harmless (set_pending_value flag v)"
  by (auto simp: harmless_def message_row_ok_def set_pending_value_def split: message_flag.split)

lemma harmless_settle: "harmless (settle_row flag v)"
  by (auto simp: harmless_def message_row_ok_def settle_row_def set_pending_value_def
      set_server_value_def split: message_flag.split)

lemma harmless_drop: "harmless (drop_row flag v)"
  by (auto simp: harmless_def message_row_ok_def drop_row_def set_pending_value_def
      split: message_flag.split)

lemmas harmless_rules = harmless_merge harmless_flags harmless_pending harmless_settle harmless_drop

section \<open>Statements\<close>

lemma linked_image:
  assumes "set (db_folders d') = g ` set (db_folders d)" and "set (db_messages d') = h ` set (db_messages d)"
    and "\<And>r. fr_id (g r) = fr_id r" "\<And>r. fr_account (g r) = fr_account r"
    and "\<And>m. mr_id (h m) = mr_id m" "\<And>m. mr_account (h m) = mr_account m"
  shows "linked d' p = linked d p"
  by (simp add: linked_def assms)

lemma linked_more:
  "linked d p \<Longrightarrow> set (db_folders d) \<subseteq> set (db_folders d') \<Longrightarrow> set (db_messages d) \<subseteq> set (db_messages d') \<Longrightarrow> linked d' p"
  unfolding linked_def by blast

lemma linked_delete_folders:
  "linked d p \<Longrightarrow> (\<And>r. r \<in> set (db_folders d) \<Longrightarrow> P r \<Longrightarrow> fr_id r \<noteq> fst p) \<Longrightarrow> linked (sql_delete_folders P d) p"
  by (auto simp: linked_def sql_delete_folders_def)

lemma linked_delete_messages:
  "linked d p \<Longrightarrow> (\<And>r. r \<in> set (db_messages d) \<Longrightarrow> P r \<Longrightarrow> mr_id r \<noteq> snd p) \<Longrightarrow> linked (sql_delete_messages P d) p"
  by (auto simp: linked_def sql_delete_messages_def)

lemma delete_folders_tables [simp]:
  "db_folders (sql_delete_folders P d) = filter (\<lambda>r. \<not> P r) (db_folders d)"
  "db_messages (sql_delete_folders P d) = db_messages d"
  "(f, m) \<in> set (db_memberships (sql_delete_folders P d)) \<longleftrightarrow>
     (f, m) \<in> set (db_memberships d) \<and> (\<forall>r \<in> set (db_folders d). P r \<longrightarrow> fr_id r \<noteq> f)"
  "distinct (db_memberships d) \<Longrightarrow> distinct (db_memberships (sql_delete_folders P d))"
  by (simp_all add: sql_delete_folders_def)

lemma delete_messages_tables [simp]:
  "db_folders (sql_delete_messages P d) = db_folders d"
  "db_messages (sql_delete_messages P d) = filter (\<lambda>r. \<not> P r) (db_messages d)"
  "(f, m) \<in> set (db_memberships (sql_delete_messages P d)) \<longleftrightarrow>
     (f, m) \<in> set (db_memberships d) \<and> (\<forall>r \<in> set (db_messages d). P r \<longrightarrow> mr_id r \<noteq> m)"
  "distinct (db_memberships d) \<Longrightarrow> distinct (db_memberships (sql_delete_messages P d))"
  by (simp_all add: sql_delete_messages_def)

lemma tables_ok_delete_folders:
  assumes "tables_ok d"
  shows "tables_ok (sql_delete_folders P d)"
proof -
  have "folders_ok (filter (\<lambda>r. \<not> P r) (db_folders d))"
    using assms by (auto simp: tables_ok_def folders_ok_def distinct_map_filter')
  moreover have "memberships_ok (sql_delete_folders P d)"
    using assms by (auto simp: tables_ok_def memberships_ok_def intro!: linked_delete_folders)
  ultimately show ?thesis using assms by (simp add: tables_ok_def)
qed

lemma tables_ok_delete_messages:
  assumes "tables_ok d"
  shows "tables_ok (sql_delete_messages P d)"
proof -
  have "messages_ok (filter (\<lambda>r. \<not> P r) (db_messages d))"
    using assms by (auto simp: tables_ok_def messages_ok_def distinct_map_filter')
  moreover have "memberships_ok (sql_delete_messages P d)"
    using assms by (auto simp: tables_ok_def memberships_ok_def intro!: linked_delete_messages)
  ultimately show ?thesis using assms by (simp add: tables_ok_def)
qed

lemma tables_ok_update_message:
  assumes "tables_ok d" and h: "harmless assign"
  shows "tables_ok (sql_update_message account identity assign d)"
proof -
  let ?g = "\<lambda>m. if message_at account identity m then assign m else m"
  have keys: "mr_id (?g m) = mr_id m" "message_key (?g m) = message_key m" "mr_account (?g m) = mr_account m" for m
    using h by (auto simp: harmless_keys)
  have "messages_ok (map ?g (db_messages d))"
    using assms by (auto simp: tables_ok_def messages_ok_def keys o_def harmless_keys)
  moreover have "linked (sql_update_message account identity assign d) p = linked d p" for p
    by (rule linked_image [where g = id and h = ?g]) (simp_all add: sql_update_message_def keys del: if_split)
  ultimately show ?thesis
    using assms(1) by (simp add: tables_ok_def memberships_ok_def) (simp add: sql_update_message_def)
qed

lemma tables_ok_set_folder_state:
  assumes "tables_ok d"
  shows "tables_ok (sql_set_folder_state folder_id state d)"
proof -
  let ?g = "\<lambda>r. if fr_id r = folder_id then row_with_state state r else r"
  have keys: "fr_id (?g r) = fr_id r" "folder_key (?g r) = folder_key r" "fr_account (?g r) = fr_account r" for r
    by auto
  have "folders_ok (map ?g (db_folders d))"
    using assms by (auto simp: tables_ok_def folders_ok_def keys o_def folder_row_ok_def state_from_row_with_state)
  moreover have "linked (sql_set_folder_state folder_id state d) p = linked d p" for p
    by (rule linked_image [where g = ?g and h = id]) (simp_all add: sql_set_folder_state_def keys del: if_split)
  ultimately show ?thesis
    using assms by (simp add: tables_ok_def memberships_ok_def) (simp add: sql_set_folder_state_def)
qed

lemma folder_key_iff: "folder_key r = (a, i) \<longleftrightarrow> folder_at a i r"
  by (auto simp: folder_key_def folder_at_def)

lemma message_key_iff: "message_key m = (a, i) \<longleftrightarrow> message_at a i m"
  by (auto simp: message_key_def message_at_def)

lemma stored_folder_role_code:
  "fr_role r = map_option role_code role \<Longrightarrow> \<exists>f. stored_folder r = Inr f"
  using role_codec.decode_encode by (cases role) (auto simp: stored_folder_def bind_result_def)

lemma tables_ok_upsert_folder:
  assumes "tables_ok d"
  shows "tables_ok (sql_upsert_folder account folder d)"
proof (cases "\<exists>r \<in> set (db_folders d). folder_at account (folder_identity folder) r")
  case True
  let ?h = "\<lambda>r. r\<lparr>fr_name := folder_name folder, fr_parent := folder_parent folder,
      fr_role := map_option role_code (folder_role folder), fr_selectable := folder_selectable folder\<rparr>"
  let ?g = "\<lambda>r. if folder_at account (folder_identity folder) r then ?h r else r"
  have keys: "fr_id (?g r) = fr_id r" "folder_key (?g r) = folder_key r" "fr_account (?g r) = fr_account r" for r
    by (auto simp: folder_key_def)
  have ok: "folder_row_ok (?h r)" if "folder_row_ok r" for r
  proof -
    have "state_from_row (?h r) = state_from_row r" by (simp add: state_from_row_def cong: option.case_cong)
    then show ?thesis using that stored_folder_role_code [of "?h r" "folder_role folder"] by (simp add: folder_row_ok_def)
  qed
  have "folders_ok (map ?g (db_folders d))"
    using assms ok by (auto simp: tables_ok_def folders_ok_def keys o_def)
  moreover have "linked (d\<lparr>db_folders := map ?g (db_folders d)\<rparr>) p = linked d p" for p
    by (rule linked_image [where g = ?g and h = id]) (simp_all add: keys del: if_split)
  ultimately show ?thesis
    using assms True by (simp add: tables_ok_def memberships_ok_def sql_upsert_folder_def)
next
  case False
  have "folder_row_ok \<lparr>fr_id = fresh_id (map fr_id (db_folders d)), fr_account = account, fr_identity = folder_identity folder,
      fr_name = folder_name folder, fr_parent = folder_parent folder,
      fr_role = map_option role_code (folder_role folder), fr_selectable = folder_selectable folder,
      fr_server_position = None, fr_fill_place = None, fr_synchronized = False,
      fr_uid_validity = None, fr_message_count = None, fr_uid_next = None, fr_highest_modseq = None\<rparr>" (is "folder_row_ok ?r")
    using stored_folder_role_code [of ?r "folder_role folder"]
    by (simp add: folder_row_ok_def state_from_row_def get_u32_def bind_result_def)
  moreover have "folder_key ?r \<notin> folder_key ` set (db_folders d)"
    using False by (auto simp: folder_key_def folder_at_def)
  moreover have "fr_id ?r \<notin> fr_id ` set (db_folders d)"
    using fresh_id_fresh [of "map fr_id (db_folders d)"] by auto
  ultimately have "folders_ok (db_folders d @ [?r])"
    using assms by (auto simp: tables_ok_def folders_ok_def)
  moreover have "memberships_ok (d\<lparr>db_folders := db_folders d @ [?r]\<rparr>)"
    using assms by (auto simp: tables_ok_def memberships_ok_def intro: linked_more)
  ultimately show ?thesis
    using assms False by (simp add: tables_ok_def sql_upsert_folder_def)
qed

lemma tables_ok_delete_membership: "tables_ok d \<Longrightarrow> tables_ok (sql_delete_membership folder_id account identity d)"
  by (auto simp: tables_ok_def memberships_ok_def sql_delete_membership_def intro: linked_more)

lemma tables_ok_upsert_message:
  assumes "tables_ok d" and up: "sql_upsert_message account message d = Inr (i, d')"
  shows "tables_ok d' \<and> i \<in> mr_id ` set (db_messages d') \<and> db_folders d' = db_folders d \<and> db_memberships d' = db_memberships d
    \<and> (\<forall>m \<in> set (db_messages d'). mr_id m = i \<longrightarrow> message_at account (msg_identity message) m)"
proof (cases "find (message_at account (msg_identity message)) (db_messages d)")
  case None
  let ?new = "new_message_row (fresh_id (map mr_id (db_messages d))) account message"
  from None up have i: "i = fresh_id (map mr_id (db_messages d))"
    and d': "d' = d\<lparr>db_messages := db_messages d @ [?new]\<rparr>"
    by (auto simp: sql_upsert_message_def Let_def)
  have new: "mr_id ?new = i" "message_key ?new = (account, msg_identity message)" "message_row_ok ?new"
    using stored_content_new_row by (auto simp: i new_message_row_def message_key_def message_row_ok_iff)
  have "i \<notin> mr_id ` set (db_messages d)"
    using fresh_id_fresh [of "map mr_id (db_messages d)"] i by auto
  moreover have "message_key ?new \<notin> message_key ` set (db_messages d)"
    using None unfolding new(2) by (auto simp: find_None_iff' message_key_iff dest: sym)
  ultimately have "messages_ok (db_messages d @ [?new])"
    using assms(1) new by (auto simp: tables_ok_def messages_ok_def)
  moreover have "memberships_ok d'"
    using assms(1) by (auto simp: d' tables_ok_def memberships_ok_def intro: linked_more)
  moreover have "message_at account (msg_identity message) m" if "m \<in> set (db_messages d')" "mr_id m = i" for m
    using that \<open>i \<notin> mr_id ` set (db_messages d)\<close> new(2) by (auto simp: d' message_key_iff)
  moreover have "i \<in> mr_id ` set (db_messages d')"
    using new(1) by (auto simp: d')
  ultimately show ?thesis
    using assms(1) by (simp add: tables_ok_def) (simp add: d')
next
  case (Some m)
  then have m: "m \<in> set (db_messages d)" "message_at account (msg_identity message) m"
    by (auto dest: find_Some_mem)
  from Some up have i: "i = mr_id m"
    and d': "d' = sql_update_message account (msg_identity message) (merge_message message) d"
    by (auto simp: sql_upsert_message_def)
  have uniq: "k = m" if "k \<in> set (db_messages d)" "mr_id k = i" for k
    using assms(1) that m i by (auto simp: tables_ok_def messages_ok_def dest: distinct_map_unique)
  have msgs: "set (db_messages d') = (\<lambda>k. if message_at account (msg_identity message) k then merge_message message k else k) ` set (db_messages d)"
    by (simp add: d' sql_update_message_def)
  have "message_at account (msg_identity message) k" if "k \<in> set (db_messages d')" "mr_id k = i" for k
  proof -
    from that(1) obtain k0 where "k0 \<in> set (db_messages d)"
      and k: "k = (if message_at account (msg_identity message) k0 then merge_message message k0 else k0)"
      unfolding msgs by blast
    moreover from k that(2) have "mr_id k0 = i" by (simp split: if_splits)
    ultimately have "k0 = m" using uniq by blast
    with k m(2) show ?thesis by (simp add: message_at_def)
  qed
  moreover have "i \<in> mr_id ` set (db_messages d')"
  proof -
    from m have "merge_message message m \<in> set (db_messages d')" unfolding msgs by (auto intro!: image_eqI [of _ _ m])
    moreover have "mr_id (merge_message message m) = i" by (simp add: i)
    ultimately show ?thesis by (metis image_eqI)
  qed
  moreover have "tables_ok d'"
    unfolding d' by (rule tables_ok_update_message [OF assms(1) harmless_merge])
  moreover have "db_folders d' = db_folders d" "db_memberships d' = db_memberships d"
    by (simp_all add: d' sql_update_message_def)
  ultimately show ?thesis by blast
qed

lemma tables_ok_relate:
  assumes "tables_ok d" and "sql_relate folder_id message_id d = Inr (u, d')"
    and acc: "\<And>r m. r \<in> set (db_folders d) \<Longrightarrow> m \<in> set (db_messages d) \<Longrightarrow> fr_id r = folder_id \<Longrightarrow> mr_id m = message_id \<Longrightarrow> fr_account r = mr_account m"
  shows "tables_ok d'"
proof -
  from assms(2) have d': "d' = d\<lparr>db_memberships := List.insert (folder_id, message_id) (db_memberships d)\<rparr>"
    and "folder_id \<in> fr_id ` set (db_folders d)" "message_id \<in> mr_id ` set (db_messages d)"
    by (auto simp: sql_relate_def split: if_splits)
  moreover from this have "linked d (folder_id, message_id)"
    using acc by (auto simp: linked_def)
  ultimately show ?thesis
    using assms(1) by (auto simp: tables_ok_def memberships_ok_def intro: linked_more)
qed

end
