(* ===== verification/Store_Compute.thy ===== *)
theory Store_Compute
  imports Store_Ok
begin

text \<open>
  What a sequence of SQL statements computes. \<open>computes P m f\<close>: from a database with \<open>P\<close>, whenever
  \<open>m\<close> returns, its value and the database it leaves are those of the function \<open>f\<close>, whatever faults
  occurred on the way; and when SQLite reports no fault, \<open>m\<close> returns.
\<close>

definition faultless :: "connection \<Rightarrow> bool" where
  "faultless c \<longleftrightarrow> (\<forall>e \<in> set (conn_faults c). e = None)"

definition computes :: "(db \<Rightarrow> bool) \<Rightarrow> 'a sql \<Rightarrow> (db \<Rightarrow> 'a \<times> db) \<Rightarrow> bool" where
  "computes P m f \<longleftrightarrow> (\<forall>c. P (conn_db c) \<longrightarrow>
     (\<forall>x c'. m c = (Inr x, c') \<longrightarrow> f (conn_db c) = (x, conn_db c')) \<and>
     (faultless c \<longrightarrow> (\<exists>x c'. m c = (Inr x, c') \<and> faultless c')))"

lemma computesD: "computes P m f \<Longrightarrow> P (conn_db c) \<Longrightarrow> m c = (Inr x, c') \<Longrightarrow> f (conn_db c) = (x, conn_db c')"
  by (simp add: computes_def)

lemma computes_returns: "computes P m f \<Longrightarrow> P (conn_db c) \<Longrightarrow> faultless c \<Longrightarrow> \<exists>x c'. m c = (Inr x, c') \<and> faultless c'"
  by (simp add: computes_def)

lemma computes_weaken: "computes P m f \<Longrightarrow> (\<And>d. Q d \<Longrightarrow> P d) \<Longrightarrow> (\<And>d. Q d \<Longrightarrow> f d = g d) \<Longrightarrow> computes Q m g"
  unfolding computes_def by metis

lemma computes_ret: "computes P (ret x) (\<lambda>d. (x, d))"
  by (simp add: computes_def)

lemma computes_statement:
  assumes "\<And>d. P d \<Longrightarrow> f d = Inr (g d)"
  shows "computes P (statement f) g"
  unfolding computes_def
proof (intro allI impI conjI)
  fix c c' :: connection and x
  assume "P (conn_db c)"
  then have f: "f (conn_db c) = Inr (g (conn_db c))" by (rule assms)
  show "g (conn_db c) = (x, conn_db c')" if "statement f c = (Inr x, c')"
    using that f by (auto simp: statement_def Let_def split: list.splits option.splits prod.splits)
  show "\<exists>x c'. statement f c = (Inr x, c') \<and> faultless c'" if "faultless c"
    using that f by (cases "g (conn_db c)"; cases "conn_faults c"; cases "hd (conn_faults c)")
      (auto simp: statement_def faultless_def)
qed

lemma computes_prepare: "computes P prepare (\<lambda>d. ((), d))"
  unfolding prepare_def by (rule computes_statement) simp

lemma computes_query: "computes P (query f) (\<lambda>d. (f d, d))"
  unfolding query_def by (rule computes_statement) simp

lemma computes_execute: "computes P (execute f) (\<lambda>d. ((), f d))"
  unfolding execute_def by (rule computes_statement) simp

lemma computes_and_then:
  assumes m: "computes P m f"
    and k: "\<And>x. computes (\<lambda>d'. \<exists>d. P d \<and> f d = (x, d')) (k x) (g x)"
  shows "computes P (and_then m k) (\<lambda>d. case f d of (x, d') \<Rightarrow> g x d')"
  unfolding computes_def
proof (intro allI impI conjI)
  fix c c' :: connection and y
  assume P: "P (conn_db c)"
  show "(case f (conn_db c) of (x, d') \<Rightarrow> g x d') = (y, conn_db c')" if "and_then m k c = (Inr y, c')"
  proof -
    from that obtain x c1 where 1: "m c = (Inr x, c1)" "k x c1 = (Inr y, c')"
      by (auto simp: and_then_def split: prod.splits sum.splits)
    from computesD [OF m P 1(1)] have "f (conn_db c) = (x, conn_db c1)" .
    with computesD [OF k _ 1(2)] P show ?thesis by auto
  qed
  show "\<exists>y c'. and_then m k c = (Inr y, c') \<and> faultless c'" if "faultless c"
  proof -
    from computes_returns [OF m P that] obtain x c1 where 1: "m c = (Inr x, c1)" "faultless c1" by blast
    from computesD [OF m P 1(1)] P computes_returns [OF k _ 1(2)] obtain y c' where "k x c1 = (Inr y, c')" "faultless c'"
      by blast
    with 1 show ?thesis by (auto simp: and_then_def)
  qed
qed

text \<open>The two common cases: a first step without a value, and a step that keeps \<open>P\<close>.\<close>

lemma computes_unit_then:
  assumes "computes P m (\<lambda>d. ((), f d))" and "computes Q k g" and "\<And>d. P d \<Longrightarrow> Q (f d)"
  shows "computes P (and_then m (\<lambda>_. k)) (\<lambda>d. g (f d))"
proof -
  have "computes P (and_then m (\<lambda>_. k)) (\<lambda>d. case ((), f d) of (x, d') \<Rightarrow> g d')"
    by (rule computes_and_then [OF assms(1)]) (rule computes_weaken [OF assms(2)], auto simp: assms(3))
  then show ?thesis by simp
qed

lemma computes_prepare_then: "computes P k g \<Longrightarrow> computes P (and_then prepare (\<lambda>_. k)) g"
  using computes_unit_then [OF computes_prepare, of P k g] by simp

lemma computes_read_then:
  assumes "computes P m (\<lambda>d. (f d, d))" and "\<And>x. computes (\<lambda>d. P d \<and> f d = x) (k x) (g x)"
  shows "computes P (and_then m k) (\<lambda>d. g (f d) d)"
proof -
  have "computes P (and_then m k) (\<lambda>d. case (f d, d) of (x, d') \<Rightarrow> g x d')"
    by (rule computes_and_then [OF assms(1)]) (rule computes_weaken [OF assms(2)], auto)
  then show ?thesis by simp
qed

lemma computes_only_if:
  "(b \<Longrightarrow> computes P m (\<lambda>d. ((), f d))) \<Longrightarrow> computes P (only_if b m) (\<lambda>d. ((), if b then f d else d))"
  by (simp add: only_if_def computes_ret)

lemma computes_for_each:
  assumes "\<And>x. x \<in> set xs \<Longrightarrow> computes P (m x) (\<lambda>d. ((), f x d))"
    and "\<And>x d. x \<in> set xs \<Longrightarrow> P d \<Longrightarrow> P (f x d)"
  shows "computes P (for_each m xs) (\<lambda>d. ((), fold f xs d))"
  using assms
proof (induction xs)
  case Nil
  show ?case using computes_ret [of P "()"] by (simp del: ret_run)
next
  case (Cons x xs)
  have "computes P (and_then (m x) (\<lambda>_. for_each m xs)) (\<lambda>d. ((), fold f xs (f x d)))"
    by (rule computes_unit_then [where Q = P and g = "\<lambda>d. ((), fold f xs d)"]) (auto intro: Cons.prems intro!: Cons.IH)
  then show ?case by simp
qed

text \<open>A transaction computes what its body computes, and a failed one changes nothing.\<close>

lemma computes_transaction: "computes P m f \<Longrightarrow> computes P (transaction m) f"
proof -
  assume m: "computes P m f"
  have "computes P (and_then prepare (\<lambda>_. and_then m (\<lambda>x. and_then prepare (\<lambda>_. ret x)))) (\<lambda>d. case f d of (x, d') \<Rightarrow> (x, d'))"
    by (intro computes_prepare_then computes_and_then [OF m] computes_ret)
  then have "computes P (and_then prepare (\<lambda>_. and_then m (\<lambda>x. and_then prepare (\<lambda>_. ret x)))) f" by simp
  then show "computes P (transaction m) f"
    by (fastforce simp: computes_def transaction_def split: prod.splits sum.splits)
qed

lemma transaction_error: "transaction m c = (Inl e, c') \<Longrightarrow> conn_db c' = conn_db c"
  by (auto simp: transaction_def split: prod.splits sum.splits)

lemma fold_keeps: "P d \<Longrightarrow> (\<And>x d. x \<in> set xs \<Longrightarrow> P d \<Longrightarrow> P (f x d)) \<Longrightarrow> P (fold f xs d)"
  by (induction xs arbitrary: d) auto

end
