(* ===== verification/Store_View.thy ===== *)
theory Store_View
  imports Store_Compute
begin

text \<open>
  The store as its users see it: each account's folders with their state, its messages, and which
  messages each folder holds. The view has no row ids and no tables; each SQL statement of the
  store acts on it as the specification of this theory says.
\<close>

section \<open>Lookups\<close>

definition lookup_folder :: "db \<Rightarrow> string \<Rightarrow> string \<Rightarrow> folder_row option" where
  "lookup_folder d a f = find (folder_at a f) (db_folders d)"

definition lookup_message :: "db \<Rightarrow> string \<Rightarrow> string \<Rightarrow> message_row option" where
  "lookup_message d a i = find (message_at a i) (db_messages d)"

lemma find_unique:
  assumes "distinct (map k xs)" and "\<And>x. P x \<longleftrightarrow> k x = c"
  shows "find P xs = Some x \<longleftrightarrow> x \<in> set xs \<and> k x = c"
  using assms by (induction xs) auto

lemma lookup_folder_iff:
  "tables_ok d \<Longrightarrow> lookup_folder d a f = Some r \<longleftrightarrow> r \<in> set (db_folders d) \<and> folder_at a f r"
  unfolding lookup_folder_def folder_key_iff [symmetric]
  by (rule find_unique [where k = folder_key]) (simp_all add: tables_ok_def folders_ok_def)

lemma lookup_message_iff:
  "tables_ok d \<Longrightarrow> lookup_message d a i = Some m \<longleftrightarrow> m \<in> set (db_messages d) \<and> message_at a i m"
  unfolding lookup_message_def message_key_iff [symmetric]
  by (rule find_unique [where k = message_key]) (simp_all add: tables_ok_def messages_ok_def)

lemma filter_Cons_find: "filter P xs = x # ys \<Longrightarrow> find P xs = Some x"
  by (induction xs) (auto split: if_splits)

lemma filter_Nil_find: "filter P xs = [] \<longleftrightarrow> find P xs = None"
  by (auto simp: filter_empty_conv find_None_iff')

lemma folder_id_unique:
  "tables_ok d \<Longrightarrow> r \<in> set (db_folders d) \<Longrightarrow> s \<in> set (db_folders d) \<Longrightarrow> fr_id r = fr_id s \<Longrightarrow> r = s"
  by (auto simp: tables_ok_def folders_ok_def dest: distinct_map_unique)

lemma message_id_unique:
  "tables_ok d \<Longrightarrow> m \<in> set (db_messages d) \<Longrightarrow> k \<in> set (db_messages d) \<Longrightarrow> mr_id m = mr_id k \<Longrightarrow> m = k"
  by (auto simp: tables_ok_def messages_ok_def dest: distinct_map_unique)

definition held :: "db \<Rightarrow> string \<Rightarrow> string \<Rightarrow> string set" where
  "held d a f = {i. \<exists>r \<in> set (db_folders d). \<exists>m \<in> set (db_messages d).
     folder_at a f r \<and> message_at a i m \<and> (fr_id r, mr_id m) \<in> set (db_memberships d)}"

section \<open>The view\<close>

record entry =
  e_fields :: display_fields
  e_received :: "int option"
  e_flags :: message_flags
  e_pending :: "message_flag \<Rightarrow> bool option"
  e_content :: received_content
  e_preview :: string

definition entry_of :: "message_row \<Rightarrow> entry" where
  "entry_of m = \<lparr>
     e_fields = \<lparr>fields_subject = mr_subject m, fields_from = mr_sender m, fields_to = mr_recipients m\<rparr>,
     e_received = mr_received m,
     e_flags = \<lparr>flags_seen = mr_seen m, flags_flagged = mr_flagged m\<rparr>,
     e_pending = (\<lambda>flag. pending_value flag m),
     e_content = projr (stored_content m),
     e_preview = mr_preview m\<rparr>"

definition folder_of :: "folder_row \<Rightarrow> folder \<times> folder_state" where
  "folder_of r = (projr (stored_folder r), projr (state_from_row r))"

record view =
  v_folder :: "string \<Rightarrow> string \<Rightarrow> (folder \<times> folder_state) option"
  v_message :: "string \<Rightarrow> string \<Rightarrow> entry option"
  v_holds :: "string \<Rightarrow> string \<Rightarrow> string set"

definition view_of :: "db \<Rightarrow> view" where
  "view_of d = \<lparr>
     v_folder = (\<lambda>a f. map_option folder_of (lookup_folder d a f)),
     v_message = (\<lambda>a i. map_option entry_of (lookup_message d a i)),
     v_holds = held d\<rparr>"

section \<open>The specification of the statements\<close>

definition spec_update :: "string \<Rightarrow> string \<Rightarrow> (entry \<Rightarrow> entry) \<Rightarrow> view \<Rightarrow> view" where
  "spec_update a i g v = v\<lparr>v_message := (\<lambda>b j. if b = a \<and> j = i then map_option g (v_message v b j) else v_message v b j)\<rparr>"

definition spec_remove :: "string \<Rightarrow> string \<Rightarrow> string \<Rightarrow> view \<Rightarrow> view" where
  "spec_remove a f i v = v\<lparr>v_holds := (\<lambda>b g. if b = a \<and> g = f then v_holds v b g - {i} else v_holds v b g)\<rparr>"

definition spec_purge :: "string \<Rightarrow> view \<Rightarrow> view" where
  "spec_purge a v = v\<lparr>v_message := (\<lambda>b j. if b = a \<and> (\<forall>f. j \<notin> v_holds v b f) then None else v_message v b j)\<rparr>"

definition spec_hold :: "string \<Rightarrow> string \<Rightarrow> string \<Rightarrow> view \<Rightarrow> view" where
  "spec_hold a f i v = v\<lparr>v_holds := (\<lambda>b g. if b = a \<and> g = f then insert i (v_holds v b g) else v_holds v b g)\<rparr>"

text \<open>A full record: a new entry, or the old one with the record's data and the merged content.\<close>

definition arrived_entry :: "message \<Rightarrow> entry option \<Rightarrow> entry" where
  "arrived_entry message old = \<lparr>
     e_fields = msg_fields message,
     e_received = msg_received message,
     e_flags = \<lparr>flags_seen = msg_seen message, flags_flagged = msg_flagged message\<rparr>,
     e_pending = (case old of None \<Rightarrow> (\<lambda>_. None) | Some e \<Rightarrow> e_pending e),
     e_content = (case old of None \<Rightarrow> msg_content message | Some e \<Rightarrow> merged_content (msg_content message) (e_content e)),
     e_preview = msg_preview message\<rparr>"

definition spec_arrive :: "string \<Rightarrow> string \<Rightarrow> message \<Rightarrow> view \<Rightarrow> view" where
  "spec_arrive a f message v = spec_hold a f (msg_identity message)
     (v\<lparr>v_message := (\<lambda>b j. if b = a \<and> j = msg_identity message then Some (arrived_entry message (v_message v b j)) else v_message v b j)\<rparr>)"

definition spec_known :: "string \<Rightarrow> string \<Rightarrow> string \<Rightarrow> view \<Rightarrow> view" where
  "spec_known a f i v = (if v_message v a i = None then v else spec_hold a f i v)"

definition spec_state :: "string \<Rightarrow> string \<Rightarrow> folder_state \<Rightarrow> view \<Rightarrow> view" where
  "spec_state a f state v = v\<lparr>v_folder := (\<lambda>b g. if b = a \<and> g = f then map_option (\<lambda>(folder, _). (folder, state)) (v_folder v b g) else v_folder v b g)\<rparr>"

section \<open>The statements act as specified\<close>

lemma view_eqI:
  "v_folder v = v_folder w \<Longrightarrow> v_message v = v_message w \<Longrightarrow> v_holds v = v_holds w \<Longrightarrow> (v::view) = w"
  by (cases v; cases w) simp

lemma view_of_simps [simp]:
  "v_folder (view_of d) a f = map_option folder_of (lookup_folder d a f)"
  "v_message (view_of d) a i = map_option entry_of (lookup_message d a i)"
  "v_holds (view_of d) = held d"
  by (simp_all add: view_of_def)

lemma find_map_if:
  "(\<And>m. P (h m) = P m) \<Longrightarrow> find P (map h xs) = map_option h (find P xs)"
  by (induction xs) auto

lemma held_image:
  assumes "set (db_folders d') = g ` set (db_folders d)" and "set (db_messages d') = h ` set (db_messages d)"
    and "\<And>r. fr_id (g r) = fr_id r" "\<And>r a f. folder_at a f (g r) = folder_at a f r"
    and "\<And>m. mr_id (h m) = mr_id m" "\<And>m a i. message_at a i (h m) = message_at a i m"
    and "set (db_memberships d') = set (db_memberships d)"
  shows "held d' = held d"
  by (simp add: held_def assms fun_eq_iff)

lemma view_update_message:
  assumes ok: "tables_ok d" and h: "harmless assign"
    and g: "\<And>m. message_row_ok m \<Longrightarrow> entry_of (assign m) = g (entry_of m)"
  shows "view_of (sql_update_message a i assign d) = spec_update a i g (view_of d)"
proof (rule view_eqI)
  let ?h = "\<lambda>m. if message_at a i m then assign m else m"
  have at: "message_at b j (?h m) = message_at b j m" for b j m
    using h by (simp add: message_at_def harmless_keys)
  have find: "lookup_message (sql_update_message a i assign d) b j = map_option ?h (lookup_message d b j)" for b j
    unfolding lookup_message_def sql_update_message_def
    by (simp del: if_split) (rule find_map_if, rule at)
  have "entry_of (?h m) = (if b = a \<and> j = i then g (entry_of m) else entry_of m)"
    if "lookup_message d b j = Some m" for b j m
    using that ok g by (auto simp: lookup_message_iff message_at_def tables_ok_def messages_ok_def)
  then show "v_message (view_of (sql_update_message a i assign d)) = v_message (spec_update a i g (view_of d))"
    by (auto simp: fun_eq_iff find spec_update_def option.map_comp o_def intro!: option.map_cong0 option.map_cong)
  show "v_holds (view_of (sql_update_message a i assign d)) = v_holds (spec_update a i g (view_of d))"
    using h at by (simp add: spec_update_def) (rule held_image [where g = id and h = ?h], auto simp: sql_update_message_def harmless_keys)
qed (simp add: fun_eq_iff spec_update_def lookup_folder_def sql_update_message_def)

lemma view_set_state:
  assumes ok: "tables_ok d" and r: "lookup_folder d a f = Some r"
  shows "view_of (sql_set_folder_state (fr_id r) state d) = spec_state a f state (view_of d)"
proof (rule view_eqI)
  let ?g = "\<lambda>s. if fr_id s = fr_id r then row_with_state state s else s"
  have at: "folder_at b g (?g s) = folder_at b g s" for b g s
    by (simp add: folder_at_def)
  have find: "lookup_folder (sql_set_folder_state (fr_id r) state d) b g = map_option ?g (lookup_folder d b g)" for b g
    unfolding lookup_folder_def sql_set_folder_state_def
    by (simp del: if_split) (rule find_map_if, rule at)
  have "folder_of (?g s) = (if b = a \<and> g = f then (fst (folder_of s), state) else folder_of s)"
    if "lookup_folder d b g = Some s" for b g s
  proof -
    from that r have s: "s \<in> set (db_folders d)" "folder_at b g s" and r': "r \<in> set (db_folders d)" "folder_at a f r"
      using ok by (auto simp: lookup_folder_iff)
    have "fr_id s = fr_id r \<longleftrightarrow> b = a \<and> g = f"
    proof
      assume "fr_id s = fr_id r"
      then have "s = r" using folder_id_unique [OF ok] s r' by blast
      then show "b = a \<and> g = f" using s r' by (simp add: folder_at_def)
    next
      assume "b = a \<and> g = f"
      then show "fr_id s = fr_id r" using that r by simp
    qed
    then show ?thesis by (simp add: folder_of_def state_from_row_with_state)
  qed
  then show "v_folder (view_of (sql_set_folder_state (fr_id r) state d)) = v_folder (spec_state a f state (view_of d))"
    by (auto simp: fun_eq_iff find spec_state_def option.map_comp o_def case_prod_beta intro!: option.map_cong)
  show "v_holds (view_of (sql_set_folder_state (fr_id r) state d)) = v_holds (spec_state a f state (view_of d))"
    using at by (simp add: spec_state_def) (rule held_image [where g = ?g and h = id], auto simp: sql_set_folder_state_def)
qed (simp add: fun_eq_iff spec_state_def lookup_message_def sql_set_folder_state_def)

lemma held_delete_membership:
  assumes ok: "tables_ok d" and r: "lookup_folder d a f = Some r"
  shows "held (sql_delete_membership (fr_id r) a i d) = (\<lambda>b g. if b = a \<and> g = f then held d b g - {i} else held d b g)"
proof (intro ext set_eqI)
  fix b g j
  let ?d = "sql_delete_membership (fr_id r) a i d"
  have tables: "db_folders ?d = db_folders d" "db_messages ?d = db_messages d"
    by (simp_all add: sql_delete_membership_def)
  have r': "r \<in> set (db_folders d)" "folder_at a f r" using r ok by (auto simp: lookup_folder_iff)
  have keep: "(fr_id s, mr_id m) \<in> set (db_memberships ?d) \<longleftrightarrow> (fr_id s, mr_id m) \<in> set (db_memberships d) \<and> \<not> (b = a \<and> g = f \<and> j = i)"
    if s: "s \<in> set (db_folders d)" "folder_at b g s" and m: "m \<in> set (db_messages d)" "message_at b j m" for s m
  proof -
    have 1: "fr_id s = fr_id r \<longleftrightarrow> b = a \<and> g = f"
    proof
      assume "fr_id s = fr_id r"
      then have "s = r" using folder_id_unique [OF ok] s r' by blast
      then show "b = a \<and> g = f" using s r' by (simp add: folder_at_def)
    next
      assume "b = a \<and> g = f"
      then have "lookup_folder d a f = Some s" using lookup_folder_iff [OF ok] s by blast
      with r show "fr_id s = fr_id r" by simp
    qed
    have 2: "(\<exists>k \<in> set (db_messages d). message_at a i k \<and> mr_id k = mr_id m) \<longleftrightarrow> message_at a i m"
      using message_id_unique [OF ok] m by blast
    have 3: "message_at a i m \<longleftrightarrow> b = a \<and> j = i"
      using m(2) by (auto simp: message_at_def)
    have "(fr_id s, mr_id m) \<in> set (db_memberships ?d) \<longleftrightarrow> (fr_id s, mr_id m) \<in> set (db_memberships d) \<and>
        \<not> (fr_id s = fr_id r \<and> (\<exists>k \<in> set (db_messages d). message_at a i k \<and> mr_id k = mr_id m))"
      by (simp add: sql_delete_membership_def)
    then show ?thesis unfolding 1 2 3 by blast
  qed
  show "j \<in> held ?d b g \<longleftrightarrow> j \<in> (if b = a \<and> g = f then held d b g - {i} else held d b g)"
    unfolding held_def tables using keep by (auto split: if_splits)
qed

lemma view_delete_membership:
  assumes "tables_ok d" and "lookup_folder d a f = Some r"
  shows "view_of (sql_delete_membership (fr_id r) a i d) = spec_remove a f i (view_of d)"
proof (rule view_eqI)
  show "v_holds (view_of (sql_delete_membership (fr_id r) a i d)) = v_holds (spec_remove a f i (view_of d))"
    by (simp add: held_delete_membership [OF assms] spec_remove_def cong: if_cong)
qed (simp_all add: spec_remove_def fun_eq_iff lookup_folder_def lookup_message_def sql_delete_membership_def)

lemma held_some_folder:
  assumes ok: "tables_ok d" and m: "m \<in> set (db_messages d)"
  shows "mr_id m \<in> snd ` set (db_memberships d) \<longleftrightarrow> (\<exists>f. mr_identity m \<in> held d (mr_account m) f)"
proof
  assume "mr_id m \<in> snd ` set (db_memberships d)"
  then obtain f where f: "(f, mr_id m) \<in> set (db_memberships d)" by auto
  then have "linked d (f, mr_id m)" using ok by (auto simp: tables_ok_def memberships_ok_def)
  then obtain r k where rk: "r \<in> set (db_folders d)" "k \<in> set (db_messages d)" "fr_id r = f" "mr_id k = mr_id m"
    "fr_account r = mr_account k" by (auto simp: linked_def)
  then have "k = m" using message_id_unique [OF ok _ m] by blast
  with rk f m have "mr_identity m \<in> held d (mr_account m) (fr_identity r)"
    by (auto simp: held_def folder_at_def message_at_def)
  then show "\<exists>f. mr_identity m \<in> held d (mr_account m) f" ..
next
  assume "\<exists>f. mr_identity m \<in> held d (mr_account m) f"
  then obtain f r k where "r \<in> set (db_folders d)" "k \<in> set (db_messages d)" "message_at (mr_account m) (mr_identity m) k"
    and p: "(fr_id r, mr_id k) \<in> set (db_memberships d)"
    by (auto simp: held_def)
  then have "k = m" using lookup_message_iff [OF ok] m by (metis message_at_def option.inject)
  with p show "mr_id m \<in> snd ` set (db_memberships d)" by force
qed

lemma find_filter:
  assumes "distinct (map k xs)" and "\<And>x. P x \<longleftrightarrow> k x = c"
  shows "find P (filter Q xs) = (case find P xs of Some x \<Rightarrow> if Q x then Some x else None | None \<Rightarrow> None)"
  using assms
proof (induction xs)
  case (Cons x xs)
  then show ?case by (auto simp: find_None_iff' split: option.splits dest!: find_Some_mem)
qed simp

lemma lookup_message_filter:
  assumes "tables_ok d"
  shows "find (message_at a i) (filter Q (db_messages d)) = (case lookup_message d a i of Some m \<Rightarrow> if Q m then Some m else None | None \<Rightarrow> None)"
  unfolding lookup_message_def message_key_iff [symmetric]
  using assms by (intro find_filter [where k = message_key]) (auto simp: tables_ok_def messages_ok_def)

lemma lookup_folder_filter:
  assumes "tables_ok d"
  shows "find (folder_at a i) (filter Q (db_folders d)) = (case lookup_folder d a i of Some m \<Rightarrow> if Q m then Some m else None | None \<Rightarrow> None)"
  unfolding lookup_folder_def folder_key_iff [symmetric]
  using assms by (intro find_filter [where k = folder_key]) (auto simp: tables_ok_def folders_ok_def)

lemma orphans_tables:
  "db_folders (sql_delete_orphans a d) = db_folders d"
  "db_messages (sql_delete_orphans a d) = filter (\<lambda>m. mr_account m = a \<longrightarrow> mr_id m \<in> snd ` set (db_memberships d)) (db_messages d)"
  by (auto simp: sql_delete_orphans_def intro!: filter_cong)

text \<open>Deleting the messages no folder holds leaves every membership.\<close>

lemma orphans_memberships:
  "set (db_memberships (sql_delete_orphans a d)) = set (db_memberships d)"
  by (force simp: sql_delete_orphans_def sql_delete_messages_def)

lemma held_delete_orphans: "tables_ok d \<Longrightarrow> held (sql_delete_orphans a d) = held d"
  unfolding held_def orphans_tables orphans_memberships by (force simp: fun_eq_iff)

lemma view_delete_orphans:
  assumes ok: "tables_ok d"
  shows "view_of (sql_delete_orphans a d) = spec_purge a (view_of d)"
proof (rule view_eqI)
  have "lookup_message (sql_delete_orphans a d) b j =
      (if b = a \<and> (\<forall>f. j \<notin> held d b f) then None else lookup_message d b j)" for b j
  proof (cases "lookup_message d b j")
    case None
    then show ?thesis
      by (simp add: lookup_message_def orphans_tables lookup_message_filter [OF ok, unfolded lookup_message_def])
  next
    case (Some m)
    then have m: "m \<in> set (db_messages d)" "mr_account m = b" "mr_identity m = j"
      using ok by (auto simp: lookup_message_iff message_at_def)
    have "lookup_message (sql_delete_orphans a d) b j = (if mr_account m = a \<longrightarrow> mr_id m \<in> snd ` set (db_memberships d) then Some m else None)"
      using Some by (simp add: lookup_message_def orphans_tables lookup_message_filter [OF ok, unfolded lookup_message_def])
    then show ?thesis
      unfolding held_some_folder [OF ok m(1)] using m Some by auto
  qed
  then show "v_message (view_of (sql_delete_orphans a d)) = v_message (spec_purge a (view_of d))"
    by (auto simp: fun_eq_iff spec_purge_def)
qed (simp_all add: held_delete_orphans [OF ok] spec_purge_def fun_eq_iff lookup_folder_def orphans_tables)

text \<open>The folder of a batch: its row is in the table and belongs to the account.\<close>

definition batch_ready :: "string \<Rightarrow> string \<Rightarrow> nat \<Rightarrow> db \<Rightarrow> bool" where
  "batch_ready a f folder_id d \<longleftrightarrow> tables_ok d \<and> (\<exists>r. lookup_folder d a f = Some r \<and> fr_id r = folder_id)"

lemma sql_relate_ready:
  assumes ready: "batch_ready a f folder_id d" and m: "m \<in> set (db_messages d)" "message_at a i m"
  obtains d' where "sql_relate folder_id (mr_id m) d = Inr ((), d')" and "tables_ok d'"
    and "db_folders d' = db_folders d" and "db_messages d' = db_messages d"
    and "view_of d' = spec_hold a f i (view_of d)"
proof -
  from ready obtain r where ok: "tables_ok d" and r: "r \<in> set (db_folders d)" "folder_at a f r" "fr_id r = folder_id"
    by (auto simp: batch_ready_def lookup_folder_iff)
  let ?d = "d\<lparr>db_memberships := List.insert (folder_id, mr_id m) (db_memberships d)\<rparr>"
  have rel: "sql_relate folder_id (mr_id m) d = Inr ((), ?d)"
    using r m by (auto simp: sql_relate_def)
  have acc: "fr_account s = mr_account k"
    if "s \<in> set (db_folders d)" "k \<in> set (db_messages d)" "fr_id s = folder_id" "mr_id k = mr_id m" for s k
    using that folder_id_unique [OF ok that(1) r(1)] message_id_unique [OF ok that(2) m(1)] r m
    by (auto simp: folder_at_def message_at_def)
  have ok': "tables_ok ?d" by (rule tables_ok_relate [OF ok rel acc])
  have "held ?d = (\<lambda>b g. if b = a \<and> g = f then insert i (held d b g) else held d b g)"
  proof (intro ext set_eqI)
    fix b g j
    have pair: "(fr_id s, mr_id k) = (folder_id, mr_id m) \<longleftrightarrow> b = a \<and> g = f \<and> j = i"
      if s: "s \<in> set (db_folders d)" "folder_at b g s" and k: "k \<in> set (db_messages d)" "message_at b j k" for s k
    proof
      assume "(fr_id s, mr_id k) = (folder_id, mr_id m)"
      then have "s = r" "k = m" using folder_id_unique [OF ok s(1) r(1)] message_id_unique [OF ok k(1) m(1)] r by auto
      then show "b = a \<and> g = f \<and> j = i" using s k r m by (auto simp: folder_at_def message_at_def)
    next
      assume "b = a \<and> g = f \<and> j = i"
      then have "s = r" "k = m" using s k r m lookup_folder_iff [OF ok] lookup_message_iff [OF ok] by (metis option.inject)+
      then show "(fr_id s, mr_id k) = (folder_id, mr_id m)" using r by simp
    qed
    have "j \<in> held ?d b g \<longleftrightarrow> (\<exists>s \<in> set (db_folders d). \<exists>k \<in> set (db_messages d). folder_at b g s \<and> message_at b j k \<and>
        ((fr_id s, mr_id k) = (folder_id, mr_id m) \<or> (fr_id s, mr_id k) \<in> set (db_memberships d)))"
      by (auto simp: held_def)
    also have "\<dots> \<longleftrightarrow> (b = a \<and> g = f \<and> j = i) \<or> j \<in> held d b g"
      using pair r m by (auto simp: held_def)
    finally show "j \<in> held ?d b g \<longleftrightarrow> j \<in> (if b = a \<and> g = f then insert i (held d b g) else held d b g)" by auto
  qed
  then have "view_of ?d = spec_hold a f i (view_of d)"
    by (intro view_eqI) (simp_all add: spec_hold_def fun_eq_iff lookup_folder_def lookup_message_def cong: if_cong)
  with rel ok' show thesis by (intro that) simp_all
qed

definition arrive_db :: "nat \<Rightarrow> string \<Rightarrow> message \<Rightarrow> db \<Rightarrow> db" where
  "arrive_db folder_id a message d = (case sql_upsert_message a message d of
     Inl _ \<Rightarrow> d
   | Inr (message_id, d1) \<Rightarrow> (case sql_relate folder_id message_id d1 of Inl _ \<Rightarrow> d1 | Inr (_, d2) \<Rightarrow> d2))"

lemma entry_of_new: "entry_of (new_message_row i a message) = arrived_entry message None"
  using stored_content_new_row [of i a message]
  by (simp add: entry_of_def arrived_entry_def pending_value_def fun_eq_iff split: message_flag.split)
     (simp add: new_message_row_def)

lemma entry_of_merge:
  "message_row_ok m \<Longrightarrow> entry_of (merge_message message m) = arrived_entry message (Some (entry_of m))"
  using stored_content_merge [of m _ message]
  by (auto simp: message_row_ok_iff entry_of_def arrived_entry_def pending_value_def fun_eq_iff split: message_flag.split)
     (auto simp: merge_message_def case_prod_beta)

lemma view_upsert_message:
  assumes ok: "tables_ok d" and up: "sql_upsert_message a message d = Inr (message_id, d1)"
  shows "view_of d1 = (view_of d)\<lparr>v_message := (\<lambda>b j. if b = a \<and> j = msg_identity message
      then Some (arrived_entry message (v_message (view_of d) b j)) else v_message (view_of d) b j)\<rparr>"
proof (cases "lookup_message d a (msg_identity message)")
  case None
  let ?new = "new_message_row (fresh_id (map mr_id (db_messages d))) a message"
  from None up have d1: "d1 = d\<lparr>db_messages := db_messages d @ [?new]\<rparr>"
    by (auto simp: sql_upsert_message_def lookup_message_def Let_def)
  have at: "message_at b j ?new \<longleftrightarrow> b = a \<and> j = msg_identity message" for b j
    by (auto simp: message_at_def new_message_row_def)
  have find_end: "find P (xs @ [x]) = (case find P xs of Some y \<Rightarrow> Some y | None \<Rightarrow> if P x then Some x else None)" for P and xs :: "message_row list" and x
    by (induction xs) auto
  have look: "lookup_message d1 b j = (if b = a \<and> j = msg_identity message then Some ?new else lookup_message d b j)" for b j
    using None by (simp add: d1 lookup_message_def find_end at split: option.split)
  have "held d1 = held d"
  proof (intro ext set_eqI)
    fix b g j
    have "(i, mr_id ?new) \<notin> set (db_memberships d)" for i
    proof
      assume "(i, mr_id ?new) \<in> set (db_memberships d)"
      then have "linked d (i, mr_id ?new)" using ok by (auto simp: tables_ok_def memberships_ok_def)
      then have "mr_id ?new \<in> mr_id ` set (db_messages d)" unfolding linked_def by (metis image_eqI snd_conv)
      then show False using fresh_id_fresh [of "map mr_id (db_messages d)"] by (simp add: new_message_row_def)
    qed
    then show "j \<in> held d1 b g \<longleftrightarrow> j \<in> held d b g" by (auto simp: held_def d1)
  qed
  moreover have "v_folder (view_of d1) = v_folder (view_of d)"
    by (simp add: fun_eq_iff lookup_folder_def d1)
  ultimately show ?thesis
    using None by (intro view_eqI) (simp_all add: fun_eq_iff look entry_of_new)
next
  case (Some m)
  then have d1: "d1 = sql_update_message a (msg_identity message) (merge_message message) d"
    using up by (auto simp: sql_upsert_message_def lookup_message_def)
  have "view_of d1 = spec_update a (msg_identity message) (\<lambda>e. arrived_entry message (Some e)) (view_of d)"
    unfolding d1 by (rule view_update_message [OF ok harmless_merge]) (rule entry_of_merge)
  then show ?thesis
    using Some by (auto simp: spec_update_def fun_eq_iff intro!: view_eqI)
qed

lemma upsert_message_returns: "\<exists>message_id d1. sql_upsert_message a message d = Inr (message_id, d1)"
  by (auto simp: sql_upsert_message_def Let_def split: option.split)

lemma arrive_ready:
  assumes ready: "batch_ready a f folder_id d"
  obtains message_id d1 where "sql_upsert_message a message d = Inr (message_id, d1)"
    and "sql_relate folder_id message_id d1 = Inr ((), arrive_db folder_id a message d)"
    and "batch_ready a f folder_id (arrive_db folder_id a message d)"
    and "view_of (arrive_db folder_id a message d) = spec_arrive a f message (view_of d)"
proof -
  from ready have ok: "tables_ok d" by (simp add: batch_ready_def)
  obtain message_id d1 where up: "sql_upsert_message a message d = Inr (message_id, d1)"
    using upsert_message_returns by blast
  note up_ok = tables_ok_upsert_message [OF ok up]
  then obtain m where m: "m \<in> set (db_messages d1)" "mr_id m = message_id" "message_at a (msg_identity message) m" by blast
  have ready1: "batch_ready a f folder_id d1"
    using ready up_ok by (auto simp: batch_ready_def lookup_folder_def)
  obtain d2 where d2: "sql_relate folder_id message_id d1 = Inr ((), d2)" "tables_ok d2" "db_folders d2 = db_folders d1"
    "view_of d2 = spec_hold a f (msg_identity message) (view_of d1)"
    using sql_relate_ready [OF ready1 m(1,3)] m(2) by metis
  have "arrive_db folder_id a message d = d2" by (simp add: arrive_db_def up d2)
  moreover have "batch_ready a f folder_id d2"
    using ready1 d2 by (auto simp: batch_ready_def lookup_folder_def)
  ultimately show thesis
    using that [OF up] d2 view_upsert_message [OF ok up] by (simp add: spec_arrive_def)
qed

definition known_db :: "nat \<Rightarrow> string \<Rightarrow> string \<Rightarrow> db \<Rightarrow> db" where
  "known_db folder_id a i d = (case sql_relate_known folder_id a i d of Inl _ \<Rightarrow> d | Inr (_, d') \<Rightarrow> d')"

lemma known_ready:
  assumes ready: "batch_ready a f folder_id d"
  shows "sql_relate_known folder_id a i d = Inr ((), known_db folder_id a i d)"
    and "batch_ready a f folder_id (known_db folder_id a i d)"
    and "view_of (known_db folder_id a i d) = spec_known a f i (view_of d)"
proof -
  from ready have ok: "tables_ok d" by (simp add: batch_ready_def)
  have "sql_relate_known folder_id a i d = Inr ((), known_db folder_id a i d) \<and>
    batch_ready a f folder_id (known_db folder_id a i d) \<and>
    view_of (known_db folder_id a i d) = spec_known a f i (view_of d)"
  proof (cases "lookup_message d a i")
    case None
    then show ?thesis using ready by (simp add: known_db_def sql_relate_known_def lookup_message_def spec_known_def)
  next
    case (Some m)
    then have m: "m \<in> set (db_messages d)" "message_at a i m" using ok by (auto simp: lookup_message_iff)
    obtain d2 where d2: "sql_relate folder_id (mr_id m) d = Inr ((), d2)" "tables_ok d2" "db_folders d2 = db_folders d"
      "view_of d2 = spec_hold a f i (view_of d)"
      using sql_relate_ready [OF ready m] by metis
    moreover have "batch_ready a f folder_id d2"
      using ready d2 by (auto simp: batch_ready_def lookup_folder_def)
    ultimately show ?thesis using Some by (simp add: known_db_def sql_relate_known_def lookup_message_def spec_known_def)
  qed
  then show "sql_relate_known folder_id a i d = Inr ((), known_db folder_id a i d)"
    "batch_ready a f folder_id (known_db folder_id a i d)"
    "view_of (known_db folder_id a i d) = spec_known a f i (view_of d)" by simp_all
qed

end
