(* ===== verification/Store_Spec.thy ===== *)
theory Store_Spec
  imports Store_View
begin

text \<open>
  What the store's writes compute on the database, and what they do to the view: a cycle's batch,
  a folder list, the changes of pending values and the deletion of other accounts.
\<close>

section \<open>A cycle's batch\<close>

definition flags_db :: "string \<Rightarrow> (string \<times> message_flags) list \<Rightarrow> db \<Rightarrow> db" where
  "flags_db a states = fold (\<lambda>(i, flags). sql_update_message a i (set_flags_of flags)) states"

definition removals_db :: "nat \<Rightarrow> string \<Rightarrow> string list \<Rightarrow> db \<Rightarrow> db" where
  "removals_db folder_id a removed d =
     (if removed \<noteq> [] then sql_delete_orphans a (fold (sql_delete_membership folder_id a) removed d) else d)"

definition state_db :: "nat \<Rightarrow> folder_state option \<Rightarrow> db \<Rightarrow> db" where
  "state_db folder_id state d = (case state of Some st \<Rightarrow> sql_set_folder_state folder_id st d | None \<Rightarrow> d)"

definition batch_db :: "nat \<Rightarrow> string \<Rightarrow> folder_batch \<Rightarrow> db \<Rightarrow> db" where
  "batch_db folder_id a batch d =
     state_db folder_id (batch_state batch)
       (flags_db a (batch_known_arrived batch)
         (fold (\<lambda>(i, _). known_db folder_id a i) (batch_known_arrived batch)
           (fold (arrive_db folder_id a) (batch_arrived batch)
             (flags_db a (batch_flag_states batch)
               (removals_db folder_id a (batch_removed batch) d)))))"

definition with_flags :: "message_flags \<Rightarrow> entry \<Rightarrow> entry" where
  "with_flags flags e = e\<lparr>e_flags := flags\<rparr>"

definition spec_flags :: "string \<Rightarrow> (string \<times> message_flags) list \<Rightarrow> view \<Rightarrow> view" where
  "spec_flags a states = fold (\<lambda>(i, flags). spec_update a i (with_flags flags)) states"

definition spec_removals :: "string \<Rightarrow> string \<Rightarrow> string list \<Rightarrow> view \<Rightarrow> view" where
  "spec_removals a f removed v = (if removed \<noteq> [] then spec_purge a (fold (spec_remove a f) removed v) else v)"

text \<open>
  A batch on the view: the removals and the messages then in no folder, the reported flags, the
  full records, the messages the account already held, and the folder's state.
\<close>

definition spec_batch :: "string \<Rightarrow> string \<Rightarrow> folder_batch \<Rightarrow> view \<Rightarrow> view" where
  "spec_batch a f batch v =
     (let v1 = spec_removals a f (batch_removed batch) v;
          v2 = spec_flags a (batch_flag_states batch) v1;
          v3 = fold (spec_arrive a f) (batch_arrived batch) v2;
          v4 = fold (\<lambda>(i, _). spec_known a f i) (batch_known_arrived batch) v3;
          v5 = spec_flags a (batch_known_arrived batch) v4
      in (case batch_state batch of Some st \<Rightarrow> spec_state a f st v5 | None \<Rightarrow> v5))"

text \<open>
  Each step keeps the folder's row and acts on the view as specified: \<open>refines S f g\<close>.
\<close>

definition refines :: "(db \<Rightarrow> bool) \<Rightarrow> (db \<Rightarrow> db) \<Rightarrow> (view \<Rightarrow> view) \<Rightarrow> bool" where
  "refines S f g \<longleftrightarrow> (\<forall>d. S d \<longrightarrow> S (f d) \<and> view_of (f d) = g (view_of d))"

lemma refinesI: "(\<And>d. S d \<Longrightarrow> S (f d)) \<Longrightarrow> (\<And>d. S d \<Longrightarrow> view_of (f d) = g (view_of d)) \<Longrightarrow> refines S f g"
  by (simp add: refines_def)

lemma refinesD: "refines S f g \<Longrightarrow> S d \<Longrightarrow> S (f d)" "refines S f g \<Longrightarrow> S d \<Longrightarrow> view_of (f d) = g (view_of d)"
  by (simp_all add: refines_def)

lemma refines_comp: "refines S f g \<Longrightarrow> refines S f' g' \<Longrightarrow> refines S (\<lambda>d. f' (f d)) (\<lambda>v. g' (g v))"
  by (simp add: refines_def)

lemma refines_fold: "(\<And>x. x \<in> set xs \<Longrightarrow> refines S (f x) (g x)) \<Longrightarrow> refines S (fold f xs) (fold g xs)"
proof (induction xs)
  case Nil
  show ?case by (simp add: refines_def)
next
  case (Cons x xs)
  then show ?case using refines_comp [of S "f x" "g x" "fold f xs" "fold g xs"] by (simp add: o_def)
qed

lemma entry_of_flags: "entry_of (set_flags_of flags m) = with_flags flags (entry_of m)"
  by (simp add: entry_of_def set_flags_of_def with_flags_def pending_value_def stored_content_def fun_eq_iff
      cong: option.case_cong split: message_flag.split)

lemma refines_flags: "refines (batch_ready a f folder_id) (flags_db a states) (spec_flags a states)"
  unfolding flags_db_def spec_flags_def
proof (intro refines_fold, clarsimp, rule refinesI)
  fix i flags d
  assume ready: "batch_ready a f folder_id d"
  then have ok: "tables_ok d" by (simp add: batch_ready_def)
  show "view_of (sql_update_message a i (set_flags_of flags) d) = spec_update a i (with_flags flags) (view_of d)"
    by (rule view_update_message [OF ok harmless_flags]) (rule entry_of_flags)
  show "batch_ready a f folder_id (sql_update_message a i (set_flags_of flags) d)"
    using ready tables_ok_update_message [OF ok harmless_flags]
    by (simp add: batch_ready_def lookup_folder_def sql_update_message_def)
qed

lemma ready_delete_membership:
  "batch_ready a f folder_id d \<Longrightarrow> batch_ready a f folder_id (sql_delete_membership folder_id a i d)"
  using tables_ok_delete_membership by (auto simp: batch_ready_def lookup_folder_def)
    (simp_all add: sql_delete_membership_def)

lemma tables_ok_delete_orphans: "tables_ok d \<Longrightarrow> tables_ok (sql_delete_orphans a d)"
  unfolding sql_delete_orphans_def by (rule tables_ok_delete_messages)

lemma refines_removals: "refines (batch_ready a f folder_id) (removals_db folder_id a removed) (spec_removals a f removed)"
proof -
  have "refines (batch_ready a f folder_id) (sql_delete_membership folder_id a i) (spec_remove a f i)" for i
  proof (rule refinesI)
    fix d
    assume "batch_ready a f folder_id d"
    then show "view_of (sql_delete_membership folder_id a i d) = spec_remove a f i (view_of d)"
      using view_delete_membership by (auto simp: batch_ready_def)
  qed (rule ready_delete_membership)
  then have 1: "refines (batch_ready a f folder_id) (fold (sql_delete_membership folder_id a) removed) (fold (spec_remove a f) removed)"
    by (intro refines_fold) auto
  have 2: "refines (batch_ready a f folder_id) (sql_delete_orphans a) (spec_purge a)"
    by (rule refinesI)
       (auto simp: batch_ready_def tables_ok_delete_orphans view_delete_orphans lookup_folder_def orphans_tables)
  from refines_comp [OF 1 2] show ?thesis
    by (auto simp: refines_def removals_db_def spec_removals_def)
qed

lemma refines_arrive: "refines (batch_ready a f folder_id) (fold (arrive_db folder_id a) arrived) (fold (spec_arrive a f) arrived)"
proof (rule refines_fold, rule refinesI)
  fix message d
  assume "batch_ready a f folder_id d"
  then show "batch_ready a f folder_id (arrive_db folder_id a message d)"
    "view_of (arrive_db folder_id a message d) = spec_arrive a f message (view_of d)"
    using arrive_ready by metis+
qed

lemma refines_known:
  "refines (batch_ready a f folder_id) (fold (\<lambda>(i, _). known_db folder_id a i) known) (fold (\<lambda>(i, _). spec_known a f i) known)"
  by (rule refines_fold) (auto intro!: refinesI known_ready)

lemma refines_state:
  "refines (batch_ready a f folder_id) (state_db folder_id state) (\<lambda>v. case state of Some st \<Rightarrow> spec_state a f st v | None \<Rightarrow> v)"
proof (cases state)
  case (Some st)
  have "batch_ready a f folder_id (sql_set_folder_state folder_id st d) \<and>
      view_of (sql_set_folder_state folder_id st d) = spec_state a f st (view_of d)" if ready: "batch_ready a f folder_id d" for d
  proof -
    from ready obtain r where ok: "tables_ok d" and r: "lookup_folder d a f = Some r" and i: "fr_id r = folder_id"
      by (auto simp: batch_ready_def)
    have "lookup_folder (sql_set_folder_state folder_id st d) a f = Some (row_with_state st r)"
      using r i unfolding lookup_folder_def sql_set_folder_state_def
      by (simp del: if_split) (subst find_map_if, auto simp: folder_at_def)
    then show ?thesis
      using view_set_state [OF ok r, of st] tables_ok_set_folder_state [OF ok] i by (auto simp: batch_ready_def)
  qed
  with Some show ?thesis by (auto simp: refines_def state_db_def)
qed (simp add: refines_def state_db_def)

lemma refines_batch: "refines (batch_ready a f folder_id) (batch_db folder_id a batch) (spec_batch a f batch)"
  unfolding batch_db_def spec_batch_def Let_def
  by (intro refines_comp [OF _ refines_state] refines_comp [OF _ refines_flags] refines_comp [OF _ refines_known]
      refines_comp [OF _ refines_arrive] refines_removals)

end
