(* ===== verification/Store_Writes.thy ===== *)
theory Store_Writes
  imports Store_Spec
begin

text \<open>
  The writes as the statements compute them, with every pattern of faults: what a write returns is
  what the database functions of \<open>Store_Spec\<close> compute, and a failed write changes nothing.
\<close>

section \<open>Batches\<close>

definition folder_present :: "folder_ref \<Rightarrow> db \<Rightarrow> bool" where
  "folder_present folder d \<longleftrightarrow> tables_ok d \<and> lookup_folder d (as_str (ref_account folder)) (ref_identity folder) \<noteq> None"

definition folder_id_of :: "folder_ref \<Rightarrow> db \<Rightarrow> nat" where
  "folder_id_of folder d = fr_id (the (lookup_folder d (as_str (ref_account folder)) (ref_identity folder)))"

lemma present_ready:
  "folder_present folder d \<Longrightarrow> batch_ready (as_str (ref_account folder)) (ref_identity folder) (folder_id_of folder d) d"
  by (auto simp: folder_present_def batch_ready_def folder_id_of_def)

lemma computes_stored_folder_id:
  "computes (folder_present folder) (stored_folder_id folder) (\<lambda>d. (folder_id_of folder d, d))"
  unfolding stored_folder_id_def query_row_def
proof (rule computes_statement)
  fix d
  assume "folder_present folder d"
  then show "(case filter (folder_at (as_str (ref_account folder)) (ref_identity folder)) (db_folders d) of
      [] \<Rightarrow> Inl QueryReturnedNoRows | r # _ \<Rightarrow> map_sum id (\<lambda>x. (x, d)) (Inr (fr_id r))) = Inr (folder_id_of folder d, d)"
    by (auto simp: folder_present_def lookup_folder_def folder_id_of_def filter_Nil_find split: list.split dest: filter_Cons_find)
qed

lemma computes_set_flag_states:
  "computes P (set_flag_states account states) (\<lambda>d. ((), flags_db (as_str account) states d))"
  unfolding set_flag_states_def flags_db_def
  by (rule computes_prepare_then, rule computes_weaken [where P = "\<lambda>_. True"])
     (rule computes_for_each, auto intro: computes_execute)

lemma computes_removals:
  "computes P (only_if (removed \<noteq> []) (and_then (delete_memberships folder_id account removed) (\<lambda>_. delete_messages_without_folder account)))
     (\<lambda>d. ((), removals_db folder_id (as_str account) removed d))"
proof -
  have 1: "computes P (delete_memberships folder_id account removed) (\<lambda>d. ((), fold (sql_delete_membership folder_id (as_str account)) removed d))"
    unfolding delete_memberships_def
    by (rule computes_prepare_then, rule computes_weaken [where P = "\<lambda>_. True"])
       (rule computes_for_each, auto intro: computes_execute)
  have 2: "computes (\<lambda>_. True) (delete_messages_without_folder account) (\<lambda>d. ((), sql_delete_orphans (as_str account) d))"
    unfolding delete_messages_without_folder_def by (rule computes_execute)
  have "computes P (and_then (delete_memberships folder_id account removed) (\<lambda>_. delete_messages_without_folder account))
      (\<lambda>d. ((), sql_delete_orphans (as_str account) (fold (sql_delete_membership folder_id (as_str account)) removed d)))"
    by (rule computes_unit_then [OF 1 2]) simp
  from computes_only_if [OF this, where b = "removed \<noteq> []"] show ?thesis
    by (simp add: removals_db_def)
qed

lemma computes_store_arrived:
  "computes (batch_ready (as_str account) f folder_id) (store_arrived folder_id account arrived)
     (\<lambda>d. ((), fold (arrive_db folder_id (as_str account)) arrived d))"
  unfolding store_arrived_def
proof (intro computes_prepare_then computes_for_each)
  fix message
  let ?up = "sql_upsert_message (as_str account) message"
  have 1: "computes (batch_ready (as_str account) f folder_id) (statement ?up) (\<lambda>d. projr (?up d))"
    by (rule computes_statement) (metis upsert_message_returns sum.sel(2))
  have 2: "computes (\<lambda>d'. \<exists>d. batch_ready (as_str account) f folder_id d \<and> projr (?up d) = (i, d'))
      (statement (sql_relate folder_id i)) (\<lambda>d'. projr (sql_relate folder_id i d'))" for i
  proof (rule computes_statement)
    fix d'
    assume "\<exists>d. batch_ready (as_str account) f folder_id d \<and> projr (?up d) = (i, d')"
    then obtain d where d: "batch_ready (as_str account) f folder_id d" "projr (?up d) = (i, d')" by blast
    from arrive_ready [OF d(1), of message] d(2) show "sql_relate folder_id i d' = Inr (projr (sql_relate folder_id i d'))"
      by (metis sum.sel(2) prod.inject)
  qed
  show "computes (batch_ready (as_str account) f folder_id) (and_then (statement ?up) (\<lambda>i. statement (sql_relate folder_id i)))
      (\<lambda>d. ((), arrive_db folder_id (as_str account) message d))"
  proof (rule computes_weaken [OF computes_and_then [OF 1 2]])
    fix d
    assume "batch_ready (as_str account) f folder_id d"
    then obtain i d1 where "?up d = Inr (i, d1)" "sql_relate folder_id i d1 = Inr ((), arrive_db folder_id (as_str account) message d)"
      using arrive_ready by metis
    then show "(case projr (?up d) of (i, d') \<Rightarrow> projr (sql_relate folder_id i d')) = ((), arrive_db folder_id (as_str account) message d)"
      by simp
  qed simp
next
  fix message d
  assume "batch_ready (as_str account) f folder_id d"
  then show "batch_ready (as_str account) f folder_id (arrive_db folder_id (as_str account) message d)"
    using arrive_ready by metis
qed

lemma computes_relate_known:
  "computes (batch_ready (as_str account) f folder_id) (relate_known folder_id account known)
     (\<lambda>d. ((), flags_db (as_str account) known (fold (\<lambda>(i, _). known_db folder_id (as_str account) i) known d)))"
  unfolding relate_known_def
proof (rule computes_prepare_then, rule computes_unit_then [where Q = "\<lambda>_. True", OF _ computes_set_flag_states])
  show "computes (batch_ready (as_str account) f folder_id)
      (for_each (\<lambda>(i, _). statement (sql_relate_known folder_id (as_str account) i)) known)
      (\<lambda>d. ((), fold (\<lambda>(i, _). known_db folder_id (as_str account) i) known d))"
    by (rule computes_for_each) (auto intro!: computes_statement known_ready)
qed simp

lemma computes_state:
  "computes P (case state of Some st \<Rightarrow> write_folder_state folder_id st | None \<Rightarrow> ret ()) (\<lambda>d. ((), state_db folder_id state d))"
  by (cases state) (simp_all add: write_folder_state_def state_db_def computes_execute computes_ret del: ret_run)

lemma computes_refining_then:
  "computes P m (\<lambda>d. ((), f d)) \<Longrightarrow> computes P k h \<Longrightarrow> refines P f g \<Longrightarrow> computes P (and_then m (\<lambda>_. k)) (\<lambda>d. h (f d))"
  by (rule computes_unit_then [where Q = P]) (auto simp: refines_def)

lemma computes_batch_body:
  "computes (folder_present folder) (store_batch_body folder batch)
     (\<lambda>d. (Stored, batch_db (folder_id_of folder d) (as_str (ref_account folder)) batch d))"
proof -
  let ?a = "as_str (ref_account folder)" and ?f = "ref_identity folder"
  have rest: "computes (batch_ready ?a ?f i)
     (and_then (only_if (batch_removed batch \<noteq> [])
       (and_then (delete_memberships i (ref_account folder) (batch_removed batch)) (\<lambda>_.
        delete_messages_without_folder (ref_account folder)))) (\<lambda>_.
     and_then (set_flag_states (ref_account folder) (batch_flag_states batch)) (\<lambda>_.
     and_then (store_arrived i (ref_account folder) (batch_arrived batch)) (\<lambda>_.
     and_then (relate_known i (ref_account folder) (batch_known_arrived batch)) (\<lambda>_.
     and_then (case batch_state batch of Some state \<Rightarrow> write_folder_state i state | None \<Rightarrow> ret ()) (\<lambda>_.
     ret Stored))))))
     (\<lambda>d. (Stored, batch_db i ?a batch d))" for i
  proof -
    let ?R = "batch_ready ?a ?f i"
    have 1: "computes (\<lambda>_. True) (and_then (case batch_state batch of Some state \<Rightarrow> write_folder_state i state | None \<Rightarrow> ret ()) (\<lambda>_. ret Stored))
        (\<lambda>d. (Stored, state_db i (batch_state batch) d))"
      by (rule computes_unit_then [OF computes_state computes_ret]) (rule TrueI)
    note 2 = computes_unit_then [OF computes_relate_known [where account = "ref_account folder" and f = ?f and folder_id = i and known = "batch_known_arrived batch"] 1, OF TrueI]
    note 3 = computes_refining_then [OF computes_store_arrived [where account = "ref_account folder" and f = ?f and folder_id = i and arrived = "batch_arrived batch"] 2 refines_arrive]
    note 4 = computes_refining_then [OF computes_set_flag_states [where account = "ref_account folder" and states = "batch_flag_states batch" and P = ?R] 3 refines_flags]
    note 5 = computes_refining_then [OF computes_removals [where account = "ref_account folder" and folder_id = i and removed = "batch_removed batch" and P = ?R] 4 refines_removals]
    from 5 show ?thesis by (simp add: batch_db_def del: ret_run)
  qed
  show ?thesis
    unfolding store_batch_body_def Let_def
    by (rule computes_read_then [OF computes_stored_folder_id])
       (rule computes_weaken [OF rest], auto dest: present_ready)
qed

section \<open>No message outside every folder\<close>

definition view_full :: "view \<Rightarrow> bool" where
  "view_full v \<longleftrightarrow> (\<forall>a i. v_message v a i \<noteq> None \<longrightarrow> (\<exists>f. i \<in> v_holds v a f))"

text \<open>Only account \<open>a\<close> may have messages that no folder holds.\<close>

definition view_full_but :: "string \<Rightarrow> view \<Rightarrow> bool" where
  "view_full_but a v \<longleftrightarrow> (\<forall>b i. b \<noteq> a \<longrightarrow> v_message v b i \<noteq> None \<longrightarrow> (\<exists>f. i \<in> v_holds v b f))"

lemma orphans_in_view:
  assumes ok: "tables_ok d"
  shows "orphans_in A d \<longleftrightarrow> (\<forall>a i. a \<notin> A \<longrightarrow> v_message (view_of d) a i \<noteq> None \<longrightarrow> (\<exists>f. i \<in> v_holds (view_of d) a f))"
proof -
  have "orphans_in A d \<longleftrightarrow> (\<forall>m \<in> set (db_messages d). mr_account m \<notin> A \<longrightarrow> (\<exists>f. mr_identity m \<in> held d (mr_account m) f))"
    using held_some_folder [OF ok] by (auto simp: orphans_in_def)
  also have "\<dots> \<longleftrightarrow> (\<forall>a i m. lookup_message d a i = Some m \<longrightarrow> a \<notin> A \<longrightarrow> (\<exists>f. i \<in> held d a f))"
    unfolding lookup_message_iff [OF ok] by (auto simp: message_at_def)
  finally show ?thesis by auto
qed

lemma db_ok_view: "db_ok d \<longleftrightarrow> tables_ok d \<and> view_full (view_of d)"
  using orphans_in_view [of d "{}"] by (auto simp: db_ok_def view_full_def)

lemma view_full_purge: "view_full_but a v \<Longrightarrow> view_full (spec_purge a v)"
  by (auto simp: view_full_def view_full_but_def spec_purge_def split: if_splits)

lemma view_full_but_remove: "view_full_but a v \<Longrightarrow> view_full_but a (spec_remove a f i v)"
  by (auto simp: view_full_but_def spec_remove_def)

lemma view_full_update: "view_full v \<Longrightarrow> view_full (spec_update a i g v)"
  by (auto simp: view_full_def spec_update_def)

lemma view_full_flags: "view_full v \<Longrightarrow> view_full (spec_flags a states v)"
  unfolding spec_flags_def by (rule fold_keeps) (auto intro: view_full_update)

lemma view_full_arrive: "view_full v \<Longrightarrow> view_full (spec_arrive a f message v)"
  by (auto simp: view_full_def spec_arrive_def spec_hold_def) (metis)

lemma view_full_known: "view_full v \<Longrightarrow> view_full (spec_known a f i v)"
  by (auto simp: view_full_def spec_known_def spec_hold_def) (metis)

lemma view_full_removals: "view_full v \<Longrightarrow> view_full (spec_removals a f removed v)"
proof -
  assume v: "view_full v"
  have "view_full_but a (fold (spec_remove a f) removed v)"
    by (rule fold_keeps [where P = "view_full_but a"])
       (use v in \<open>simp add: view_full_def view_full_but_def\<close>, rule view_full_but_remove)
  with v show ?thesis by (simp add: spec_removals_def view_full_purge)
qed

lemma view_full_state: "view_full v \<Longrightarrow> view_full (spec_state a f st v)"
  by (auto simp: view_full_def spec_state_def)

lemma view_full_batch: "view_full v \<Longrightarrow> view_full (spec_batch a f batch v)"
  unfolding spec_batch_def Let_def
  by (auto intro!: view_full_state view_full_flags fold_keeps [where P = view_full] view_full_arrive
      view_full_known view_full_removals split: option.split)

lemma db_ok_batch: "db_ok d \<Longrightarrow> batch_ready a f folder_id d \<Longrightarrow> db_ok (batch_db folder_id a batch d)"
  using refinesD [OF refines_batch, of a f folder_id d batch] view_full_batch
  by (auto simp: db_ok_view batch_ready_def)

section \<open>Folder lists\<close>

lemma delete_folders_twice:
  "sql_delete_folders P (sql_delete_folders Q d) = sql_delete_folders (\<lambda>r. P r \<or> Q r) d"
proof -
  have 1: "filter (\<lambda>x. \<not> Q x \<and> \<not> P x) (db_folders d) = filter (\<lambda>r. \<not> (P r \<or> Q r)) (db_folders d)"
    by (rule filter_cong) auto
  have 2: "filter (\<lambda>x. (case x of (f, m) \<Rightarrow> \<forall>r \<in> set (db_folders d). Q r \<longrightarrow> fr_id r \<noteq> f) \<and>
        (case x of (f, m) \<Rightarrow> \<forall>r. r \<in> set (db_folders d) \<and> \<not> Q r \<longrightarrow> P r \<longrightarrow> fr_id r \<noteq> f)) (db_memberships d)
      = filter (\<lambda>(f, m). \<forall>r \<in> set (db_folders d). P r \<or> Q r \<longrightarrow> fr_id r \<noteq> f) (db_memberships d)"
    by (rule filter_cong) auto
  show ?thesis using 1 2 by (simp add: sql_delete_folders_def)
qed

definition unlisted :: "string \<Rightarrow> folder list \<Rightarrow> folder_row \<Rightarrow> bool" where
  "unlisted a folders r \<longleftrightarrow> fr_account r = a \<and> fr_identity r \<notin> folder_identity ` set folders"

definition replace_db :: "string \<Rightarrow> folder list \<Rightarrow> db \<Rightarrow> db" where
  "replace_db a folders d =
     fold (sql_upsert_folder a) folders (sql_delete_orphans a (sql_delete_folders (unlisted a folders) d))"

lemma delete_folders_cong:
  "(\<And>r. r \<in> set (db_folders d) \<Longrightarrow> P r = Q r) \<Longrightarrow> sql_delete_folders P d = sql_delete_folders Q d"
proof -
  assume P: "\<And>r. r \<in> set (db_folders d) \<Longrightarrow> P r = Q r"
  then have "filter (\<lambda>r. \<not> P r) (db_folders d) = filter (\<lambda>r. \<not> Q r) (db_folders d)"
    by (intro filter_cong) auto
  with P show ?thesis by (simp add: sql_delete_folders_def)
qed

lemma delete_no_folder: "sql_delete_folders (\<lambda>_. False) d = d"
  by (simp add: sql_delete_folders_def case_prod_beta)

lemma fold_delete_by_id:
  "fold (\<lambda>(i, identity) d. if identity \<notin> L then sql_delete_folders (\<lambda>r. fr_id r = i) d else d) stored d
    = sql_delete_folders (\<lambda>r. \<exists>identity. (fr_id r, identity) \<in> set stored \<and> identity \<notin> L) d"
proof (induction stored arbitrary: d)
  case Nil
  show ?case by (simp add: delete_no_folder)
next
  case (Cons p stored)
  show ?case
    by (cases p) (auto simp: Cons.IH delete_folders_twice intro!: arg_cong2 [where f = sql_delete_folders])
qed

lemma computes_delete_unlisted:
  "computes tables_ok (delete_unlisted_folders account folders) (\<lambda>d. ((), sql_delete_folders (unlisted (as_str account) folders) d))"
proof -
  let ?L = "folder_identity ` set folders"
  let ?rows = "\<lambda>d. map (\<lambda>r. (fr_id r, fr_identity r)) (filter (\<lambda>r. fr_account r = as_str account) (db_folders d))"
  let ?del = "\<lambda>(i, identity) d. if identity \<notin> ?L then sql_delete_folders (\<lambda>r. fr_id r = i) d else d"
  have loop: "computes (\<lambda>_. True) (for_each (\<lambda>(folder_id, identity). only_if (identity \<notin> ?L)
       (execute (sql_delete_folders (\<lambda>r. fr_id r = folder_id)))) stored) (\<lambda>d. ((), fold ?del stored d))" for stored
    by (rule computes_for_each) (auto intro!: computes_only_if computes_execute)
  have 1: "computes tables_ok (delete_unlisted_folders account folders) (\<lambda>d. ((), fold ?del (?rows d) d))"
    unfolding delete_unlisted_folders_def
    by (intro computes_prepare_then computes_read_then [OF computes_query] computes_weaken [OF loop]) simp_all
  show ?thesis
  proof (rule computes_weaken [OF 1])
    fix d
    assume ok: "tables_ok d"
    have "(\<exists>identity. (fr_id r, identity) \<in> set (?rows d) \<and> identity \<notin> ?L) \<longleftrightarrow> unlisted (as_str account) folders r"
      if "r \<in> set (db_folders d)" for r
      using that folder_id_unique [OF ok that] by (auto simp: unlisted_def)
    then have "sql_delete_folders (\<lambda>r. \<exists>identity. (fr_id r, identity) \<in> set (?rows d) \<and> identity \<notin> ?L) d
        = sql_delete_folders (unlisted (as_str account) folders) d"
      by (rule delete_folders_cong)
    then show "((), fold ?del (?rows d) d) = ((), sql_delete_folders (unlisted (as_str account) folders) d)"
      unfolding fold_delete_by_id by simp
  qed simp
qed

lemma computes_upsert_folders:
  "computes P (upsert_folders account folders) (\<lambda>d. ((), fold (sql_upsert_folder (as_str account)) folders d))"
  unfolding upsert_folders_def
  by (rule computes_prepare_then, rule computes_weaken [where P = "\<lambda>_. True"])
     (rule computes_for_each, auto intro!: computes_statement)

lemma computes_replace_body:
  "computes tables_ok (and_then (delete_unlisted_folders account folders) (\<lambda>_.
     and_then (delete_messages_without_folder account) (\<lambda>_.
     and_then (upsert_folders account folders) (\<lambda>_. ret Stored)))) (\<lambda>d. (Stored, replace_db (as_str account) folders d))"
proof -
  let ?a = "as_str account"
  note 1 = computes_unit_then [OF computes_upsert_folders [where P = "\<lambda>_. True" and account = account and folders = folders]
      computes_ret [where P = "\<lambda>_. True" and x = Stored], OF TrueI]
  note 2 = computes_unit_then [OF computes_execute [where P = "\<lambda>_. True" and f = "sql_delete_orphans ?a"] 1, OF TrueI]
  note 3 = computes_unit_then [OF computes_delete_unlisted [where account = account and folders = folders] 2, OF TrueI]
  show ?thesis
    unfolding replace_db_def delete_messages_without_folder_def by (rule 3)
qed

end
