(* ===== verification/Store_Folders.thy ===== *)
theory Store_Folders
  imports Store_Writes
begin

text \<open>
  A new folder list and the deletion of an account's mail on the view: what stays, what goes with a
  folder that is no longer listed, and that no message is left outside every folder.
\<close>

section \<open>The specification\<close>

definition spec_upsert :: "string \<Rightarrow> folder \<Rightarrow> view \<Rightarrow> view" where
  "spec_upsert a folder v = v\<lparr>v_folder := (\<lambda>b g. if b = a \<and> g = folder_identity folder
     then Some (folder, case v_folder v b g of Some (_, st) \<Rightarrow> st | None \<Rightarrow> default_state) else v_folder v b g)\<rparr>"

definition spec_unlist :: "string \<Rightarrow> folder list \<Rightarrow> view \<Rightarrow> view" where
  "spec_unlist a folders v = v\<lparr>
     v_folder := (\<lambda>b g. if b = a \<and> g \<notin> folder_identity ` set folders then None else v_folder v b g),
     v_holds := (\<lambda>b g. if b = a \<and> g \<notin> folder_identity ` set folders then {} else v_holds v b g)\<rparr>"

definition spec_replace :: "string \<Rightarrow> folder list \<Rightarrow> view \<Rightarrow> view" where
  "spec_replace a folders v = fold (spec_upsert a) folders (spec_purge a (spec_unlist a folders v))"

definition spec_drop_account :: "string \<Rightarrow> view \<Rightarrow> view" where
  "spec_drop_account a v = \<lparr>
     v_folder = (\<lambda>b g. if b = a then None else v_folder v b g),
     v_message = (\<lambda>b i. if b = a then None else v_message v b i),
     v_holds = (\<lambda>b g. if b = a then {} else v_holds v b g)\<rparr>"

section \<open>Deleting folders\<close>

lemma lookup_delete_folders:
  "tables_ok d \<Longrightarrow> lookup_folder (sql_delete_folders P d) b g =
    (case lookup_folder d b g of Some r \<Rightarrow> if P r then None else Some r | None \<Rightarrow> None)"
  using lookup_folder_filter [of d b g "\<lambda>r. \<not> P r"] by (auto simp: lookup_folder_def split: option.splits)

lemma held_lookup:
  "tables_ok d \<Longrightarrow> i \<in> held d b g \<longleftrightarrow> (\<exists>r m. lookup_folder d b g = Some r \<and> lookup_message d b i = Some m \<and>
     (fr_id r, mr_id m) \<in> set (db_memberships d))"
  by (auto simp: held_def lookup_folder_iff lookup_message_iff)

lemma held_delete_folders:
  assumes ok: "tables_ok d"
  shows "held (sql_delete_folders P d) b g = (if \<exists>r. lookup_folder d b g = Some r \<and> P r then {} else held d b g)"
proof (rule set_eqI)
  fix i
  have mem: "(fr_id r, mr_id m) \<in> set (db_memberships (sql_delete_folders P d)) \<longleftrightarrow> (fr_id r, mr_id m) \<in> set (db_memberships d) \<and> \<not> P r"
    if "lookup_folder d b g = Some r" for r and m :: message_row
    using that folder_id_unique [OF ok] by (simp add: lookup_folder_iff [OF ok]) blast
  have look: "lookup_message (sql_delete_folders P d) b i = lookup_message d b i"
    by (simp add: lookup_message_def)
  show "i \<in> held (sql_delete_folders P d) b g \<longleftrightarrow> i \<in> (if \<exists>r. lookup_folder d b g = Some r \<and> P r then {} else held d b g)"
  proof (cases "lookup_folder d b g")
    case None
    then show ?thesis by (simp add: held_lookup [OF tables_ok_delete_folders [OF ok]] held_lookup [OF ok] lookup_delete_folders [OF ok])
  next
    case (Some r)
    then show ?thesis
      using mem [OF Some] by (cases "P r")
        (simp_all add: held_lookup [OF tables_ok_delete_folders [OF ok]] held_lookup [OF ok] lookup_delete_folders [OF ok] look del: delete_folders_tables)
  qed
qed

lemma view_unlist:
  assumes ok: "tables_ok d"
  shows "view_of (sql_delete_folders (unlisted a folders) d) = spec_unlist a folders (view_of d)"
proof -
  have un: "unlisted a folders r \<longleftrightarrow> b = a \<and> g \<notin> folder_identity ` set folders" if "lookup_folder d b g = Some r" for b g r
    using that by (auto simp: lookup_folder_iff [OF ok] unlisted_def folder_at_def)
  have none: "lookup_folder d b g = None \<Longrightarrow> held d b g = {}" for b g
    using held_lookup [OF ok, of _ b g] by auto
  show ?thesis
  proof (rule view_eqI)
    show "v_folder (view_of (sql_delete_folders (unlisted a folders) d)) = v_folder (spec_unlist a folders (view_of d))"
      using un by (auto simp: fun_eq_iff spec_unlist_def lookup_delete_folders [OF ok] split: option.split)
    show "v_holds (view_of (sql_delete_folders (unlisted a folders) d)) = v_holds (spec_unlist a folders (view_of d))"
      using un none by (auto simp: fun_eq_iff spec_unlist_def held_delete_folders [OF ok])
    show "v_message (view_of (sql_delete_folders (unlisted a folders) d)) = v_message (spec_unlist a folders (view_of d))"
      by (simp add: fun_eq_iff spec_unlist_def lookup_message_def)
  qed
qed

section \<open>Upserting folders\<close>

lemma stored_folder_values:
  "fr_role r = map_option role_code role \<Longrightarrow> stored_folder r = Inr \<lparr>folder_identity = fr_identity r, folder_name = fr_name r,
     folder_parent = fr_parent r, folder_role = role, folder_selectable = fr_selectable r\<rparr>"
  using role_codec.decode_encode by (cases role) (auto simp: stored_folder_def bind_result_def)

lemma view_upsert_folder:
  assumes ok: "tables_ok d"
  shows "view_of (sql_upsert_folder a folder d) = spec_upsert a folder (view_of d)"
proof (cases "lookup_folder d a (folder_identity folder)")
  case None
  let ?i = "fresh_id (map fr_id (db_folders d))"
  let ?new = "\<lparr>fr_id = ?i, fr_account = a, fr_identity = folder_identity folder,
      fr_name = folder_name folder, fr_parent = folder_parent folder,
      fr_role = map_option role_code (folder_role folder), fr_selectable = folder_selectable folder,
      fr_server_position = None, fr_fill_place = None, fr_synchronized = False,
      fr_uid_validity = None, fr_message_count = None, fr_uid_next = None, fr_highest_modseq = None\<rparr>"
  from None have d1: "sql_upsert_folder a folder d = d\<lparr>db_folders := db_folders d @ [?new]\<rparr>"
    by (auto simp: sql_upsert_folder_def lookup_folder_def find_None_iff')
  have at: "folder_at b g ?new \<longleftrightarrow> b = a \<and> g = folder_identity folder" for b g
    by (auto simp: folder_at_def)
  have find_end: "find P (xs @ [x]) = (case find P xs of Some y \<Rightarrow> Some y | None \<Rightarrow> if P x then Some x else None)"
    for P and xs :: "folder_row list" and x by (induction xs) auto
  have look: "lookup_folder (sql_upsert_folder a folder d) b g =
      (if b = a \<and> g = folder_identity folder then Some ?new else lookup_folder d b g)" for b g
    using None by (simp add: d1 lookup_folder_def find_end at split: option.split)
  have new: "folder_of ?new = (folder, default_state)"
    using stored_folder_values [of ?new "folder_role folder"]
    by (simp add: folder_of_def state_from_row_def get_u32_def bind_result_def default_state_def)
  have "held (sql_upsert_folder a folder d) = held d"
  proof (intro ext set_eqI)
    fix b g i
    have "(?i, m) \<notin> set (db_memberships d)" for m
    proof
      assume "(?i, m) \<in> set (db_memberships d)"
      then have "linked d (?i, m)" using ok by (auto simp: tables_ok_def memberships_ok_def)
      then have "?i \<in> fr_id ` set (db_folders d)" unfolding linked_def by (metis fst_conv image_eqI)
      then show False using fresh_id_fresh [of "map fr_id (db_folders d)"] by simp
    qed
    then show "i \<in> held (sql_upsert_folder a folder d) b g \<longleftrightarrow> i \<in> held d b g"
      by (auto simp: held_def d1)
  qed
  moreover have "v_message (view_of (sql_upsert_folder a folder d)) = v_message (view_of d)"
    by (simp add: fun_eq_iff lookup_message_def d1)
  ultimately show ?thesis
    using None by (intro view_eqI) (simp_all add: fun_eq_iff look new spec_upsert_def)
next
  case (Some r)
  let ?h = "\<lambda>r. r\<lparr>fr_name := folder_name folder, fr_parent := folder_parent folder,
      fr_role := map_option role_code (folder_role folder), fr_selectable := folder_selectable folder\<rparr>"
  let ?g = "\<lambda>r. if folder_at a (folder_identity folder) r then ?h r else r"
  have at: "folder_at b g (?g r) = folder_at b g r" for b g r
    by (simp add: folder_at_def)
  from Some have d1: "sql_upsert_folder a folder d = d\<lparr>db_folders := map ?g (db_folders d)\<rparr>"
    by (auto simp: sql_upsert_folder_def lookup_folder_iff [OF ok])
  have look: "lookup_folder (sql_upsert_folder a folder d) b g = map_option ?g (lookup_folder d b g)" for b g
    unfolding lookup_folder_def d1 by (simp del: if_split) (rule find_map_if, rule at)
  have st: "state_from_row (?h r) = state_from_row r" for r
    by (simp add: state_from_row_def cong: option.case_cong)
  have "folder_of (?g s) = (if b = a \<and> g = folder_identity folder then (folder, snd (folder_of s)) else folder_of s)"
    if "lookup_folder d b g = Some s" for b g s
    using that stored_folder_values [of "?h s" "folder_role folder"]
    by (auto simp: lookup_folder_iff [OF ok] folder_at_def folder_of_def st)
  then have "v_folder (view_of (sql_upsert_folder a folder d)) = v_folder (spec_upsert a folder (view_of d))"
    using Some by (auto simp: fun_eq_iff look spec_upsert_def option.map_comp o_def case_prod_beta intro!: option.map_cong)
  moreover have "v_holds (view_of (sql_upsert_folder a folder d)) = v_holds (spec_upsert a folder (view_of d))"
    using at by (simp add: spec_upsert_def) (rule held_image [where g = ?g and h = id], auto simp: d1)
  moreover have "v_message (view_of (sql_upsert_folder a folder d)) = v_message (spec_upsert a folder (view_of d))"
    by (simp add: fun_eq_iff spec_upsert_def lookup_message_def d1)
  ultimately show ?thesis by (intro view_eqI)
qed

lemma refines_replace: "refines tables_ok (replace_db a folders) (spec_replace a folders)"
proof -
  have 1: "refines tables_ok (sql_delete_folders (unlisted a folders)) (spec_unlist a folders)"
    by (intro refinesI tables_ok_delete_folders view_unlist)
  have 2: "refines tables_ok (sql_delete_orphans a) (spec_purge a)"
    by (intro refinesI tables_ok_delete_orphans view_delete_orphans)
  have 3: "refines tables_ok (fold (sql_upsert_folder a) folders) (fold (spec_upsert a) folders)"
    by (intro refines_fold refinesI tables_ok_upsert_folder view_upsert_folder)
  from refines_comp [OF refines_comp [OF 1 2] 3] show ?thesis
    by (simp add: refines_def replace_db_def spec_replace_def)
qed

lemma view_full_replace: "view_full v \<Longrightarrow> view_full (spec_replace a folders v)"
proof -
  assume "view_full v"
  then have "view_full_but a (spec_unlist a folders v)"
    by (auto simp: view_full_def view_full_but_def spec_unlist_def)
  then have "view_full (spec_purge a (spec_unlist a folders v))" by (rule view_full_purge)
  then show ?thesis
    unfolding spec_replace_def by (rule fold_keeps) (auto simp: view_full_def spec_upsert_def)
qed

lemma db_ok_replace: "db_ok d \<Longrightarrow> db_ok (replace_db a folders d)"
  using refinesD [OF refines_replace] view_full_replace by (simp add: db_ok_view)

end
