(* ===== verification/Store_Steps.thy ===== *)
theory Store_Steps
  imports Store_Folders
begin

text \<open>
  The store as a state machine: its operations, what SQLite and the disk may answer, and restarts.
  Every store the program can reach has a sound database, whatever failed on the way.
\<close>

section \<open>The database of a store\<close>

text \<open>Before the first use, the database is what the file holds.\<close>

definition current_db :: "store \<Rightarrow> db" where
  "current_db s = (case store_connection s of Some c \<Rightarrow> conn_db c | None \<Rightarrow> file_db (disk_file (store_disk s)))"

definition store_ok :: "store \<Rightarrow> bool" where
  "store_ok s \<longleftrightarrow> db_ok (current_db s)"

definition db_keeps :: "(db \<Rightarrow> bool) \<Rightarrow> 'a sql \<Rightarrow> bool" where
  "db_keeps P m \<longleftrightarrow> keeps (\<lambda>c. P (conn_db c)) m"

text \<open>Opening leaves the file's database or an empty one.\<close>

definition file_ok :: "disk \<Rightarrow> bool" where
  "file_ok disk \<longleftrightarrow> db_ok (file_db (disk_file disk))"

lemma keeps_fails_with [keeps_intros]: "keeps P (fails_with f outcome)"
  by (cases outcome) (simp_all add: fails_with_def keeps_intros del: throw_run ret_run)

lemma keeps_open_connection: "keeps file_ok open_connection"
  unfolding open_connection_def
  by (intro keeps_intros keeps_changes) (auto simp: file_ok_def keeps_intros split: list.split option.split simp del: throw_run ret_run)

lemma keeps_create_schema: "keeps file_ok (create_schema schema)"
  unfolding create_schema_def by (intro keeps_intros keeps_changes) (simp add: file_ok_def)

lemma keeps_discard: "keeps file_ok discard_store"
  unfolding discard_store_def by (intro keeps_intros keeps_changes) (auto simp: file_ok_def empty_file_def)

lemma keeps_examine: "keeps file_ok (examine_existing schema)"
  unfolding examine_existing_def
  by (intro keeps_intros) (auto simp: keeps_intros split: option.split error_code.split simp del: throw_run ret_run)

lemma keeps_open_store: "keeps file_ok (open_store schema)"
  unfolding open_store_def create_private_directory_def configure_connection_def
  by (intro keeps_intros keeps_open_connection keeps_examine)
     (auto intro!: keeps_intros keeps_discard keeps_open_connection keeps_create_schema split: existing_store.split simp del: ret_run)

lemma open_store_connection:
  "open_store schema disk = (Inr c, disk') \<Longrightarrow> conn_db c = file_db (disk_file disk')"
  by (auto simp: open_store_def and_then_def split: prod.splits sum.splits)

lemma with_connection_cases:
  assumes "with_connection operation work s = (r, s')" and "store_ok s"
  obtains (unopened) e disk where "r = Inl e" "store_connection s = None" "s' = s\<lparr>store_disk := disk\<rparr>" "store_ok s'"
  | (ran) c x c' where "db_ok (conn_db c)" "work c = (x, c')" "current_db s' = conn_db c'"
      "store_connection s' = Some c'" "store_connection s = Some c \<or> store_connection s = None"
      "r = map_sum (\<lambda>e. storage_failure operation (Sqlite e)) id x"
proof (cases "store_connection s")
  case (Some c)
  obtain x c' where w: "work c = (x, c')" by (cases "work c")
  have r: "s' = s\<lparr>store_connection := Some c'\<rparr>" "r = map_sum (\<lambda>e. storage_failure operation (Sqlite e)) id x"
    using assms(1) Some w by (auto simp: with_connection_def run_work_def split: sum.splits)
  show thesis
    by (rule ran [OF _ w]) (use assms(2) Some r in \<open>simp_all add: store_ok_def current_db_def\<close>)
next
  case None
  obtain opened disk where o: "open_store (store_schema s) (store_disk s) = (opened, disk)" by (cases "open_store (store_schema s) (store_disk s)")
  have ok: "file_ok disk"
    using keepsD_eq [OF keeps_open_store _ o] assms(2) None by (simp add: store_ok_def current_db_def file_ok_def)
  show thesis
  proof (cases opened)
    case (Inl e)
    show thesis
      by (rule unopened) (use assms(1) None o Inl ok in \<open>auto simp: with_connection_def store_ok_def current_db_def file_ok_def\<close>)
  next
    case (Inr c)
    obtain x c' where w: "work c = (x, c')" by (cases "work c")
    have r: "s' = s\<lparr>store_disk := disk, store_connection := Some c'\<rparr>" "r = map_sum (\<lambda>e. storage_failure operation (Sqlite e)) id x"
      using assms(1) None o Inr w by (auto simp: with_connection_def run_work_def split: sum.splits)
    show thesis
      by (rule ran [OF _ w]) (use ok open_store_connection o Inr r None in \<open>auto simp: current_db_def file_ok_def\<close>)
  qed
qed

lemma with_connection_ok:
  assumes "db_keeps db_ok work" and "store_ok s"
  shows "store_ok (snd (with_connection operation work s))"
proof (cases "with_connection operation work s")
  case (Pair r s')
  from Pair assms(2) show ?thesis
  proof (cases rule: with_connection_cases)
    case (ran c x c')
    then have "db_ok (conn_db c')" using assms(1) keepsD_eq [of "\<lambda>c. db_ok (conn_db c)" work c x c'] by (simp add: db_keeps_def)
    then show ?thesis using Pair ran by (simp add: store_ok_def)
  qed (use Pair in simp)
qed

section \<open>Reads leave the database, transactions keep the invariant\<close>

lemma db_keeps_statement:
  assumes "\<And>d x d'. P d \<Longrightarrow> f d = Inr (x, d') \<Longrightarrow> P d'"
  shows "db_keeps P (statement f)"
  unfolding db_keeps_def
proof (rule keepsI)
  fix c :: connection
  assume P: "P (conn_db c)"
  show "P (conn_db (snd (statement f c)))"
  proof (cases "f (conn_db c)")
    case (Inr p)
    then show ?thesis using P assms [OF P, of "fst p" "snd p"]
      by (cases p) (auto simp: statement_def Let_def split: list.split option.split)
  qed (use P in \<open>auto simp: statement_def Let_def split: list.split option.split\<close>)
qed

lemma db_keeps_and_then: "db_keeps P m \<Longrightarrow> (\<And>x. db_keeps P (k x)) \<Longrightarrow> db_keeps P (and_then m k)"
  unfolding db_keeps_def by (rule keeps_and_then)

lemma db_keeps_ret: "db_keeps P (ret x)"
  unfolding db_keeps_def by (rule keeps_ret)

lemma db_keeps_if: "(b \<Longrightarrow> db_keeps P m) \<Longrightarrow> (\<not> b \<Longrightarrow> db_keeps P n) \<Longrightarrow> db_keeps P (if b then m else n)"
  by simp

lemma db_keeps_map_each: "(\<And>x. db_keeps P (f x)) \<Longrightarrow> db_keeps P (map_each f xs)"
  unfolding db_keeps_def by (intro keeps_map_each)

lemma db_keeps_prepare: "db_keeps P prepare" unfolding prepare_def by (rule db_keeps_statement) simp
lemma db_keeps_query: "db_keeps P (query f)" unfolding query_def by (rule db_keeps_statement) simp

lemma db_keeps_query_map: "db_keeps P (query_map rows convert)"
  unfolding query_map_def by (rule db_keeps_statement) (auto simp: map_sum_def split: sum.splits)

lemma db_keeps_query_row: "db_keeps P (query_row rows convert)"
  unfolding query_row_def by (rule db_keeps_statement) (auto simp: map_sum_def split: sum.splits list.splits)

lemma db_keeps_optional: "db_keeps P m \<Longrightarrow> db_keeps P (optional m)"
  unfolding db_keeps_def optional_def
  by (intro keeps_on_result) (auto split: sqlite_error.split simp: keeps_intros simp del: throw_run ret_run)

lemma db_keeps_transaction:
  assumes m: "computes Q m f" and keep: "\<And>d. P d \<Longrightarrow> Q d \<Longrightarrow> P (snd (f d))"
    and fails: "\<And>c x c'. P (conn_db c) \<Longrightarrow> m c = (Inr x, c') \<Longrightarrow> Q (conn_db c)"
  shows "db_keeps P (transaction m)"
  unfolding db_keeps_def
proof (rule keepsI)
  fix c :: connection
  assume P: "P (conn_db c)"
  obtain r c' where t: "transaction m c = (r, c')" by (cases "transaction m c")
  show "P (conn_db (snd (transaction m c)))"
  proof (cases r)
    case (Inl e)
    then show ?thesis using transaction_error t P by fastforce
  next
    case (Inr x)
    then obtain c1 c2 where "prepare c = (Inr (), c1)" and body: "m c1 = (Inr x, c2)"
      using t by (auto simp: transaction_def and_then_def split: prod.splits sum.splits)
    then have c1: "conn_db c1 = conn_db c"
      using computesD [OF computes_prepare, of "\<lambda>_. True" c "()" c1] by simp
    with fails [OF _ body] P have Q: "Q (conn_db c)" by simp
    from computesD [OF computes_transaction [OF m] Q t [unfolded Inr]] keep [OF P Q] t show ?thesis by simp
  qed
qed

lemmas db_keeps_reads = db_keeps_and_then db_keeps_ret db_keeps_prepare db_keeps_query db_keeps_query_map
  db_keeps_query_row db_keeps_optional db_keeps_map_each db_keeps_if

section \<open>Deleting an account's mail\<close>

definition drop_account_db :: "string \<Rightarrow> db \<Rightarrow> db" where
  "drop_account_db a d = sql_delete_messages (\<lambda>m. mr_account m = a) (sql_delete_folders (\<lambda>r. fr_account r = a) d)"

lemma tables_ok_drop: "tables_ok d \<Longrightarrow> tables_ok (drop_account_db a d)"
  by (simp add: drop_account_db_def tables_ok_delete_folders tables_ok_delete_messages)

lemma view_drop_account:
  assumes ok: "tables_ok d"
  shows "view_of (drop_account_db a d) = spec_drop_account a (view_of d)"
proof -
  have folder: "lookup_folder (drop_account_db a d) b g = (if b = a then None else lookup_folder d b g)" for b g
    using lookup_folder_filter [OF ok, of b g "\<lambda>r. fr_account r \<noteq> a"]
    by (auto simp: drop_account_db_def lookup_folder_def folder_at_def split: option.splits dest!: find_Some_mem)
  have msg: "lookup_message (drop_account_db a d) b i = (if b = a then None else lookup_message d b i)" for b i
    using lookup_message_filter [OF ok, of b i "\<lambda>m. mr_account m \<noteq> a"]
    by (auto simp: drop_account_db_def lookup_message_def message_at_def split: option.splits dest!: find_Some_mem)
  have "held (drop_account_db a d) b g = (if b = a then {} else held d b g)" for b g
  proof (rule set_eqI)
    fix i
    have "(fr_id r, mr_id m) \<in> set (db_memberships (drop_account_db a d)) \<longleftrightarrow> (fr_id r, mr_id m) \<in> set (db_memberships d)"
      if b: "b \<noteq> a" and r: "lookup_folder d b g = Some r" and m: "lookup_message d b i = Some m" for r m
    proof -
      from r m have r': "r \<in> set (db_folders d)" "fr_account r = b" and m': "m \<in> set (db_messages d)" "mr_account m = b"
        by (simp_all add: lookup_folder_iff [OF ok] lookup_message_iff [OF ok] folder_at_def message_at_def)
      have "fr_id s \<noteq> fr_id r" if "s \<in> set (db_folders d)" "fr_account s = a" for s
        using folder_id_unique [OF ok that(1) r'(1)] that r' b by auto
      moreover have "mr_id k \<noteq> mr_id m" if "k \<in> set (db_messages d)" "mr_account k = a" for k
        using message_id_unique [OF ok that(1) m'(1)] that m' b by auto
      ultimately show ?thesis by (auto simp: drop_account_db_def)
    qed
    then show "i \<in> held (drop_account_db a d) b g \<longleftrightarrow> i \<in> (if b = a then {} else held d b g)"
      by (auto simp: held_lookup [OF ok] held_lookup [OF tables_ok_drop [OF ok]] folder msg)
  qed
  then show ?thesis
    by (intro view_eqI) (simp_all add: spec_drop_account_def fun_eq_iff folder msg)
qed

lemma refines_drop: "refines tables_ok (fold drop_account_db accounts) (fold spec_drop_account accounts)"
  by (intro refines_fold refinesI tables_ok_drop view_drop_account)

lemma view_full_drop: "view_full v \<Longrightarrow> view_full (spec_drop_account a v)"
  by (auto simp: view_full_def spec_drop_account_def)

definition drop_others_db :: "account_id list \<Rightarrow> db \<Rightarrow> db" where
  "drop_others_db current d =
     fold (\<lambda>a. drop_account_db (as_str a)) (removed_accounts current (remdups (map fr_account (db_folders d)))) d"

definition delete_other_accounts_body :: "account_id list \<Rightarrow> account_id list sql" where
  "delete_other_accounts_body current =
     and_then prepare (\<lambda>_.
     and_then (query (\<lambda>d. remdups (map fr_account (db_folders d)))) (\<lambda>stored_accounts.
     (let removed = removed_accounts current stored_accounts in
     and_then (for_each (\<lambda>account.
       and_then (execute (sql_delete_folders (\<lambda>r. fr_account r = as_str account))) (\<lambda>_.
       execute (sql_delete_messages (\<lambda>m. mr_account m = as_str account)))) removed) (\<lambda>_.
     ret removed))))"

lemma computes_delete_other_accounts:
  "computes P (delete_other_accounts_body current)
     (\<lambda>d. (removed_accounts current (remdups (map fr_account (db_folders d))), drop_others_db current d))"
proof -
  have one: "computes (\<lambda>_. True) (and_then (execute (sql_delete_folders (\<lambda>r. fr_account r = as_str account))) (\<lambda>_.
       execute (sql_delete_messages (\<lambda>m. mr_account m = as_str account)))) (\<lambda>d. ((), drop_account_db (as_str account) d))" for account
    unfolding drop_account_db_def by (rule computes_unit_then [OF computes_execute computes_execute TrueI])
  have all: "computes (\<lambda>_. True) (for_each (\<lambda>account.
       and_then (execute (sql_delete_folders (\<lambda>r. fr_account r = as_str account))) (\<lambda>_.
       execute (sql_delete_messages (\<lambda>m. mr_account m = as_str account)))) removed)
     (\<lambda>d. ((), fold (\<lambda>a. drop_account_db (as_str a)) removed d))" for removed
    by (rule computes_for_each [OF one TrueI])
  have rest: "computes (\<lambda>_. True) (let removed = removed_accounts current stored in
     and_then (for_each (\<lambda>account.
       and_then (execute (sql_delete_folders (\<lambda>r. fr_account r = as_str account))) (\<lambda>_.
       execute (sql_delete_messages (\<lambda>m. mr_account m = as_str account)))) removed) (\<lambda>_. ret removed))
     (\<lambda>d. (removed_accounts current stored, fold (\<lambda>a. drop_account_db (as_str a)) (removed_accounts current stored) d))" for stored
    unfolding Let_def by (rule computes_unit_then [OF all computes_ret TrueI])
  show ?thesis
    unfolding delete_other_accounts_body_def drop_others_db_def
    by (intro computes_prepare_then computes_read_then [OF computes_query] computes_weaken [OF rest]) simp_all
qed

section \<open>Every operation keeps the invariant\<close>

lemma body_present:
  assumes "db_ok (conn_db c)" and "store_batch_body folder batch c = (Inr x, c')"
  shows "folder_present folder (conn_db c)"
proof (rule ccontr)
  assume "\<not> folder_present folder (conn_db c)"
  then have "filter (folder_at (as_str (ref_account folder)) (ref_identity folder)) (db_folders (conn_db c)) = []"
    using assms(1) by (simp add: folder_present_def db_ok_def lookup_folder_def filter_Nil_find)
  then show False
    using assms(2) by (auto simp: store_batch_body_def Let_def and_then_def stored_folder_id_def query_row_def statement_def
        split: list.splits option.splits prod.splits)
qed

lemma stored_batch_present:
  assumes "store_connection s = Some c" and ok: "store_ok s"
    and run: "with_connection operation (transaction (store_batch_body folder batch)) s = (Inr w, s')"
  shows "folder_present folder (current_db s)"
proof -
  from assms obtain c' where "transaction (store_batch_body folder batch) c = (Inr w, c')"
    by (auto simp: with_connection_def run_work_def split: prod.splits sum.splits)
  then obtain c1 c2 where "prepare c = (Inr (), c1)" and body: "store_batch_body folder batch c1 = (Inr w, c2)"
    by (auto simp: transaction_def and_then_def split: prod.splits sum.splits)
  then have "conn_db c1 = conn_db c"
    using computesD [OF computes_prepare, of "\<lambda>_. True" c "()" c1] by simp
  with body_present [OF _ body] ok assms(1) show ?thesis by (simp add: store_ok_def current_db_def)
qed

lemma ok_store_batch: "store_ok s \<Longrightarrow> store_ok (snd (store_batch folder batch cancelled s))"
  unfolding store_batch_def
  by (intro with_connection_ok db_keeps_if db_keeps_ret db_keeps_transaction [OF computes_batch_body])
     (auto intro: db_ok_batch present_ready body_present)

lemma ok_replace_folders: "store_ok s \<Longrightarrow> store_ok (snd (replace_folders account folders cancelled s))"
  unfolding replace_folders_def
proof (intro with_connection_ok db_keeps_if db_keeps_ret)
  show "db_keeps db_ok (replace_folders_work account folders)"
  proof -
    have "computes tables_ok (and_then (delete_unlisted_folders account folders) (\<lambda>_.
     and_then (delete_messages_without_folder account) (\<lambda>_.
     and_then (upsert_folders account folders) (\<lambda>_. ret Stored)))) (\<lambda>d. (Stored, replace_db (as_str account) folders d))"
      by (rule computes_replace_body)
    then show ?thesis
      unfolding replace_folders_work_def
      by (rule db_keeps_transaction) (auto intro: db_ok_replace simp: db_ok_def [of "conn_db _"])
  qed
qed

lemma computes_update_messages:
  "computes P (and_then prepare (\<lambda>_. for_each (\<lambda>identity. execute (sql_update_message (as_str account) identity assign)) identities))
     (\<lambda>d. ((), fold (\<lambda>identity. sql_update_message (as_str account) identity assign) identities d))"
  by (rule computes_prepare_then, rule computes_weaken [where P = "\<lambda>_. True"])
     (rule computes_for_each, auto intro: computes_execute)

lemma db_ok_update_message: "db_ok d \<Longrightarrow> harmless assign \<Longrightarrow> db_ok (sql_update_message a i assign d)"
proof -
  assume d: "db_ok d" and h: "harmless assign"
  have "orphans_in {} (sql_update_message a i assign d)"
    using d h by (auto simp: db_ok_def orphans_in_def sql_update_message_def harmless_keys)
  with d h show ?thesis by (simp add: db_ok_def tables_ok_update_message)
qed

lemma ok_update_messages: "harmless assign \<Longrightarrow> store_ok s \<Longrightarrow> store_ok (snd (update_messages account identities assign s))"
  unfolding update_messages_def
  by (intro with_connection_ok db_keeps_transaction [OF computes_update_messages [where P = "\<lambda>_. True"]])
     (auto intro!: fold_keeps [where P = db_ok] db_ok_update_message)

lemma ok_write_pending_flag: "store_ok s \<Longrightarrow> store_ok (snd (write_pending_flag account identity flag wanted s))"
  unfolding write_pending_flag_def execute_def
  by (intro with_connection_ok db_keeps_statement) (auto intro!: db_ok_update_message harmless_pending)

lemma delete_other_accounts_body_eq:
  "delete_other_accounts current = with_connection Write (transaction (delete_other_accounts_body current))"
  by (simp add: delete_other_accounts_def delete_other_accounts_body_def)

lemma db_ok_drop_others: "db_ok d \<Longrightarrow> db_ok (drop_others_db current d)"
  unfolding drop_others_db_def
  by (rule fold_keeps) (auto simp: db_ok_view tables_ok_drop view_drop_account view_full_drop)

lemma ok_delete_other_accounts: "store_ok s \<Longrightarrow> store_ok (snd (delete_other_accounts current s))"
  unfolding delete_other_accounts_body_eq
  by (intro with_connection_ok db_keeps_transaction [OF computes_delete_other_accounts [where P = "\<lambda>_. True"]])
     (auto intro: db_ok_drop_others)

end
