(* ===== verification/Store_Props.thy ===== *)
theory Store_Props
  imports Store_Steps
begin

text \<open>
  The store as a whole: the step relation of its operations, of what SQLite and the disk may
  answer and of restarts, and the properties of the store.
\<close>

section \<open>Reads\<close>

lemma ok_reads:
  "store_ok s \<Longrightarrow> store_ok (snd (read_folder_sync folder s))"
  "store_ok s \<Longrightarrow> store_ok (snd (stored_identities account identities s))"
  "store_ok s \<Longrightarrow> store_ok (snd (identities_in_other_folders folder identities s))"
  "store_ok s \<Longrightarrow> store_ok (snd (pending_changes folder s))"
  "store_ok s \<Longrightarrow> store_ok (snd (read_folders account s))"
  "store_ok s \<Longrightarrow> store_ok (snd (read_folder_rows folder s))"
  "store_ok s \<Longrightarrow> store_ok (snd (read_message_content account identity s))"
  unfolding read_folder_sync_def stored_folder_id_def read_folder_state_def read_folder_identities_def
    stored_identities_def read_stored_identities_def identities_in_other_folders_def
    read_identities_in_other_folders_def pending_changes_def read_pending_changes_def read_folders_def
    read_folder_rows_def read_listed_rows_def read_message_content_def
  by (intro with_connection_ok db_keeps_reads; auto intro!: db_keeps_reads split: option.split simp del: ret_run)+

section \<open>Steps\<close>

text \<open>
  \<open>answers\<close>: between two operations SQLite, the file system and the file's readability may change,
  and the process may end, after which the file holds what was committed.
\<close>

inductive store_step :: "store \<Rightarrow> store \<Rightarrow> bool" where
  replace: "store_step s (snd (replace_folders account folders cancelled s))"
| batch: "store_step s (snd (store_batch folder batch cancelled s))"
| pending: "store_step s (snd (write_pending_flag account identity flag wanted s))"
| settle: "store_step s (snd (settle_flags account identities flag wanted s))"
| refuse: "store_step s (snd (drop_pending_flags account identities flag wanted s))"
| others: "store_step s (snd (delete_other_accounts current s))"
| sync: "store_step s (snd (read_folder_sync folder s))"
| identities: "store_step s (snd (stored_identities account identities s))"
| elsewhere: "store_step s (snd (identities_in_other_folders folder identities s))"
| changes: "store_step s (snd (pending_changes folder s))"
| folders: "store_step s (snd (read_folders account s))"
| rows: "store_step s (snd (read_folder_rows folder s))"
| content: "store_step s (snd (read_message_content account identity s))"
| answers: "file_db (disk_file disk) = file_db (disk_file (store_disk s)) \<Longrightarrow>
    store_step s (s\<lparr>store_disk := disk, store_connection := map_option (conn_faults_update (\<lambda>_. faults)) (store_connection s)\<rparr>)"
| restart: "store_connection s = Some c \<Longrightarrow> file_db (disk_file disk) = conn_db c \<Longrightarrow>
    store_step s (s\<lparr>store_disk := disk, store_connection := None\<rparr>)"

inductive reachable :: "store \<Rightarrow> bool" where
  start: "disk_file disk = empty_file \<Longrightarrow> reachable (store_at schema disk)"
| step: "reachable s \<Longrightarrow> store_step s s' \<Longrightarrow> reachable s'"

inductive_cases store_stepE: "store_step s s'"

lemma store_step_ok: "store_step s s' \<Longrightarrow> store_ok s \<Longrightarrow> store_ok s'"
proof (induction rule: store_step.induct)
  case (answers disk s faults)
  then show ?case by (cases "store_connection s") (simp_all add: store_ok_def current_db_def)
next
  case (restart s c disk)
  then show ?case by (simp add: store_ok_def current_db_def)
qed (simp_all add: ok_replace_folders ok_store_batch ok_write_pending_flag ok_update_messages harmless_rules
    settle_flags_def drop_pending_flags_def ok_delete_other_accounts ok_reads)

lemma reachable_ok: "reachable s \<Longrightarrow> store_ok s"
  by (induction rule: reachable.induct)
     (simp_all add: store_step_ok, simp add: store_ok_def current_db_def store_at_def empty_file_def)

section \<open>A batch on the view, pointwise\<close>

lemma fold_remove:
  "fold (spec_remove a f) removed v =
    v\<lparr>v_holds := (\<lambda>b g. if b = a \<and> g = f then v_holds v b g - set removed else v_holds v b g)\<rparr>"
proof (induction removed arbitrary: v)
  case (Cons i removed)
  show ?case
    by (simp only: fold_Cons o_apply Cons.IH, intro view_eqI) (auto simp: spec_remove_def fun_eq_iff)
next
  case Nil
  show ?case by (intro view_eqI) (auto simp: fun_eq_iff)
qed

text \<open>The message stays in the account when a batch's removals are stored.\<close>

definition survives :: "string \<Rightarrow> string \<Rightarrow> folder_batch \<Rightarrow> view \<Rightarrow> string \<Rightarrow> bool" where
  "survives a f batch v i \<longleftrightarrow> i \<notin> set (batch_removed batch) \<or> (\<exists>g. g \<noteq> f \<and> i \<in> v_holds v a g)"

lemma removals_message:
  assumes "view_full v" and "survives a f batch v i"
  shows "v_message (spec_removals a f (batch_removed batch) v) a i = v_message v a i"
proof (cases "v_message v a i")
  case None
  then show ?thesis by (simp add: spec_removals_def spec_purge_def fold_remove)
next
  case (Some e)
  then obtain g where "i \<in> v_holds v a g" using assms(1) by (auto simp: view_full_def)
  then have "\<exists>g. i \<in> (if g = f then v_holds v a g - set (batch_removed batch) else v_holds v a g)"
    using assms(2) unfolding survives_def by (cases "g = f") (auto split: if_splits)
  then show ?thesis by (auto simp: spec_removals_def spec_purge_def fold_remove split: if_splits)
qed

lemma holds_flags [simp]: "v_holds (spec_flags a states v) = v_holds v"
  unfolding spec_flags_def by (rule fold_keeps [where P = "\<lambda>w. v_holds w = v_holds v"]) (auto simp: spec_update_def)

lemma holds_removals:
  "v_holds (spec_removals a f removed v) = (\<lambda>b g. if b = a \<and> g = f then v_holds v b g - set removed else v_holds v b g)"
  by (auto simp: spec_removals_def spec_purge_def fold_remove fun_eq_iff)

lemma holds_arrive:
  "v_holds (fold (spec_arrive a f) arrived v) =
    (\<lambda>b g. if b = a \<and> g = f then v_holds v b g \<union> msg_identity ` set arrived else v_holds v b g)"
proof (induction arrived arbitrary: v)
  case (Cons m arrived)
  show ?case by (simp add: Cons) (auto simp: spec_arrive_def spec_hold_def fun_eq_iff)
qed (simp add: fun_eq_iff)

lemma message_known [simp]: "v_message (spec_known a f i v) = v_message v"
  by (simp add: spec_known_def spec_hold_def)

lemma message_fold_known [simp]: "v_message (fold (\<lambda>(i, _). spec_known a f i) known v) = v_message v"
  by (rule fold_keeps [where P = "\<lambda>w. v_message w = v_message v"]) auto

lemma holds_known:
  "v_holds (fold (\<lambda>(i, _). spec_known a f i) known v) =
    (\<lambda>b g. if b = a \<and> g = f then v_holds v b g \<union> {i \<in> fst ` set known. v_message v a i \<noteq> None} else v_holds v b g)"
proof (induction known arbitrary: v)
  case (Cons p known)
  obtain i x where p: "p = (i, x)" by (cases p)
  show ?case
    unfolding p by (simp add: Cons.IH) (auto simp: spec_known_def spec_hold_def fun_eq_iff)
qed (simp add: fun_eq_iff)

lemma present_flags: "v_message (spec_flags a states v) b i = None \<longleftrightarrow> v_message v b i = None"
  unfolding spec_flags_def
  by (rule fold_keeps [where P = "\<lambda>w. v_message w b i = None \<longleftrightarrow> v_message v b i = None"]) (auto simp: spec_update_def split: if_splits)

lemma state_parts [simp]:
  "v_holds (case state of Some st \<Rightarrow> spec_state a f st v | None \<Rightarrow> v) = v_holds v"
  "v_message (case state of Some st \<Rightarrow> spec_state a f st v | None \<Rightarrow> v) = v_message v"
  by (cases state; simp add: spec_state_def)+

lemma holds_batch:
  "v_holds (spec_batch a f batch v) b g =
    (if b = a \<and> g = f
     then v_holds v a f - set (batch_removed batch) \<union> msg_identity ` set (batch_arrived batch) \<union>
       {i \<in> fst ` set (batch_known_arrived batch). v_message (spec_batch a f batch v) a i \<noteq> None}
     else v_holds v b g)"
  by (simp add: spec_batch_def Let_def holds_known holds_arrive holds_removals present_flags)

text \<open>A property of one entry that flags and full records keep, a batch keeps for a message that stays.\<close>

lemma batch_entry:
  assumes full: "view_full v" and stays: "survives a f batch v i" and e: "v_message v a i = Some e" and P: "P e"
    and flags: "\<And>e flags. P e \<Longrightarrow> P (with_flags flags e)"
    and arrive: "\<And>e message. message \<in> set (batch_arrived batch) \<Longrightarrow> msg_identity message = i \<Longrightarrow> P e \<Longrightarrow> P (arrived_entry message (Some e))"
  shows "\<exists>e'. v_message (spec_batch a f batch v) a i = Some e' \<and> P e'"
proof -
  let ?S = "\<lambda>w. \<exists>e'. v_message w a i = Some e' \<and> P e'"
  have fl: "?S w \<Longrightarrow> ?S (spec_flags a states w)" for w states
    unfolding spec_flags_def by (rule fold_keeps [where P = ?S]) (use flags in \<open>auto simp: spec_update_def\<close>)
  have ar: "?S w \<Longrightarrow> ?S (fold (spec_arrive a f) (batch_arrived batch) w)" for w
    by (rule fold_keeps [where P = ?S]) (use arrive in \<open>auto simp: spec_arrive_def spec_hold_def\<close>)
  have "?S (spec_removals a f (batch_removed batch) v)"
    using removals_message [OF full stays] e P by simp
  then have "?S (fold (spec_arrive a f) (batch_arrived batch)
      (spec_flags a (batch_flag_states batch) (spec_removals a f (batch_removed batch) v)))"
    by (intro ar fl)
  then have "?S (fold (\<lambda>(i, _). spec_known a f i) (batch_known_arrived batch) (fold (spec_arrive a f) (batch_arrived batch)
      (spec_flags a (batch_flag_states batch) (spec_removals a f (batch_removed batch) v))))"
    by simp
  then have "?S (spec_flags a (batch_known_arrived batch) (fold (\<lambda>(i, _). spec_known a f i) (batch_known_arrived batch)
      (fold (spec_arrive a f) (batch_arrived batch)
      (spec_flags a (batch_flag_states batch) (spec_removals a f (batch_removed batch) v)))))"
    by (rule fl)
  then show ?thesis by (simp add: spec_batch_def Let_def)
qed

section \<open>What a write leaves\<close>

lemma opened_run:
  assumes "store_connection s = Some c" and "with_connection operation work s = (r, s')"
  obtains x c' where "work c = (x, c')" and "current_db s' = conn_db c'" and "store_connection s' = Some c'"
    and "r = map_sum (\<lambda>e. storage_failure operation (Sqlite e)) id x" and "current_db s = conn_db c"
proof -
  obtain x c' where w: "work c = (x, c')" by (cases "work c")
  show thesis
    by (rule that [OF w]) (use assms w in \<open>auto simp: with_connection_def run_work_def current_db_def split: sum.splits\<close>)
qed

lemma opened_transaction:
  assumes s: "store_connection s = Some c" and run: "with_connection operation (transaction body) s = (r, s')"
    and body: "computes P body f"
  shows "isl r \<Longrightarrow> current_db s' = current_db s"
    and "r = Inr x \<Longrightarrow> P (current_db s) \<Longrightarrow> f (current_db s) = (x, current_db s')"
    and "faultless c \<Longrightarrow> P (current_db s) \<Longrightarrow> \<exists>x. r = Inr x"
proof -
  obtain y c' where y: "transaction body c = (y, c')" "current_db s' = conn_db c'" "current_db s = conn_db c"
    "r = map_sum (\<lambda>e. storage_failure operation (Sqlite e)) id y"
    using opened_run [OF s run] by metis
  show "isl r \<Longrightarrow> current_db s' = current_db s"
    using y transaction_error by (cases y) fastforce+
  show "r = Inr x \<Longrightarrow> P (current_db s) \<Longrightarrow> f (current_db s) = (x, current_db s')"
    using y computesD [OF computes_transaction [OF body], of c] by (cases y) auto
  show "faultless c \<Longrightarrow> P (current_db s) \<Longrightarrow> \<exists>x. r = Inr x"
    using y computes_returns [OF computes_transaction [OF body], of c] by fastforce
qed

end
