(* ===== verification/Store_Demo.thy ===== *)
theory Store_Demo
  imports Store_Props
begin

text \<open>Small concrete stores, on which the properties of the store are evaluated.\<close>

definition demo_disk :: disk where
  "demo_disk = \<lparr>disk_file = empty_file, disk_directory = None, disk_open = [], disk_remove = (\<lambda>_. None),
     disk_schema = None, disk_configure = None, disk_faults = []\<rparr>"

definition demo_account :: account_id where
  "demo_account = AccountId ''a''"

definition demo_inbox :: folder_ref where
  "demo_inbox = \<lparr>ref_account = demo_account, ref_identity = ''I''\<rparr>"

definition demo_archive :: folder_ref where
  "demo_archive = \<lparr>ref_account = demo_account, ref_identity = ''A''\<rparr>"

definition demo_folders :: "folder list" where
  "demo_folders = [
     \<lparr>folder_identity = ''I'', folder_name = ''INBOX'', folder_parent = None, folder_role = Some Inbox, folder_selectable = True\<rparr>,
     \<lparr>folder_identity = ''A'', folder_name = ''Old'', folder_parent = None, folder_role = None, folder_selectable = True\<rparr>]"

definition demo_message :: "string \<Rightarrow> int \<Rightarrow> received_content \<Rightarrow> message" where
  "demo_message identity received content = \<lparr>msg_identity = identity,
     msg_fields = \<lparr>fields_subject = Some ''s'', fields_from = None, fields_to = None\<rparr>,
     msg_received = Some received, msg_seen = False, msg_flagged = False, msg_content = content, msg_preview = ''p''\<rparr>"

definition demo_state :: folder_state where
  "demo_state = \<lparr>state_server_position = None, state_fill_place = None, state_synchronized = True,
     state_numbers = Some \<lparr>num_uid_validity = Some 7, num_message_count = 2, num_uid_next = Some 9, num_highest_modseq = Some (- 1)\<rparr>\<rparr>"

definition demo_listed :: store where
  "demo_listed = snd (replace_folders demo_account demo_folders False (store_at ''schema'' demo_disk))"

definition demo_batch :: folder_batch where
  "demo_batch = empty_batch\<lparr>batch_arrived := [demo_message ''m1'' 10 (Text ''t''), demo_message ''m2'' 20 NotDownloaded],
     batch_state := Some demo_state\<rparr>"

definition demo_loaded :: store where
  "demo_loaded = snd (store_batch demo_inbox demo_batch False demo_listed)"

definition demo_wished :: store where
  "demo_wished = snd (write_pending_flag demo_account ''m1'' Seen True demo_loaded)"

lemma demo_reachable:
  "reachable (store_at ''schema'' demo_disk)" "reachable demo_listed" "reachable demo_loaded" "reachable demo_wished"
proof -
  show 1: "reachable (store_at ''schema'' demo_disk)"
    by (rule reachable.start) (simp add: demo_disk_def)
  show 2: "reachable demo_listed"
    unfolding demo_listed_def by (rule reachable.step [OF 1 store_step.replace])
  show 3: "reachable demo_loaded"
    unfolding demo_loaded_def by (rule reachable.step [OF 2 store_step.batch])
  show "reachable demo_wished"
    unfolding demo_wished_def by (rule reachable.step [OF 3 store_step.pending])
qed

lemma demo_listed_value: "store_connection demo_listed = Some \<lparr>conn_db = \<lparr>
    db_folders = [
      \<lparr>fr_id = 1, fr_account = ''a'', fr_identity = ''I'', fr_name = ''INBOX'', fr_parent = None, fr_role = Some ''inbox'',
       fr_selectable = True, fr_server_position = None, fr_fill_place = None, fr_synchronized = False,
       fr_uid_validity = None, fr_message_count = None, fr_uid_next = None, fr_highest_modseq = None\<rparr>,
      \<lparr>fr_id = 2, fr_account = ''a'', fr_identity = ''A'', fr_name = ''Old'', fr_parent = None, fr_role = None,
       fr_selectable = True, fr_server_position = None, fr_fill_place = None, fr_synchronized = False,
       fr_uid_validity = None, fr_message_count = None, fr_uid_next = None, fr_highest_modseq = None\<rparr>],
    db_messages = [], db_memberships = []\<rparr>, conn_faults = []\<rparr>"
  by code_simp

lemma demo_loaded_value: "map_option (\<lambda>c. (map mr_identity (db_messages (conn_db c)), db_memberships (conn_db c))) (store_connection demo_loaded)
   = Some ([''m1'', ''m2''], [(1, 2), (1, 1)])"
  by code_simp

end
