(* ===== verification/Store_Claims.thy ===== *)
theory Store_Claims
  imports Store_Demo
begin

text \<open>The properties of the mail store, each with a concrete store on which it is applied.\<close>

lemma opened_ok: "reachable s \<Longrightarrow> tables_ok (current_db s)" "reachable s \<Longrightarrow> view_full (view_of (current_db s))"
  using reachable_ok [of s] by (simp_all add: store_ok_def db_ok_view)

lemma demo_connections:
  "store_connection demo_listed \<noteq> None" "store_connection demo_loaded \<noteq> None" "store_connection demo_wished \<noteq> None"
  by code_simp+

lemma demo_loaded_run: "store_batch demo_inbox demo_batch False demo_listed = (Inr Stored, demo_loaded)"
proof -
  have "fst (store_batch demo_inbox demo_batch False demo_listed) = Inr Stored" by code_simp
  then show ?thesis by (simp add: demo_loaded_def prod_eq_iff)
qed

text \<open>
  C1: every store the program can reach, by any order of its operations, with any faults of SQLite
  and of the file system and any restarts, is sound: ids and identities are unique, every stored
  code and number can be read back, a membership names a folder and a message of one account, and
  no message is outside every folder.
\<close>

theorem store_reachable_ok: "reachable s \<Longrightarrow> store_ok s"
  by (rule reachable_ok)

theorem store_reachable_ok_witness:
  "store_ok demo_wished \<and> map mr_identity (db_messages (current_db demo_wished)) = [''m1'', ''m2'']"
proof
  show "store_ok demo_wished" by (rule store_reachable_ok [OF demo_reachable(4)])
  show "map mr_identity (db_messages (current_db demo_wished)) = [''m1'', ''m2'']" by code_simp
qed

lemma store_batch_view:
  assumes "reachable s" and "store_connection s = Some c" and "store_batch folder batch False s = (Inr w, s')"
  shows "w = Stored" and "view_of (current_db s') =
    spec_batch (as_str (ref_account folder)) (ref_identity folder) batch (view_of (current_db s))"
proof -
  have run: "with_connection Write (transaction (store_batch_body folder batch)) s = (Inr w, s')"
    using assms(3) by (simp add: store_batch_def)
  have present: "folder_present folder (current_db s)"
    using assms(3) stored_batch_present [OF assms(2) reachable_ok [OF assms(1)]] by (simp add: store_batch_def)
  from opened_transaction(2) [OF assms(2) run computes_batch_body refl present]
    refinesD(2) [OF refines_batch present_ready [OF present], of batch]
  show "w = Stored" "view_of (current_db s') =
    spec_batch (as_str (ref_account folder)) (ref_identity folder) batch (view_of (current_db s))" by auto
qed

lemmas store_batch_stored = store_batch_view(1)

text \<open>
  C2: storing a batch does to the folders, the messages and the memberships what the specification
  \<open>spec_batch\<close> says, or it fails and changes nothing; without a fault of SQLite, a batch for a
  stored folder is stored.
\<close>

theorem store_batch_refines:
  assumes "reachable s" and "store_connection s = Some c" and "store_batch folder batch False s = (r, s')"
  shows "(case r of
      Inl _ \<Rightarrow> current_db s' = current_db s
    | Inr w \<Rightarrow> w = Stored \<and> view_of (current_db s') =
        spec_batch (as_str (ref_account folder)) (ref_identity folder) batch (view_of (current_db s))) \<and>
    (faultless c \<and> lookup_folder (current_db s) (as_str (ref_account folder)) (ref_identity folder) \<noteq> None \<longrightarrow> r = Inr Stored)"
proof -
  let ?a = "as_str (ref_account folder)" and ?f = "ref_identity folder"
  have run: "with_connection Write (transaction (store_batch_body folder batch)) s = (r, s')"
    using assms(3) by (simp add: store_batch_def)
  note run = opened_transaction [OF assms(2) run computes_batch_body]
  have stored: "w = Stored \<and> view_of (current_db s') = spec_batch ?a ?f batch (view_of (current_db s))" if "r = Inr w" for w
    using store_batch_view [OF assms(1,2)] assms(3) that by auto
  have "r = Inr Stored" if "faultless c" "lookup_folder (current_db s) ?a ?f \<noteq> None"
    using run(3) [OF that(1)] that(2) stored opened_ok [OF assms(1)] by (auto simp: folder_present_def)
  then show ?thesis using stored run(1) by (auto split: sum.split)
qed

theorem store_batch_refines_witness:
  "\<exists>s'. store_batch demo_inbox demo_batch False demo_listed = (Inr Stored, s') \<and>
     view_of (current_db s') = spec_batch ''a'' ''I'' demo_batch (view_of (current_db demo_listed))"
proof -
  obtain r s' where run: "store_batch demo_inbox demo_batch False demo_listed = (r, s')" by (cases "store_batch demo_inbox demo_batch False demo_listed")
  have found: "lookup_folder (current_db demo_listed) (as_str (ref_account demo_inbox)) (ref_identity demo_inbox) \<noteq> None"
    by (simp add: current_db_def demo_listed_value lookup_folder_def folder_at_def demo_inbox_def demo_account_def)
  from store_batch_refines [OF demo_reachable(2) demo_listed_value run] found
  have "r = Inr Stored" "view_of (current_db s') = spec_batch ''a'' ''I'' demo_batch (view_of (current_db demo_listed))"
    by (auto simp: faultless_def demo_inbox_def demo_account_def)
  with run show ?thesis by blast
qed

text \<open>
  After a stored batch, the folder holds what it held without the removals, with the full
  records and with those of the already known messages the account still has; every other folder
  holds what it held. A failed or cancelled write of a batch or of a folder list changes nothing.
\<close>

lemma store_batch_memberships:
  assumes "reachable s" and "store_connection s = Some c" and "store_batch folder batch cancelled s = (r, s')"
  shows "if r = Inr Stored then
      (\<forall>account identity. v_holds (view_of (current_db s')) account identity =
        (if account = as_str (ref_account folder) \<and> identity = ref_identity folder
         then held (current_db s) account identity - set (batch_removed batch) \<union> msg_identity ` set (batch_arrived batch) \<union>
           {i \<in> fst ` set (batch_known_arrived batch). lookup_message (current_db s') account i \<noteq> None}
         else held (current_db s) account identity))
    else current_db s' = current_db s"
proof (cases cancelled)
  case True
  then have "with_connection Write (ret LoadCancelled) s = (r, s')" using assms(3) by (simp add: store_batch_def del: ret_run)
  then obtain x c' where "ret LoadCancelled c = (x :: sqlite_error + store_write, c')" "current_db s' = conn_db c'"
    "r = map_sum (\<lambda>e. storage_failure Write (Sqlite e)) id x" "current_db s = conn_db c"
    using opened_run [OF assms(2)] by metis
  then show ?thesis by auto
next
  case False
  have "view_of (current_db s') = spec_batch (as_str (ref_account folder)) (ref_identity folder) batch (view_of (current_db s))"
    if "r = Inr Stored"
    using store_batch_view [OF assms(1,2)] assms(3) False that by auto
  note view = arg_cong [OF this, of v_holds] arg_cong [OF this, of v_message]
  show ?thesis
  proof (cases "r = Inr Stored")
    case True
    note view = view [OF True]
    have "v_message (spec_batch (as_str (ref_account folder)) (ref_identity folder) batch (view_of (current_db s))) a i \<noteq> None
        \<longleftrightarrow> lookup_message (current_db s') a i \<noteq> None" for a i
      unfolding view(2) [symmetric] by simp
    moreover have "held (current_db s') = v_holds (spec_batch (as_str (ref_account folder)) (ref_identity folder) batch (view_of (current_db s)))"
      using view(1) by simp
    ultimately show ?thesis using True by (simp add: holds_batch)
  next
    case False
    moreover have "isl r"
      using store_batch_stored [OF assms(1,2)] assms(3) \<open>\<not> cancelled\<close> False by (cases r) auto
    ultimately show ?thesis
      using opened_transaction(1) [OF assms(2) _ computes_batch_body] assms(3) \<open>\<not> cancelled\<close> by (simp add: store_batch_def)
  qed
qed

lemma store_batch_memberships_witness:
  "v_holds (view_of (current_db demo_loaded)) ''a'' ''I'' = {''m1'', ''m2''}"
proof -
  from demo_loaded_run have run: "store_batch demo_inbox demo_batch False demo_listed = (Inr Stored, demo_loaded)" .
  from store_batch_memberships [OF demo_reachable(2) demo_listed_value run] show ?thesis
    by (simp add: demo_inbox_def demo_account_def demo_batch_def empty_batch_def demo_message_def
        current_db_def demo_listed_value held_def)
qed

lemma view_message_iff:
  "v_message v = v_message (view_of d) \<Longrightarrow> v_message v a i = map_option entry_of (lookup_message d a i)"
  by simp

lemma stored_batch_entry:
  assumes s: "reachable s" "store_connection s = Some c" "store_batch folder batch False s = (Inr w, s')"
    and stays: "survives (as_str (ref_account folder)) (ref_identity folder) batch (view_of (current_db s)) i"
    and m: "lookup_message (current_db s) (as_str (ref_account folder)) i = Some m" and P: "P (entry_of m)"
    and "\<And>e flags. P e \<Longrightarrow> P (with_flags flags e)"
    and "\<And>e message. message \<in> set (batch_arrived batch) \<Longrightarrow> msg_identity message = i \<Longrightarrow> P e \<Longrightarrow> P (arrived_entry message (Some e))"
  shows "\<exists>m'. lookup_message (current_db s') (as_str (ref_account folder)) i = Some m' \<and> P (entry_of m')"
proof -
  have "\<exists>e. v_message (view_of (current_db s')) (as_str (ref_account folder)) i = Some e \<and> P e"
    unfolding store_batch_view(2) [OF s]
    by (rule batch_entry [OF opened_ok(2) [OF s(1)] stays]) (use assms in simp_all)
  then show ?thesis by auto
qed

text \<open>
  C11: a stored batch leaves the changes the user wants: a message that stays in the account has the
  same pending read state and the same pending star afterwards, whatever flags and records the batch
  brought.
\<close>

theorem store_batch_keeps_wishes:
  assumes "reachable s" and "store_connection s = Some c" and "store_batch folder batch False s = (Inr w, s')"
    and "survives (as_str (ref_account folder)) (ref_identity folder) batch (view_of (current_db s)) i"
    and "lookup_message (current_db s) (as_str (ref_account folder)) i = Some m"
  shows "\<exists>m'. lookup_message (current_db s') (as_str (ref_account folder)) i = Some m' \<and>
    mr_seen_pending m' = mr_seen_pending m \<and> mr_flagged_pending m' = mr_flagged_pending m"
proof -
  have "\<exists>m'. lookup_message (current_db s') (as_str (ref_account folder)) i = Some m' \<and> e_pending (entry_of m') = e_pending (entry_of m)"
    by (rule stored_batch_entry [OF assms]) (simp_all add: with_flags_def arrived_entry_def)
  then show ?thesis
    by (auto simp: entry_of_def fun_eq_iff pending_value_def all_flags split: message_flag.splits)
qed

definition demo_seen_batch :: folder_batch where
  "demo_seen_batch = empty_batch\<lparr>batch_flag_states := [(''m1'', \<lparr>flags_seen = False, flags_flagged = True\<rparr>)],
     batch_arrived := [demo_message ''m1'' 11 NotDownloaded]\<rparr>"

lemma demo_wished_message:
  "map_option (\<lambda>m. (mr_seen_pending m, stored_content m)) (lookup_message (current_db demo_wished) ''a'' ''m1'') = Some (Some True, Inr (Text ''t''))"
  by code_simp

lemma demo_seen_run: "\<exists>s'. store_batch demo_inbox demo_seen_batch False demo_wished = (Inr Stored, s')"
proof -
  have "fst (store_batch demo_inbox demo_seen_batch False demo_wished) = Inr Stored" by code_simp
  then show ?thesis by (metis prod.collapse)
qed

lemma demo_survives: "survives ''a'' ''I'' demo_seen_batch v ''m1''"
  by (simp add: survives_def demo_seen_batch_def empty_batch_def)

theorem store_batch_keeps_wishes_witness:
  "\<exists>s' m'. store_batch demo_inbox demo_seen_batch False demo_wished = (Inr Stored, s') \<and>
     lookup_message (current_db s') ''a'' ''m1'' = Some m' \<and> mr_seen_pending m' = Some True"
proof -
  obtain s' where run: "store_batch demo_inbox demo_seen_batch False demo_wished = (Inr Stored, s')" using demo_seen_run by blast
  obtain c where c: "store_connection demo_wished = Some c" using demo_connections by blast
  obtain m where m: "lookup_message (current_db demo_wished) ''a'' ''m1'' = Some m" "mr_seen_pending m = Some True"
    using demo_wished_message by auto
  from store_batch_keeps_wishes [OF demo_reachable(4) c run, of "''m1''" m] m demo_survives run show ?thesis
    by (auto simp: demo_inbox_def demo_account_def)
qed



section \<open>Wishes the server agreed to or refused\<close>

lemma fold_update_lookup:
  assumes h: "harmless assign"
  shows "lookup_message (fold (\<lambda>i. sql_update_message a i assign) is d) b j =
    (if b = a then map_option (\<lambda>m. (assign ^^ length (filter (\<lambda>i. i = j) is)) m) (lookup_message d b j) else lookup_message d b j)"
proof (induction "is" arbitrary: d)
  case (Cons i "is")
  have at: "message_at b j (if message_at a i m then assign m else m) = message_at b j m" for m
    using h by (simp add: message_at_def harmless_keys)
  have *: "lookup_message (sql_update_message a i assign d) b j = map_option (\<lambda>m. if message_at a i m then assign m else m) (lookup_message d b j)"
    unfolding lookup_message_def sql_update_message_def by (simp del: if_split) (rule find_map_if, rule at)
  have "lookup_message (sql_update_message a i assign d) b j = (if b = a \<and> i = j then map_option assign (lookup_message d b j) else lookup_message d b j)"
  proof (cases "lookup_message d b j")
    case (Some m)
    then have "message_at b j m" unfolding lookup_message_def by (blast dest: find_Some_mem)
    with Some * show ?thesis by (auto simp: message_at_def)
  qed (auto simp: *)
  then show ?case
    by (auto simp: Cons.IH option.map_comp o_def funpow_swap1 cong: option.map_cong)
qed (auto simp: option.map_ident cong: option.map_cong)

lemma settle_twice: "settle_row flag v (settle_row flag v m) = settle_row flag v m"
  by (cases flag) (simp_all add: settle_row_def set_server_value_def set_pending_value_def pending_value_def nullif_def)

lemma drop_twice: "drop_row flag v (drop_row flag v m) = drop_row flag v m"
  by (cases flag) (simp_all add: drop_row_def set_pending_value_def pending_value_def nullif_def)

lemma funpow_idem: "(\<And>x. f (f x) = f x) \<Longrightarrow> 0 < n \<Longrightarrow> (f ^^ n) x = f x"
  by (induction n) (auto, metis funpow_0 gr0I)

lemma update_messages_result:
  assumes h: "harmless assign" and idem: "\<And>m. assign (assign m) = assign m"
    and s: "store_connection s = Some c" and run: "update_messages account identities assign s = (r, s')"
  shows "if isl r then current_db s' = current_db s else
    (\<forall>b j. lookup_message (current_db s') b j =
      (if b = as_str account \<and> j \<in> set identities then map_option assign (lookup_message (current_db s) b j)
       else lookup_message (current_db s) b j))"
proof -
  note res = opened_transaction [OF s run [unfolded update_messages_def] computes_update_messages [where P = "\<lambda>_. True"]]
  have "lookup_message (current_db s') b j =
      (if b = as_str account \<and> j \<in> set identities then map_option assign (lookup_message (current_db s) b j)
       else lookup_message (current_db s) b j)" if "\<not> isl r" for b j
  proof -
    have "r = Inr ()" using that by (cases r) auto
    from res(2) [OF this TrueI] have d: "current_db s' = fold (\<lambda>identity. sql_update_message (as_str account) identity assign) identities (current_db s)"
      by simp
    show ?thesis
    proof (cases "j \<in> set identities")
      case True
      then have "0 < length (filter (\<lambda>i. i = j) identities)" by (auto simp: filter_empty_conv)
      then have "assign ^^ length (filter (\<lambda>i. i = j) identities) = assign" using funpow_idem [of assign, OF idem] by (intro ext) simp
      then show ?thesis unfolding d fold_update_lookup [OF h] using True by simp
    next
      case False
      then have "filter (\<lambda>i. i = j) identities = []" by (auto simp: filter_empty_conv)
      then show ?thesis unfolding d fold_update_lookup [OF h] using False by (simp add: option.map_id)
    qed
  qed
  with res(1) show ?thesis by simp
qed

text \<open>
  C10: once the server was seen to hold a value, it is the stored one of exactly the named messages
  and a pending value equal to it ends, while a newer wish for the other value, the other flag and
  every other message stay; a refusal ends the equal pending value and leaves the stored value. A
  failed write changes nothing.
\<close>

theorem settle_and_refuse:
  assumes "store_connection s = Some c"
    and "run = (if agreed then settle_flags account identities flag v else drop_pending_flags account identities flag v)"
    and "run s = (r, s')"
  shows "if isl r then current_db s' = current_db s else
    (\<forall>b i. case lookup_message (current_db s) b i of
      None \<Rightarrow> lookup_message (current_db s') b i = None
    | Some m \<Rightarrow> (\<exists>m'. lookup_message (current_db s') b i = Some m' \<and>
        (if b = as_str account \<and> i \<in> set identities
         then server_value flag m' = (if agreed then v else server_value flag m) \<and>
           pending_value flag m' = (if pending_value flag m = Some v then None else pending_value flag m) \<and>
           (\<forall>other. other \<noteq> flag \<longrightarrow> server_value other m' = server_value other m \<and> pending_value other m' = pending_value other m)
         else m' = m)))"
proof -
  define assign where "assign = (if agreed then settle_row flag v else drop_row flag v)"
  have "update_messages account identities assign s = (r, s')"
    using assms(2,3) by (auto simp: assign_def settle_flags_def drop_pending_flags_def split: if_splits)
  moreover have "harmless assign" "\<And>m. assign (assign m) = assign m"
    by (simp_all add: assign_def harmless_rules settle_twice drop_twice)
  ultimately have upd: "if isl r then current_db s' = current_db s else
    (\<forall>b j. lookup_message (current_db s') b j =
      (if b = as_str account \<and> j \<in> set identities then map_option assign (lookup_message (current_db s) b j)
       else lookup_message (current_db s) b j))"
    using update_messages_result [OF _ _ assms(1)] by blast
  have row: "server_value flag (assign m) = (if agreed then v else server_value flag m)"
    "pending_value flag (assign m) = (if pending_value flag m = Some v then None else pending_value flag m)"
    "other \<noteq> flag \<Longrightarrow> server_value other (assign m) = server_value other m \<and> pending_value other (assign m) = pending_value other m"
    for m other
    by (cases flag; cases other; simp add: assign_def settle_row_def drop_row_def set_server_value_def set_pending_value_def
        server_value_def pending_value_def nullif_def)+
  show ?thesis
  proof (cases "isl r")
    case False
    have "case lookup_message (current_db s) b i of
        None \<Rightarrow> lookup_message (current_db s') b i = None
      | Some m \<Rightarrow> (\<exists>m'. lookup_message (current_db s') b i = Some m' \<and>
          (if b = as_str account \<and> i \<in> set identities
           then server_value flag m' = (if agreed then v else server_value flag m) \<and>
             pending_value flag m' = (if pending_value flag m = Some v then None else pending_value flag m) \<and>
             (\<forall>other. other \<noteq> flag \<longrightarrow> server_value other m' = server_value other m \<and> pending_value other m' = pending_value other m)
           else m' = m))" for b i
      using upd False by (cases "lookup_message (current_db s) b i") (auto simp: row)
    with False show ?thesis by simp
  qed (use upd in simp)
qed

lemma demo_settle_run: "settle_flags demo_account [''m1''] Seen v demo_wished = (Inr (), snd (settle_flags demo_account [''m1''] Seen v demo_wished))"
proof -
  have "fst (settle_flags demo_account [''m1''] Seen True demo_wished) = Inr ()" by code_simp
  moreover have "fst (settle_flags demo_account [''m1''] Seen False demo_wished) = Inr ()" by code_simp
  ultimately show ?thesis by (cases v) (simp_all add: prod_eq_iff)
qed

theorem settle_and_refuse_witness:
  "(\<exists>m'. lookup_message (current_db (snd (settle_flags demo_account [''m1''] Seen True demo_wished))) ''a'' ''m1'' = Some m' \<and>
     mr_seen m' = True \<and> mr_seen_pending m' = None) \<and>
   (\<exists>m'. lookup_message (current_db (snd (settle_flags demo_account [''m1''] Seen False demo_wished))) ''a'' ''m1'' = Some m' \<and>
     mr_seen m' = False \<and> mr_seen_pending m' = Some True)"
proof -
  obtain c where c: "store_connection demo_wished = Some c" using demo_connections by blast
  obtain m where m: "lookup_message (current_db demo_wished) ''a'' ''m1'' = Some m" "mr_seen_pending m = Some True"
    using demo_wished_message by auto
  have "\<exists>m'. lookup_message (current_db (snd (settle_flags demo_account [''m1''] Seen v demo_wished))) ''a'' ''m1'' = Some m' \<and>
     mr_seen m' = v \<and> mr_seen_pending m' = (if v then None else Some True)" for v
  proof -
    let ?s = "snd (settle_flags demo_account [''m1''] Seen v demo_wished)"
    have "settle_flags demo_account [''m1''] Seen v demo_wished = (Inr (), ?s)" by (rule demo_settle_run)
    note settled = settle_and_refuse [OF c, of _ True demo_account "[''m1'']" Seen v, OF refl, unfolded if_True, OF this]
    from settled have "case lookup_message (current_db demo_wished) ''a'' ''m1'' of None \<Rightarrow> lookup_message (current_db ?s) ''a'' ''m1'' = None
      | Some m \<Rightarrow> (\<exists>m'. lookup_message (current_db ?s) ''a'' ''m1'' = Some m' \<and>
        (if ''a'' = as_str demo_account \<and> ''m1'' \<in> set [''m1'']
         then server_value Seen m' = v \<and> pending_value Seen m' = (if pending_value Seen m = Some v then None else pending_value Seen m) \<and>
           (\<forall>other. other \<noteq> Seen \<longrightarrow> server_value other m' = server_value other m \<and> pending_value other m' = pending_value other m)
         else m' = m))" by simp
    with m show ?thesis by (auto simp: server_value_def pending_value_def demo_account_def)
  qed
  from this [of True] this [of False] show ?thesis by simp
qed

end
