(* ===== verification/Store_Reads.thy ===== *)
theory Store_Reads
  imports Store_Claims
begin

text \<open>
  What the store's reads return: nothing damaged, the folder's rows in their order, and the state a
  cycle saved. Then the writes of a folder list and of the accounts, and the opening of the file.
\<close>

section \<open>Reads compute\<close>

lemma all_rows_ok: "(\<And>r. r \<in> set rs \<Longrightarrow> \<exists>x. convert r = Inr x) \<Longrightarrow> all_rows (map convert rs) = Inr (map (\<lambda>r. projr (convert r)) rs)"
proof (induction rs)
  case (Cons r rs)
  then obtain x where "convert r = Inr x" by auto
  with Cons show ?case by simp
qed simp

lemma computes_query_map:
  assumes "\<And>d r. P d \<Longrightarrow> r \<in> set (rows d) \<Longrightarrow> \<exists>x. convert r = Inr x"
  shows "computes P (query_map rows convert) (\<lambda>d. (map (\<lambda>r. projr (convert r)) (rows d), d))"
  unfolding query_map_def
proof (rule computes_statement)
  fix d
  assume "P d"
  then have "all_rows (map convert (rows d)) = Inr (map (\<lambda>r. projr (convert r)) (rows d))"
    using assms by (intro all_rows_ok)
  then show "map_sum id (\<lambda>xs. (xs, d)) (all_rows (map convert (rows d))) = Inr (map (\<lambda>r. projr (convert r)) (rows d), d)"
    by simp
qed

lemma computes_optional_row:
  assumes "\<And>d r. P d \<Longrightarrow> r \<in> set (rows d) \<Longrightarrow> \<exists>x. convert r = Inr x"
  shows "computes P (optional (query_row rows convert))
    (\<lambda>d. (case rows d of [] \<Rightarrow> None | r # _ \<Rightarrow> Some (projr (convert r)), d))"
  unfolding computes_def
proof (intro allI impI conjI)
  fix c c' :: connection and x
  assume P: "P (conn_db c)"
  let ?rest = "c\<lparr>conn_faults := tl (conn_faults c)\<rparr>"
  have ok: "convert r = Inr (projr (convert r))" if "r \<in> set (rows (conn_db c))" for r
    using assms [OF P that] by auto
  have run: "optional (query_row rows convert) c = (case conn_faults c of
      Some (code, words) # _ \<Rightarrow> (Inl (SqliteFailure code words), ?rest)
    | _ \<Rightarrow> (Inr (case rows (conn_db c) of [] \<Rightarrow> None | r # _ \<Rightarrow> Some (projr (convert r))), ?rest))"
  proof (cases "rows (conn_db c)")
    case Nil
    then show ?thesis
      by (auto simp: optional_def on_result_def query_row_def statement_def Let_def split: list.split option.split)
  next
    case (Cons r rs)
    with ok [of r] show ?thesis
      by (cases "convert r") (auto simp: optional_def on_result_def query_row_def statement_def Let_def split: list.split option.split)
  qed
  show "(case rows (conn_db c) of [] \<Rightarrow> None | r # _ \<Rightarrow> Some (projr (convert r)), conn_db c) = (x, conn_db c')"
    if "optional (query_row rows convert) c = (Inr x, c')"
    using that unfolding run by (auto split: list.splits option.splits)
  show "\<exists>x c'. optional (query_row rows convert) c = (Inr x, c') \<and> faultless c'" if "faultless c"
    using that unfolding run faultless_def by (cases "conn_faults c") auto
qed

lemma row_reads_ok:
  "tables_ok d \<Longrightarrow> r \<in> set (db_folders d) \<Longrightarrow> \<exists>x. state_from_row r = Inr x"
  "tables_ok d \<Longrightarrow> r \<in> set (db_folders d) \<Longrightarrow> \<exists>x. stored_folder r = Inr x"
  "tables_ok d \<Longrightarrow> m \<in> set (db_messages d) \<Longrightarrow> \<exists>x. stored_content m = Inr x"
  by (simp_all add: tables_ok_def folders_ok_def messages_ok_def folder_row_ok_def message_row_ok_iff)

lemma computes_read_folder_state:
  "computes (\<lambda>d. tables_ok d \<and> (\<exists>r \<in> set (db_folders d). fr_id r = i)) (read_folder_state i)
     (\<lambda>d. (projr (state_from_row (hd (filter (\<lambda>r. fr_id r = i) (db_folders d)))), d))"
  unfolding read_folder_state_def query_row_def
proof (rule computes_statement)
  fix d
  assume "tables_ok d \<and> (\<exists>r \<in> set (db_folders d). fr_id r = i)"
  then obtain r rs where rows: "filter (\<lambda>r. fr_id r = i) (db_folders d) = r # rs" and ok: "tables_ok d"
    by (metis (mono_tags, lifting) filter_empty_conv list.exhaust)
  then have "r \<in> set (db_folders d)" by (metis filter_is_subset list.set_intros(1) subsetD)
  with row_reads_ok(1) [OF ok] obtain x where "state_from_row r = Inr x" by blast
  with rows show "(case filter (\<lambda>r. fr_id r = i) (db_folders d) of [] \<Rightarrow> Inl QueryReturnedNoRows
      | r # _ \<Rightarrow> map_sum id (\<lambda>x. (x, d)) (state_from_row r)) =
      Inr (projr (state_from_row (hd (filter (\<lambda>r. fr_id r = i) (db_folders d)))), d)"
    by simp
qed

lemma state_of_folder:
  assumes ok: "tables_ok d" and r: "r \<in> set (db_folders d)"
  shows "hd (filter (\<lambda>s. fr_id s = fr_id r) (db_folders d)) = r"
proof -
  have "filter (\<lambda>s. fr_id s = fr_id r) (db_folders d) \<noteq> []" using r by (auto simp: filter_empty_conv)
  then have "hd (filter (\<lambda>s. fr_id s = fr_id r) (db_folders d)) \<in> set (filter (\<lambda>s. fr_id s = fr_id r) (db_folders d))" by (rule hd_in_set)
  then show ?thesis using folder_id_unique [OF ok _ r] by auto
qed

definition rows_value :: "folder_ref \<Rightarrow> db \<Rightarrow> message_list_row list option" where
  "rows_value folder d = (case lookup_folder d (as_str (ref_account folder)) (ref_identity folder) of
     None \<Rightarrow> None
   | Some r \<Rightarrow> (let rows = map listed_row (newest_first (folder_messages d (fr_id r))) in
       if fr_synchronized r \<or> rows \<noteq> [] then Some rows else None))"

lemma state_synchronized_row: "state_from_row r = Inr st \<Longrightarrow> state_synchronized st = fr_synchronized r"
  by (auto simp: state_from_row_def bind_result_def split: sum.splits option.splits)

lemma computes_read_folder_rows:
  "computes tables_ok (and_then (optional (stored_folder_id folder)) (\<lambda>found. case found of
       None \<Rightarrow> ret None
     | Some folder_id \<Rightarrow>
         and_then (read_listed_rows folder_id) (\<lambda>rows.
         and_then (read_folder_state folder_id) (\<lambda>state.
         ret (if state_synchronized state \<or> rows \<noteq> [] then Some rows else None))))) (\<lambda>d. (rows_value folder d, d))"
proof -
  let ?look = "\<lambda>d. lookup_folder d (as_str (ref_account folder)) (ref_identity folder)"
  let ?state = "\<lambda>i d. projr (state_from_row (hd (filter (\<lambda>r. fr_id r = i) (db_folders d))))"
  let ?rows = "\<lambda>i d. map listed_row (newest_first (folder_messages d i))"
  have 1: "computes tables_ok (optional (stored_folder_id folder)) (\<lambda>d. (map_option fr_id (?look d), d))"
    unfolding stored_folder_id_def
    by (rule computes_weaken [OF computes_optional_row [where P = tables_ok]])
       (auto simp: lookup_folder_def filter_Nil_find split: list.split dest: filter_Cons_find)
  have 2: "computes (\<lambda>d. tables_ok d \<and> (\<exists>r \<in> set (db_folders d). fr_id r = i))
     (and_then (read_listed_rows i) (\<lambda>rows. and_then (read_folder_state i) (\<lambda>state.
         ret (if state_synchronized state \<or> rows \<noteq> [] then Some rows else None))))
     (\<lambda>d. (if state_synchronized (?state i d) \<or> ?rows i d \<noteq> [] then Some (?rows i d) else None, d))" for i
    unfolding read_listed_rows_def
    by (rule computes_read_then [where f = "?rows i" and g = "\<lambda>rows d. (if state_synchronized (?state i d) \<or> rows \<noteq> [] then Some rows else None, d)"],
        rule computes_prepare_then, rule computes_query,
        rule computes_read_then [where f = "?state i" and g = "\<lambda>state d. (if state_synchronized state \<or> _ d \<noteq> [] then Some (_ d) else None, d)"],
        rule computes_weaken [OF computes_read_folder_state], simp, simp, rule computes_ret)
  show ?thesis
  proof (rule computes_weaken [OF computes_read_then [OF 1]])
    show "computes (\<lambda>d. tables_ok d \<and> map_option fr_id (?look d) = found)
       (case found of None \<Rightarrow> ret None | Some i \<Rightarrow> and_then (read_listed_rows i) (\<lambda>rows. and_then (read_folder_state i) (\<lambda>state.
         ret (if state_synchronized state \<or> rows \<noteq> [] then Some rows else None))))
       (\<lambda>d. (case found of None \<Rightarrow> None | Some i \<Rightarrow>
          if state_synchronized (?state i d) \<or> ?rows i d \<noteq> [] then Some (?rows i d) else None, d))" for found
    proof (cases found)
      case (Some i)
      then show ?thesis
        by simp (rule computes_weaken [OF 2], auto simp: lookup_folder_iff)
    qed (simp add: computes_ret del: ret_run)
    fix d
    assume ok: "tables_ok d"
    show "(case map_option fr_id (?look d) of None \<Rightarrow> None | Some i \<Rightarrow>
          if state_synchronized (?state i d) \<or> ?rows i d \<noteq> [] then Some (?rows i d) else None, d) = (rows_value folder d, d)"
    proof (cases "?look d")
      case (Some r)
      then have r: "r \<in> set (db_folders d)" using ok by (simp add: lookup_folder_iff)
      then obtain st where "state_from_row r = Inr st" using row_reads_ok(1) [OF ok] by blast
      with Some show ?thesis
        by (simp add: rows_value_def state_of_folder [OF ok r] state_synchronized_row Let_def)
    qed (simp add: rows_value_def)
  qed simp
qed

lemma opened_read:
  assumes s: "store_connection s = Some c" and run: "with_connection operation work s = (r, s')"
    and work: "computes P work (\<lambda>d. (f d, d))" and keep: "db_keeps (\<lambda>d. d = current_db s) work"
  shows "current_db s' = current_db s" and "r = Inr x \<Longrightarrow> P (current_db s) \<Longrightarrow> x = f (current_db s)"
    and "faultless c \<Longrightarrow> P (current_db s) \<Longrightarrow> r = Inr (f (current_db s))"
proof -
  obtain y c' where y: "work c = (y, c')" "current_db s' = conn_db c'" "current_db s = conn_db c"
    "r = map_sum (\<lambda>e. storage_failure operation (Sqlite e)) id y"
    using opened_run [OF s run] by metis
  show "current_db s' = current_db s"
    unfolding y(2) by (rule keepsD_eq [OF keep [unfolded db_keeps_def] _ y(1)]) (rule y(3) [symmetric])
  show "r = Inr x \<Longrightarrow> P (current_db s) \<Longrightarrow> x = f (current_db s)"
    using y computesD [OF work, of c] by (cases y) auto
  show "faultless c \<Longrightarrow> P (current_db s) \<Longrightarrow> r = Inr (f (current_db s))"
  proof -
    assume "faultless c" "P (current_db s)"
    then have "P (conn_db c)" by (simp add: y(3))
    then obtain x c'' where run: "work c = (Inr x, c'')" using computes_returns [OF work _ \<open>faultless c\<close>] by blast
    from computesD [OF work \<open>P (conn_db c)\<close> run] have "f (conn_db c) = x" by (rule Pair_inject)
    then have "x = f (current_db s)" unfolding y(3) by simp
    with run y(1,4) show ?thesis by simp
  qed
qed

text \<open>The later received first, and of the same date the later stored first; a message without a date comes last.\<close>

definition listed_before :: "message_row \<Rightarrow> message_row \<Rightarrow> bool" where
  "listed_before m k \<longleftrightarrow> (mr_received k, mr_id k) \<le> (mr_received m, mr_id m)"

lemma newest_first_sorted:
  "set (newest_first ms) = set ms" "distinct (newest_first ms) = distinct ms"
  "sorted_wrt listed_before (newest_first ms)"
proof -
  show "set (newest_first ms) = set ms" "distinct (newest_first ms) = distinct ms"
    by (simp_all add: newest_first_def)
  have "sorted (map (\<lambda>m. (mr_received m, mr_id m)) (sort_key (\<lambda>m. (mr_received m, mr_id m)) ms))" by simp
  then show "sorted_wrt listed_before (newest_first ms)"
    by (simp add: newest_first_def sorted_map sorted_wrt_rev listed_before_def)
qed

lemma folder_messages_held:
  assumes ok: "tables_ok d" and r: "lookup_folder d a f = Some r"
  shows "set (folder_messages d (fr_id r)) = {m. \<exists>i \<in> held d a f. lookup_message d a i = Some m}"
    and "distinct (map mr_id (folder_messages d (fr_id r)))"
proof -
  have acc: "mr_account m = a" if "m \<in> set (db_messages d)" "(fr_id r, mr_id m) \<in> set (db_memberships d)" for m
  proof -
    have "linked d (fr_id r, mr_id m)" using ok that by (auto simp: tables_ok_def memberships_ok_def)
    then obtain s k where "s \<in> set (db_folders d)" "k \<in> set (db_messages d)" "fr_id s = fr_id r" "mr_id k = mr_id m" "fr_account s = mr_account k"
      by (auto simp: linked_def)
    moreover from this have "s = r" "k = m"
      using r that folder_id_unique [OF ok] message_id_unique [OF ok] lookup_folder_iff [OF ok] by metis+
    ultimately show ?thesis using r by (simp add: lookup_folder_iff [OF ok] folder_at_def)
  qed
  show "set (folder_messages d (fr_id r)) = {m. \<exists>i \<in> held d a f. lookup_message d a i = Some m}"
  proof (intro set_eqI iffI)
    fix m
    assume "m \<in> set (folder_messages d (fr_id r))"
    then have m: "m \<in> set (db_messages d)" "(fr_id r, mr_id m) \<in> set (db_memberships d)" by (auto simp: folder_messages_def)
    then have "lookup_message d a (mr_identity m) = Some m" using acc by (simp add: lookup_message_iff [OF ok] message_at_def)
    with m r show "m \<in> {m. \<exists>i \<in> held d a f. lookup_message d a i = Some m}" by (auto simp: held_lookup [OF ok])
  next
    fix m
    assume "m \<in> {m. \<exists>i \<in> held d a f. lookup_message d a i = Some m}"
    then obtain i where "i \<in> held d a f" "lookup_message d a i = Some m" by blast
    then show "m \<in> set (folder_messages d (fr_id r))"
      using r by (auto simp: folder_messages_def held_lookup [OF ok] lookup_message_iff [OF ok])
  qed
  show "distinct (map mr_id (folder_messages d (fr_id r)))"
    using ok by (simp add: folder_messages_def tables_ok_def messages_ok_def distinct_map_filter)
qed

text \<open>What the window shows of a folder.\<close>

definition rows_spec :: "folder_ref \<Rightarrow> db \<Rightarrow> message_list_row list option \<Rightarrow> bool" where
  "rows_spec folder d found \<longleftrightarrow> (case lookup_folder d (as_str (ref_account folder)) (ref_identity folder) of
     None \<Rightarrow> found = None
   | Some row \<Rightarrow> \<exists>ms. distinct (map mr_id ms) \<and>
       set ms = {m. \<exists>i \<in> held d (as_str (ref_account folder)) (ref_identity folder).
           lookup_message d (as_str (ref_account folder)) i = Some m} \<and>
       sorted_wrt listed_before ms \<and>
       found = (if fr_synchronized row \<or> ms \<noteq> [] then Some (map listed_row ms) else None))"

lemma rows_value_spec:
  assumes ok: "tables_ok d"
  shows "rows_spec folder d (rows_value folder d)"
proof (cases "lookup_folder d (as_str (ref_account folder)) (ref_identity folder)")
  case (Some row)
  let ?ms = "newest_first (folder_messages d (fr_id row))"
  have "distinct (map mr_id ?ms)"
    using folder_messages_held(2) [OF ok Some] by (simp add: distinct_map newest_first_sorted)
  moreover have "rows_value folder d = (if fr_synchronized row \<or> ?ms \<noteq> [] then Some (map listed_row ?ms) else None)"
    using Some by (simp add: rows_value_def Let_def)
  ultimately show ?thesis
    unfolding rows_spec_def Some option.case
    by (intro exI [of _ ?ms]) (use folder_messages_held(1) [OF ok Some] newest_first_sorted in blast)
qed (simp add: rows_value_def rows_spec_def)

text \<open>
  C30: the window's rows of a folder are exactly the messages the folder holds, each once, newest
  first by received date and then by the order they were stored in, each with the user's pending
  read state and star where there is one; there are none to show for a folder that is not stored,
  or that never completed a cycle and holds nothing. The read changes nothing and, unless SQLite
  reports a fault, it succeeds.
\<close>

theorem read_folder_rows_listed:
  assumes "reachable s" and "store_connection s = Some c" and "read_folder_rows folder s = (r, s')"
  shows "current_db s' = current_db s \<and> (faultless c \<longrightarrow> \<not> isl r) \<and>
    (\<forall>found. r = Inr found \<longrightarrow> rows_spec folder (current_db s) found)"
proof -
  let ?d = "current_db s"
  have ok: "tables_ok ?d" using opened_ok assms(1) by blast
  note res = opened_read [OF assms(2) assms(3) [unfolded read_folder_rows_def] computes_read_folder_rows]
  have keep: "db_keeps P (and_then (optional (stored_folder_id folder)) (\<lambda>found. case found of
       None \<Rightarrow> ret None
     | Some folder_id \<Rightarrow> and_then (read_listed_rows folder_id) (\<lambda>rows. and_then (read_folder_state folder_id) (\<lambda>state.
         ret (if state_synchronized state \<or> rows \<noteq> [] then Some rows else None)))))" for P
    unfolding stored_folder_id_def read_listed_rows_def read_folder_state_def
    by (auto intro!: db_keeps_reads split: option.split simp del: ret_run)
  show ?thesis
  proof (intro conjI allI impI)
    show "current_db s' = ?d" by (rule res(1) [OF keep])
    show "\<not> isl r" if "faultless c" using res(3) [OF keep that ok] by simp
    show "rows_spec folder ?d found" if "r = Inr found" for found
      unfolding res(2) [OF keep that ok] by (rule rows_value_spec [OF ok])
  qed
qed

theorem read_folder_rows_listed_witness:
  "\<exists>s' ms. read_folder_rows demo_inbox demo_wished = (Inr (Some (map listed_row ms)), s') \<and>
     sorted_wrt listed_before ms \<and>
     map (\<lambda>r. (row_identity r, row_seen r)) (map listed_row ms) = [(''m2'', False), (''m1'', True)]"
proof -
  obtain c where c: "store_connection demo_wished = Some c" using demo_connections by blast
  obtain r s' where run: "read_folder_rows demo_inbox demo_wished = (r, s')" by (cases "read_folder_rows demo_inbox demo_wished")
  have val: "map_option (map (\<lambda>r. (row_identity r, row_seen r))) (projr (fst (read_folder_rows demo_inbox demo_wished))) = Some [(''m2'', False), (''m1'', True)]"
    "\<not> isl (fst (read_folder_rows demo_inbox demo_wished))"
    "lookup_folder (current_db demo_wished) ''a'' ''I'' \<noteq> None"
    by code_simp+
  then obtain found row where "r = Inr found" "lookup_folder (current_db demo_wished) (as_str (ref_account demo_inbox)) (ref_identity demo_inbox) = Some row"
    using run by (cases r) (auto simp: demo_inbox_def demo_account_def)
  with read_folder_rows_listed [OF demo_reachable(4) c run, unfolded rows_spec_def] obtain ms where
    "sorted_wrt listed_before ms"
    "found = (if fr_synchronized row \<or> ms \<noteq> [] then Some (map listed_row ms) else None)" by auto
  moreover from this val \<open>r = Inr found\<close> run have "found = Some (map listed_row ms)" by (auto split: if_splits)
  ultimately show ?thesis using val run \<open>r = Inr found\<close> by (intro exI [of _ s'] exI [of _ ms]) simp
qed

end
