(* ===== verification/Store_Accounts.thy ===== *)
theory Store_Accounts
  imports Store_Reads
begin

text \<open>
  The store across its operations: the state a cycle saves is the state the next one reads, what a
  new folder list and a new set of accounts leave, and the opening of the file.
\<close>

section \<open>Saved states\<close>

definition sync_value :: "folder_ref \<Rightarrow> db \<Rightarrow> folder_sync" where
  "sync_value folder d = (let i = folder_id_of folder d in
     \<lparr>sync_state = projr (state_from_row (hd (filter (\<lambda>r. fr_id r = i) (db_folders d)))),
      sync_stored = collect_map (map (\<lambda>m. (mr_identity m, \<lparr>flags_seen = mr_seen m, flags_flagged = mr_flagged m\<rparr>)) (folder_messages d i))\<rparr>)"

lemma folder_id_row:
  "folder_present folder d \<Longrightarrow> tables_ok d \<and> (\<exists>r \<in> set (db_folders d). fr_id r = folder_id_of folder d)"
  by (auto simp: folder_present_def folder_id_of_def) (metis lookup_folder_iff)

lemma computes_read_folder_sync:
  "computes (folder_present folder) (and_then (stored_folder_id folder) (\<lambda>folder_id.
     and_then (read_folder_state folder_id) (\<lambda>state.
     and_then (read_folder_identities folder_id) (\<lambda>stored.
     ret \<lparr>sync_state = state, sync_stored = stored\<rparr>)))) (\<lambda>d. (sync_value folder d, d))"
proof -
  let ?state = "\<lambda>i d. projr (state_from_row (hd (filter (\<lambda>r. fr_id r = i) (db_folders d))))"
  let ?stored = "\<lambda>i d. collect_map (map (\<lambda>m. (mr_identity m, \<lparr>flags_seen = mr_seen m, flags_flagged = mr_flagged m\<rparr>)) (folder_messages d i))"
  have ids: "computes P (read_folder_identities i) (\<lambda>d. (?stored i d, d))" for P i
    unfolding read_folder_identities_def
    by (rule computes_prepare_then, rule computes_read_then [OF computes_query, where g = "\<lambda>x d. (collect_map x, d)"], rule computes_ret)
  have 1: "computes Q (and_then (read_folder_identities i) (\<lambda>stored. ret \<lparr>sync_state = st, sync_stored = stored\<rparr>))
      (\<lambda>d. (\<lparr>sync_state = st, sync_stored = ?stored i d\<rparr>, d))" for Q i st
    by (rule computes_read_then [OF ids, where g = "\<lambda>x d. (\<lparr>sync_state = st, sync_stored = x\<rparr>, d)"], rule computes_ret)
  have 2: "computes (\<lambda>d. tables_ok d \<and> (\<exists>r \<in> set (db_folders d). fr_id r = i)) (and_then (read_folder_state i) (\<lambda>state.
      and_then (read_folder_identities i) (\<lambda>stored. ret \<lparr>sync_state = state, sync_stored = stored\<rparr>)))
      (\<lambda>d. (\<lparr>sync_state = ?state i d, sync_stored = ?stored i d\<rparr>, d))" for i
    by (rule computes_read_then [OF computes_read_folder_state, where g = "\<lambda>st d. (\<lparr>sync_state = st, sync_stored = ?stored i d\<rparr>, d)"], rule 1)
  have 3: "computes (folder_present folder) (and_then (stored_folder_id folder) (\<lambda>i. and_then (read_folder_state i) (\<lambda>state.
      and_then (read_folder_identities i) (\<lambda>stored. ret \<lparr>sync_state = state, sync_stored = stored\<rparr>))))
      (\<lambda>d. (\<lambda>i d. (\<lparr>sync_state = ?state i d, sync_stored = ?stored i d\<rparr>, d)) (folder_id_of folder d) d)"
    by (rule computes_read_then [OF computes_stored_folder_id], rule computes_weaken [OF 2])
       (use folder_id_row in auto)
  show ?thesis
    by (rule computes_weaken [OF 3]) (simp_all add: sync_value_def Let_def)
qed

lemma sync_value_view:
  assumes ok: "tables_ok d" and r: "lookup_folder d (as_str (ref_account folder)) (ref_identity folder) = Some r"
  shows "sync_state (sync_value folder d) = snd (folder_of r)"
    and "map_of (sync_stored (sync_value folder d)) i =
      (if i \<in> held d (as_str (ref_account folder)) (ref_identity folder)
       then map_option (\<lambda>m. \<lparr>flags_seen = mr_seen m, flags_flagged = mr_flagged m\<rparr>) (lookup_message d (as_str (ref_account folder)) i) else None)"
proof -
  let ?a = "as_str (ref_account folder)" and ?f = "ref_identity folder"
  let ?ms = "folder_messages d (fr_id r)"
  have i: "folder_id_of folder d = fr_id r" using r by (simp add: folder_id_of_def)
  show "sync_state (sync_value folder d) = snd (folder_of r)"
    using r ok by (simp add: sync_value_def Let_def i state_of_folder lookup_folder_iff folder_of_def)
  have ms: "set ?ms = {m. \<exists>i \<in> held d ?a ?f. lookup_message d ?a i = Some m}" by (rule folder_messages_held(1) [OF ok r])
  have at: "message_at ?a (mr_identity m) m" if "m \<in> set ?ms" for m
    using that unfolding ms by (auto simp: lookup_message_iff [OF ok] message_at_def)
  have "distinct (map mr_identity ?ms)"
  proof -
    have "inj_on mr_identity (set ?ms)"
    proof (rule inj_onI)
      fix m k
      assume "m \<in> set ?ms" "k \<in> set ?ms" "mr_identity m = mr_identity k"
      then show "m = k" unfolding ms by (auto simp: lookup_message_iff [OF ok] message_at_def)
        (metis lookup_message_iff message_at_def ok option.inject)
    qed
    moreover have "distinct ?ms" using folder_messages_held(2) [OF ok r] by (simp add: distinct_map)
    ultimately show ?thesis by (simp add: distinct_map)
  qed
  then have d: "distinct (map fst (map (\<lambda>m. (mr_identity m, \<lparr>flags_seen = mr_seen m, flags_flagged = mr_flagged m\<rparr>)) ?ms))"
    by (simp add: o_def)
  have "map_of (sync_stored (sync_value folder d)) i =
      map_of (map (\<lambda>m. (mr_identity m, \<lparr>flags_seen = mr_seen m, flags_flagged = mr_flagged m\<rparr>)) ?ms) i"
    by (simp add: sync_value_def Let_def \<open>folder_id_of folder d = fr_id r\<close> map_of_collect_map_distinct [OF d])
  also have "\<dots> = (if i \<in> held d ?a ?f
       then map_option (\<lambda>m. \<lparr>flags_seen = mr_seen m, flags_flagged = mr_flagged m\<rparr>) (lookup_message d ?a i) else None)"
  proof (cases "i \<in> held d ?a ?f")
    case True
    then obtain m where m: "lookup_message d ?a i = Some m" by (auto simp: held_lookup [OF ok])
    then have "(i, \<lparr>flags_seen = mr_seen m, flags_flagged = mr_flagged m\<rparr>) \<in>
        set (map (\<lambda>m. (mr_identity m, \<lparr>flags_seen = mr_seen m, flags_flagged = mr_flagged m\<rparr>)) ?ms)"
      using True unfolding set_map ms by (auto simp: lookup_message_iff [OF ok] message_at_def intro!: image_eqI [of _ _ m])
    with d m True show ?thesis by (simp add: map_of_is_SomeI)
  next
    case False
    then have "i \<notin> mr_identity ` set ?ms" unfolding ms by (auto simp: lookup_message_iff [OF ok] message_at_def)
    then show ?thesis using False by (simp add: map_of_eq_None_iff image_image)
  qed
  finally show "map_of (sync_stored (sync_value folder d)) i =
      (if i \<in> held d ?a ?f then map_option (\<lambda>m. \<lparr>flags_seen = mr_seen m, flags_flagged = mr_flagged m\<rparr>) (lookup_message d ?a i) else None)" .
qed

lemma folder_of_view: "v_folder (view_of d) a f = Some p \<Longrightarrow> \<exists>r. lookup_folder d a f = Some r \<and> folder_of r = p"
  by auto

lemma folder_batch:
  "v_folder (spec_batch a f batch v) a f =
    map_option (\<lambda>(folder, st). (folder, case batch_state batch of Some new \<Rightarrow> new | None \<Rightarrow> st)) (v_folder v a f)"
proof -
  have fl: "v_folder (spec_flags a states w) = v_folder w" for states w
    unfolding spec_flags_def by (rule fold_keeps [where P = "\<lambda>u. v_folder u = v_folder w"]) (auto simp: spec_update_def)
  have ar: "v_folder (fold (spec_arrive a f) arrived w) = v_folder w" for arrived w
    by (rule fold_keeps [where P = "\<lambda>u. v_folder u = v_folder w"]) (auto simp: spec_arrive_def spec_hold_def)
  have kn: "v_folder (fold (\<lambda>(i, _). spec_known a f i) known w) = v_folder w" for known and w :: view
    by (rule fold_keeps [where P = "\<lambda>u. v_folder u = v_folder w"]) (auto simp: spec_known_def spec_hold_def)
  have re: "v_folder (spec_removals a f removed w) = v_folder w" for removed w
    by (simp add: spec_removals_def spec_purge_def fold_remove)
  show ?thesis
    by (cases "batch_state batch"; cases "v_folder v a f") (simp_all add: spec_batch_def Let_def spec_state_def fl ar kn re)
qed

text \<open>
  C31: what a cycle saves is what the next one reads: after a stored batch with a state, reading the
  folder for a cycle gives that very state, all 64 bits of the mod-sequence included, and the
  identities the folder holds with the flags the store has of them.
\<close>

theorem saved_state_is_read:
  assumes "reachable s" and "store_connection s = Some c" and "store_batch folder batch False s = (Inr w, s')"
    and "batch_state batch = Some state" and "read_folder_sync folder s' = (Inr sync, s'')"
  shows "sync_state sync = state \<and> current_db s'' = current_db s' \<and>
    (\<forall>i. map_of (sync_stored sync) i =
      (if i \<in> held (current_db s') (as_str (ref_account folder)) (ref_identity folder)
       then map_option (\<lambda>m. \<lparr>flags_seen = mr_seen m, flags_flagged = mr_flagged m\<rparr>)
         (lookup_message (current_db s') (as_str (ref_account folder)) i) else None))"
proof -
  let ?a = "as_str (ref_account folder)" and ?f = "ref_identity folder"
  have reach: "reachable s'"
    using reachable.step [OF assms(1) store_step.batch [of s folder batch False]] assms(3) by simp
  then have ok: "tables_ok (current_db s')" by (rule opened_ok)
  have run: "with_connection Write (transaction (store_batch_body folder batch)) s = (Inr w, s')"
    using assms(3) by (simp add: store_batch_def)
  obtain c' where c': "store_connection s' = Some c'" using opened_run [OF assms(2) run] by blast
  have present: "folder_present folder (current_db s)"
    by (rule stored_batch_present [OF assms(2) reachable_ok [OF assms(1)] run])
  then obtain r0 where "lookup_folder (current_db s) ?a ?f = Some r0" by (auto simp: folder_present_def)
  then obtain p where p: "v_folder (view_of (current_db s)) ?a ?f = Some p" by simp
  have "v_folder (view_of (current_db s')) ?a ?f = Some (fst p, state)"
    by (simp only: store_batch_view(2) [OF assms(1-3)] folder_batch assms(4) p option.map option.case case_prod_beta)
  then obtain r where r: "lookup_folder (current_db s') ?a ?f = Some r" "folder_of r = (fst p, state)"
    using folder_of_view by blast
  have present': "folder_present folder (current_db s')" using r ok by (simp add: folder_present_def)
  have keep: "db_keeps P (and_then (stored_folder_id folder) (\<lambda>folder_id.
     and_then (read_folder_state folder_id) (\<lambda>state.
     and_then (read_folder_identities folder_id) (\<lambda>stored.
     ret \<lparr>sync_state = state, sync_stored = stored\<rparr>))))" for P
    unfolding stored_folder_id_def read_folder_identities_def read_folder_state_def by (intro db_keeps_reads)
  note res = opened_read [OF c' assms(5) [unfolded read_folder_sync_def] computes_read_folder_sync]
  have sync: "sync = sync_value folder (current_db s')" by (rule res(2) [OF keep refl present'])
  show ?thesis
    unfolding sync using res(1) [OF keep] sync_value_view [OF ok r(1)] r(2) by simp
qed

theorem saved_state_is_read_witness:
  "\<exists>sync s''. read_folder_sync demo_inbox demo_loaded = (Inr sync, s'') \<and> sync_state sync = demo_state \<and>
     map_option num_highest_modseq (state_numbers (sync_state sync)) = Some (Some (- 1))"
proof -
  have "\<not> isl (fst (read_folder_sync demo_inbox demo_loaded))" by code_simp
  then obtain sync s'' where run: "read_folder_sync demo_inbox demo_loaded = (Inr sync, s'')"
    by (cases "read_folder_sync demo_inbox demo_loaded"; cases "fst (read_folder_sync demo_inbox demo_loaded)") auto
  have "batch_state demo_batch = Some demo_state" by (simp add: demo_batch_def)
  from saved_state_is_read [OF demo_reachable(2) demo_listed_value demo_loaded_run this run] run show ?thesis
    by (simp add: demo_state_def)
qed

section \<open>A new folder list\<close>

lemma opened_replace:
  assumes "reachable s" and "store_connection s = Some c" and "replace_folders account folders False s = (Inr w, s')"
  shows "w = Stored" and "view_of (current_db s') = spec_replace (as_str account) folders (view_of (current_db s))"
proof -
  have run: "with_connection Write (transaction (and_then (delete_unlisted_folders account folders) (\<lambda>_.
     and_then (delete_messages_without_folder account) (\<lambda>_.
     and_then (upsert_folders account folders) (\<lambda>_. ret Stored))))) s = (Inr w, s')"
    using assms(3) by (simp add: replace_folders_def replace_folders_work_def)
  from opened_transaction(2) [OF assms(2) run computes_replace_body refl opened_ok(1) [OF assms(1)]]
  show "w = Stored" "view_of (current_db s') = spec_replace (as_str account) folders (view_of (current_db s))"
    using refinesD(2) [OF refines_replace opened_ok(1) [OF assms(1)], of "as_str account" folders] by auto
qed

lemma fold_upsert:
  assumes "distinct (map folder_identity folders)"
  shows "v_folder (fold (spec_upsert a) folders v) b g =
    (if b = a then (case find (\<lambda>folder. folder_identity folder = g) folders of
        Some folder \<Rightarrow> Some (folder, case v_folder v b g of Some (_, st) \<Rightarrow> st | None \<Rightarrow> default_state)
      | None \<Rightarrow> v_folder v b g) else v_folder v b g)"
  using assms
proof (induction folders arbitrary: v)
  case (Cons folder folders)
  have "find (\<lambda>x. folder_identity x = folder_identity folder) folders = None"
    using Cons.prems by (fastforce simp: find_None_iff' image_iff)
  then show ?case
    using Cons by (auto simp: spec_upsert_def split: option.split)
qed simp

lemma fold_upsert_rest [simp]:
  "v_holds (fold (spec_upsert a) folders v) = v_holds v" "v_message (fold (spec_upsert a) folders v) = v_message v"
  by (rule fold_keeps [where P = "\<lambda>u. v_holds u = v_holds v \<and> v_message u = v_message v", THEN conjunct1]
        fold_keeps [where P = "\<lambda>u. v_holds u = v_holds v \<and> v_message u = v_message v", THEN conjunct2];
      auto simp: spec_upsert_def)+

text \<open>
  C32: a stored folder list is the account's folders from then on. A listed folder keeps its saved
  state and its messages, a new one was never synchronized and holds nothing, and a folder no longer
  listed goes, with exactly those messages that no listed folder holds. Other accounts keep
  everything.
\<close>

theorem replace_folders_keeps_listed:
  assumes "reachable s" and "store_connection s = Some c" and "replace_folders account folders False s = (Inr w, s')"
    and "distinct (map folder_identity folders)"
  shows "w = Stored \<and> (\<forall>a g i.
    v_folder (view_of (current_db s')) a g =
      (if a = as_str account then (case find (\<lambda>folder. folder_identity folder = g) folders of
          Some folder \<Rightarrow> Some (folder, case lookup_folder (current_db s) a g of
              Some row \<Rightarrow> snd (folder_of row) | None \<Rightarrow> default_state)
        | None \<Rightarrow> None)
       else v_folder (view_of (current_db s)) a g) \<and>
    held (current_db s') a g = (if a = as_str account \<and> g \<notin> folder_identity ` set folders then {} else held (current_db s) a g) \<and>
    v_message (view_of (current_db s')) a i =
      (if a = as_str account \<and> (\<forall>g \<in> folder_identity ` set folders. i \<notin> held (current_db s) a g) then None
       else v_message (view_of (current_db s)) a i))"
proof -
  note v = opened_replace [OF assms(1-3)]
  have none: "find (\<lambda>folder. folder_identity folder = g) folders = None \<longleftrightarrow> g \<notin> folder_identity ` set folders" for g
    by (auto simp: find_None_iff')
  have "v_folder (view_of (current_db s')) a g =
      (if a = as_str account then (case find (\<lambda>folder. folder_identity folder = g) folders of
          Some folder \<Rightarrow> Some (folder, case lookup_folder (current_db s) a g of
              Some row \<Rightarrow> snd (folder_of row) | None \<Rightarrow> default_state)
        | None \<Rightarrow> None)
       else v_folder (view_of (current_db s)) a g)" for a g
    unfolding v(2) spec_replace_def fold_upsert [OF assms(4)]
    using none [of g] by (auto simp: spec_purge_def spec_unlist_def case_prod_beta split: option.splits dest!: find_Some_mem)
  moreover have "held (current_db s') = v_holds (spec_replace (as_str account) folders (view_of (current_db s)))"
    using v(2) by (metis view_of_simps(3))
  then have "held (current_db s') a g = (if a = as_str account \<and> g \<notin> folder_identity ` set folders then {} else held (current_db s) a g)" for a g
    by (simp add: spec_replace_def spec_purge_def spec_unlist_def)
  moreover have "v_message (view_of (current_db s')) a i =
      (if a = as_str account \<and> (\<forall>g \<in> folder_identity ` set folders. i \<notin> held (current_db s) a g) then None
       else v_message (view_of (current_db s)) a i)" for a i
    unfolding v(2) by (auto simp: spec_replace_def spec_purge_def spec_unlist_def)
  ultimately show ?thesis using v(1) by blast
qed

definition demo_shorter :: "folder list" where
  "demo_shorter = [\<lparr>folder_identity = ''A'', folder_name = ''Archive'', folder_parent = None, folder_role = Some Archive, folder_selectable = True\<rparr>]"

theorem replace_folders_keeps_listed_witness:
  "\<exists>s'. replace_folders demo_account demo_shorter False demo_loaded = (Inr Stored, s') \<and>
     v_folder (view_of (current_db s')) ''a'' ''I'' = None \<and> v_message (view_of (current_db s')) ''a'' ''m1'' = None"
proof -
  obtain c where c: "store_connection demo_loaded = Some c" using demo_connections by blast
  have "fst (replace_folders demo_account demo_shorter False demo_loaded) = Inr Stored"
    and rows: "map fr_id (filter (folder_at ''a'' ''A'') (db_folders (current_db demo_loaded))) = [2]"
      "db_memberships (current_db demo_loaded) = [(1, 2), (1, 1)]" by code_simp+
  have "fr_id r = 2" if "r \<in> set (db_folders (current_db demo_loaded))" "folder_at ''a'' ''A'' r" for r
    using that arg_cong [OF rows(1), of set] by auto
  then have "held (current_db demo_loaded) ''a'' ''A'' = {}" by (auto simp: held_def rows(2))
  from \<open>fst (replace_folders demo_account demo_shorter False demo_loaded) = Inr Stored\<close> obtain s' where run: "replace_folders demo_account demo_shorter False demo_loaded = (Inr Stored, s')" by (metis prod.collapse)
  from replace_folders_keeps_listed [OF demo_reachable(3) c run] \<open>held (current_db demo_loaded) ''a'' ''A'' = {}\<close>
  have "v_folder (view_of (current_db s')) ''a'' ''I'' = None" "v_message (view_of (current_db s')) ''a'' ''m1'' = None"
    by (simp_all add: demo_shorter_def demo_account_def)
  with run show ?thesis by blast
qed

section \<open>The accounts that are left\<close>

lemma names_of_accounts: "as_str ` (AccountId ` N - C) = N - as_str ` C"
proof (intro set_eqI iffI)
  fix x
  assume "x \<in> as_str ` (AccountId ` N - C)"
  then obtain n where "n \<in> N" "AccountId n \<notin> C" "x = n" by auto
  moreover from this have "n \<notin> as_str ` C" by (metis account_id.collapse imageE)
  ultimately show "x \<in> N - as_str ` C" by simp
next
  fix x
  assume "x \<in> N - as_str ` C"
  then have "AccountId x \<in> AccountId ` N - C" by (auto simp: image_iff)
  then show "x \<in> as_str ` (AccountId ` N - C)" by (metis account_id.sel image_eqI)
qed

lemma removed_names:
  assumes "[] \<notin> set names"
  shows "as_str ` set (removed_accounts current names) = set names - as_str ` set current"
proof -
  have "concat (map (\<lambda>account. case account_id_try_from account of Inr a \<Rightarrow> [a] | Inl _ \<Rightarrow> []) names) = map AccountId names"
    using assms by (induction names) (auto simp: account_id_try_from_def)
  then have "set (removed_accounts current names) = AccountId ` set names - set current"
    by (auto simp: removed_accounts_def)
  then show ?thesis by (simp only: names_of_accounts)
qed

lemma account_without_folders:
  assumes "tables_ok d" and "view_full (view_of d)" and "a \<notin> fr_account ` set (db_folders d)"
  shows "v_folder (view_of d) a g = None \<and> v_message (view_of d) a i = None"
proof -
  have f: "lookup_folder d a g = None" for g
  proof (cases "lookup_folder d a g")
    case (Some r)
    then have "r \<in> set (db_folders d)" "fr_account r = a" by (simp_all add: lookup_folder_iff [OF assms(1)] folder_at_def)
    then show ?thesis using assms(3) by blast
  qed
  then have "held d a g = {}" for g using held_lookup [OF assms(1), of _ a g] by auto
  then have "v_message (view_of d) a i = None" using assms(2) unfolding view_full_def by (metis empty_iff view_of_simps(3))
  with f show ?thesis by simp
qed

lemma drop_accounts:
  "v_folder (fold spec_drop_account as v) a g = (if a \<in> set as then None else v_folder v a g) \<and>
   v_message (fold spec_drop_account as v) a i = (if a \<in> set as then None else v_message v a i) \<and>
   v_holds (fold spec_drop_account as v) a g = (if a \<in> set as then {} else v_holds v a g)"
  by (induction "as" arbitrary: v) (auto simp: spec_drop_account_def)

text \<open>
  C33: the deletion of the mail of accounts no longer listed returns exactly the stored accounts
  that are not listed and leaves nothing of them, while every listed account keeps everything; a
  failed deletion changes nothing.
\<close>

theorem delete_other_accounts_keeps_current:
  assumes "reachable s" and "store_connection s = Some c" and "delete_other_accounts current s = (r, s')"
    and "\<forall>row \<in> set (db_folders (current_db s)). fr_account row \<noteq> []"
  shows "case r of
      Inl _ \<Rightarrow> current_db s' = current_db s
    | Inr removed \<Rightarrow> as_str ` set removed = fr_account ` set (db_folders (current_db s)) - as_str ` set current \<and>
        (\<forall>a g i. (a \<in> as_str ` set current \<longrightarrow> v_folder (view_of (current_db s')) a g = v_folder (view_of (current_db s)) a g \<and>
            v_message (view_of (current_db s')) a i = v_message (view_of (current_db s)) a i \<and> held (current_db s') a g = held (current_db s) a g) \<and>
          (a \<notin> as_str ` set current \<longrightarrow> v_folder (view_of (current_db s')) a g = None \<and> v_message (view_of (current_db s')) a i = None))"
proof -
  let ?d = "current_db s"
  have ok: "tables_ok ?d" "view_full (view_of ?d)" using opened_ok [OF assms(1)] by simp_all
  note res = opened_transaction [OF assms(2) assms(3) [unfolded delete_other_accounts_body_eq] computes_delete_other_accounts [where P = "\<lambda>_. True"]]
  let ?removed = "removed_accounts current (remdups (map fr_account (db_folders ?d)))"
  have removed: "as_str ` set ?removed = fr_account ` set (db_folders ?d) - as_str ` set current"
    using removed_names [of "remdups (map fr_account (db_folders ?d))" current] assms(4) by force
  note none = account_without_folders [OF ok]
  show ?thesis
  proof (cases r)
    case (Inr x)
    from res(2) [OF this TrueI] have x: "x = ?removed" and d': "current_db s' = drop_others_db current ?d" by simp_all
    have view: "view_of (current_db s') = fold spec_drop_account (map as_str ?removed) (view_of ?d)"
      unfolding d' drop_others_db_def using refinesD(2) [OF refines_drop ok(1), of "map as_str ?removed"]
      by (simp add: fold_map o_def)
    have held: "held (current_db s') = v_holds (fold spec_drop_account (map as_str ?removed) (view_of ?d))"
      using view by (metis view_of_simps(3))
    have acc: "a \<in> set (map as_str ?removed) \<longleftrightarrow> a \<in> fr_account ` set (db_folders ?d) - as_str ` set current" for a
      unfolding set_map removed ..
    define G where "G = set (map as_str ?removed)"
    have gone: "a \<notin> as_str ` set current \<longrightarrow> a \<in> G \<or> a \<notin> fr_account ` set (db_folders ?d)" for a
      using acc unfolding G_def by blast
    have stays: "a \<in> as_str ` set current \<longrightarrow> a \<notin> G" for a
      using acc unfolding G_def by blast
    have folder: "v_folder (view_of (current_db s')) a g = (if a \<in> G then None else v_folder (view_of ?d) a g)"
      and msg: "v_message (view_of (current_db s')) a i = (if a \<in> G then None else v_message (view_of ?d) a i)"
      and holds: "held (current_db s') a g = (if a \<in> G then {} else held ?d a g)" for a g i
      unfolding view held using drop_accounts [of "map as_str ?removed" "view_of ?d" a g i] unfolding G_def by simp_all
    show ?thesis
      unfolding Inr sum.case x folder msg holds removed
    proof (intro conjI refl allI)
      fix a g i
      show "a \<in> as_str ` set current \<longrightarrow>
          (if a \<in> G then None else v_folder (view_of ?d) a g) = v_folder (view_of ?d) a g \<and>
          (if a \<in> G then None else v_message (view_of ?d) a i) = v_message (view_of ?d) a i \<and>
          (if a \<in> G then {} else held ?d a g) = held ?d a g"
        using stays [of a] by simp
      show "a \<notin> as_str ` set current \<longrightarrow>
          (if a \<in> G then None else v_folder (view_of ?d) a g) = None \<and>
          (if a \<in> G then None else v_message (view_of ?d) a i) = None"
        using gone [of a] none [of a] by auto
    qed
  qed (use res(1) in simp)
qed

theorem delete_other_accounts_keeps_current_witness:
  "\<exists>s'. delete_other_accounts [] demo_loaded = (Inr [AccountId ''a''], s') \<and> v_message (view_of (current_db s')) ''a'' ''m1'' = None"
proof -
  obtain c where c: "store_connection demo_loaded = Some c" using demo_connections by blast
  have "fst (delete_other_accounts [] demo_loaded) = Inr [AccountId ''a'']" by code_simp
  then obtain s' where run: "delete_other_accounts [] demo_loaded = (Inr [AccountId ''a''], s')" by (metis prod.collapse)
  have "\<forall>row \<in> set (db_folders (current_db demo_loaded)). fr_account row \<noteq> []" by code_simp
  from delete_other_accounts_keeps_current [OF demo_reachable(3) c run this]
  have "v_message (view_of (current_db s')) ''a'' ''m1'' = None" by simp
  with run show ?thesis by blast
qed

section \<open>The schema's version\<close>

lemma fnv_prime_inverse: "(0x01000193 :: 32 word) * 0x359c449b = 1"
  by simp

lemma fnv_step_inj: "fnv_step h b = fnv_step k b \<Longrightarrow> h = k"
proof -
  assume "fnv_step h b = fnv_step k b"
  then have "(h XOR of_char b) * (0x01000193 * 0x359c449b) = (k XOR of_char b) * (0x01000193 * 0x359c449b)"
    unfolding fnv_step_def mult.assoc [symmetric] by simp
  then have "h XOR of_char b = k XOR (of_char b :: 32 word)" unfolding fnv_prime_inverse by simp
  then have "(h XOR of_char b) XOR of_char b = (k XOR of_char b) XOR (of_char b :: 32 word)" by simp
  then show "h = k" by (simp add: xor.assoc)
qed

lemma fnv_step_byte: "fnv_step h b = fnv_step h c \<Longrightarrow> b = c"
proof -
  assume "fnv_step h b = fnv_step h c"
  then have "(h XOR of_char b) * (0x01000193 * 0x359c449b) = (h XOR of_char c) * (0x01000193 * 0x359c449b)"
    unfolding fnv_step_def mult.assoc [symmetric] by simp
  then have "h XOR of_char b = h XOR (of_char c :: 32 word)" unfolding fnv_prime_inverse by simp
  then have "h XOR (h XOR of_char b) = h XOR (h XOR (of_char c :: 32 word))" by simp
  then have eq: "of_char b = (of_char c :: 32 word)" by (simp add: xor.assoc [symmetric])
  have less: "(of_char x :: nat) < 2 ^ 32" for x
    using nat_of_char_less_256 [of x] by (rule order_less_trans) simp
  have "unat (of_char x :: 32 word) = of_char x" for x
  proof -
    have "unat (of_nat (of_char x) :: 32 word) = of_char x mod 2 ^ 32" by (simp add: unat_of_nat)
    then show ?thesis using less [of x] unfolding of_nat_of_char by simp
  qed
  with eq have "(of_char b :: nat) = of_char c" by metis
  then show "b = c" by simp
qed

text \<open>
  Any change of one byte of the schema's text changes the store's version, so that a store
  written with the other text is discarded.
\<close>

theorem schema_version_one_byte:
  assumes "b \<noteq> c"
  shows "schema_version (before @ [b] @ after) \<noteq> schema_version (before @ [c] @ after)"
proof
  have inj: "foldl fnv_step h after = foldl fnv_step k after \<Longrightarrow> h = k" for h k
    by (induction after arbitrary: h k) (auto dest: fnv_step_inj)
  assume "schema_version (before @ [b] @ after) = schema_version (before @ [c] @ after)"
  then have "schema_hash (before @ [b] @ after) = schema_hash (before @ [c] @ after)"
    unfolding schema_version_def by (rule signed_word_eqI)
  then have "foldl fnv_step (fnv_step (foldl fnv_step 0x811c9dc5 before) b) after = foldl fnv_step (fnv_step (foldl fnv_step 0x811c9dc5 before) c) after"
    by (simp add: schema_hash_def)
  then have "fnv_step (foldl fnv_step 0x811c9dc5 before) b = fnv_step (foldl fnv_step 0x811c9dc5 before) c"
    by (rule inj)
  then show False using fnv_step_byte assms by blast
qed

theorem schema_version_one_byte_witness:
  "schema_version ''id INTEGER'' \<noteq> schema_version ''id_INTEGER''"
proof -
  have "CHR '' '' \<noteq> CHR ''_''" by simp
  from schema_version_one_byte [OF this, of "''id''" "''INTEGER''"] show ?thesis by (simp only: append.simps simp_thms)
qed

section \<open>Opening the file\<close>

definition file_usable :: "string \<Rightarrow> store_file \<Rightarrow> bool" where
  "file_usable schema file \<longleftrightarrow> file_reads file = None \<and> \<not> (file_version file = 0 \<and> file_tables file = 0) \<and>
     file_version file = schema_version schema \<and> file_check file = ''ok''"

definition file_empty :: "store_file \<Rightarrow> bool" where
  "file_empty file \<longleftrightarrow> file_reads file = None \<and> file_version file = 0 \<and> file_tables file = 0"

text \<open>SQLite could not say what the file holds.\<close>

definition file_unknown :: "store_file \<Rightarrow> bool" where
  "file_unknown file \<longleftrightarrow> (case file_reads file of None \<Rightarrow> False
     | Some e \<Rightarrow> sqlite_error_code e \<notin> {Some NotADatabase, Some DatabaseCorrupt})"

lemma disk_parts:
  "open_connection disk = (r, disk') \<Longrightarrow> disk_file disk' = disk_file disk"
  "create_private_directory disk = (r, disk') \<Longrightarrow> disk_file disk' = disk_file disk"
  "configure_connection disk = (r, disk') \<Longrightarrow> disk_file disk' = disk_file disk"
  "create_schema schema disk = (Inr u, disk') \<Longrightarrow> file_db (disk_file disk') = empty_db"
  by (auto simp: open_connection_def create_private_directory_def configure_connection_def create_schema_def
      and_then_def fails_with_def split: list.splits option.splits)

lemma examine_cases:
  assumes "examine_existing schema disk = (r, disk')"
  shows "disk' = disk" and "r = Inr Usable \<longleftrightarrow> file_usable schema (disk_file disk)" and "r = Inr Empty \<longleftrightarrow> file_empty (disk_file disk)"
    and "isl r \<longleftrightarrow> file_unknown (disk_file disk)"
  using assms by (auto simp: examine_existing_def and_then_def file_usable_def file_empty_def file_unknown_def
      split: option.splits if_splits error_code.splits)

text \<open>
  C34: opening never discards a usable store, nor a file SQLite could not examine, which fails; an
  opened store holds what a usable file held, and is empty for any other file.
\<close>

theorem open_store_discards_only_unusable:
  assumes "open_store schema disk = (r, disk')"
  shows "(file_usable schema (disk_file disk) \<or> file_unknown (disk_file disk) \<longrightarrow> disk_file disk' = disk_file disk) \<and>
    (file_unknown (disk_file disk) \<longrightarrow> isl r) \<and>
    (\<forall>c. r = Inr c \<longrightarrow> conn_db c = (if file_usable schema (disk_file disk) then file_db (disk_file disk) else empty_db))"
proof -
  obtain r1 d1 where 1: "create_private_directory disk = (r1, d1)" by (cases "create_private_directory disk")
  obtain r2 d2 where 2: "open_connection d1 = (r2, d2)" by (cases "open_connection d1")
  obtain r3 d3 where 3: "examine_existing schema d2 = (r3, d3)" by (cases "examine_existing schema d2")
  have f: "disk_file d1 = disk_file disk" "disk_file d2 = disk_file disk" "d3 = d2"
    using disk_parts 1 2 examine_cases(1) [OF 3] by auto
  note ex = examine_cases(2-) [OF 3, unfolded f]
  show ?thesis
  proof (cases r3)
    case (Inl e)
    then have "\<not> file_usable schema (disk_file disk)" "file_unknown (disk_file disk)" using ex by auto
    then show ?thesis
      using assms 1 2 3 f Inl by (auto simp: open_store_def and_then_def split: sum.splits)
  next
    case (Inr found)
    then have nu: "\<not> file_unknown (disk_file disk)" using ex by auto
    let ?prepare = "case found of Usable \<Rightarrow> ret () | Empty \<Rightarrow> create_schema schema
       | Discard reason \<Rightarrow> and_then discard_store (\<lambda>_. and_then open_connection (\<lambda>_. create_schema schema))"
    obtain r4 d4 where 4: "?prepare d2 = (r4, d4)" by (cases "?prepare d2")
    obtain r5 d5 where 5: "configure_connection d4 = (r5, d5)" by (cases "configure_connection d4")
    have f5: "disk_file d5 = disk_file d4" using disk_parts 5 by blast
    have use: "file_usable schema (disk_file disk) \<Longrightarrow> d4 = d2"
      using ex(1) Inr 4 by auto
    have made: "\<not> file_usable schema (disk_file disk) \<Longrightarrow> r4 = Inr u \<Longrightarrow> file_db (disk_file d4) = empty_db" for u
      using ex(1) Inr 4 disk_parts(4) by (cases found) (auto simp: and_then_def split: sum.splits prod.splits)
    show ?thesis
      using assms 1 2 3 4 5 f f5 Inr nu use made
      by (cases r1; cases r2; cases r4; cases r5; cases "file_usable schema (disk_file disk)") (auto simp: open_store_def and_then_def)
  qed
qed

definition demo_used_file :: store_file where
  "demo_used_file = empty_file\<lparr>file_version := schema_version ''schema'', file_tables := 3, file_db := current_db demo_loaded\<rparr>"

theorem open_store_discards_only_unusable_witness:
  "\<exists>c. fst (open_store ''schema'' (demo_disk\<lparr>disk_file := demo_used_file\<rparr>)) = Inr c \<and> conn_db c = current_db demo_loaded"
proof -
  let ?disk = "demo_disk\<lparr>disk_file := demo_used_file\<rparr>"
  have "\<not> isl (fst (open_store ''schema'' ?disk))" "file_usable ''schema'' demo_used_file" by code_simp+
  then obtain c disk' where "open_store ''schema'' ?disk = (Inr c, disk')"
    by (cases "open_store ''schema'' ?disk"; cases "fst (open_store ''schema'' ?disk)") auto
  with open_store_discards_only_unusable [OF this] \<open>file_usable ''schema'' demo_used_file\<close> show ?thesis
    by (simp add: demo_used_file_def)
qed

end
