(* ===== verification/Imap_Types.thy ===== *)
theory Imap_Types
  imports Prelude
begin

text \<open>
  The types of crate \<open>mailbag-imap\<close> (\<open>lib.rs\<close>, \<open>part_tree.rs\<close>): mailboxes, listings, rows, requested
  texts and errors. A \<open>u32\<close> is a 32-bit word, a \<open>u64\<close> a 64-bit one, and a byte vector a string.
\<close>

datatype row_items = Standard | WithGmailAttributes

record gmail_row =
  gmail_message_id :: "64 word"
  gmail_labels :: "string list"

datatype imap_step =
  StepConnect | StepSecureConnection | StepSignIn | StepListMailboxes | StepOpenMailbox | StepFetchMessages | StepFetchText | StepStoreFlags

record mailbox_numbers =
  mb_uid_validity :: "32 word option"
  mb_message_count :: "32 word"
  mb_uid_next :: "32 word option"
  mb_highest_modseq :: "64 word option"

datatype store_flag = StoreSeen | StoreFlagged

datatype imap_failure = Failed imap_step | TimedOut imap_step | ImapNoSignInMethod | ImapMailboxChanged

record server_reply =
  reply_code :: "string option"
  reply_text :: string

record imap_error =
  imap_failure :: imap_failure
  imap_server_reply :: "server_reply option"
  imap_alerts :: "string list"

definition imap_error_from :: "imap_failure \<Rightarrow> imap_error" where
  "imap_error_from failure = \<lparr>imap_failure = failure, imap_server_reply = None, imap_alerts = []\<rparr>"

record mailbox_name =
  mailbox_name :: string
  mailbox_attributes :: "string list"
  mailbox_delimiter :: "string option"

record mailbox_list =
  list_names :: "mailbox_name list"
  list_utf8_names :: bool

record listed_uid =
  listed_uid :: "32 word"
  listed_seen :: bool
  listed_flagged :: bool
  listed_gmail_id :: "64 word option"

record folder_listing =
  listing_messages :: "listed_uid list"
  listing_refusal :: "server_reply option"

text \<open>\<open>part_tree::MessagePart\<close>: the MIME parts as the server describes them.\<close>

datatype message_part = MessagePart
  (part_section: "nat list") (part_media_type: string) (part_subtype: string) (part_parameters: "(string \<times> string) list")
  (part_disposition: "string option") (part_content_id: "string option") (part_children: "message_part list")

record imap_row =
  ir_uid :: "32 word"
  ir_seen :: bool
  ir_flagged :: bool
  ir_internal_date :: "int option"
  ir_list_headers :: string
  ir_gmail :: "gmail_row option"
  ir_structure :: "message_part option"

record message_list =
  ml_rows :: "imap_row list"
  ml_refusal :: "server_reply option"

datatype text_parts = SinglePartBody | MultipartLeaves "nat list list"

record text_request =
  tr_uid :: "32 word"
  tr_parts :: text_parts
  tr_limit :: "32 word option"

record received_part =
  part_header :: string
  part_body :: string

datatype message_text = Received "received_part list" | NotReturned | Disappeared

end
