(* ===== verification/Graph_Types.thy ===== *)
theory Graph_Types
  imports Prelude
begin

text \<open>The types of crate \<open>mailbag-graph\<close> (\<open>lib.rs\<close>): folders, messages, pages of changes and errors.\<close>

datatype well_known_folder = WkInbox | WkDrafts | WkSentItems | WkDeletedItems | WkJunkEmail | WkArchive

definition all_well_known :: "well_known_folder list" where
  "all_well_known = [WkInbox, WkDrafts, WkSentItems, WkDeletedItems, WkJunkEmail, WkArchive]"

definition well_known_name :: "well_known_folder \<Rightarrow> string" where
  "well_known_name f = (case f of WkInbox \<Rightarrow> ''inbox'' | WkDrafts \<Rightarrow> ''drafts'' | WkSentItems \<Rightarrow> ''sentitems''
     | WkDeletedItems \<Rightarrow> ''deleteditems'' | WkJunkEmail \<Rightarrow> ''junkemail'' | WkArchive \<Rightarrow> ''archive'')"

record graph_folder =
  gf_id :: string
  gf_name :: string
  gf_parent_id :: "string option"
  gf_well_known :: "well_known_folder option"

record graph_mailbox =
  gm_name :: "string option"
  gm_address :: "string option"

record graph_message =
  g_immutable_id :: string
  g_subject :: "string option"
  g_from :: "graph_mailbox option"
  g_to :: "graph_mailbox list"
  g_received :: "int option"
  g_is_read :: bool
  g_flagged :: bool
  g_body_preview :: "string option"

type_synonym message_texts = "(string \<times> string option) list"

datatype changes_from = FirstReading string | Link string

datatype next_page = More string | Done string

datatype message_change =
    Removed string
  | Listed graph_message
  | Changed (changed_id: string) (changed_read: "bool option") (changed_flagged: "bool option") (changed_other: bool)

record change_page =
  page_changes :: "message_change list"
  page_next :: next_page

datatype flag_update = ReadMark bool | StarMark bool

datatype graph_failure = ConnectionFailed | PositionRejected | GraphTimedOut | Refused nat "string option" | InvalidReply

record graph_error =
  graph_failure :: graph_failure
  graph_reason :: "string option"

end
