(* ===== verification/Load_Failures.thy ===== *)
theory Load_Failures
  imports Domain Imap_Types Graph_Types
begin

text \<open>
  What a load reads, tells and ends with (crate \<open>mailbag-providers\<close>, \<open>load.rs\<close>), and how a failure
  in the protocols' terms becomes the domain's (\<open>failure.rs\<close>). The record's lines are not modelled:
  no behaviour depends on them.
\<close>

section \<open>Loads\<close>

text \<open>\<open>goa_adapter::AccessError\<close>.\<close>

datatype access_error =
  AccessSettings | AccessNoEncryption | AccessPassword | AccessToken | AccessTimeout | AccessCancelled

datatype load_target = FolderList | Mailbox folder_ref

definition record_name :: "load_target \<Rightarrow> string" where
  "record_name target = (case target of FolderList \<Rightarrow> ''folder list'' | Mailbox _ \<Rightarrow> ''mailbox'')"

datatype load_failure =
    OnlineAccounts access_error
  | Imap imap_error
  | MicrosoftGraph graph_error
  | MicrosoftGraphChangeRefused graph_error
  | WorkerStopped "string option"

datatype load_result =
    ResultStored "incomplete_list option"
  | ResultFailed failure
  | ResultCancelled

datatype load_event = StoreChanged | Finished load_result

section \<open>Failures\<close>

definition server_step_of :: "imap_step \<Rightarrow> server_step" where
  "server_step_of s = (case s of
     StepConnect \<Rightarrow> Connect
   | StepSecureConnection \<Rightarrow> SecureConnection
   | StepSignIn \<Rightarrow> SignIn
   | StepListMailboxes \<Rightarrow> ListFolders
   | StepOpenMailbox \<Rightarrow> OpenMailbox
   | StepFetchMessages \<Rightarrow> FetchMessages
   | StepFetchText \<Rightarrow> FetchText
   | StepStoreFlags \<Rightarrow> ChangeFlags)"

definition load_graph_error :: "load_failure \<Rightarrow> graph_error option" where
  "load_graph_error f = (case f of
     MicrosoftGraph e \<Rightarrow> Some e
   | MicrosoftGraphChangeRefused e \<Rightarrow> Some e
   | _ \<Rightarrow> None)"

definition load_status :: "load_failure \<Rightarrow> nat option" where
  "load_status f = (case load_graph_error f of
     None \<Rightarrow> None
   | Some e \<Rightarrow> (case graph_failure e of Refused status _ \<Rightarrow> Some status | _ \<Rightarrow> None))"

definition server_code :: "load_failure \<Rightarrow> string option" where
  "server_code f = (case f of
     Imap e \<Rightarrow> (case imap_server_reply e of None \<Rightarrow> None | Some reply \<Rightarrow> reply_code reply)
   | _ \<Rightarrow> (case load_graph_error f of
       None \<Rightarrow> None
     | Some e \<Rightarrow> (case graph_failure e of Refused _ code \<Rightarrow> code | _ \<Rightarrow> None)))"

definition credentials_rejected :: "load_failure \<Rightarrow> bool" where
  "credentials_rejected f = (case f of
     Imap e \<Rightarrow> imap_failure e = Failed StepSignIn \<and>
       (case server_code f of None \<Rightarrow> True | Some code \<Rightarrow> eq_ignore_ascii_case code ''AUTHENTICATIONFAILED'')
   | MicrosoftGraph e \<Rightarrow> (case graph_failure e of Refused status _ \<Rightarrow> status = 401 | _ \<Rightarrow> False)
   | _ \<Rightarrow> False)"

definition server_temporarily_unavailable :: "load_failure \<Rightarrow> bool" where
  "server_temporarily_unavailable f = (case f of
     Imap _ \<Rightarrow> (case server_code f of None \<Rightarrow> False | Some code \<Rightarrow> eq_ignore_ascii_case code ''UNAVAILABLE'')
   | _ \<Rightarrow> False)"

definition load_failure_kind :: "load_failure \<Rightarrow> failure_kind" where
  "load_failure_kind f = (case f of
     OnlineAccounts e \<Rightarrow> (case e of
         AccessSettings \<Rightarrow> AccountSettingsUnavailable
       | AccessNoEncryption \<Rightarrow> EncryptionNotConfigured
       | AccessPassword \<Rightarrow> PasswordUnavailable
       | AccessToken \<Rightarrow> AuthorizationUnavailable
       | AccessTimeout \<Rightarrow> OnlineAccountsNotResponding
       | AccessCancelled \<Rightarrow> AccountRequestStopped)
   | Imap e \<Rightarrow>
       (let step_of = (case imap_failure e of Failed step \<Rightarrow> Some step | TimedOut step \<Rightarrow> Some step | _ \<Rightarrow> None) in
        if step_of \<noteq> None \<and> server_temporarily_unavailable f then ServerUnavailable (server_step_of (the step_of))
        else if credentials_rejected f then ServerRejectedSignIn
        else (case imap_failure e of
            Failed step \<Rightarrow> ServerStepFailed (server_step_of step)
          | TimedOut step \<Rightarrow> ServerNotResponding (server_step_of step)
          | ImapNoSignInMethod \<Rightarrow> NoSignInMethod
          | ImapMailboxChanged \<Rightarrow> MailboxChanged))
   | MicrosoftGraph e \<Rightarrow> (case graph_failure e of
         ConnectionFailed \<Rightarrow> ServiceUnreachable
       | PositionRejected \<Rightarrow> RequestRefused
       | GraphTimedOut \<Rightarrow> ServiceNotResponding
       | Refused _ _ \<Rightarrow> if credentials_rejected f then ServiceRejectedSignIn else RequestRefused
       | InvalidReply \<Rightarrow> UnexpectedAnswer)
   | MicrosoftGraphChangeRefused _ \<Rightarrow> ServerStepFailed ChangeFlags
   | WorkerStopped _ \<Rightarrow> Stopped)"

definition load_remote_texts :: "load_failure \<Rightarrow> remote_text list" where
  "load_remote_texts f = (case f of
     Imap e \<Rightarrow>
       map (\<lambda>alert. \<lparr>remote_source = ServerAlert, remote_words = alert\<rparr>) (imap_alerts e) @
       (case imap_server_reply e of None \<Rightarrow> [] | Some reply \<Rightarrow> [\<lparr>remote_source = ServerReply, remote_words = reply_text reply\<rparr>])
   | OnlineAccounts _ \<Rightarrow> []
   | WorkerStopped _ \<Rightarrow> []
   | _ \<Rightarrow> (case load_graph_error f of
       None \<Rightarrow> []
     | Some e \<Rightarrow>
         (let source = (case graph_failure e of Refused _ _ \<Rightarrow> ServiceMessage | _ \<Rightarrow> System) in
          case graph_reason e of None \<Rightarrow> [] | Some reason \<Rightarrow> [\<lparr>remote_source = source, remote_words = reason\<rparr>])))"

definition load_technical_details :: "load_failure \<Rightarrow> string" where
  "load_technical_details f =
     (let kind_line = [''Failure: '' @ debug_kind (load_failure_kind f)];
          status_line = (case load_status f of None \<Rightarrow> [] | Some status \<Rightarrow> [''Status: '' @ decimal status]);
          label = (case load_graph_error f of Some _ \<Rightarrow> ''Service code'' | None \<Rightarrow> ''Server code'');
          code_line = (case server_code f of None \<Rightarrow> [] | Some code \<Rightarrow> [label @ '': '' @ code]) in
      join [newline] (kind_line @ status_line @ code_line))"

definition into_failure :: "load_failure \<Rightarrow> failure" where
  "into_failure f = (case f of
     WorkerStopped panic \<Rightarrow> from_panic Stopped panic
   | _ \<Rightarrow> \<lparr>failure_kind = load_failure_kind f, failure_texts = load_remote_texts f, failure_details = load_technical_details f\<rparr>)"

definition give_up :: "load_failure \<Rightarrow> load_result" where
  "give_up f = ResultFailed (into_failure f)"

section \<open>What the words of the remote side decide\<close>

text \<open>The failure with everything the remote side wrote in words taken out: its codes stay.\<close>

definition without_words :: "load_failure \<Rightarrow> load_failure" where
  "without_words f = (case f of
     Imap e \<Rightarrow> Imap (e\<lparr>imap_server_reply := map_option (reply_text_update (\<lambda>_. [])) (imap_server_reply e), imap_alerts := []\<rparr>)
   | MicrosoftGraph e \<Rightarrow> MicrosoftGraph (e\<lparr>graph_reason := None\<rparr>)
   | MicrosoftGraphChangeRefused e \<Rightarrow> MicrosoftGraphChangeRefused (e\<lparr>graph_reason := None\<rparr>)
   | _ \<Rightarrow> f)"

lemma without_words_code [simp]: "server_code (without_words f) = server_code f"
  by (auto simp: server_code_def without_words_def load_graph_error_def split: load_failure.splits option.splits)

lemma without_words_status [simp]: "load_status (without_words f) = load_status f"
  by (auto simp: load_status_def without_words_def load_graph_error_def split: load_failure.splits)

lemma without_words_rejected [simp]: "credentials_rejected (without_words f) = credentials_rejected f"
  using without_words_code [of f] by (cases f) (simp_all add: credentials_rejected_def without_words_def)

lemma without_words_unavailable [simp]: "server_temporarily_unavailable (without_words f) = server_temporarily_unavailable f"
  using without_words_code [of f] by (cases f) (simp_all add: server_temporarily_unavailable_def without_words_def)

lemma without_words_kind [simp]: "load_failure_kind (without_words f) = load_failure_kind f"
  using without_words_rejected [of f] without_words_unavailable [of f]
  by (cases f) (simp_all add: load_failure_kind_def without_words_def Let_def cong: if_cong)

lemma without_words_graph: "(load_graph_error (without_words f) = None) = (load_graph_error f = None)"
  by (cases f) (simp_all add: load_graph_error_def without_words_def)

text \<open>
  What the remote side wrote in words never decides a failure's kind and never enters its
  technical details: both are a function of the codes. The words reach the user only as remote
  texts, the alerts first and then the reply, each marked with where it came from.
\<close>

theorem words_only_in_texts:
  "failure_kind (into_failure f) = failure_kind (into_failure (without_words f)) \<and>
   failure_details (into_failure f) = failure_details (into_failure (without_words f)) \<and>
   map remote_words (failure_texts (into_failure f)) = (case f of
     Imap e \<Rightarrow> imap_alerts e @ (case imap_server_reply e of None \<Rightarrow> [] | Some reply \<Rightarrow> [reply_text reply])
   | MicrosoftGraph e \<Rightarrow> (case graph_reason e of None \<Rightarrow> [] | Some reason \<Rightarrow> [reason])
   | MicrosoftGraphChangeRefused e \<Rightarrow> (case graph_reason e of None \<Rightarrow> [] | Some reason \<Rightarrow> [reason])
   | _ \<Rightarrow> [])"
proof (intro conjI)
  have stopped: "without_words (WorkerStopped p) = WorkerStopped p" for p by (simp add: without_words_def)
  have same: "(case load_graph_error (without_words f) of Some _ \<Rightarrow> x | None \<Rightarrow> y) = (case load_graph_error f of Some _ \<Rightarrow> x | None \<Rightarrow> y)"
    for x y :: string using without_words_graph [of f] by (auto split: option.splits)
  have details: "load_technical_details (without_words f) = load_technical_details f"
    by (simp add: load_technical_details_def Let_def same)
  have shape: "into_failure f = into_failure (without_words f) \<or>
    (into_failure f = \<lparr>failure_kind = load_failure_kind f, failure_texts = load_remote_texts f, failure_details = load_technical_details f\<rparr> \<and>
     into_failure (without_words f) = \<lparr>failure_kind = load_failure_kind (without_words f),
       failure_texts = load_remote_texts (without_words f), failure_details = load_technical_details (without_words f)\<rparr>)"
    by (cases f) (simp_all add: into_failure_def without_words_def)
  then show "failure_kind (into_failure f) = failure_kind (into_failure (without_words f))" by auto
  from shape show "failure_details (into_failure f) = failure_details (into_failure (without_words f))"
    using details by auto
  show "map remote_words (failure_texts (into_failure f)) = (case f of
     Imap e \<Rightarrow> imap_alerts e @ (case imap_server_reply e of None \<Rightarrow> [] | Some reply \<Rightarrow> [reply_text reply])
   | MicrosoftGraph e \<Rightarrow> (case graph_reason e of None \<Rightarrow> [] | Some reason \<Rightarrow> [reason])
   | MicrosoftGraphChangeRefused e \<Rightarrow> (case graph_reason e of None \<Rightarrow> [] | Some reason \<Rightarrow> [reason])
   | _ \<Rightarrow> [])"
    by (auto simp: into_failure_def load_remote_texts_def load_graph_error_def from_panic_def o_def Let_def split: load_failure.splits option.splits)
qed

text \<open>
  The credentials are blamed exactly when the remote side said so: an IMAP sign-in that failed
  with \<open>AUTHENTICATIONFAILED\<close> or without a code, or the service's status 401 for anything but a
  change of flags. A temporary condition is never blamed on them.
\<close>

theorem credentials_blamed_iff:
  "(load_failure_kind f = ServerRejectedSignIn \<longleftrightarrow>
     (\<exists>e. f = Imap e \<and> imap_failure e = Failed StepSignIn \<and>
        (case server_code f of None \<Rightarrow> True | Some code \<Rightarrow> eq_ignore_ascii_case code ''AUTHENTICATIONFAILED''))) \<and>
   (load_failure_kind f = ServiceRejectedSignIn \<longleftrightarrow>
     (\<exists>e code. f = MicrosoftGraph e \<and> graph_failure e = Refused 401 code))"
proof
  have other: "eq_ignore_ascii_case code ''AUTHENTICATIONFAILED'' \<Longrightarrow> \<not> eq_ignore_ascii_case code ''UNAVAILABLE''" for code
  proof -
    assume "eq_ignore_ascii_case code ''AUTHENTICATIONFAILED''"
    then have "length code = length ''AUTHENTICATIONFAILED''"
      unfolding eq_ignore_ascii_case_def to_ascii_lowercase_def by (metis length_map)
    moreover have "length code = length ''UNAVAILABLE''" if "eq_ignore_ascii_case code ''UNAVAILABLE''"
      using that unfolding eq_ignore_ascii_case_def to_ascii_lowercase_def by (metis length_map)
    ultimately show "\<not> eq_ignore_ascii_case code ''UNAVAILABLE''" by auto
  qed
  show "load_failure_kind f = ServerRejectedSignIn \<longleftrightarrow>
     (\<exists>e. f = Imap e \<and> imap_failure e = Failed StepSignIn \<and>
        (case server_code f of None \<Rightarrow> True | Some code \<Rightarrow> eq_ignore_ascii_case code ''AUTHENTICATIONFAILED''))"
  proof (cases f)
    case (Imap e)
    then show ?thesis using other
      by (auto simp: load_failure_kind_def credentials_rejected_def server_temporarily_unavailable_def Let_def
          split: imap_failure.splits option.splits)
  qed (auto simp: load_failure_kind_def split: access_error.splits graph_failure.splits)
  show "load_failure_kind f = ServiceRejectedSignIn \<longleftrightarrow> (\<exists>e code. f = MicrosoftGraph e \<and> graph_failure e = Refused 401 code)"
    by (cases f) (auto simp: load_failure_kind_def credentials_rejected_def Let_def split: access_error.splits graph_failure.splits imap_failure.splits)
qed

end
