(* ===== verification/Store_Load.thy ===== *)
theory Store_Load
  imports Store_Props Load_Failures
begin

text \<open>
  A load's result into the store (crate \<open>mailbag-providers\<close>, \<open>store_load.rs\<close>): a cycle's access to
  its folder, with the counts for the record and the events for the window, and a folder list
  replaced in one step. The record's lines are not modelled.

  The mail worker runs a load while GTK's context goes on: between two accesses to the store the
  user may mark messages, cancel the load or remove accounts. \<open>bw_user\<close> is what the user does before
  each access, in order; a theorem over every writer is a theorem over every interleaving.
\<close>

section \<open>The writer\<close>

datatype user_act =
    UserFlag account_id string message_flag bool
  | UserRemoves "account_id list"
  | UserReads folder_ref
  | UserCancels

record batch_counts =
  c_settled :: nat
  c_removed :: nat
  c_flag_states :: nat
  c_related :: nat
  c_arrived :: nat
  c_texts :: nat
  c_unsupported :: nat
  c_unreadable :: nat

definition default_counts :: batch_counts where
  "default_counts = \<lparr>c_settled = 0, c_removed = 0, c_flag_states = 0, c_related = 0, c_arrived = 0, c_texts = 0, c_unsupported = 0, c_unreadable = 0\<rparr>"

record batch_writer =
  bw_store :: store
  bw_folder :: folder_ref
  bw_cancelled :: bool
  bw_events :: "load_event list"
  bw_counts :: batch_counts
  bw_user :: "user_act list list"

type_synonym 'a writing = "(batch_writer, load_result, 'a) action"

definition new_writer :: "store \<Rightarrow> folder_ref \<Rightarrow> bool \<Rightarrow> user_act list list \<Rightarrow> batch_writer" where
  "new_writer s folder cancelled user = \<lparr>bw_store = s, bw_folder = folder, bw_cancelled = cancelled,
     bw_events = [], bw_counts = default_counts, bw_user = user\<rparr>"

section \<open>The user meanwhile\<close>

definition act_on_store :: "user_act \<Rightarrow> store \<Rightarrow> store" where
  "act_on_store act s = (case act of
     UserFlag account identity flag wanted \<Rightarrow> snd (write_pending_flag account identity flag wanted s)
   | UserRemoves current \<Rightarrow> snd (delete_other_accounts current s)
   | UserReads folder \<Rightarrow> snd (read_folder_rows folder s)
   | UserCancels \<Rightarrow> s)"

definition user_acts :: "user_act \<Rightarrow> batch_writer \<Rightarrow> batch_writer" where
  "user_acts act w = w\<lparr>bw_store := act_on_store act (bw_store w), bw_cancelled := (bw_cancelled w \<or> act = UserCancels)\<rparr>"

definition meanwhile :: "batch_writer \<Rightarrow> batch_writer" where
  "meanwhile w = (case bw_user w of [] \<Rightarrow> w | acts # rest \<Rightarrow> fold user_acts acts (w\<lparr>bw_user := rest\<rparr>))"

section \<open>Operations\<close>

definition failed_write :: "failure \<Rightarrow> load_result" where
  "failed_write failure = ResultFailed failure"

definition store_failed :: "failure \<Rightarrow> load_result" where
  "store_failed failure = failed_write failure"

definition in_store :: "'a store_action \<Rightarrow> 'a writing" where
  "in_store operation = and_then (changes meanwhile) (\<lambda>_.
     map_error store_failed (on_part bw_store (\<lambda>s w. w\<lparr>bw_store := s\<rparr>) operation))"

definition sends_event :: "load_event \<Rightarrow> unit writing" where
  "sends_event event = changes (\<lambda>w. w\<lparr>bw_events := bw_events w @ [event]\<rparr>)"

definition bw_read_folder_sync :: "folder_sync writing" where
  "bw_read_folder_sync = and_then (reads bw_folder) (\<lambda>folder. in_store (read_folder_sync folder))"

definition bw_identities_in_other_folders :: "string list \<Rightarrow> string list writing" where
  "bw_identities_in_other_folders identities =
     and_then (reads bw_folder) (\<lambda>folder. in_store (identities_in_other_folders folder identities))"

definition bw_stored_identities :: "string list \<Rightarrow> string list writing" where
  "bw_stored_identities identities =
     and_then (reads bw_folder) (\<lambda>folder. in_store (stored_identities (ref_account folder) identities))"

definition bw_pending_changes :: "pending_change list writing" where
  "bw_pending_changes = and_then (reads bw_folder) (\<lambda>folder. in_store (pending_changes folder))"

definition settle :: "string list \<Rightarrow> message_flag \<Rightarrow> bool \<Rightarrow> unit writing" where
  "settle identities flag v = and_then (reads bw_folder) (\<lambda>folder.
     and_then (in_store (settle_flags (ref_account folder) identities flag v)) (\<lambda>_.
     changes (bw_counts_update (c_settled_update (\<lambda>n. n + length identities)))))"

definition drop_pending :: "string list \<Rightarrow> message_flag \<Rightarrow> bool \<Rightarrow> unit writing" where
  "drop_pending identities flag refused = and_then (reads bw_folder) (\<lambda>folder.
     and_then (in_store (drop_pending_flags (ref_account folder) identities flag refused)) (\<lambda>_.
     sends_event StoreChanged))"

definition count_content :: "received_content \<Rightarrow> batch_counts \<Rightarrow> batch_counts" where
  "count_content content counts = (case content of
     Text _ \<Rightarrow> counts\<lparr>c_texts := c_texts counts + 1\<rparr>
   | NotDownloaded \<Rightarrow> counts
   | Explained explanation \<Rightarrow>
       if is_by_design explanation then counts\<lparr>c_unsupported := c_unsupported counts + 1\<rparr>
       else counts\<lparr>c_unreadable := c_unreadable counts + 1\<rparr>
   | StructureUnreadable \<Rightarrow> counts\<lparr>c_unreadable := c_unreadable counts + 1\<rparr>
   | TextNotReturned \<Rightarrow> counts\<lparr>c_unreadable := c_unreadable counts + 1\<rparr>)"

definition counts_add :: "folder_batch \<Rightarrow> batch_counts \<Rightarrow> batch_counts" where
  "counts_add batch counts =
     fold (\<lambda>message. count_content (msg_content message)) (batch_arrived batch)
       (counts\<lparr>c_removed := c_removed counts + length (batch_removed batch),
         c_flag_states := c_flag_states counts + length (batch_flag_states batch),
         c_related := c_related counts + length (batch_known_arrived batch),
         c_arrived := c_arrived counts + length (batch_arrived batch)\<rparr>)"

text \<open>The question whether the load was cancelled is asked under the store's lock.\<close>

definition bw_store_batch :: "folder_batch \<Rightarrow> unit writing" where
  "bw_store_batch batch =
     (if batch = empty_batch then ret ()
      else and_then (changes meanwhile) (\<lambda>_.
        and_then (reads (\<lambda>w. (bw_folder w, bw_cancelled w))) (\<lambda>(folder, cancelled).
        on_result (on_part bw_store (\<lambda>s w. w\<lparr>bw_store := s\<rparr>) (store_batch folder batch cancelled))
          (\<lambda>failure. throw (store_failed failure))
          (\<lambda>written. case written of
             Stored \<Rightarrow>
               and_then (changes (bw_counts_update (counts_add batch))) (\<lambda>_.
               sends_event StoreChanged)
           | LoadCancelled \<Rightarrow> throw ResultCancelled))))"

definition finish :: "incomplete_list option \<Rightarrow> load_result" where
  "finish incomplete = ResultStored incomplete"

definition store_folder_list :: "account_id \<Rightarrow> folder list \<Rightarrow> bool \<Rightarrow> store \<Rightarrow> load_result \<times> store" where
  "store_folder_list account folders load_cancelled s =
     (if folders = [] then (ResultStored None, s)
      else (case replace_folders account folders load_cancelled s of
        (Inr Stored, s') \<Rightarrow> (ResultStored None, s')
      | (Inr LoadCancelled, s') \<Rightarrow> (ResultCancelled, s')
      | (Inl failure, s') \<Rightarrow> (failed_write failure, s')))"

section \<open>What every operation keeps\<close>

text \<open>
  The interface between the store and a cycle: a property of stores that each operation the writer
  calls for \<open>folder\<close>, and each act of the user, keeps. A cycle then keeps it whatever the server
  answers.
\<close>

locale store_law =
  fixes holds :: "store \<Rightarrow> bool" and folder :: folder_ref and may :: "user_act \<Rightarrow> bool"
  assumes law_sync: "holds s \<Longrightarrow> holds (snd (read_folder_sync folder s))"
    and law_elsewhere: "holds s \<Longrightarrow> holds (snd (identities_in_other_folders folder identities s))"
    and law_stored: "holds s \<Longrightarrow> holds (snd (stored_identities (ref_account folder) identities s))"
    and law_pending: "holds s \<Longrightarrow> holds (snd (pending_changes folder s))"
    and law_settle: "holds s \<Longrightarrow> holds (snd (settle_flags (ref_account folder) identities flag v s))"
    and law_drop: "holds s \<Longrightarrow> holds (snd (drop_pending_flags (ref_account folder) identities flag v s))"
    and law_batch: "holds s \<Longrightarrow> holds (snd (store_batch folder batch cancelled s))"
    and law_user: "may act \<Longrightarrow> holds s \<Longrightarrow> holds (act_on_store act s)"
begin

definition writer_ok :: "batch_writer \<Rightarrow> bool" where
  "writer_ok w \<longleftrightarrow> holds (bw_store w) \<and> bw_folder w = folder \<and>
     list_all (\<lambda>event. event = StoreChanged) (bw_events w) \<and> (\<forall>acts \<in> set (bw_user w). \<forall>act \<in> set acts. may act)"

lemma writer_act: "may act \<Longrightarrow> writer_ok w \<Longrightarrow> writer_ok (user_acts act w)"
  by (simp add: user_acts_def writer_ok_def law_user)

lemma writer_acts: "\<forall>act \<in> set acts. may act \<Longrightarrow> writer_ok w \<Longrightarrow> writer_ok (fold user_acts acts w)"
  by (induction acts arbitrary: w) (simp_all add: writer_act)

lemma writer_user: "writer_ok w \<Longrightarrow> writer_ok (meanwhile w)"
  unfolding meanwhile_def by (auto intro!: writer_acts split: list.split) (auto simp: writer_ok_def)

lemma writer_meanwhile [keeps_intros]: "keeps writer_ok (changes meanwhile)"
  by (rule keeps_changes) (rule writer_user)

lemma writer_in_store:
  assumes "\<And>s. holds s \<Longrightarrow> holds (snd (operation s))"
  shows "keeps writer_ok (in_store operation)"
  unfolding in_store_def
  by (intro keeps_intros keeps_on_part [where Q = holds]) (use assms in \<open>auto simp: writer_ok_def keeps_def\<close>)

lemma writer_reads:
  assumes "\<And>x. x = folder \<Longrightarrow> keeps writer_ok (k x)"
  shows "keeps writer_ok (and_then (reads bw_folder) k)"
  using assms by (auto simp: keeps_def and_then_def writer_ok_def)

lemma writer_event [keeps_intros]: "keeps writer_ok (sends_event StoreChanged)"
  unfolding sends_event_def by (rule keeps_changes) (simp add: writer_ok_def)

lemma writer_counts [keeps_intros]: "keeps writer_ok (changes (bw_counts_update f))"
  by (rule keeps_changes) (simp add: writer_ok_def)

lemma keeps_bw_read_folder_sync [keeps_intros]: "keeps writer_ok bw_read_folder_sync"
  unfolding bw_read_folder_sync_def by (intro writer_reads writer_in_store) (simp add: law_sync)

lemma keeps_bw_identities_in_other_folders [keeps_intros]: "keeps writer_ok (bw_identities_in_other_folders identities)"
  unfolding bw_identities_in_other_folders_def by (intro writer_reads writer_in_store) (simp add: law_elsewhere)

lemma keeps_bw_stored_identities [keeps_intros]: "keeps writer_ok (bw_stored_identities identities)"
  unfolding bw_stored_identities_def by (intro writer_reads writer_in_store) (simp add: law_stored)

lemma keeps_bw_pending_changes [keeps_intros]: "keeps writer_ok bw_pending_changes"
  unfolding bw_pending_changes_def by (intro writer_reads writer_in_store) (simp add: law_pending)

lemma keeps_settle [keeps_intros]: "keeps writer_ok (settle identities flag v)"
  unfolding settle_def by (intro writer_reads keeps_and_then writer_in_store keeps_intros) (simp add: law_settle)

lemma keeps_drop_pending [keeps_intros]: "keeps writer_ok (drop_pending identities flag v)"
  unfolding drop_pending_def by (intro writer_reads keeps_and_then writer_in_store keeps_intros) (simp add: law_drop)

lemma keeps_bw_store_batch [keeps_intros]: "keeps writer_ok (bw_store_batch batch)"
proof -
  have asked: "keeps writer_ok (and_then (reads (\<lambda>w. (bw_folder w, bw_cancelled w))) k)"
    if "\<And>cancelled. keeps writer_ok (k (folder, cancelled))" for k :: "folder_ref \<times> bool \<Rightarrow> unit writing"
    using that by (auto simp: keeps_def and_then_def writer_ok_def)
  have stored: "keeps writer_ok (on_part bw_store (\<lambda>s w. w\<lparr>bw_store := s\<rparr>) (store_batch folder batch cancelled))" for cancelled
    by (rule keeps_on_part [where Q = holds]) (auto simp: writer_ok_def keeps_def law_batch)
  show ?thesis
    unfolding bw_store_batch_def
  proof (intro keeps_if keeps_ret keeps_and_then writer_meanwhile asked, simp only: prod.case, intro keeps_on_result stored keeps_throw)
    show "keeps writer_ok (case written of
        Stored \<Rightarrow> and_then (changes (bw_counts_update (counts_add batch))) (\<lambda>_. sends_event StoreChanged)
      | LoadCancelled \<Rightarrow> throw ResultCancelled)" for written
      by (cases written) (simp_all add: keeps_intros del: throw_run)
  qed
qed

end

section \<open>Reachable stores\<close>

lemma reachable_user: "reachable s \<Longrightarrow> reachable (act_on_store act s)"
  by (cases act) (auto simp: act_on_store_def intro: reachable.step store_step.intros)

interpretation reached: store_law reachable folder "\<lambda>_. True"
  for folder
  by unfold_locales (auto intro: reachable.step [OF _ store_step.sync] reachable.step [OF _ store_step.elsewhere]
      reachable.step [OF _ store_step.identities] reachable.step [OF _ store_step.changes] reachable.step [OF _ store_step.settle]
      reachable.step [OF _ store_step.refuse] reachable.step [OF _ store_step.batch] reachable_user)

end
