(* ===== verification/Cycle.thy ===== *)
theory Cycle
  imports Store_Load
begin

text \<open>
  What the cycles of both kinds share (crate \<open>mailbag-providers\<close>, \<open>cycle.rs\<close>): a folder's writer, the
  connection to its server, how a cycle ends early and the states it leaves.

  A cycle is a future that the worker polls. Where it waits for its server, GTK's context goes on and
  the load may be cancelled; the worker then drops the future, unless it finds the server's answer
  first. \<open>cy_ready\<close> says, wait by wait, whether the answer is there when the worker looks. Every order
  of answers, acts of the user and cancellations is one such list with one \<open>bw_user\<close>.
\<close>

section \<open>How a cycle ends early\<close>

text \<open>
  \<open>CyclePanicked\<close> is a panic, which the worker catches. \<open>CycleUnfinished\<close> is a cycle the model stopped
  watching: the fuel given for the service's pages ran out. The other two are the program's own.
\<close>

datatype cycle_end =
    CycleFailed load_failure
  | CycleStopped load_result
  | CyclePanicked
  | CycleUnfinished

definition cycle_end_imap :: "imap_error \<Rightarrow> cycle_end" where
  "cycle_end_imap error = CycleFailed (Imap error)"

definition cycle_end_graph :: "graph_error \<Rightarrow> cycle_end" where
  "cycle_end_graph error = CycleFailed (MicrosoftGraph error)"

definition cycle_end_result :: "load_result \<Rightarrow> cycle_end" where
  "cycle_end_result result = CycleStopped result"

section \<open>A cycle's state\<close>

record 'c cycle =
  cy_batches :: batch_writer
  cy_server :: 'c
  cy_ready :: "bool list"

type_synonym ('c, 'a) cycling = "('c cycle, cycle_end, 'a) action"

definition in_batches :: "'a writing \<Rightarrow> ('c, 'a) cycling" where
  "in_batches m = map_error cycle_end_result (on_part cy_batches (\<lambda>w c. c\<lparr>cy_batches := w\<rparr>) m)"

text \<open>A wait for the server: the user acts meanwhile, and a cancelled cycle without an answer is dropped.\<close>

definition take_ready :: "'c cycle \<Rightarrow> 'c cycle" where
  "take_ready c = c\<lparr>cy_ready := tl (cy_ready c)\<rparr>"

definition dropped :: "'c cycle \<Rightarrow> bool" where
  "dropped c \<longleftrightarrow> bw_cancelled (cy_batches c) \<and> (case cy_ready c of answered # _ \<Rightarrow> \<not> answered | [] \<Rightarrow> True)"

definition waits :: "('c, unit) cycling" where
  "waits =
     and_then (on_part cy_batches (\<lambda>w c. c\<lparr>cy_batches := w\<rparr>) (changes meanwhile)) (\<lambda>_.
     and_then (reads dropped) (\<lambda>gone.
     and_then (changes take_ready) (\<lambda>_.
     if gone then throw (cycle_end_result ResultCancelled) else ret ())))"

definition in_server :: "('e \<Rightarrow> cycle_end) \<Rightarrow> ('c, 'e, 'a) action \<Rightarrow> ('c, 'a) cycling" where
  "in_server ended m =
     on_result (on_part cy_server (\<lambda>s c. c\<lparr>cy_server := s\<rparr>) m)
       (\<lambda>e. and_then waits (\<lambda>_. throw (ended e)))
       (\<lambda>x. and_then waits (\<lambda>_. ret x))"

section \<open>States and dates\<close>

definition completed :: "string option \<Rightarrow> folder_state" where
  "completed server_position = \<lparr>state_server_position = server_position, state_fill_place = None,
     state_synchronized = True, state_numbers = None\<rparr>"

definition recent_seconds :: int where
  "recent_seconds = 30 * 24 * 60 * 60"

text \<open>
  \<open>SystemTime\<close> as whole seconds since the Unix epoch, negative before it: \<open>duration_since\<close> then fails and
  the limit counts from the epoch.
\<close>

definition recent_limit :: "int \<Rightarrow> int" where
  "recent_limit cycle_start = (if 0 \<le> cycle_start then cycle_start else 0) - recent_seconds"

section \<open>What a cycle keeps\<close>

text \<open>
  A law of the writer and a law of the server, put together: each operation of a cycle keeps both,
  whichever way it ends.
\<close>

definition cycle_fine :: "(batch_writer \<Rightarrow> bool) \<Rightarrow> ('c \<Rightarrow> bool) \<Rightarrow> 'c cycle \<Rightarrow> bool" where
  "cycle_fine W C c \<longleftrightarrow> W (cy_batches c) \<and> C (cy_server c)"

lemma keeps_in_batches: "keeps W m \<Longrightarrow> keeps (cycle_fine W C) (in_batches m)"
  unfolding in_batches_def by (intro keeps_map_error keeps_on_part [where Q = W]) (auto simp: cycle_fine_def)

lemma keeps_waits:
  assumes "keeps W (changes meanwhile :: unit writing)"
  shows "keeps (cycle_fine W C) waits"
  unfolding waits_def
proof (intro keeps_intros keeps_changes)
  show "keeps (cycle_fine W C) (on_part cy_batches (\<lambda>w c. c\<lparr>cy_batches := w\<rparr>) (changes meanwhile))"
    using assms by (auto simp: keeps_def on_part_def cycle_fine_def)
qed (simp add: take_ready_def cycle_fine_def)

lemma keeps_in_server:
  assumes "keeps C m" and "keeps W (changes meanwhile :: unit writing)"
  shows "keeps (cycle_fine W C) (in_server ended m)"
  unfolding in_server_def
  by (intro keeps_on_result keeps_and_then keeps_waits keeps_ret keeps_throw keeps_on_part [where Q = C] assms)
    (auto simp: cycle_fine_def)

end
