(* ===== verification/Utf7.thy ===== *)
theory Utf7
  imports Prelude
begin

unbundle bit_operations_syntax

text \<open>
  Mailbox names in modified UTF-7, crate \<open>mailbag-imap\<close>, \<open>utf7.rs\<close>: the decoder with its bit
  accumulator, its equivalence with a reference over lists of bits, and the round trip with every
  encoding RFC 3501 allows.
\<close>

section \<open>UTF-16 and UTF-8 of the standard library\<close>

text \<open>\<open>String::from_utf16\<close>: code points from code units; a lone surrogate is an error.\<close>

fun from_utf16 :: "nat list \<Rightarrow> nat list option" where
  "from_utf16 [] = Some []"
| "from_utf16 [u] = (if 0xD800 \<le> u \<and> u < 0xE000 then None else Some [u])"
| "from_utf16 (u # v # us) =
     (if 0xD800 \<le> u \<and> u < 0xDC00 then
        (if 0xDC00 \<le> v \<and> v < 0xE000
         then map_option ((#) (0x10000 + (u - 0xD800) * 0x400 + (v - 0xDC00))) (from_utf16 us) else None)
      else if 0xDC00 \<le> u \<and> u < 0xE000 then None
      else map_option ((#) u) (from_utf16 (v # us)))"

definition utf8_char :: "nat \<Rightarrow> string" where
  "utf8_char c =
     (if c < 0x80 then [char_of c]
      else if c < 0x800 then [char_of (0xC0 + c div 64), char_of (0x80 + c mod 64)]
      else if c < 0x10000 then [char_of (0xE0 + c div 4096), char_of (0x80 + c div 64 mod 64), char_of (0x80 + c mod 64)]
      else [char_of (0xF0 + c div 262144), char_of (0x80 + c div 4096 mod 64), char_of (0x80 + c div 64 mod 64), char_of (0x80 + c mod 64)])"

definition utf8 :: "nat list \<Rightarrow> string" where
  "utf8 cs = concat (map utf8_char cs)"

section \<open>The decoder\<close>

definition base64_value :: "char \<Rightarrow> nat option" where
  "base64_value c = (let b = (of_char c :: nat) in
     if 65 \<le> b \<and> b \<le> 90 then Some (b - 65)
     else if 97 \<le> b \<and> b \<le> 122 then Some (b - 97 + 26)
     else if 48 \<le> b \<and> b \<le> 57 then Some (b - 48 + 52)
     else if c = CHR ''+'' then Some 62
     else if c = CHR '','' then Some 63
     else None)"

text \<open>One turn of the loop: \<open>bits\<close> is a \<open>u32\<close>, a finished code unit a \<open>u16\<close>.\<close>

definition group_step :: "nat list \<times> nat \<times> nat \<Rightarrow> nat \<Rightarrow> nat list \<times> nat \<times> nat" where
  "group_step state v = (case state of (code_units, bits, bit_count) \<Rightarrow>
     let bits = take_bit 32 (push_bit 6 bits) OR v;
         bit_count = bit_count + 6
     in if bit_count \<ge> 16
        then (let bit_count = bit_count - 16 in
          (code_units @ [take_bit 16 (drop_bit bit_count bits)], bits AND mask bit_count, bit_count))
        else (code_units, bits, bit_count))"

fun group_loop :: "nat list \<times> nat \<times> nat \<Rightarrow> string \<Rightarrow> (nat list \<times> nat \<times> nat) option" where
  "group_loop state [] = Some state"
| "group_loop state (c # cs) = (case base64_value c of None \<Rightarrow> None | Some v \<Rightarrow> group_loop (group_step state v) cs)"

definition decode_utf16_group :: "string \<Rightarrow> nat list option" where
  "decode_utf16_group encoded = (case group_loop ([], 0, 0) encoded of
     None \<Rightarrow> None
   | Some (code_units, bits, bit_count) \<Rightarrow> if bit_count \<ge> 6 \<or> bits \<noteq> 0 then None else from_utf16 code_units)"

text \<open>\<open>rest.find(c)\<close> with the two sides.\<close>

fun split_once :: "'a \<Rightarrow> 'a list \<Rightarrow> ('a list \<times> 'a list) option" where
  "split_once c [] = None"
| "split_once c (x # xs) = (if x = c then Some ([], xs) else map_option (\<lambda>(before, after). (x # before, after)) (split_once c xs))"

lemma split_once_Some: "split_once c s = Some (p, q) \<longleftrightarrow> s = p @ c # q \<and> c \<notin> set p"
proof (induction s arbitrary: p)
  case (Cons x s)
  then show ?case by (cases p) auto
qed simp

lemma split_once_None: "split_once c s = None \<longleftrightarrow> c \<notin> set s"
  by (induction s) auto

function decode_groups :: "string \<Rightarrow> string option" where
  "decode_groups rest = (case split_once (CHR ''&'') rest of
     None \<Rightarrow> Some rest
   | Some (before, after) \<Rightarrow> (case split_once (CHR ''-'') after of
       None \<Rightarrow> None
     | Some (encoded, rest') \<Rightarrow>
         if encoded = [] then map_option (\<lambda>decoded. before @ ''&'' @ decoded) (decode_groups rest')
         else (case decode_utf16_group encoded of
             None \<Rightarrow> None
           | Some characters \<Rightarrow> map_option (\<lambda>decoded. before @ utf8 characters @ decoded) (decode_groups rest'))))"
  by pat_completeness auto
termination
  by (relation "measure length") (auto simp: split_once_Some)

declare decode_groups.simps [simp del]

definition decode :: "string \<Rightarrow> string" where
  "decode name = (case decode_groups name of Some decoded \<Rightarrow> decoded | None \<Rightarrow> name)"

section \<open>Bits\<close>

definition value_of :: "bool list \<Rightarrow> nat" where
  "value_of bs = foldl (\<lambda>a b. 2 * a + of_bool b) 0 bs"

primrec bits_of :: "nat \<Rightarrow> nat \<Rightarrow> bool list" where
  "bits_of 0 v = []"
| "bits_of (Suc n) v = bits_of n (v div 2) @ [odd v]"

lemma length_bits_of [simp]: "length (bits_of n v) = n"
  by (induction n arbitrary: v) simp_all

lemma foldl_value: "foldl (\<lambda>a b. 2 * a + of_bool b) (k :: nat) bs = k * 2 ^ length bs + value_of bs"
proof (induction bs arbitrary: k)
  case (Cons b bs)
  show ?case
    unfolding value_of_def foldl_Cons Cons.IH [of "2 * k + of_bool b"] Cons.IH [of "2 * 0 + of_bool b"] by (simp add: algebra_simps)
qed (simp add: value_of_def)

lemma value_of_append: "value_of (xs @ ys) = value_of xs * 2 ^ length ys + value_of ys"
proof -
  have "value_of (xs @ ys) = foldl (\<lambda>a b. 2 * a + of_bool b) (value_of xs) ys" by (simp add: value_of_def)
  then show ?thesis by (simp only: foldl_value)
qed

lemma value_of_Nil [simp]: "value_of [] = 0"
  by (simp add: value_of_def)

lemma value_of_less: "value_of bs < 2 ^ length bs"
proof (induction bs rule: rev_induct)
  case (snoc b bs)
  then show ?case by (simp add: value_of_append) (simp add: value_of_def)
qed simp

lemma value_of_bits_of: "value_of (bits_of n v) = v mod 2 ^ n"
proof (induction n arbitrary: v)
  case (Suc n)
  have "value_of [odd v] = v mod 2" by (simp add: value_of_def mod_2_eq_odd)
  then show ?case by (simp add: value_of_append Suc mod_mult2_eq)
qed simp

lemma bits_of_value_of: "bits_of (length bs) (value_of bs) = bs"
proof (induction bs rule: rev_induct)
  case (snoc b bs)
  have "value_of (bs @ [b]) = 2 * value_of bs + of_bool b" by (simp add: value_of_append) (simp add: value_of_def)
  with snoc show ?case by simp
qed simp

lemma value_of_False: "value_of bs = 0 \<longleftrightarrow> (\<forall>b \<in> set bs. \<not> b)"
proof (induction bs rule: rev_induct)
  case (snoc b bs)
  then show ?case by (simp add: value_of_append) (auto simp: value_of_def)
qed simp

section \<open>The reference\<close>

text \<open>The bits of a group in units of 16, and what is left of them.\<close>

definition units_of :: "bool list \<Rightarrow> nat list" where
  "units_of bs = map value_of (chunks 16 (take (16 * (length bs div 16)) bs))"

definition left_over :: "bool list \<Rightarrow> bool list" where
  "left_over bs = drop (16 * (length bs div 16)) bs"

definition group_bits :: "nat list \<Rightarrow> bool list" where
  "group_bits vs = concat (map (bits_of 6) vs)"

fun base64_values :: "string \<Rightarrow> nat list option" where
  "base64_values [] = Some []"
| "base64_values (c # cs) = (case base64_value c of None \<Rightarrow> None | Some v \<Rightarrow> map_option ((#) v) (base64_values cs))"

lemma base64_value_less: "base64_value c = Some v \<Longrightarrow> v < 64"
  by (auto simp: base64_value_def Let_def split: if_splits)

lemma or_disjoint:
  assumes "v < 2 ^ k"
  shows "push_bit k a OR v = a * 2 ^ k + (v :: nat)"
proof -
  have "push_bit k a OR v = push_bit k a + v"
  proof (rule disjunctive_add [symmetric])
    fix n
    show "\<not> bit (push_bit k a) n \<or> \<not> bit v n"
    proof (cases "n < k")
      case False
      then have "v < 2 ^ n" using assms order_less_le_trans [of v "2 ^ k" "2 ^ n"] by simp
      then show ?thesis by (simp add: bit_iff_odd)
    qed (simp add: bit_push_bit_iff)
  qed
  then show ?thesis by (simp add: push_bit_eq_mult)
qed

text \<open>The accumulator: the finished units, and the bits not yet part of one.\<close>

definition accumulates :: "nat list \<times> nat \<times> nat \<Rightarrow> bool list \<Rightarrow> bool" where
  "accumulates state bs \<longleftrightarrow> (case state of (code_units, bits, bit_count) \<Rightarrow>
     code_units = units_of bs \<and> bits = value_of (left_over bs) \<and> bit_count = length (left_over bs))"

lemma length_left_over [simp]: "length (left_over bs) = length bs mod 16"
  by (simp add: left_over_def minus_mult_div_eq_mod)

lemma chunks_append: "0 < n \<Longrightarrow> length xs = n * k \<Longrightarrow> chunks n (xs @ ys) = chunks n xs @ chunks n ys"
proof (induction k arbitrary: xs)
  case (Suc k)
  then have xs: "xs \<noteq> []" "n \<le> length xs" by auto
  have "chunks n (drop n xs @ ys) = chunks n (drop n xs) @ chunks n ys" using Suc by simp
  with xs Suc.prems(1) show ?case by (simp add: chunks_Cons)
qed simp

lemma chunks_one: "0 < n \<Longrightarrow> length xs = n \<Longrightarrow> chunks n xs = [xs]"
  by (cases "xs = []") (simp_all add: chunks_Cons)

lemma units_split:
  assumes "length us = 16 * k" and "length r < 16"
  shows "units_of (us @ r) = map value_of (chunks 16 us)" and "left_over (us @ r) = r"
  using assms by (simp_all add: units_of_def left_over_def)

lemma accumulates_step:
  assumes acc: "accumulates state bs" and v: "v < 64"
  shows "accumulates (group_step state v) (bs @ bits_of 6 v)"
proof -
  let ?us = "take (16 * (length bs div 16)) bs" and ?r = "left_over bs"
  obtain units bits count where state: "state = (units, bits, count)" by (cases state)
  have bs: "bs = ?us @ ?r" by (simp add: left_over_def)
  have us: "length ?us = 16 * (length bs div 16)" by simp
  have st: "units = map value_of (chunks 16 ?us)" "bits = value_of ?r" "count = length ?r"
    using acc by (simp_all add: accumulates_def state units_of_def)
  let ?t = "?r @ bits_of 6 v"
  have r: "length ?r < 16" by simp
  have "value_of ?r < 2 ^ 16" using value_of_less [of ?r] power_strict_increasing [OF r, of "2 :: nat"] by simp
  then have "take_bit 32 (push_bit 6 bits) = push_bit 6 bits"
    by (simp add: st take_bit_nat_eq_self push_bit_eq_mult)
  then have bits': "take_bit 32 (push_bit 6 bits) OR v = value_of ?t"
    using or_disjoint [of v 6 bits] v by (simp add: st value_of_append value_of_bits_of)
  show ?thesis
  proof (cases "length ?t \<ge> 16")
    case True
    let ?k = "length ?t - 16"
    have t: "?t = take 16 ?t @ drop 16 ?t" by simp
    have k: "length (drop 16 ?t) = ?k" "length (take 16 ?t) = 16" using True by simp_all
    have val: "value_of ?t = value_of (take 16 ?t) * 2 ^ ?k + value_of (drop 16 ?t)"
      using value_of_append [of "take 16 ?t" "drop 16 ?t"] k by simp
    have small: "value_of (drop 16 ?t) < 2 ^ ?k" "value_of (take 16 ?t) < 2 ^ 16"
      using value_of_less [of "drop 16 ?t"] value_of_less [of "take 16 ?t"] k by simp_all
    have "value_of ?t div 2 ^ ?k = value_of (take 16 ?t)" "value_of ?t mod 2 ^ ?k = value_of (drop 16 ?t)"
      unfolding val using small by simp_all
    then have step: "take_bit 16 (drop_bit ?k (value_of ?t)) = value_of (take 16 ?t)" "value_of ?t AND mask ?k = value_of (drop 16 ?t)"
      using small(2) by (simp_all add: drop_bit_eq_div take_bit_nat_eq_self take_bit_eq_mask [symmetric] take_bit_eq_mod)
    have whole: "bs @ bits_of 6 v = (?us @ take 16 ?t) @ drop 16 ?t" using bs t by (metis append_assoc)
    have len: "length (?us @ take 16 ?t) = 16 * Suc (length bs div 16)" using us k by simp
    have "length (drop 16 ?t) < 16" using r by simp
    from units_split [OF len this]
    have "units_of (bs @ bits_of 6 v) = units @ [value_of (take 16 ?t)]" "left_over (bs @ bits_of 6 v) = drop 16 ?t"
      unfolding whole st using chunks_append [of 16 ?us _ "take 16 ?t"] chunks_one [of 16 "take 16 ?t"] us k by simp_all
    with True bits' step k show ?thesis
      by (simp add: accumulates_def group_step_def state Let_def st)
  next
    case False
    have whole: "bs @ bits_of 6 v = ?us @ ?t" using bs by (metis append_assoc)
    from units_split [OF us, of ?t] False
    have "units_of (bs @ bits_of 6 v) = units" "left_over (bs @ bits_of 6 v) = ?t"
      unfolding whole st by simp_all
    with False bits' show ?thesis by (simp add: accumulates_def group_step_def state Let_def st)
  qed
qed

lemma group_loop_values: "group_loop state cs = map_option (foldl group_step state) (base64_values cs)"
  by (induction cs arbitrary: state) (auto split: option.split simp: option.map_comp o_def)

lemma base64_values_less: "base64_values cs = Some vs \<Longrightarrow> v \<in> set vs \<Longrightarrow> v < 64"
  by (induction cs arbitrary: vs) (auto split: option.splits dest: base64_value_less)

lemma accumulates_fold:
  "accumulates state bs \<Longrightarrow> (\<And>v. v \<in> set vs \<Longrightarrow> v < 64) \<Longrightarrow> accumulates (foldl group_step state vs) (bs @ group_bits vs)"
proof (induction vs arbitrary: state bs)
  case (Cons v vs)
  have "accumulates (group_step state v) (bs @ bits_of 6 v)" using Cons.prems by (intro accumulates_step) auto
  from Cons.IH [OF this] Cons.prems show ?case by (simp add: group_bits_def)
qed (simp add: group_bits_def)

lemma if_not_swap: "(if \<not> b then x else y) = (if b then y else x)"
  by simp

lemma decode_group_reference:
  "decode_utf16_group encoded = (case base64_values encoded of None \<Rightarrow> None
   | Some vs \<Rightarrow> if length (left_over (group_bits vs)) < 6 \<and> (\<forall>b \<in> set (left_over (group_bits vs)). \<not> b)
       then from_utf16 (units_of (group_bits vs)) else None)"
proof (cases "base64_values encoded")
  case (Some vs)
  have "accumulates ([], 0, 0) []" by (simp add: accumulates_def units_of_def left_over_def)
  from accumulates_fold [OF this, of vs] base64_values_less [OF Some]
  have "accumulates (foldl group_step ([], 0, 0) vs) (group_bits vs)" by simp
  then have "foldl group_step ([], 0, 0) vs = (units_of (group_bits vs), value_of (left_over (group_bits vs)), length (left_over (group_bits vs)))"
    by (auto simp: accumulates_def split: prod.splits)
  moreover have "length r \<ge> 6 \<or> value_of r \<noteq> 0 \<longleftrightarrow> \<not> (length r < 6 \<and> (\<forall>b \<in> set r. \<not> b))" for r
    using value_of_False [of r] by auto
  ultimately show ?thesis
    unfolding decode_utf16_group_def group_loop_values Some option.map option.case by (simp only: prod.case if_not_swap)
qed (simp add: decode_utf16_group_def group_loop_values)

section \<open>Encodings\<close>

text \<open>The encodings of RFC 3501, section 5.1.3, as a relation between code points and a name.\<close>

definition scalar_value :: "nat \<Rightarrow> bool" where
  "scalar_value c \<longleftrightarrow> c < 0xD800 \<or> 0xE000 \<le> c \<and> c < 0x110000"

definition utf16_char :: "nat \<Rightarrow> nat list" where
  "utf16_char c = (if c < 0x10000 then [c] else [0xD800 + (c - 0x10000) div 0x400, 0xDC00 + (c - 0x10000) mod 0x400])"

definition base64_char :: "nat \<Rightarrow> char" where
  "base64_char v = (if v < 26 then char_of (65 + v) else if v < 52 then char_of (71 + v) else if v < 62 then char_of (v - 4)
     else if v = 62 then CHR ''+'' else CHR '','')"

definition unit_bits :: "nat list \<Rightarrow> bool list" where
  "unit_bits us = concat (map (bits_of 16) us)"

definition padding :: "nat \<Rightarrow> bool list" where
  "padding n = replicate ((6 - n mod 6) mod 6) False"

definition encode_group :: "nat list \<Rightarrow> string" where
  "encode_group cs = (let bs = unit_bits (concat (map utf16_char cs))
     in map (\<lambda>six. base64_char (value_of six)) (chunks 6 (bs @ padding (length bs))))"

inductive utf7_name :: "nat list \<Rightarrow> string \<Rightarrow> bool" where
  empty: "utf7_name [] []"
| plain: "0x20 \<le> c \<Longrightarrow> c \<le> 0x7E \<Longrightarrow> c \<noteq> 0x26 \<Longrightarrow> utf7_name cs s \<Longrightarrow> utf7_name (c # cs) (char_of c # s)"
| ampersand: "utf7_name cs s \<Longrightarrow> utf7_name (0x26 # cs) (''&-'' @ s)"
| shifted: "g \<noteq> [] \<Longrightarrow> (\<forall>c \<in> set g. scalar_value c) \<Longrightarrow> utf7_name cs s \<Longrightarrow>
    utf7_name (g @ cs) (''&'' @ encode_group g @ ''-'' @ s)"

lemma base64_value_char: "v < 64 \<Longrightarrow> base64_value (base64_char v) = Some v"
  by (auto simp: base64_value_def base64_char_def Let_def)

lemma base64_char_not_minus: "base64_char v \<noteq> CHR ''-'' \<or> 64 \<le> v"
proof (cases "v < 64")
  case True
  then have "base64_value (base64_char v) \<noteq> base64_value (CHR ''-'')"
    by (simp add: base64_value_char) (simp add: base64_value_def)
  then show ?thesis by metis
qed simp

lemma from_utf16_append: "scalar_value c \<Longrightarrow> from_utf16 (utf16_char c @ us) = map_option ((#) c) (from_utf16 us)"
proof (cases "c < 0x10000")
  case True
  moreover assume "scalar_value c"
  ultimately show ?thesis by (cases us) (auto simp: utf16_char_def scalar_value_def)
next
  case False
  moreover assume "scalar_value c"
  ultimately have c: "0x10000 \<le> c" "c < 0x110000" by (auto simp: scalar_value_def)
  define x y where "x = (c - 0x10000) div 0x400" and "y = (c - 0x10000) mod 0x400"
  have "x < 0x400" unfolding x_def using c by (intro less_mult_imp_div_less) simp
  moreover have "y < 0x400" by (simp add: y_def)
  moreover have "0x10000 + x * 0x400 + y = c" using c by (simp add: x_def y_def div_mult_mod_eq)
  moreover have "utf16_char c = [0xD800 + x, 0xDC00 + y]" using c by (simp add: utf16_char_def x_def y_def)
  ultimately show ?thesis by (simp add: add.assoc)
qed

lemma from_utf16_encode: "\<forall>c \<in> set cs. scalar_value c \<Longrightarrow> from_utf16 (concat (map utf16_char cs)) = Some cs"
  by (induction cs) (simp_all add: from_utf16_append)

lemma utf16_char_less: "scalar_value c \<Longrightarrow> u \<in> set (utf16_char c) \<Longrightarrow> u < 2 ^ 16"
  by (auto simp: utf16_char_def scalar_value_def split: if_splits)

lemma length_unit_bits: "length (unit_bits us) = 16 * length us"
  by (induction us) (simp_all add: unit_bits_def)

lemma chunks_unit_bits: "(\<And>u. u \<in> set us \<Longrightarrow> u < 2 ^ 16) \<Longrightarrow> map value_of (chunks 16 (unit_bits us)) = us"
proof (induction us)
  case (Cons u us)
  have "chunks 16 (bits_of 16 u @ unit_bits us) = bits_of 16 u # chunks 16 (unit_bits us)"
    using chunks_append [of 16 "bits_of 16 u" 1 "unit_bits us"] chunks_one [of 16 "bits_of 16 u"] by simp
  with Cons show ?case by (simp add: unit_bits_def value_of_bits_of)
qed (simp add: unit_bits_def)

lemma group_bits_chunks:
  "length bs = 6 * n \<Longrightarrow> group_bits (map value_of (chunks 6 bs)) = bs"
proof (induction n arbitrary: bs)
  case (Suc n)
  then have len: "6 \<le> length bs" "bs \<noteq> []" by auto
  have "group_bits (map value_of (chunks 6 (drop 6 bs))) = drop 6 bs" using Suc by simp
  moreover have "bits_of 6 (value_of (take 6 bs)) = take 6 bs" using bits_of_value_of [of "take 6 bs"] len by (simp add: min_absorb2)
  ultimately show ?case using len by (simp add: chunks_Cons group_bits_def)
qed (simp add: group_bits_def)

lemma padded_length: "\<exists>k. n + length (padding n) = 6 * k"
proof (cases "n mod 6 = 0")
  case True
  then show ?thesis by (auto simp: padding_def dvd_def mod_eq_0_iff_dvd)
next
  case False
  have "n mod 6 < 6" by simp
  with False have "length (padding n) = 6 - n mod 6" unfolding padding_def length_replicate by (intro mod_less) simp
  moreover have "n + m = 6 * (q + 1)" if "n = 6 * q + r" "r < 6" "m = 6 - r" for m q r :: nat
    using that by simp
  ultimately have "n + length (padding n) = 6 * (n div 6 + 1)"
    using \<open>n mod 6 < 6\<close> mult_div_mod_eq [of 6 n, symmetric] by blast
  then show ?thesis ..
qed

lemma base64_values_map: "(\<And>v. v \<in> set vs \<Longrightarrow> v < 64) \<Longrightarrow> base64_values (map base64_char vs) = Some vs"
  by (induction vs) (simp_all add: base64_value_char)

lemma six_less: "c \<in> set (chunks 6 bs) \<Longrightarrow> value_of c < 64"
proof -
  assume "c \<in> set (chunks 6 bs)"
  then have "length c \<le> 6" using chunks_bound by blast
  then show ?thesis using value_of_less [of c] power_increasing [of "length c" 6 "2 :: nat"] by simp
qed

lemma decode_encode_group:
  assumes "\<forall>c \<in> set cs. scalar_value c"
  shows "decode_utf16_group (encode_group cs) = Some cs"
proof -
  let ?us = "concat (map utf16_char cs)" and ?bs = "unit_bits (concat (map utf16_char cs))"
  let ?all = "?bs @ padding (length ?bs)"
  let ?vs = "map value_of (chunks 6 ?all)"
  have enc: "encode_group cs = map base64_char ?vs" by (simp add: encode_group_def Let_def)
  obtain k where "length ?all = 6 * k" using padded_length [of "length ?bs"] by auto
  then have bits: "group_bits ?vs = ?all" by (rule group_bits_chunks)
  have len: "length ?bs = 16 * length ?us" by (rule length_unit_bits)
  have pad: "length (padding (length ?bs)) < 6" by (simp add: padding_def)
  then have "length (padding (length ?bs)) < 16" by simp
  note split = units_split [OF len this]
  have "units_of ?all = ?us"
    unfolding split(1) using assms utf16_char_less by (intro chunks_unit_bits) auto
  moreover have "\<forall>b \<in> set (left_over ?all). \<not> b" "length (left_over ?all) < 6"
    unfolding split(2) using pad by (simp_all add: padding_def)
  moreover have "base64_values (encode_group cs) = Some ?vs"
    unfolding enc by (rule base64_values_map) (auto dest: six_less)
  ultimately show ?thesis
    by (simp add: decode_group_reference bits from_utf16_encode [OF assms] del: length_left_over)
qed

lemma encode_group_chars: "CHR ''-'' \<notin> set (encode_group cs)"
proof -
  have "base64_char (value_of six) \<noteq> CHR ''-''" if "six \<in> set (chunks 6 bs)" for six bs
    using base64_char_not_minus [of "value_of six"] six_less [OF that] by simp
  then show ?thesis by (auto simp: encode_group_def Let_def dest: sym)
qed

lemma encode_group_not_Nil: "cs \<noteq> [] \<Longrightarrow> encode_group cs \<noteq> []"
proof -
  assume "cs \<noteq> []"
  then obtain c cs' where "cs = c # cs'" by (cases cs) auto
  then have "length (unit_bits (concat (map utf16_char cs))) \<noteq> 0" unfolding length_unit_bits by (simp add: utf16_char_def)
  then show ?thesis by (auto simp: encode_group_def Let_def chunks_Cons)
qed

lemma decode_groups_plain: "c \<noteq> CHR ''&'' \<Longrightarrow> decode_groups (c # s) = map_option ((#) c) (decode_groups s)"
  by (subst (1 2) decode_groups.simps)
     (auto split: option.split simp: option.map_comp o_def split_once_None split_once_Some)

lemma decode_groups_group:
  assumes "CHR ''-'' \<notin> set encoded"
  shows "decode_groups (''&'' @ encoded @ ''-'' @ s) =
    (if encoded = [] then map_option ((#) (CHR ''&'')) (decode_groups s)
     else (case decode_utf16_group encoded of None \<Rightarrow> None | Some cps \<Rightarrow> map_option ((@) (utf8 cps)) (decode_groups s)))"
proof -
  have "split_once (CHR ''-'') (encoded @ CHR ''-'' # s) = Some (encoded, s)" using assms by (simp add: split_once_Some)
  then show ?thesis by (subst decode_groups.simps) (simp split: option.split)
qed

lemma utf8_append: "utf8 (xs @ ys) = utf8 xs @ utf8 ys"
  by (simp add: utf8_def)

lemma ampersand_char: "char_of (0x26 :: nat) = CHR ''&''"
  by code_simp

text \<open>
  C35: every modified UTF-7 name is decoded to the UTF-8 text it encodes: printable ASCII, the
  ampersand's escape and base64 groups of UTF-16, surrogate pairs and padding included, in any
  grouping.
\<close>

theorem utf7_roundtrip:
  assumes "utf7_name cs name"
  shows "decode name = utf8 cs"
proof -
  from assms have "decode_groups name = Some (utf8 cs)"
  proof (induction rule: utf7_name.induct)
    case empty
    show ?case by (subst decode_groups.simps) (simp add: utf8_def)
  next
    case (plain c cs s)
    have "(of_char (char_of c) :: nat) = c" using plain.hyps by simp
    moreover have "(of_char (CHR ''&'') :: nat) = 0x26" by simp
    ultimately have "char_of c \<noteq> CHR ''&''" using plain.hyps by metis
    then have "decode_groups (char_of c # s) = Some (char_of c # utf8 cs)" using plain.IH by (simp add: decode_groups_plain)
    then show ?case using plain.hyps by (simp add: utf8_def utf8_char_def)
  next
    case (ampersand cs s)
    then show ?case using decode_groups_group [of "[]" s] ampersand_char by (simp add: utf8_def utf8_char_def)
  next
    case (shifted g cs s)
    then show ?case
      using decode_groups_group [OF encode_group_chars, of g s] encode_group_not_Nil decode_encode_group [OF shifted.hyps(2)]
      by (simp add: utf8_append)
  qed
  then show ?thesis by (simp add: decode_def)
qed

theorem utf7_roundtrip_witness:
  "decode (''A&'' @ encode_group [0x1F600] @ ''-&-'') = utf8 [0x41, 0x1F600, 0x26]"
proof -
  have "utf7_name [0x26] ''&-''" using utf7_name.ampersand [OF utf7_name.empty] by simp
  then have "utf7_name ([0x1F600] @ [0x26]) (''&'' @ encode_group [0x1F600] @ ''-'' @ ''&-'')"
    by (intro utf7_name.shifted) (simp_all add: scalar_value_def)
  moreover have "(char_of (0x41 :: nat) :: char) = CHR ''A''" by code_simp
  ultimately have "utf7_name [0x41, 0x1F600, 0x26] (''A&'' @ encode_group [0x1F600] @ ''-&-'')"
    using utf7_name.plain [of "0x41" "[0x1F600, 0x26]"] by simp
  then show ?thesis by (rule utf7_roundtrip)
qed

end
