(* ===== verification/Content.thy ===== *)
theory Content
  imports Domain Utf7 "HOL-Library.Sublist"
begin

text \<open>
  Choosing and decoding the readable text of a message (crate \<open>mailbag-content\<close>, \<open>lib.rs\<close>). The crate
  \<open>mail-parser\<close> is not part of the program: what it makes of an entity, of header lines and of a page
  is a parameter, \<open>mail_parser\<close>. Texts are their UTF-8 bytes.
\<close>

section \<open>MIME parts\<close>

datatype mime_part = MimePart
  (mime_section: "nat list") (mime_type: string) (mime_subtype: string) (mime_parameters: "(string \<times> string) list")
  (mime_disposition: "string option") (mime_content_id: "string option") (mime_children: "mime_part list")

definition parameter :: "mime_part \<Rightarrow> string \<Rightarrow> string option" where
  "parameter part name = map_option snd (find (\<lambda>(p, _). p = name) (mime_parameters part))"

definition is_ascii_digit :: "char \<Rightarrow> bool" where
  "is_ascii_digit c \<longleftrightarrow> 48 \<le> (of_char c :: nat) \<and> (of_char c :: nat) \<le> 57"

definition is_file_name_parameter :: "string \<Rightarrow> bool" where
  "is_file_name_parameter p = (case strip_prefix ''name'' p of
     None \<Rightarrow> False
   | Some rest \<Rightarrow> (case strip_prefix ''*'' rest of
       None \<Rightarrow> rest = []
     | Some continuation \<Rightarrow>
         (let section = (case strip_suffix ''*'' continuation of Some s \<Rightarrow> s | None \<Rightarrow> continuation) in
          continuation = [] \<or> section \<noteq> [] \<and> list_all is_ascii_digit section)))"

definition has_file_name :: "mime_part \<Rightarrow> bool" where
  "has_file_name part \<longleftrightarrow> (\<exists>(p, _) \<in> set (mime_parameters part). is_file_name_parameter p)"

definition disposition_is :: "mime_part \<Rightarrow> string \<Rightarrow> bool" where
  "disposition_is part disposition \<longleftrightarrow> mime_disposition part = Some disposition"

definition is_attached_file :: "mime_part \<Rightarrow> bool" where
  "is_attached_file part \<longleftrightarrow> has_file_name part \<and> \<not> disposition_is part ''inline''"

section \<open>Choosing the text\<close>

datatype text_selection = Parts "nat list list" | NotText content_explanation

record walk =
  walk_parts :: "nat list list"
  walk_has_html :: bool
  walk_html_part :: "nat list option"
  walk_explanation :: "content_explanation option"

definition default_walk :: walk where
  "default_walk = \<lparr>walk_parts = [], walk_has_html = False, walk_html_part = None, walk_explanation = None\<rparr>"

text \<open>\<open>Option::or\<close> and \<open>get_or_insert\<close>.\<close>

definition or_else :: "'a option \<Rightarrow> 'a option \<Rightarrow> 'a option" where
  "or_else a b = (case a of Some x \<Rightarrow> Some x | None \<Rightarrow> b)"

definition explain :: "content_explanation \<Rightarrow> walk \<Rightarrow> walk" where
  "explain e w = w\<lparr>walk_explanation := or_else (walk_explanation w) (Some e)\<rparr>"

text \<open>The \<open>start\<close> parameter without its angle brackets.\<close>

definition start_of :: "mime_part \<Rightarrow> string option" where
  "start_of part = map_option (\<lambda>start. rev (dropWhile (\<lambda>c. c = CHR ''>'') (rev (dropWhile (\<lambda>c. c = CHR ''<'') start)))) (parameter part ''start'')"

text \<open>One branch of an alternative into the walk, and the branch chosen so far.\<close>

definition take_branch :: "walk \<Rightarrow> walk \<times> nat list list option \<Rightarrow> walk \<times> nat list list option" where
  "take_branch branch = (\<lambda>(w, chosen).
     (let w1 = w\<lparr>walk_has_html := (walk_has_html w \<or> walk_has_html branch), walk_html_part := or_else (walk_html_part w) (walk_html_part branch)\<rparr> in
      if walk_parts branch = [] then (w1\<lparr>walk_explanation := or_else (walk_explanation w1) (walk_explanation branch)\<rparr>, chosen)
      else (w1, Some (walk_parts branch))))"

text \<open>The arms of the match in \<open>visit\<close>, its early return first.\<close>

datatype part_sort =
    AttachmentPart | AlternativePart | SignedPart | EncryptedPart | RelatedPart | MultiPart
  | PlainPart | HtmlPart | SMimePart | OtherPart

definition part_kind :: "mime_part \<Rightarrow> part_sort" where
  "part_kind part =
     (if disposition_is part ''attachment'' then AttachmentPart
      else if mime_type part = ''multipart'' then
        (if mime_subtype part = ''alternative'' then AlternativePart
         else if mime_subtype part = ''signed'' then SignedPart
         else if mime_subtype part = ''encrypted'' then EncryptedPart
         else if mime_subtype part = ''related'' then RelatedPart
         else MultiPart)
      else if mime_type part = ''text'' \<and> mime_subtype part = ''plain'' then PlainPart
      else if mime_type part = ''text'' \<and> mime_subtype part = ''html'' then HtmlPart
      else if mime_type part = ''application'' \<and> (mime_subtype part = ''pkcs7-mime'' \<or> mime_subtype part = ''x-pkcs7-mime'') then SMimePart
      else OtherPart)"

definition visit_plain :: "mime_part \<Rightarrow> walk \<Rightarrow> walk" where
  "visit_plain part w = (if is_attached_file part then w else w\<lparr>walk_parts := walk_parts w @ [mime_section part]\<rparr>)"

definition visit_html :: "mime_part \<Rightarrow> walk \<Rightarrow> walk" where
  "visit_html part w =
     (let w1 = w\<lparr>walk_has_html := True\<rparr> in
      if walk_html_part w1 = None \<and> \<not> is_attached_file part then w1\<lparr>walk_html_part := Some (mime_section part)\<rparr> else w1)"

definition take_chosen :: "walk \<times> nat list list option \<Rightarrow> walk" where
  "take_chosen = (\<lambda>(w, chosen). case chosen of Some parts \<Rightarrow> w\<lparr>walk_parts := walk_parts w @ parts\<rparr> | None \<Rightarrow> w)"

fun visit :: "mime_part \<Rightarrow> walk \<Rightarrow> walk" and
    visit_branches :: "mime_part list \<Rightarrow> walk \<times> nat list list option \<Rightarrow> walk \<times> nat list list option" and
    visit_first :: "mime_part list \<Rightarrow> walk \<Rightarrow> walk" and
    visit_named :: "string option \<Rightarrow> mime_part list \<Rightarrow> walk \<Rightarrow> walk option" and
    visit_all :: "mime_part list \<Rightarrow> walk \<Rightarrow> walk" where
  "visit (MimePart section mtype subtype parameters disposition content_id children) w =
     (let part = MimePart section mtype subtype parameters disposition content_id children in
      case part_kind part of
        AttachmentPart \<Rightarrow> w
      | AlternativePart \<Rightarrow> take_chosen (visit_branches children (w, None))
      | SignedPart \<Rightarrow> visit_first children w
      | EncryptedPart \<Rightarrow> explain Encrypted w
      | RelatedPart \<Rightarrow> (case visit_named (start_of part) children w of Some w1 \<Rightarrow> w1 | None \<Rightarrow> visit_first children w)
      | MultiPart \<Rightarrow> visit_all children w
      | PlainPart \<Rightarrow> visit_plain part w
      | HtmlPart \<Rightarrow> visit_html part w
      | SMimePart \<Rightarrow> explain SecuredWithSMime w
      | OtherPart \<Rightarrow> w)"
| "visit_branches [] state = state"
| "visit_branches (child # children) state = visit_branches children (take_branch (visit child default_walk) state)"
| "visit_first [] w = w"
| "visit_first (child # children) w = visit child w"
| "visit_named start [] w = None"
| "visit_named start (child # children) w =
     (if start \<noteq> None \<and> mime_content_id child = start then Some (visit child w) else visit_named start children w)"
| "visit_all [] w = w"
| "visit_all (child # children) w = visit_all children (visit child w)"

definition walk_message :: "mime_part \<Rightarrow> walk" where
  "walk_message root = visit root default_walk"

definition select_text_parts :: "mime_part \<Rightarrow> text_selection" where
  "select_text_parts root =
     (let w = walk_message root in
      if walk_parts w \<noteq> [] then Parts (walk_parts w)
      else (case walk_explanation w of
          Some explanation \<Rightarrow> NotText explanation
        | None \<Rightarrow> NotText (NoPlainText (walk_has_html w))))"

section \<open>Decoding\<close>

text \<open>A part as \<open>mail-parser\<close> gives it; the body is there when it is text or a page.\<close>

record parsed_part =
  pp_encoding :: "string option"
  pp_encoding_problem :: bool
  pp_charset :: "string option"
  pp_format :: "string option"
  pp_delsp :: "string option"
  pp_text :: "string option"

record parsed_headers =
  ph_parts :: "parsed_part list"
  ph_subject :: "string option"
  ph_from :: "(string option \<times> string option) list option"
  ph_to :: "(string option \<times> string option) list option"

record mail_parser =
  parse_message :: "string \<Rightarrow> parsed_part list option"
  parse_headers :: "string \<Rightarrow> parsed_headers option"
  has_charset_decoder :: "string \<Rightarrow> bool"
  html_to_text :: "string \<Rightarrow> string"

definition carriage :: char where
  "carriage = CHR 0x0D"

definition quote_prefix :: "nat \<Rightarrow> string" where
  "quote_prefix depth = (if depth = 0 then [] else replicate depth (CHR ''>'') @ '' '')"

text \<open>One line of the text: its quoting depth, whether it is the separator, whether it ends the paragraph, its words.\<close>

definition unflow_line :: "bool \<Rightarrow> string \<Rightarrow> nat \<times> bool \<times> bool \<times> string" where
  "unflow_line delete_space raw_line =
     (let line = (case strip_suffix [carriage] raw_line of Some l \<Rightarrow> l | None \<Rightarrow> raw_line);
          depth = length (takeWhile (\<lambda>c. c = CHR ''>'') line);
          quoted_text = drop depth line;
          content = (case strip_prefix '' '' quoted_text of Some t \<Rightarrow> t | None \<Rightarrow> quoted_text);
          is_separator = (content = ''-- '');
          ends_paragraph = (is_separator \<or> \<not> ends_with '' '' content) in
      (depth, is_separator, ends_paragraph, if \<not> ends_paragraph \<and> delete_space then butlast content else content))"

fun unflow_loop :: "bool \<Rightarrow> string list \<Rightarrow> nat option \<Rightarrow> string list \<Rightarrow> string list" where
  "unflow_loop delete_space lines open_paragraph [] = lines"
| "unflow_loop delete_space lines open_paragraph (raw_line # raw_lines) =
     (let (depth, is_separator, ends_paragraph, content) = unflow_line delete_space raw_line;
          lines' = (if open_paragraph = Some depth \<and> \<not> is_separator
                    then butlast lines @ [last lines @ content]
                    else lines @ [quote_prefix depth @ content]) in
      unflow_loop delete_space lines' (if ends_paragraph then None else Some depth) raw_lines)"

definition unflow_text :: "string \<Rightarrow> bool \<Rightarrow> string" where
  "unflow_text words delete_space = join [newline] (unflow_loop delete_space [] None (split_on newline words))"

definition is_ascii_whitespace :: "char \<Rightarrow> bool" where
  "is_ascii_whitespace c \<longleftrightarrow> (of_char c :: nat) \<in> {9, 10, 12, 13, 32}"

definition base64_groups_are_complete :: "string \<Rightarrow> bool" where
  "base64_groups_are_complete body \<longleftrightarrow> length (filter (\<lambda>c. \<not> is_ascii_whitespace c) body) mod 4 = 0"

definition is_known_encoding :: "string \<Rightarrow> bool" where
  "is_known_encoding encoding \<longleftrightarrow> to_ascii_lowercase encoding \<in> {''7bit'', ''8bit'', ''binary'', ''base64'', ''quoted-printable''}"

definition is_known_charset :: "mail_parser \<Rightarrow> string \<Rightarrow> bool" where
  "is_known_charset parser charset \<longleftrightarrow>
     to_ascii_lowercase charset \<in> {''utf-8'', ''utf8'', ''us-ascii'', ''ascii''} \<or> has_charset_decoder parser charset"

definition flowed_join :: "parsed_part \<Rightarrow> bool option" where
  "flowed_join part = (case pp_format part of
     None \<Rightarrow> None
   | Some format \<Rightarrow> if eq_ignore_ascii_case format ''flowed''
       then Some (case pp_delsp part of Some delsp \<Rightarrow> eq_ignore_ascii_case delsp ''yes'' | None \<Rightarrow> False)
       else None)"

text \<open>The header and the body with one empty line between them.\<close>

definition entity_of :: "string \<Rightarrow> string \<Rightarrow> string" where
  "entity_of mime_header body =
     (let e1 = (if ends_with [newline] mime_header then mime_header else mime_header @ [carriage, newline]);
          e2 = (if ends_with [carriage, newline, carriage, newline] e1 \<or> ends_with [newline, newline] e1 then e1 else e1 @ [carriage, newline]) in
      e2 @ body)"

text \<open>\<open>replace('\0', "\u{FFFD}")\<close>\<close>

definition without_nul :: "string \<Rightarrow> string" where
  "without_nul words = concat (map (\<lambda>c. if c = CHR 0x00 then utf8 [0xFFFD] else [c]) words)"

definition decode_entity :: "mail_parser \<Rightarrow> string \<Rightarrow> string \<Rightarrow> content_explanation + string" where
  "decode_entity parser mime_header body =
     (case parse_message parser (entity_of mime_header body) of
       None \<Rightarrow> Inl Undecodable
     | Some [] \<Rightarrow> Inl Undecodable
     | Some (part # _) \<Rightarrow>
         (let encoding = (case pp_encoding part of Some e \<Rightarrow> e | None \<Rightarrow> []) in
          if encoding \<noteq> [] \<and> \<not> is_known_encoding encoding then Inl (UnknownEncoding encoding)
          else if pp_encoding_problem part then Inl Undecodable
          else if eq_ignore_ascii_case encoding ''base64'' \<and> \<not> base64_groups_are_complete body then Inl Undecodable
          else (case pp_charset part of
              Some charset \<Rightarrow>
                if \<not> is_known_charset parser charset then Inl (UnknownCharset charset)
                else (case pp_text part of
                    Some words \<Rightarrow> Inr (case flowed_join part of Some d \<Rightarrow> unflow_text (without_nul words) d | None \<Rightarrow> without_nul words)
                  | None \<Rightarrow> Inl Undecodable)
            | None \<Rightarrow> (case pp_text part of
                    Some words \<Rightarrow> Inr (case flowed_join part of Some d \<Rightarrow> unflow_text (without_nul words) d | None \<Rightarrow> without_nul words)
                  | None \<Rightarrow> Inl Undecodable))))"

definition decode_text_part :: "mail_parser \<Rightarrow> string \<Rightarrow> string \<Rightarrow> content_explanation + string" where
  "decode_text_part parser mime_header body = decode_entity parser mime_header body"

text \<open>Collecting into a \<open>Result\<close>: the first error, or every value.\<close>

fun all_right :: "('e + 'a) list \<Rightarrow> 'e + 'a list" where
  "all_right [] = Inr []"
| "all_right (x # xs) = (case x of Inl e \<Rightarrow> Inl e | Inr y \<Rightarrow> (case all_right xs of Inl e \<Rightarrow> Inl e | Inr ys \<Rightarrow> Inr (y # ys)))"

definition decode_message_text :: "mail_parser \<Rightarrow> (string \<times> string) list \<Rightarrow> content_explanation + string" where
  "decode_message_text parser parts =
     (case all_right (map (\<lambda>(mime_header, body). decode_text_part parser mime_header body) parts) of
       Inl e \<Rightarrow> Inl e
     | Inr decoded \<Rightarrow> Inr (join [newline, newline] decoded))"

definition display_names :: "(string option \<times> string option) list \<Rightarrow> string option" where
  "display_names people =
     (let names = concat (map (\<lambda>(name, address). case or_else name address of Some n \<Rightarrow> [n] | None \<Rightarrow> []) people) in
      if names \<noteq> [] then Some (join '', '' names) else None)"

definition decode_display_fields :: "mail_parser \<Rightarrow> string \<Rightarrow> display_fields" where
  "decode_display_fields parser header_lines = (case parse_headers parser header_lines of
     None \<Rightarrow> \<lparr>fields_subject = None, fields_from = None, fields_to = None\<rparr>
   | Some found \<Rightarrow>
       \<lparr>fields_subject = ph_subject found,
        fields_from = (case ph_from found of None \<Rightarrow> None | Some people \<Rightarrow> display_names people),
        fields_to = (case ph_to found of None \<Rightarrow> None | Some people \<Rightarrow> display_names people)\<rparr>)"

section \<open>What the walk chooses\<close>

text \<open>
  The parts a reader may be shown: the plain texts outside attachments and encrypted parts that are
  not attached files, in the order of the message.
\<close>

fun shown_parts :: "mime_part \<Rightarrow> nat list list" and shown_all :: "mime_part list \<Rightarrow> nat list list" where
  "shown_parts (MimePart section mtype subtype parameters disposition content_id children) =
     (let part = MimePart section mtype subtype parameters disposition content_id children in
      case part_kind part of
        AlternativePart \<Rightarrow> shown_all children
      | SignedPart \<Rightarrow> shown_all children
      | RelatedPart \<Rightarrow> shown_all children
      | MultiPart \<Rightarrow> shown_all children
      | PlainPart \<Rightarrow> if is_attached_file part then [] else [section]
      | _ \<Rightarrow> [])"
| "shown_all [] = []"
| "shown_all (child # children) = shown_parts child @ shown_all children"

text \<open>What a visit adds to the parts is a subsequence of the shown ones.\<close>

definition adds :: "nat list list \<Rightarrow> walk \<Rightarrow> walk \<Rightarrow> bool" where
  "adds shown w w' \<longleftrightarrow> (\<exists>added. walk_parts w' = walk_parts w @ added \<and> subseq added shown)"

lemma adds_refl [simp]: "adds shown w w"
  by (simp add: adds_def)

lemma adds_trans: "adds a w v \<Longrightarrow> adds b v u \<Longrightarrow> adds (a @ b) w u"
  by (fastforce simp: adds_def intro: list_emb_append_mono)

lemma adds_more: "adds a w v \<Longrightarrow> adds (a @ b) w v"
  by (auto simp: adds_def intro: subseq_rev_drop_many)

lemma adds_after: "adds a w v \<Longrightarrow> adds (b @ a) w v"
  by (auto simp: adds_def)

lemma take_branch_parts:
  "take_branch branch (w, chosen) = (w', chosen') \<Longrightarrow> walk_parts w' = walk_parts w \<and>
    (chosen' = (if walk_parts branch = [] then chosen else Some (walk_parts branch)))"
  by (auto simp: take_branch_def Let_def split: if_splits)

lemma visit_adds:
  "adds (shown_parts part) w (visit part w)"
  "walk_parts (fst (visit_branches branches state)) = walk_parts (fst state) \<and>
     (snd (visit_branches branches state) = snd state \<or>
      (\<exists>parts. snd (visit_branches branches state) = Some parts \<and> subseq parts (shown_all branches)))"
  "adds (shown_all first) w (visit_first first w)"
  "\<forall>w'. visit_named start named w = Some w' \<longrightarrow> adds (shown_all named) w w'"
  "adds (shown_all every) w (visit_all every w)"
proof (induction part w and branches state and first w and start named w and every w
    rule: visit_visit_branches_visit_first_visit_named_visit_all.induct)
  case (1 sec mtype subtype parameters disposition content_id children w)
  let ?part = "MimePart sec mtype subtype parameters disposition content_id children"
  note IH = "1.IH"
  show ?case
  proof (cases "part_kind ?part")
    case AlternativePart
    then show ?thesis using IH(1) [of ?part]
      by (cases "visit_branches children (w, None)") (auto simp: take_chosen_def adds_def split: option.splits)
  next
    case RelatedPart
    then show ?thesis using IH by (auto simp: Let_def split: option.splits)
  qed (use IH in \<open>auto simp: Let_def adds_def explain_def visit_plain_def visit_html_def\<close>)
next
  case (3 child children state)
  let ?v = "visit child default_walk"
  obtain w1 chosen where tb: "take_branch ?v state = (w1, chosen)" by fastforce
  then have w1: "walk_parts w1 = walk_parts (fst state)" "chosen = (if walk_parts ?v = [] then snd state else Some (walk_parts ?v))"
    using take_branch_parts [of ?v "fst state" "snd state"] by simp_all
  have v: "subseq (walk_parts ?v) (shown_parts child @ shown_all children)"
    using "3.IH"(1) by (auto simp: adds_def default_walk_def intro: subseq_rev_drop_many)
  have rest: "subseq parts (shown_all children) \<Longrightarrow> subseq parts (shown_parts child @ shown_all children)" for parts
    by (rule list_emb_append2)
  have "snd (visit_branches children (w1, chosen)) = chosen \<or>
      (\<exists>parts. snd (visit_branches children (w1, chosen)) = Some parts \<and> subseq parts (shown_all children))"
    using "3.IH"(2) unfolding tb by simp
  then have "snd (visit_branches children (w1, chosen)) = snd state \<or>
      (\<exists>parts. snd (visit_branches children (w1, chosen)) = Some parts \<and> subseq parts (shown_parts child @ shown_all children))"
    using w1(2) v rest by (metis (full_types))
  moreover have "walk_parts (fst (visit_branches children (w1, chosen))) = walk_parts (fst state)"
    using "3.IH"(2) w1(1) unfolding tb by simp
  ultimately show ?case by (simp only: visit_branches.simps shown_all.simps tb)
next
  case (5 child children w)
  then show ?case by (simp add: adds_more)
next
  case (7 start child children w)
  then show ?case by (simp add: adds_more adds_after)
next
  case (9 child children w)
  then show ?case by (simp add: adds_trans)
qed simp_all

end
