(* ===== verification/Preview.thy ===== *)
theory Preview
  imports Content
begin

text \<open>
  The preview a list row shows (crate \<open>mailbag-content\<close>, \<open>preview.rs\<close>). A preview is made character by
  character, over the code points of a text; a page's markup is looked at byte by byte, as ASCII.
\<close>

section \<open>Characters\<close>

text \<open>\<open>str::chars\<close>: the code points of a text, which is valid UTF-8.\<close>

function chars_of :: "string \<Rightarrow> nat list" where
  "chars_of s = (case s of
     [] \<Rightarrow> []
   | c # cs \<Rightarrow>
       (let b = (of_char c :: nat); at = (\<lambda>i. if i < length cs then (of_char (cs ! i) :: nat) mod 64 else 0) in
        if b < 0x80 then b # chars_of cs
        else if b < 0xE0 then ((b - 0xC0) * 64 + at 0) # chars_of (drop 1 cs)
        else if b < 0xF0 then ((b - 0xE0) * 4096 + at 0 * 64 + at 1) # chars_of (drop 2 cs)
        else ((b - 0xF0) * 262144 + at 0 * 4096 + at 1 * 64 + at 2) # chars_of (drop 3 cs)))"
  by pat_completeness auto
termination
  by (relation "measure length") (auto simp: Let_def)

declare chars_of.simps [simp del]

text \<open>\<open>char::is_whitespace\<close> (the Unicode property White_Space) and \<open>char::is_control\<close> (the category Cc).\<close>

definition is_whitespace :: "nat \<Rightarrow> bool" where
  "is_whitespace c \<longleftrightarrow> 9 \<le> c \<and> c \<le> 13 \<or> c = 0x20 \<or> c = 0x85 \<or> c = 0xA0 \<or> c = 0x1680 \<or> 0x2000 \<le> c \<and> c \<le> 0x200A \<or>
     c = 0x2028 \<or> c = 0x2029 \<or> c = 0x202F \<or> c = 0x205F \<or> c = 0x3000"

definition is_control :: "nat \<Rightarrow> bool" where
  "is_control c \<longleftrightarrow> c < 0x20 \<or> 0x7F \<le> c \<and> c < 0xA0"

definition is_blank :: "nat \<Rightarrow> bool" where
  "is_blank c \<longleftrightarrow> is_whitespace c \<or> c = 0x2800 \<or> c = 0x180E"

definition is_invisible :: "nat \<Rightarrow> bool" where
  "is_invisible c \<longleftrightarrow> is_control c \<or> c = 0x00AD \<or> c = 0x034F \<or> 0x200B \<le> c \<and> c \<le> 0x200F \<or> 0x202A \<le> c \<and> c \<le> 0x202E \<or>
     0x2060 \<le> c \<and> c \<le> 0x2064 \<or> 0x2066 \<le> c \<and> c \<le> 0x206F \<or> c = 0xFEFF"

section \<open>Words\<close>

definition preview_characters :: nat where
  "preview_characters = 400"

definition preview_piece_bytes :: "32 word" where
  "preview_piece_bytes = 65536"

fun normalise_loop :: "nat list \<Rightarrow> nat \<Rightarrow> bool \<Rightarrow> nat list \<Rightarrow> nat list" where
  "normalise_loop words characters space_pending [] = words"
| "normalise_loop words characters space_pending (c # cs) =
     (if is_blank c then normalise_loop words characters (words \<noteq> []) cs
      else if is_invisible c then normalise_loop words characters space_pending cs
      else (let words' = (if space_pending then words @ [0x20] else words);
                characters' = (if space_pending then characters + 1 else characters) in
            if preview_characters \<le> characters' then words'
            else normalise_loop (words' @ [c]) (characters' + 1) False cs))"

definition trim_end :: "nat list \<Rightarrow> nat list" where
  "trim_end words = rev (dropWhile is_whitespace (rev words))"

definition normalise_chars :: "nat list \<Rightarrow> nat list" where
  "normalise_chars cs = trim_end (normalise_loop [] 0 False cs)"

definition normalise_words :: "string \<Rightarrow> string" where
  "normalise_words s = utf8 (normalise_chars (chars_of s))"

definition preview_of_text :: "string \<Rightarrow> string" where
  "preview_of_text s = normalise_words s"

section \<open>Pieces of parts\<close>

record preview_part =
  pv_section :: "nat list"
  pv_is_html :: bool

definition select_preview_part :: "mime_part \<Rightarrow> preview_part option" where
  "select_preview_part root =
     (let w = walk_message root in
      case (walk_html_part w, walk_parts w) of
        (Some html, _) \<Rightarrow> Some \<lparr>pv_section = html, pv_is_html = True\<rparr>
      | (None, plain # _) \<Rightarrow> Some \<lparr>pv_section = plain, pv_is_html = False\<rparr>
      | (None, []) \<Rightarrow> None)"

definition transfer_encoding :: "mail_parser \<Rightarrow> string \<Rightarrow> string option" where
  "transfer_encoding parser mime_header = (case parse_headers parser mime_header of
     None \<Rightarrow> None
   | Some found \<Rightarrow> (case ph_parts found of
       [] \<Rightarrow> None
     | part # _ \<Rightarrow> map_option to_ascii_lowercase (pp_encoding part)))"

text \<open>The loop that steps back over the piece; \<open>None\<close> where the code would index below its first byte.\<close>

fun cut_back :: "string \<Rightarrow> nat \<Rightarrow> nat \<Rightarrow> nat option" where
  "cut_back piece 0 stop = Some stop"
| "cut_back piece (Suc incomplete) 0 = None"
| "cut_back piece (Suc incomplete) (Suc stop) =
     (if is_ascii_whitespace (piece ! stop) then cut_back piece (Suc incomplete) stop else cut_back piece incomplete stop)"

definition clean_cut :: "string \<Rightarrow> string option \<Rightarrow> string option" where
  "clean_cut piece encoding =
     (if encoding = Some ''base64''
      then map_option (\<lambda>stop. take stop piece)
        (cut_back piece (length (filter (\<lambda>c. \<not> is_ascii_whitespace c) piece) mod 4) (length piece))
      else Some piece)"

definition block_tags :: "string list" where
  "block_tags = [''p'', ''div'', ''br'', ''li'', ''tr'', ''td'', ''th'', ''h1'', ''h2'', ''h3'', ''h4'', ''h5'', ''h6'', ''table'', ''ul'', ''ol'',
     ''blockquote'', ''pre'', ''hr'', ''section'', ''article'', ''header'', ''footer'', ''dd'', ''dt'']"

definition is_ascii_alphanumeric :: "char \<Rightarrow> bool" where
  "is_ascii_alphanumeric c \<longleftrightarrow> (let b = (of_char c :: nat) in 48 \<le> b \<and> b \<le> 57 \<or> 65 \<le> b \<and> b \<le> 90 \<or> 97 \<le> b \<and> b \<le> 122)"

definition starts_block_tag :: "string \<Rightarrow> bool" where
  "starts_block_tag after_bracket =
     (let tag = (case strip_prefix ''/'' after_bracket of Some t \<Rightarrow> t | None \<Rightarrow> after_bracket);
          name_length = length (takeWhile is_ascii_alphanumeric tag) in
      \<exists>block \<in> set block_tags. eq_ignore_ascii_case (take name_length tag) block)"

fun space_blocks :: "string \<Rightarrow> string" where
  "space_blocks [] = []"
| "space_blocks (c # cs) = (if c = CHR ''<'' \<and> starts_block_tag cs then CHR '' '' # c # space_blocks cs else c # space_blocks cs)"

definition page_words :: "mail_parser \<Rightarrow> string \<Rightarrow> string" where
  "page_words parser html = html_to_text parser (space_blocks html)"

definition preview_of_piece :: "mail_parser \<Rightarrow> string \<Rightarrow> string \<Rightarrow> bool \<Rightarrow> string option" where
  "preview_of_piece parser mime_header piece is_html =
     (case clean_cut piece (transfer_encoding parser mime_header) of
       None \<Rightarrow> None
     | Some kept_piece \<Rightarrow> Some (case decode_text_part parser mime_header kept_piece of
           Inl _ \<Rightarrow> []
         | Inr decoded \<Rightarrow>
             (let kept = (case strip_suffix (utf8 [0xFFFD]) decoded of Some t \<Rightarrow> t | None \<Rightarrow> decoded) in
              if is_html then normalise_words (page_words parser kept) else normalise_words kept)))"

section \<open>The step back never leaves the piece\<close>

lemma filter_take_Suc: "n < length s \<Longrightarrow> length (filter P (take (Suc n) s)) = length (filter P (take n s)) + (if P (s ! n) then 1 else 0)"
  by (simp add: take_Suc_conv_app_nth)

lemma cut_back_some:
  "stop \<le> length piece \<Longrightarrow> k \<le> length (filter (\<lambda>c. \<not> is_ascii_whitespace c) (take stop piece)) \<Longrightarrow>
    \<exists>e. cut_back piece k stop = Some e \<and> e \<le> stop \<and>
      length (filter (\<lambda>c. \<not> is_ascii_whitespace c) (take e piece)) + k = length (filter (\<lambda>c. \<not> is_ascii_whitespace c) (take stop piece))"
proof (induction piece k stop rule: cut_back.induct)
  case (3 piece incomplete stop)
  show ?case
  proof (cases "is_ascii_whitespace (piece ! stop)")
    case True
    with 3 show ?thesis by (fastforce simp: filter_take_Suc)
  next
    case False
    with 3 show ?thesis by (fastforce simp: filter_take_Suc)
  qed
qed simp_all

lemma clean_cut_some:
  "\<exists>kept_piece. clean_cut piece encoding = Some kept_piece \<and> (\<exists>dropped. piece = kept_piece @ dropped \<and>
     (encoding = Some ''base64'' \<longrightarrow> base64_groups_are_complete kept_piece \<and> length (filter (\<lambda>c. \<not> is_ascii_whitespace c) dropped) < 4) \<and>
     (encoding \<noteq> Some ''base64'' \<longrightarrow> dropped = []))"
proof (cases "encoding = Some ''base64''")
  case True
  let ?n = "\<lambda>s. length (filter (\<lambda>c. \<not> is_ascii_whitespace c) s)"
  obtain e where e: "cut_back piece (?n piece mod 4) (length piece) = Some e" "e \<le> length piece" "?n (take e piece) + ?n piece mod 4 = ?n piece"
    using cut_back_some [of "length piece" piece "?n piece mod 4"] by auto
  have "?n (take e piece) + ?n (drop e piece) = ?n piece"
    by (metis append_take_drop_id filter_append length_append)
  then have "?n (drop e piece) < 4" using e(3) by linarith
  moreover have "?n (take e piece) mod 4 = 0" using e(3)
    by (metis add_diff_cancel_right' minus_mod_eq_mult_div mod_mult_self1_is_0)
  moreover have "clean_cut piece encoding = Some (take e piece)" using True e by (simp add: clean_cut_def)
  ultimately show ?thesis using True
    by (intro exI [of _ "take e piece"] conjI exI [of _ "drop e piece"]) (auto simp: base64_groups_are_complete_def)
qed (simp add: clean_cut_def)

text \<open>
  The cut of a base64 piece is safe and exact: the loop never steps below the piece's first byte,
  what it keeps ends on a complete group of four characters, which the reader's decoder requires, and
  it drops fewer than four characters; a piece of another encoding is kept whole. So a preview is
  always made.
\<close>

theorem clean_cut_complete:
  "\<exists>kept_piece dropped. clean_cut piece encoding = Some kept_piece \<and> piece = kept_piece @ dropped \<and>
     (if encoding = Some ''base64''
      then base64_groups_are_complete kept_piece \<and> length (filter (\<lambda>c. \<not> is_ascii_whitespace c) dropped) < 4
      else dropped = []) \<and>
     preview_of_piece parser header piece is_html \<noteq> None"
proof -
  obtain kept_piece dropped where kept_piece: "clean_cut piece encoding = Some kept_piece" "piece = kept_piece @ dropped"
    "encoding = Some ''base64'' \<longrightarrow> base64_groups_are_complete kept_piece \<and> length (filter (\<lambda>c. \<not> is_ascii_whitespace c) dropped) < 4"
    "encoding \<noteq> Some ''base64'' \<longrightarrow> dropped = []"
    using clean_cut_some by blast
  moreover have "preview_of_piece parser header piece is_html \<noteq> None"
    using clean_cut_some [of piece "transfer_encoding parser header"] by (auto simp: preview_of_piece_def)
  ultimately show ?thesis by (intro exI [of _ kept_piece] exI [of _ dropped]) auto
qed

section \<open>Previews\<close>

text \<open>Normal words: no blank but single spaces between visible characters, nothing invisible.\<close>

fun normal_words :: "nat list \<Rightarrow> bool" where
  "normal_words [] = True"
| "normal_words [c] = (\<not> is_blank c \<and> \<not> is_invisible c)"
| "normal_words (c # d # cs) = (\<not> is_blank c \<and> \<not> is_invisible c \<and>
     (if d = 0x20 then cs \<noteq> [] \<and> normal_words cs else normal_words (d # cs)))"

text \<open>The words so far: normal, or normal and a space after them.\<close>

lemma blank_space [simp]: "is_blank 0x20" "is_whitespace 0x20"
  by (simp_all add: is_blank_def is_whitespace_def)

lemma visible_kept: "\<not> is_blank c \<Longrightarrow> \<not> is_whitespace c"
  by (simp add: is_blank_def)

lemma normal_append:
  "normal_words ws \<Longrightarrow> \<not> is_blank c \<Longrightarrow> \<not> is_invisible c \<Longrightarrow> normal_words (ws @ [c]) \<and> (ws \<noteq> [] \<longrightarrow> normal_words (ws @ [0x20, c]))"
proof (induction ws rule: normal_words.induct)
  case (2 d)
  then show ?case by auto
next
  case (3 d e cs)
  then show ?case by (cases cs) (auto split: if_splits)
qed auto

lemma normal_last: "normal_words ws \<Longrightarrow> ws \<noteq> [] \<Longrightarrow> \<not> is_blank (last ws)"
  by (induction ws rule: normal_words.induct) (auto split: if_splits)

lemma normalise_loop_normal:
  "normal_words ws \<Longrightarrow> n = length ws \<Longrightarrow> n \<le> preview_characters \<Longrightarrow> (pending \<longrightarrow> ws \<noteq> []) \<Longrightarrow>
    \<exists>out. normal_words out \<and> length out \<le> preview_characters \<and>
      (normalise_loop ws n pending cs = out \<or> normalise_loop ws n pending cs = out @ [0x20])"
proof (induction ws n pending cs rule: normalise_loop.induct)
  case (2 ws n pending c cs)
  show ?case
  proof (cases "is_blank c \<or> is_invisible c")
    case True
    with 2 show ?thesis by auto
  next
    case False
    let ?ws = "if pending then ws @ [0x20] else ws"
    let ?n = "if pending then n + 1 else n"
    show ?thesis
    proof (cases "preview_characters \<le> ?n")
      case True
      with 2 False show ?thesis by (intro exI [of _ ws]) (auto simp: Let_def)
    next
      case small: False
      have normal: "normal_words (?ws @ [c])" using normal_append [OF "2.prems"(1)] False "2.prems"(4) by auto
      have "normalise_loop ws n pending (c # cs) = normalise_loop (?ws @ [c]) (?n + 1) False cs"
        using False small by (auto simp: Let_def)
      then show ?thesis using "2.IH"(3) [OF _ _ refl refl _ normal] False small "2.prems"(2) by auto
    qed
  qed
qed auto

lemma trim_normal: "normal_words ws \<Longrightarrow> trim_end ws = ws \<and> trim_end (ws @ [0x20]) = ws"
  using normal_last [of ws] by (cases ws rule: rev_cases) (auto simp: trim_end_def dest: visible_kept)

lemma normalise_chars_normal: "normal_words (normalise_chars cs) \<and> length (normalise_chars cs) \<le> preview_characters"
  using normalise_loop_normal [of "[]" 0 False cs] trim_normal by (auto simp: normalise_chars_def)

lemma normalise_normal:
  "normal_words cs \<Longrightarrow>
    (n + length cs \<le> preview_characters \<longrightarrow> normalise_loop ws n False cs = ws @ cs) \<and>
    (ws \<noteq> [] \<and> cs \<noteq> [] \<and> n + 1 + length cs \<le> preview_characters \<longrightarrow> normalise_loop ws n True cs = ws @ 0x20 # cs)"
proof (induction cs arbitrary: ws n rule: normal_words.induct)
  case (3 c d cs)
  have visible: "\<not> is_blank c" "\<not> is_invisible c" using "3.prems" by simp_all
  show ?case
  proof (cases "d = 0x20")
    case True
    then have cs: "cs \<noteq> []" "normal_words cs" using "3.prems" by simp_all
    show ?thesis using "3.IH"(1) [OF True cs(2)] visible True cs(1) by (simp add: Let_def)
  next
    case False
    then have cs: "normal_words (d # cs)" using "3.prems" by simp
    show ?thesis using "3.IH"(2) [OF False cs] visible by (simp add: Let_def)
  qed
qed (simp_all add: Let_def)

lemma normalise_chars_fixed: "normal_words cs \<Longrightarrow> length cs \<le> preview_characters \<Longrightarrow> normalise_chars cs = cs"
  using normalise_normal [of cs 0 "[]"] trim_normal [of cs] by (simp add: normalise_chars_def)

text \<open>
  A preview fits its row: at most 400 characters, words separated by single spaces, nothing blank
  or invisible at either end or between them, whatever the text; and making a preview of a preview
  changes nothing.
\<close>

theorem preview_normal:
  "normal_words (normalise_chars cs) \<and> length (normalise_chars cs) \<le> 400 \<and> normalise_chars (normalise_chars cs) = normalise_chars cs"
  using normalise_chars_normal [of cs] normalise_chars_fixed by (simp add: preview_characters_def)

end
