(* ===== verification/Imap_Wire.thy ===== *)
theory Imap_Wire
  imports Imap_Types
begin

text \<open>
  The IMAP library and the server as crate \<open>mailbag-imap\<close> uses them: the commands it runs, the answer
  to each, and the notices a server may send at any moment (\<open>session.rs\<close>, \<open>ServerNotices\<close>).

  The library (a fork of \<open>async-imap\<close>) and GIO are not part of the program. What they return for a
  command is an \<open>answer\<close>, and the server is any function from the commands sent so far to the answer
  to the last of them: every server, honest or not, every broken connection and every timeout is one.
\<close>

section \<open>What the program passes\<close>

datatype encryption = ImplicitTls | StartTls

datatype credential = Password string | AccessTokenOf string

record imap_account =
  acc_host :: string
  acc_login :: string
  acc_credential :: credential
  acc_encryption :: encryption

record client_identity =
  ci_name :: string
  ci_version :: string
  ci_vendor :: string
  ci_contact :: string
  ci_support_url :: string

type_synonym open_options = "client_identity option"

text \<open>
  The commands, in the order they reach the wire. The first three after a connection are sent
  unencrypted; \<open>CmdHandshake\<close> is the TLS handshake. \<open>CmdResponse\<close> is an answer to a challenge of the
  server during \<open>AUTHENTICATE\<close>.
\<close>

datatype imap_command =
    CmdConnect string encryption
  | CmdPlainGreeting
  | CmdPlainCapabilities
  | CmdPlainStartTls
  | CmdHandshake encryption
  | CmdGreeting
  | CmdCapabilities
  | CmdAuthenticate string
  | CmdResponse string
  | CmdLogin string string
  | CmdRun string
  | CmdSelect string bool
  | CmdUidFetch string string
  | CmdUidStore string string
  | CmdList string
  | CmdClose

section \<open>What the library returns\<close>

datatype io_error_kind = KindTimedOut | KindOther | KindElse

text \<open>
  The library's errors. An input or output error has a kind, whether the network stream marked it as
  its own, and whether it is the library's limit on a response's size.
\<close>

datatype net_error =
    NetIo (io_kind_of: io_error_kind) (io_transport: bool) (io_too_large: bool)
  | NetNo server_reply
  | NetBad server_reply
  | NetBye server_reply
  | NetOther

datatype status = StOk | StNo | StBad | StPreAuth | StBye

text \<open>A response as the library parsed it; the flag says whether it carries the code \<open>ALERT\<close>.\<close>

datatype response =
    RespCapabilities "string list"
  | RespId
  | RespData status bool "string option"
  | RespDone bool "string option"
  | RespOther

datatype section_path = FullHeader | PartPath "nat list" bool

datatype message_flag_name = FlagSeen | FlagFlagged | FlagOther string

record body_common =
  bc_type :: string
  bc_subtype :: string
  bc_params :: "(string \<times> string) list option"
  bc_disposition :: "string option"

datatype body_structure =
    BodyMultipart body_common "body_structure list"
  | BodyBasic body_common "string option"
  | BodyText body_common "string option"
  | BodyMessage body_common "string option"

record fetch =
  fetch_uid :: "32 word option"
  fetch_flags :: "message_flag_name list option"
  fetch_gmail_id :: "64 word option"
  fetch_gmail_labels :: "string list option"
  fetch_date :: "int option"
  fetch_sections :: "(section_path \<times> string) list"
  fetch_structure :: "body_structure option"

datatype name_attribute =
    AttrNoInferiors | AttrNoSelect | AttrMarked | AttrUnmarked | AttrAll | AttrArchive | AttrDrafts
  | AttrFlagged | AttrJunk | AttrSent | AttrTrash | AttrExtension string

record listed_name =
  ln_name :: string
  ln_attributes :: "name_attribute list"
  ln_delimiter :: "string option"

text \<open>
  The answer to one command: what was received before it ended, how it ended (\<open>None\<close> when it
  completed), and the notices that arrived with it.
\<close>

record answer =
  ans_error :: "net_error option"
  ans_fetches :: "fetch list"
  ans_capabilities :: "string list"
  ans_numbers :: mailbox_numbers
  ans_names :: "listed_name list"
  ans_greeting :: "response option"
  ans_challenges :: "string list"
  ans_notices :: "response list"

section \<open>Notices\<close>

record server_notices =
  nt_waiting :: "response list"
  nt_alerts :: "string list"
  nt_bye :: "server_reply option"

definition default_notices :: server_notices where
  "default_notices = \<lparr>nt_waiting = [], nt_alerts = [], nt_bye = None\<rparr>"

record step_failure =
  sf_failure :: imap_failure
  sf_reply :: "server_reply option"

definition step_failure_from :: "imap_failure \<Rightarrow> step_failure" where
  "step_failure_from failure = \<lparr>sf_failure = failure, sf_reply = None\<rparr>"

text \<open>
  \<open>str::match_indices\<close>: the starts of the occurrences that do not overlap, from the left. An empty
  pattern occurs at every character boundary, the end included.
\<close>

definition char_start :: "char \<Rightarrow> bool" where
  "char_start c \<longleftrightarrow> \<not> (128 \<le> (of_char c :: nat) \<and> (of_char c :: nat) < 192)"

function match_indices :: "string \<Rightarrow> nat \<Rightarrow> string \<Rightarrow> nat list" where
  "match_indices p i s = (case s of
     [] \<Rightarrow> if p = [] then [i] else []
   | c # cs \<Rightarrow>
       if p = [] then (if char_start c then [i] else []) @ match_indices p (Suc i) cs
       else if starts_with p s then i # match_indices p (i + length p) (drop (length p) s)
       else match_indices p (Suc i) cs)"
  by pat_completeness auto
termination
  by (relation "measure (\<lambda>(p, i, s). length s)") auto

declare match_indices.simps [simp del]

text \<open>The loop of \<open>replace_sign_in_name\<close>: \<open>copied\<close> bytes of the text are in the result.\<close>

fun replace_at :: "string \<Rightarrow> nat \<Rightarrow> nat \<Rightarrow> nat list \<Rightarrow> string" where
  "replace_at text n copied [] = drop copied text"
| "replace_at text n copied (start # starts) =
     take (start - copied) (drop copied text) @ ''<login>'' @ replace_at text n (start + n) starts"

definition replace_sign_in_name :: "string \<Rightarrow> string \<Rightarrow> string" where
  "replace_sign_in_name sign_in_name text =
     replace_at text (length (to_ascii_lowercase sign_in_name)) 0
       (match_indices (to_ascii_lowercase sign_in_name) 0 (to_ascii_lowercase text))"

definition keep_notice :: "response \<Rightarrow> server_notices \<Rightarrow> server_notices" where
  "keep_notice response n =
     (case (case response of
         RespData status alert information \<Rightarrow> Some (Some status, alert, information)
       | RespDone alert information \<Rightarrow> Some (None, alert, information)
       | _ \<Rightarrow> None) of
       None \<Rightarrow> n
     | Some (status, alert, information) \<Rightarrow>
         (let text = (case information of Some t \<Rightarrow> t | None \<Rightarrow> []);
              n1 = (if alert then n\<lparr>nt_alerts := nt_alerts n @ [text]\<rparr> else n) in
          if status = Some StBye then n1\<lparr>nt_bye := Some \<lparr>reply_code = None, reply_text = text\<rparr>\<rparr> else n1))"

text \<open>The waiting responses are taken from the channel in their order.\<close>

definition collect_notices :: "server_notices \<Rightarrow> server_notices" where
  "collect_notices n = fold keep_notice (nt_waiting n) (n\<lparr>nt_waiting := []\<rparr>)"

definition follow_notices :: "server_notices \<Rightarrow> server_notices" where
  "follow_notices n = n\<lparr>nt_waiting := []\<rparr>"

definition notices_error :: "string \<Rightarrow> step_failure \<Rightarrow> server_notices \<Rightarrow> imap_error \<times> server_notices" where
  "notices_error sign_in_name failure n =
     (let n1 = collect_notices n;
          (reply, n2) = (case sf_reply failure of
              Some r \<Rightarrow> (Some r, n1)
            | None \<Rightarrow> (nt_bye n1, n1\<lparr>nt_bye := None\<rparr>));
          shown = map_option (\<lambda>r. r\<lparr>reply_text := replace_sign_in_name sign_in_name (reply_text r)\<rparr>) reply;
          alerts = map (replace_sign_in_name sign_in_name) (nt_alerts n2) in
      (\<lparr>imap_failure = sf_failure failure, imap_server_reply = shown, imap_alerts = alerts\<rparr>,
       n2\<lparr>nt_alerts := []\<rparr>))"

section \<open>The wire\<close>

record wire =
  w_server :: "imap_command list \<Rightarrow> answer"
  w_sent :: "imap_command list"
  w_compressed :: bool
  w_notices :: server_notices

type_synonym 'a stepping = "(wire, step_failure, 'a) action"

text \<open>
  One command and its answer, whose notices wait in the channel. The notices of the unencrypted client
  go to a channel of its own, which nobody follows.
\<close>

definition unheard :: "imap_command \<Rightarrow> bool" where
  "unheard c = (case c of CmdConnect _ _ \<Rightarrow> True | CmdPlainGreeting \<Rightarrow> True | CmdPlainCapabilities \<Rightarrow> True
     | CmdPlainStartTls \<Rightarrow> True | CmdHandshake _ \<Rightarrow> True | _ \<Rightarrow> False)"

definition command :: "imap_command \<Rightarrow> (wire, 'e, answer) action" where
  "command c = (\<lambda>w. let a = w_server w (w_sent w @ [c]) in
     (Inr a, w\<lparr>w_sent := w_sent w @ [c],
       w_notices := (w_notices w)\<lparr>nt_waiting := nt_waiting (w_notices w) @ (if unheard c then [] else ans_notices a)\<rparr>\<rparr>))"

definition on_notices :: "(server_notices \<Rightarrow> server_notices) \<Rightarrow> (wire, 'e, unit) action" where
  "on_notices f = changes (\<lambda>w. w\<lparr>w_notices := f (w_notices w)\<rparr>)"

definition wire_error :: "string \<Rightarrow> step_failure \<Rightarrow> (wire, 'e, imap_error) action" where
  "wire_error login failure = (\<lambda>w. case notices_error login failure (w_notices w) of
     (e, n) \<Rightarrow> (Inr e, w\<lparr>w_notices := n\<rparr>))"

definition new_wire :: "(imap_command list \<Rightarrow> answer) \<Rightarrow> wire" where
  "new_wire server = \<lparr>w_server = server, w_sent = [], w_compressed = False, w_notices = default_notices\<rparr>"

section \<open>The sign-in name in texts\<close>

text \<open>Some ASCII spelling of the name occurs in the text.\<close>

fun occurs_in :: "string \<Rightarrow> string \<Rightarrow> bool" where
  "occurs_in name [] = (name = [])"
| "occurs_in name (c # cs) = (eq_ignore_ascii_case (take (length name) (c # cs)) name \<or> occurs_in name cs)"

lemma eq_ignore_ascii_case_sym: "eq_ignore_ascii_case a b = eq_ignore_ascii_case b a"
  by (auto simp: eq_ignore_ascii_case_def)

lemma to_ascii_lowercase_length [simp]: "length (to_ascii_lowercase s) = length s"
  by (simp add: to_ascii_lowercase_def)

lemma to_ascii_lowercase_parts [simp]:
  "to_ascii_lowercase [] = []"
  "to_ascii_lowercase (take n s) = take n (to_ascii_lowercase s)"
  "to_ascii_lowercase (drop n s) = drop n (to_ascii_lowercase s)"
  by (simp_all add: to_ascii_lowercase_def take_map drop_map)

lemma ascii_lower_idem [simp]: "ascii_lower (ascii_lower c) = ascii_lower c"
  by (auto simp: ascii_lower_def)

lemma starts_with_lower:
  "starts_with (to_ascii_lowercase p) (to_ascii_lowercase s) \<longleftrightarrow> eq_ignore_ascii_case (take (length p) s) p"
proof
  assume "starts_with (to_ascii_lowercase p) (to_ascii_lowercase s)"
  then obtain r where "to_ascii_lowercase s = to_ascii_lowercase p @ r" by (auto simp: starts_with_iff)
  then have "take (length p) (to_ascii_lowercase s) = to_ascii_lowercase p" by simp
  then show "eq_ignore_ascii_case (take (length p) s) p" by (simp add: eq_ignore_ascii_case_def)
next
  assume "eq_ignore_ascii_case (take (length p) s) p"
  then have "take (length p) (to_ascii_lowercase s) = to_ascii_lowercase p" by (simp add: eq_ignore_ascii_case_def)
  then have "to_ascii_lowercase s = to_ascii_lowercase p @ drop (length p) (to_ascii_lowercase s)"
    by (metis append_take_drop_id)
  then show "starts_with (to_ascii_lowercase p) (to_ascii_lowercase s)" by (auto simp: starts_with_iff)
qed

text \<open>The text with every occurrence replaced from the left, as one recursion over the text.\<close>

function scrub :: "string \<Rightarrow> string \<Rightarrow> string" where
  "scrub name s = (case s of
     [] \<Rightarrow> []
   | c # cs \<Rightarrow>
       if name \<noteq> [] \<and> eq_ignore_ascii_case (take (length name) s) name then ''<login>'' @ scrub name (drop (length name) s)
       else c # scrub name cs)"
  by pat_completeness auto
termination
  by (relation "measure (\<lambda>(name, s). length s)") auto

declare scrub.simps [simp del]

lemma scrub_Nil [simp]: "scrub name [] = []"
  by (simp add: scrub.simps)

lemma scrub_hit: "name \<noteq> [] \<Longrightarrow> s \<noteq> [] \<Longrightarrow> eq_ignore_ascii_case (take (length name) s) name \<Longrightarrow>
    scrub name s = ''<login>'' @ scrub name (drop (length name) s)"
  by (cases s; subst scrub.simps) simp_all

lemma scrub_miss: "\<not> eq_ignore_ascii_case (take (length name) (c # cs)) name \<Longrightarrow> scrub name (c # cs) = c # scrub name cs"
  by (subst scrub.simps) simp

lemma match_indices_Nil [simp]: "p \<noteq> [] \<Longrightarrow> match_indices p i [] = []"
  by (simp add: match_indices.simps)

lemma replace_at_scrub:
  "name \<noteq> [] \<Longrightarrow> copied \<le> i \<Longrightarrow> rest = drop i text \<Longrightarrow>
    replace_at text (length name) copied (match_indices (to_ascii_lowercase name) i (to_ascii_lowercase rest)) =
      take (i - copied) (drop copied text) @ scrub name rest"
proof (induction name rest arbitrary: i copied rule: scrub.induct)
  case (1 name rest)
  have lower: "to_ascii_lowercase name \<noteq> []" using "1.prems" by (simp add: to_ascii_lowercase_def)
  show ?case
  proof (cases rest)
    case Nil
    with "1.prems" show ?thesis using lower by simp
  next
    case (Cons c cs)
    have rest: "to_ascii_lowercase rest = ascii_lower c # to_ascii_lowercase cs" using Cons by (simp add: to_ascii_lowercase_def)
    show ?thesis
    proof (cases "eq_ignore_ascii_case (take (length name) rest) name")
      case True
      then have sw: "starts_with (to_ascii_lowercase name) (to_ascii_lowercase rest)" by (simp add: starts_with_lower)
      have m: "match_indices (to_ascii_lowercase name) i (to_ascii_lowercase rest) =
          i # match_indices (to_ascii_lowercase name) (i + length name) (to_ascii_lowercase (drop (length name) rest))"
        using lower sw by (subst match_indices.simps) (simp add: rest)
      have dr: "drop (length name) rest = drop (i + length name) text" using "1.prems" by (simp add: add.commute)
      have ne: "name \<noteq> []" using lower by auto
      have "replace_at text (length name) (i + length name)
          (match_indices (to_ascii_lowercase name) (i + length name) (to_ascii_lowercase (drop (length name) rest))) =
          scrub name (drop (length name) rest)"
        using "1.IH"(1) [OF Cons, of "i + length name" "i + length name"] ne True dr by (simp add: Cons)
      then show ?thesis using m scrub_hit [OF ne _ True] Cons by simp
    next
      case False
      have notsw: "\<not> starts_with (to_ascii_lowercase name) (to_ascii_lowercase rest)" using False by (simp add: starts_with_lower)
      have m: "match_indices (to_ascii_lowercase name) i (to_ascii_lowercase rest) =
          match_indices (to_ascii_lowercase name) (Suc i) (to_ascii_lowercase cs)"
        using lower notsw by (subst match_indices.simps) (simp add: rest)
      have dr: "cs = drop (Suc i) text" using "1.prems"(3) Cons by (metis drop_Suc list.sel(3) tl_drop)
      have c: "text ! i = c \<and> i < length text" using "1.prems"(3) Cons
        by (metis drop_all hd_drop_conv_nth leI list.discI list.sel(1))
      have tk: "take (Suc i - copied) (drop copied text) = take (i - copied) (drop copied text) @ [c]"
        using "1.prems"(2) c
        take_Suc_conv_app_nth [of "i - copied" "drop copied text"] diff_less_mono [of i "length text" copied] by (simp add: Suc_diff_le)
      have "replace_at text (length name) copied (match_indices (to_ascii_lowercase name) (Suc i) (to_ascii_lowercase cs)) =
          take (Suc i - copied) (drop copied text) @ scrub name cs"
        using "1.IH"(2) [OF Cons, of copied "Suc i"] "1.prems"(1,2) False dr Cons by simp
      then show ?thesis using m tk scrub_miss [of name c cs] False Cons by simp
    qed
  qed
qed

lemma replace_sign_in_name_scrub: "name \<noteq> [] \<Longrightarrow> replace_sign_in_name name text = scrub name text"
  using replace_at_scrub [of name 0 0 "text" "text"] by (simp add: replace_sign_in_name_def)

lemma of_char_lower: "(of_char (ascii_lower c) :: nat) =
    (if 65 \<le> (of_char c :: nat) \<and> (of_char c :: nat) \<le> 90 then of_char c + 32 else of_char c)"
  by (auto simp: ascii_lower_def)

lemma ascii_lower_mark:
  assumes "d \<in> {CHR ''<'', CHR ''>''}"
  shows "ascii_lower c = d \<longleftrightarrow> c = d"
proof (cases "65 \<le> (of_char c :: nat) \<and> (of_char c :: nat) \<le> 90")
  case True
  have "(of_char d :: nat) < 65" using assms by auto
  moreover have "97 \<le> (of_char (ascii_lower c) :: nat)" using True by (simp add: of_char_lower)
  ultimately show ?thesis using True by force
next
  case False
  then have "ascii_lower c = c" unfolding ascii_lower_def by (rule if_not_P)
  then show ?thesis by simp
qed

lemma mark_in_lower: "eq_ignore_ascii_case a b \<Longrightarrow> c \<in> {CHR ''<'', CHR ''>''} \<Longrightarrow> c \<in> set a \<Longrightarrow> c \<in> set b"
proof -
  assume "eq_ignore_ascii_case a b" and c: "c \<in> {CHR ''<'', CHR ''>''}" "c \<in> set a"
  then have "ascii_lower c \<in> ascii_lower ` set b"
    unfolding eq_ignore_ascii_case_def to_ascii_lowercase_def by (metis imageI list.set_map)
  then obtain d where "d \<in> set b" "ascii_lower d = ascii_lower c" by auto
  then show ?thesis using c ascii_lower_mark [OF c(1)] by metis
qed

text \<open>A mark that the name lacks separates what can hold an occurrence of it.\<close>

lemma occurs_in_split:
  assumes mark: "c \<in> {CHR ''<'', CHR ''>''}" and name: "c \<notin> set name" "name \<noteq> []"
  shows "occurs_in name (a @ c # b) \<Longrightarrow> occurs_in name a \<or> occurs_in name b"
proof (induction a)
  case Nil
  have "\<not> eq_ignore_ascii_case (take (length name) (c # b)) name"
    using mark_in_lower [OF _ mark, of "take (length name) (c # b)" name] name by (cases name) auto
  then show ?case using Nil by simp
next
  case (Cons d a)
  show ?case
  proof (cases "eq_ignore_ascii_case (take (length name) (d # a @ c # b)) name")
    case True
    then have "c \<notin> set (take (length name) (d # a @ c # b))"
      using mark_in_lower [OF _ mark] name by blast
    then have "length name \<le> length (d # a)"
      by (cases "length name \<le> length (d # a)") (auto simp: take_Cons' split: if_splits)
    then have "take (length name) (d # a @ c # b) = take (length name) (d # a)" by (cases "length name") auto
    then show ?thesis using True by simp
  next
    case False
    then show ?thesis using Cons by auto
  qed
qed

lemma scrub_prefix: "CHR ''<'' \<notin> set (take n (scrub name s)) \<Longrightarrow> take n (scrub name s) = take n s"
proof (induction name s arbitrary: n rule: scrub.induct)
  case (1 name s)
  show ?case
  proof (cases s)
    case (Cons c cs)
    show ?thesis
    proof (cases "name \<noteq> [] \<and> eq_ignore_ascii_case (take (length name) s) name")
      case True
      then have "scrub name s = ''<login>'' @ scrub name (drop (length name) s)" using Cons by (intro scrub_hit) auto
      then have "n = 0" using "1.prems" by (cases n) auto
      then show ?thesis by simp
    next
      case False
      then have "scrub name s = c # scrub name cs" using Cons by (subst scrub.simps) auto
      then show ?thesis using "1.IH"(2) [OF Cons False] "1.prems" Cons by (cases n) auto
    qed
  qed simp
qed

lemma scrub_hides:
  assumes "CHR ''<'' \<notin> set name" and "CHR ''>'' \<notin> set name" and "\<not> occurs_in name ''login''" and "name \<noteq> []"
  shows "\<not> occurs_in name (scrub name s)"
  using assms
proof (induction name s rule: scrub.induct)
  case (1 name s)
  show ?case
  proof (cases s)
    case Nil
    then show ?thesis using "1.prems" by simp
  next
    case (Cons c cs)
    show ?thesis
    proof (cases "name \<noteq> [] \<and> eq_ignore_ascii_case (take (length name) s) name")
      case True
      let ?r = "scrub name (drop (length name) s)"
      have hit: "scrub name s = [] @ CHR ''<'' # (''login'' @ CHR ''>'' # ?r)" using True Cons by (subst scrub_hit) auto
      have "\<not> occurs_in name ?r" using "1.IH"(1) [OF Cons True] "1.prems" by simp
      moreover have "\<not> occurs_in name []" using "1.prems" by simp
      ultimately show ?thesis
        using occurs_in_split [of "CHR ''<''" name "[]" "''login'' @ CHR ''>'' # ?r"]
          occurs_in_split [of "CHR ''>''" name "''login''" ?r] "1.prems" unfolding hit by blast
    next
      case False
      then have miss: "scrub name s = c # scrub name cs" using Cons "1.prems" by (simp add: scrub_miss)
      have "\<not> eq_ignore_ascii_case (take (length name) (c # scrub name cs)) name"
      proof
        assume eq: "eq_ignore_ascii_case (take (length name) (c # scrub name cs)) name"
        then have "CHR ''<'' \<notin> set (take (length name) (c # scrub name cs))"
          using mark_in_lower "1.prems"(1) by blast
        then have "take (length name - 1) (scrub name cs) = take (length name - 1) cs"
          using "1.prems"(4) by (intro scrub_prefix) (cases name; auto)
        then have "take (length name) (c # scrub name cs) = take (length name) (c # cs)" using "1.prems"(4) by (cases name) auto
        then show False using eq False Cons "1.prems"(4) by simp
      qed
      then show ?thesis using "1.IH"(2) [OF Cons False] "1.prems" miss by simp
    qed
  qed
qed

end
