(* ===== verification/Imap_Session.thy ===== *)
theory Imap_Session
  imports Imap_Wire
begin

text \<open>
  Connecting, securing, signing in and opening a mailbox (crate \<open>mailbag-imap\<close>, \<open>session.rs\<close>, and what
  \<open>transport.rs\<close> makes of GIO's errors), and the list of an account's mailboxes (\<open>mailbox_list.rs\<close>).
\<close>

section \<open>Failures of commands\<close>

definition io_failure :: "imap_step \<Rightarrow> net_error \<Rightarrow> imap_failure" where
  "io_failure step error = (if io_kind_of error = KindTimedOut then TimedOut step else Failed step)"

definition command_failure :: "imap_step \<Rightarrow> net_error \<Rightarrow> step_failure" where
  "command_failure step error = (case error of
     NetNo reply \<Rightarrow> \<lparr>sf_failure = Failed step, sf_reply = Some reply\<rparr>
   | NetBad reply \<Rightarrow> \<lparr>sf_failure = Failed step, sf_reply = Some reply\<rparr>
   | NetBye reply \<Rightarrow> \<lparr>sf_failure = Failed step, sf_reply = Some reply\<rparr>
   | NetIo _ _ _ \<Rightarrow> step_failure_from (io_failure step error)
   | NetOther \<Rightarrow> step_failure_from (Failed step))"

definition starttls_failure :: "net_error \<Rightarrow> imap_failure" where
  "starttls_failure error = (case error of
     NetIo _ _ _ \<Rightarrow> io_failure StepSecureConnection error
   | _ \<Rightarrow> Failed StepSecureConnection)"

text \<open>\<open>transport.rs\<close>, \<open>step_failure\<close>: a GIO error is a timeout or not.\<close>

definition transport_failure :: "imap_step \<Rightarrow> net_error \<Rightarrow> imap_failure" where
  "transport_failure step error = (case error of
     NetIo KindTimedOut _ _ \<Rightarrow> TimedOut step
   | _ \<Rightarrow> Failed step)"

text \<open>A command whose completion is checked, with the failure of its step.\<close>

definition checked :: "imap_command \<Rightarrow> (net_error \<Rightarrow> step_failure) \<Rightarrow> answer stepping" where
  "checked c fails = and_then (command c) (\<lambda>a. case ans_error a of
     Some e \<Rightarrow> throw (fails e)
   | None \<Rightarrow> ret a)"

text \<open>The same, with the notices that came with the answer collected before the failure is read.\<close>

definition collected :: "imap_command \<Rightarrow> (net_error \<Rightarrow> step_failure) \<Rightarrow> answer stepping" where
  "collected c fails = and_then (command c) (\<lambda>a.
     and_then (on_notices collect_notices) (\<lambda>_. case ans_error a of
       Some e \<Rightarrow> throw (fails e)
     | None \<Rightarrow> ret a))"

section \<open>Transport\<close>

definition connect :: "string \<Rightarrow> encryption \<Rightarrow> unit stepping" where
  "connect host encryption = and_then (changes (\<lambda>w. w\<lparr>w_compressed := False\<rparr>)) (\<lambda>_.
     and_then (checked (CmdConnect host encryption) (\<lambda>e. step_failure_from (transport_failure StepConnect e))) (\<lambda>_. ret ()))"

definition start_tls :: "encryption \<Rightarrow> unit stepping" where
  "start_tls encryption =
     and_then (checked (CmdHandshake encryption) (\<lambda>e. step_failure_from (transport_failure StepSecureConnection e))) (\<lambda>_. ret ())"

section \<open>Signing in\<close>

definition read_greeting :: "unit stepping" where
  "read_greeting =
     and_then (checked CmdGreeting (\<lambda>e. step_failure_from (io_failure StepConnect e))) (\<lambda>a.
     case ans_greeting a of
       None \<Rightarrow> throw (step_failure_from (Failed StepConnect))
     | Some greeting \<Rightarrow>
         and_then (on_notices (keep_notice greeting)) (\<lambda>_.
         case greeting of
           RespData StOk _ _ \<Rightarrow> ret ()
         | _ \<Rightarrow> throw (step_failure_from (Failed StepConnect))))"

definition upgrade_plaintext :: "unit stepping" where
  "upgrade_plaintext =
     and_then (checked CmdPlainGreeting (\<lambda>e. step_failure_from (io_failure StepConnect e))) (\<lambda>a.
     case ans_greeting a of
       None \<Rightarrow> throw (step_failure_from (Failed StepConnect))
     | Some (RespData StOk _ _) \<Rightarrow>
         and_then (checked CmdPlainCapabilities (\<lambda>e. step_failure_from (starttls_failure e))) (\<lambda>c.
         if ''STARTTLS'' \<notin> set (ans_capabilities c) then throw (step_failure_from (Failed StepSecureConnection))
         else and_then (checked CmdPlainStartTls (\<lambda>e. step_failure_from (starttls_failure e))) (\<lambda>_. ret ()))
     | Some (RespData StPreAuth _ _) \<Rightarrow> throw (step_failure_from (Failed StepSecureConnection))
     | Some _ \<Rightarrow> throw (step_failure_from (Failed StepConnect)))"

text \<open>The authenticators: the credentials answer the first challenge, an empty line every later one.\<close>

definition plain_process :: "string \<Rightarrow> string \<Rightarrow> bool \<Rightarrow> string \<times> bool" where
  "plain_process login password sent =
     (if sent then [] else [char_of (0::nat)] @ login @ [char_of (0::nat)] @ password, True)"

definition xoauth2_process :: "string \<Rightarrow> string \<Rightarrow> bool \<Rightarrow> string \<times> bool" where
  "xoauth2_process login token sent =
     (if sent then [] else ''user='' @ login @ [CHR 0x01] @ ''auth=Bearer '' @ token @ [CHR 0x01, CHR 0x01], True)"

fun challenge_responses :: "(bool \<Rightarrow> string \<times> bool) \<Rightarrow> bool \<Rightarrow> string list \<Rightarrow> imap_command list" where
  "challenge_responses process sent [] = []"
| "challenge_responses process sent (challenge # challenges) =
     (let (response, sent') = process sent in CmdResponse response # challenge_responses process sent' challenges)"

definition authenticate :: "string \<Rightarrow> (bool \<Rightarrow> string \<times> bool) \<Rightarrow> answer stepping" where
  "authenticate mechanism process =
     and_then (command (CmdAuthenticate mechanism)) (\<lambda>a.
     and_then (changes (\<lambda>w. w\<lparr>w_sent := w_sent w @ challenge_responses process False (ans_challenges a)\<rparr>)) (\<lambda>_.
     case ans_error a of
       Some e \<Rightarrow> throw (command_failure StepSignIn e)
     | None \<Rightarrow> ret a))"

definition sign_in :: "imap_account \<Rightarrow> unit stepping" where
  "sign_in account =
     and_then (collected CmdCapabilities (command_failure StepSignIn)) (\<lambda>a.
     (let capabilities = set (ans_capabilities a); login = acc_login account in
     and_then (case acc_credential account of
         AccessTokenOf token \<Rightarrow>
           if ''AUTH=XOAUTH2'' \<in> capabilities then authenticate ''XOAUTH2'' (xoauth2_process login token)
           else throw (step_failure_from ImapNoSignInMethod)
       | Password password \<Rightarrow>
           if ''AUTH=PLAIN'' \<in> capabilities then authenticate ''PLAIN'' (plain_process login password)
           else if ''LOGINDISABLED'' \<notin> capabilities then checked (CmdLogin login password) (command_failure StepSignIn)
           else throw (step_failure_from ImapNoSignInMethod)) (\<lambda>_.
     on_notices collect_notices)))"

text \<open>A command that the server may refuse; a broken connection ends the step.\<close>

definition accepted :: "string \<Rightarrow> imap_step \<Rightarrow> (wire, step_failure, bool) action" where
  "accepted text opened_for = and_then (command (CmdRun text)) (\<lambda>a. case ans_error a of
     None \<Rightarrow> ret True
   | Some (NetNo _) \<Rightarrow> ret False
   | Some (NetBad _) \<Rightarrow> ret False
   | Some e \<Rightarrow> throw (command_failure opened_for e))"

definition compress_session :: "imap_step \<Rightarrow> unit stepping" where
  "compress_session opened_for = and_then (accepted ''COMPRESS DEFLATE'' opened_for) (\<lambda>agreed.
     only_if agreed (changes (\<lambda>w. w\<lparr>w_compressed := True\<rparr>)))"

definition enable_utf8_names :: "imap_step \<Rightarrow> bool stepping" where
  "enable_utf8_names opened_for = accepted ''ENABLE UTF8=ACCEPT'' opened_for"

definition quote_char :: char where
  "quote_char = CHR 0x22"

definition backslash :: char where
  "backslash = CHR 0x5C"

definition quoted :: "string \<Rightarrow> string" where
  "quoted v = [quote_char] @
     concat (map (\<lambda>c. if c = quote_char then [backslash, quote_char] else [c])
       (concat (map (\<lambda>c. if c = backslash then [backslash, backslash] else [c]) v))) @ [quote_char]"

definition identify_client :: "client_identity \<Rightarrow> imap_step \<Rightarrow> unit stepping" where
  "identify_client identity opened_for =
     (let identification = join '' '' (map (\<lambda>(field, v). quoted field @ '' '' @ quoted v)
        [(''name'', ci_name identity), (''version'', ci_version identity), (''vendor'', ci_vendor identity),
         (''contact'', ci_contact identity), (''support-url'', ci_support_url identity)]) in
      and_then (accepted (''ID ('' @ identification @ '')'') opened_for) (\<lambda>_. ret ()))"

text \<open>The capabilities after sign-in, and whether names come in UTF-8.\<close>

definition sign_in_session :: "imap_account \<Rightarrow> open_options \<Rightarrow> imap_step \<Rightarrow> (string list \<times> bool) stepping" where
  "sign_in_session account options opened_for =
     and_then (connect (acc_host account) (acc_encryption account)) (\<lambda>_.
     and_then (only_if (acc_encryption account = StartTls) upgrade_plaintext) (\<lambda>_.
     and_then (start_tls (acc_encryption account)) (\<lambda>_.
     and_then (on_notices follow_notices) (\<lambda>_.
     and_then (only_if (acc_encryption account = ImplicitTls) read_greeting) (\<lambda>_.
     and_then (sign_in account) (\<lambda>_.
     and_then (collected CmdCapabilities (command_failure opened_for)) (\<lambda>a.
     (let capabilities = ans_capabilities a in
     and_then (only_if (''COMPRESS=DEFLATE'' \<in> set capabilities) (compress_session opened_for)) (\<lambda>_.
     and_then (if ''UTF8=ACCEPT'' \<in> set capabilities \<or> ''UTF8=ONLY'' \<in> set capabilities
               then enable_utf8_names opened_for else ret False) (\<lambda>utf8_names.
     and_then (case options of Some identity \<Rightarrow> identify_client identity opened_for | None \<Rightarrow> ret ()) (\<lambda>_.
     and_then (on_notices collect_notices) (\<lambda>_.
     ret (capabilities, utf8_names)))))))))))))"

section \<open>Opening a mailbox\<close>

definition open_selected :: "string \<Rightarrow> bool \<Rightarrow> mailbox_numbers stepping" where
  "open_selected mailbox condstore =
     and_then (collected (CmdSelect mailbox condstore) (command_failure StepOpenMailbox)) (\<lambda>a. ret (ans_numbers a))"

definition select_mailbox :: "string list \<Rightarrow> string \<Rightarrow> (mailbox_numbers \<times> bool) stepping" where
  "select_mailbox capabilities mailbox =
     (let condstore = ''CONDSTORE'' \<in> set capabilities in
      and_then (open_selected mailbox condstore) (\<lambda>numbers. ret (numbers, condstore)))"

definition open_mailbox :: "imap_account \<Rightarrow> open_options \<Rightarrow> string \<Rightarrow> (mailbox_numbers \<times> bool) stepping" where
  "open_mailbox account options mailbox =
     and_then (sign_in_session account options StepOpenMailbox) (\<lambda>(capabilities, _).
     select_mailbox capabilities mailbox)"

section \<open>The account's mailboxes\<close>

definition attribute_text :: "name_attribute \<Rightarrow> string" where
  "attribute_text attribute = (case attribute of
     AttrNoInferiors \<Rightarrow> backslash # ''Noinferiors''
   | AttrNoSelect \<Rightarrow> backslash # ''Noselect''
   | AttrMarked \<Rightarrow> backslash # ''Marked''
   | AttrUnmarked \<Rightarrow> backslash # ''Unmarked''
   | AttrAll \<Rightarrow> backslash # ''All''
   | AttrArchive \<Rightarrow> backslash # ''Archive''
   | AttrDrafts \<Rightarrow> backslash # ''Drafts''
   | AttrFlagged \<Rightarrow> backslash # ''Flagged''
   | AttrJunk \<Rightarrow> backslash # ''Junk''
   | AttrSent \<Rightarrow> backslash # ''Sent''
   | AttrTrash \<Rightarrow> backslash # ''Trash''
   | AttrExtension words \<Rightarrow> words)"

definition mailbox_name_of :: "listed_name \<Rightarrow> mailbox_name" where
  "mailbox_name_of listed = \<lparr>mailbox_name = ln_name listed, mailbox_attributes = map attribute_text (ln_attributes listed),
     mailbox_delimiter = ln_delimiter listed\<rparr>"

definition list_pattern :: "string list \<Rightarrow> string" where
  "list_pattern capabilities = (if ''SPECIAL-USE'' \<in> set capabilities then ''* RETURN (SPECIAL-USE)'' else ''*'')"

definition sign_in_and_list :: "imap_account \<Rightarrow> open_options \<Rightarrow> mailbox_list stepping" where
  "sign_in_and_list account options =
     and_then (sign_in_session account options StepListMailboxes) (\<lambda>(capabilities, utf8_names).
     and_then (collected (CmdList (list_pattern capabilities)) (command_failure StepListMailboxes)) (\<lambda>a.
     ret \<lparr>list_names = map mailbox_name_of (ans_names a), list_utf8_names = utf8_names\<rparr>))"

definition list_mailboxes :: "imap_account \<Rightarrow> open_options \<Rightarrow> (wire, imap_error, mailbox_list) action" where
  "list_mailboxes account options =
     on_result (sign_in_and_list account options)
       (\<lambda>failure. and_then (wire_error (acc_login account) failure) throw)
       ret"

end
