(* ===== verification/Imap_Fetch.thy ===== *)
theory Imap_Fetch
  imports Imap_Session
begin

text \<open>
  What the responses to one \<open>FETCH\<close> command say (crate \<open>mailbag-imap\<close>, \<open>fetch_responses.rs\<close>), and the part
  tree of a message (\<open>part_tree.rs\<close>).
\<close>

section \<open>The end of a command\<close>

datatype fetch_end = FetchCompleted | FetchRejected server_reply | FetchFailed net_error

record fetch_responses =
  fr_fetches :: "fetch list"
  fr_end :: fetch_end

text \<open>\<open>collect_fetches\<close>: the responses before the stream ended, and how it ended.\<close>

definition collect_fetches :: "answer \<Rightarrow> fetch_responses" where
  "collect_fetches a = \<lparr>fr_fetches = ans_fetches a, fr_end = (case ans_error a of
     None \<Rightarrow> FetchCompleted
   | Some (NetNo status) \<Rightarrow> FetchRejected status
   | Some e \<Rightarrow> FetchFailed e)\<rparr>"

section \<open>Part trees\<close>

definition strip_angle_brackets :: "string \<Rightarrow> string" where
  "strip_angle_brackets content_id =
     (case (case strip_prefix ''<'' content_id of None \<Rightarrow> None | Some inner \<Rightarrow> strip_suffix ''>'' inner) of
       Some inner \<Rightarrow> inner
     | None \<Rightarrow> content_id)"

definition describe :: "body_common \<Rightarrow> nat list \<Rightarrow> message_part list \<Rightarrow> string option \<Rightarrow> message_part" where
  "describe common section children content_id = MessagePart section
     (to_ascii_lowercase (bc_type common)) (to_ascii_lowercase (bc_subtype common))
     (map (\<lambda>(name, v). (to_ascii_lowercase name, v)) (case bc_params common of Some ps \<Rightarrow> ps | None \<Rightarrow> []))
     (map_option to_ascii_lowercase (bc_disposition common))
     (map_option strip_angle_brackets content_id)
     children"

fun project :: "body_structure \<Rightarrow> nat list \<Rightarrow> message_part" and
    project_all :: "nat \<Rightarrow> body_structure list \<Rightarrow> nat list \<Rightarrow> message_part list" where
  "project (BodyMultipart common bodies) section = describe common section (project_all 1 bodies section) None"
| "project (BodyBasic common cid) section = describe common section [] cid"
| "project (BodyText common cid) section = describe common section [] cid"
| "project (BodyMessage common cid) section = describe common section [] cid"
| "project_all n [] section = []"
| "project_all n (body # bodies) section = project body (section @ [n]) # project_all (Suc n) bodies section"

definition from_body_structure :: "body_structure \<Rightarrow> message_part" where
  "from_body_structure structure = (case structure of
     BodyMultipart _ _ \<Rightarrow> project structure []
   | _ \<Rightarrow> project structure [1])"

section \<open>Listings\<close>

text \<open>\<open>Fetch::has_flags\<close> and \<open>flags\<close>, and \<open>Fetch::section\<close>.\<close>

definition has_flags :: "fetch \<Rightarrow> bool" where
  "has_flags f \<longleftrightarrow> fetch_flags f \<noteq> None"

definition flags_of :: "fetch \<Rightarrow> message_flag_name list" where
  "flags_of f = (case fetch_flags f of Some flags \<Rightarrow> flags | None \<Rightarrow> [])"

definition section_of :: "section_path \<Rightarrow> fetch \<Rightarrow> string option" where
  "section_of path f = map_of (fetch_sections f) path"

definition keep_listed :: "fetch \<Rightarrow> (32 word \<times> listed_uid) list \<Rightarrow> (32 word \<times> listed_uid) list" where
  "keep_listed f listed = (case fetch_uid f of
     None \<Rightarrow> listed
   | Some uid \<Rightarrow> ordered_update uid (\<lambda>entry.
       (let m = (case entry of Some m \<Rightarrow> m
               | None \<Rightarrow> \<lparr>listed_uid = uid, listed_seen = False, listed_flagged = False, listed_gmail_id = None\<rparr>);
            m1 = (if has_flags f then m\<lparr>listed_seen := FlagSeen \<in> set (flags_of f), listed_flagged := FlagFlagged \<in> set (flags_of f)\<rparr> else m) in
        case fetch_gmail_id f of Some gid \<Rightarrow> m1\<lparr>listed_gmail_id := Some gid\<rparr> | None \<Rightarrow> m1)) listed)"

section \<open>Rows\<close>

fun first_some :: "('a \<Rightarrow> 'b option) \<Rightarrow> 'a list \<Rightarrow> 'b option" where
  "first_some f [] = None"
| "first_some f (x # xs) = (case f x of Some y \<Rightarrow> Some y | None \<Rightarrow> first_some f xs)"

definition gmail_attributes :: "fetch list \<Rightarrow> gmail_row option" where
  "gmail_attributes responses = (case first_some fetch_gmail_id responses of
     None \<Rightarrow> None
   | Some message_id \<Rightarrow> (case first_some fetch_gmail_labels responses of
       None \<Rightarrow> None
     | Some labels \<Rightarrow> Some \<lparr>gmail_message_id = message_id, gmail_labels = labels\<rparr>))"

definition structure_of :: "fetch list \<Rightarrow> message_part option" where
  "structure_of responses = map_option from_body_structure (first_some fetch_structure responses)"

definition group_by_uid :: "32 word list \<Rightarrow> fetch list \<Rightarrow> (32 word \<times> fetch list) list" where
  "group_by_uid uids fetches = fold (\<lambda>f by_uid. case fetch_uid f of
     Some uid \<Rightarrow> if uid \<in> set uids
       then ordered_update uid (\<lambda>entry. (case entry of Some fs \<Rightarrow> fs | None \<Rightarrow> []) @ [f]) by_uid
       else by_uid
   | None \<Rightarrow> by_uid) fetches []"

definition row_of :: "32 word \<Rightarrow> fetch list \<Rightarrow> imap_row option" where
  "row_of uid responses = (case first_some (section_of FullHeader) responses of
     None \<Rightarrow> None
   | Some list_headers \<Rightarrow>
       (let latest_flags = (case find has_flags (rev responses) of Some f \<Rightarrow> flags_of f | None \<Rightarrow> []) in
        Some \<lparr>ir_uid = uid, ir_seen = (FlagSeen \<in> set latest_flags), ir_flagged = (FlagFlagged \<in> set latest_flags),
          ir_internal_date = first_some fetch_date responses, ir_list_headers = list_headers,
          ir_gmail = gmail_attributes responses, ir_structure = structure_of responses\<rparr>))"

definition collect_rows :: "fetch list \<Rightarrow> 32 word list \<Rightarrow> imap_row list" where
  "collect_rows fetches uids =
     concat (map (\<lambda>(uid, responses). case row_of uid responses of Some row \<Rightarrow> [row] | None \<Rightarrow> [])
       (rev (group_by_uid uids fetches)))"

section \<open>Text parts\<close>

definition uid_set :: "32 word list \<Rightarrow> string" where
  "uid_set uids = join '','' (map (\<lambda>uid. decimal (unat uid)) uids)"

datatype section_name = MessageHeader | PartHeader "nat list" | Part "nat list"

definition section_paths :: "text_parts \<Rightarrow> (section_name \<times> section_name) list" where
  "section_paths parts = (case parts of
     SinglePartBody \<Rightarrow> [(MessageHeader, Part [1])]
   | MultipartLeaves leaves \<Rightarrow> map (\<lambda>leaf. (PartHeader leaf, Part leaf)) leaves)"

definition path_of :: "section_name \<Rightarrow> section_path" where
  "path_of name = (case name of
     MessageHeader \<Rightarrow> FullHeader
   | PartHeader part \<Rightarrow> PartPath part True
   | Part part \<Rightarrow> PartPath part False)"

definition section_numbers :: "nat list \<Rightarrow> string" where
  "section_numbers part = join ''.'' (map decimal part)"

definition display_section :: "section_name \<Rightarrow> string" where
  "display_section name = (case name of
     MessageHeader \<Rightarrow> ''HEADER''
   | PartHeader part \<Rightarrow> section_numbers part @ ''.MIME''
   | Part part \<Rightarrow> section_numbers part)"

definition received_part_of :: "fetch list \<Rightarrow> section_name \<times> section_name \<Rightarrow> received_part option" where
  "received_part_of responses = (\<lambda>(header, body).
     case first_some (section_of (path_of header)) responses of
       None \<Rightarrow> None
     | Some h \<Rightarrow> (case first_some (section_of (path_of body)) responses of
         None \<Rightarrow> None
       | Some b \<Rightarrow> Some \<lparr>part_header = h, part_body = b\<rparr>))"

text \<open>Collecting into an \<open>Option\<close>: all or none.\<close>

fun all_some :: "'a option list \<Rightarrow> 'a list option" where
  "all_some [] = Some []"
| "all_some (x # xs) = (case x of None \<Rightarrow> None | Some y \<Rightarrow> map_option ((#) y) (all_some xs))"

definition message_text_of :: "fetch list \<Rightarrow> 32 word \<Rightarrow> (section_name \<times> section_name) list \<Rightarrow> bool \<Rightarrow> message_text" where
  "message_text_of fetches uid paths rejected =
     (let responses = filter (\<lambda>f. fetch_uid f = Some uid) fetches in
      if responses = [] then (if rejected then NotReturned else Disappeared)
      else (case all_some (map (received_part_of responses) paths) of
          None \<Rightarrow> NotReturned
        | Some parts \<Rightarrow> Received parts))"

end
