(* ===== verification/Imap_Reader.thy ===== *)
theory Imap_Reader
  imports Imap_Fetch
begin

text \<open>
  A signed-in session with one mailbox open (crate \<open>mailbag-imap\<close>, \<open>reader.rs\<close>): what it lists, fetches
  and stores, its reconnection after a response the library could not parse, and what each refusal
  and failure of a command means.
\<close>

record mailbox_reader =
  rd_account :: imap_account
  rd_options :: open_options
  rd_mailbox_name :: string
  rd_numbers :: mailbox_numbers
  rd_condstore :: bool
  rd_needs_reconnect :: bool
  rd_wire :: wire

type_synonym 'a reading = "(mailbox_reader, imap_error, 'a) action"

definition on_wire :: "(wire, 'e, 'a) action \<Rightarrow> (mailbox_reader, 'e, 'a) action" where
  "on_wire m = on_part rd_wire (\<lambda>w r. r\<lparr>rd_wire := w\<rparr>) m"

text \<open>\<open>Err(self.error(failure))\<close>.\<close>

definition fails :: "step_failure \<Rightarrow> 'a reading" where
  "fails failure = and_then (reads (\<lambda>r. acc_login (rd_account r))) (\<lambda>login.
     and_then (on_wire (wire_error login failure)) throw)"

text \<open>A step of the session, whose failure becomes the reader's error.\<close>

definition session_step :: "'a stepping \<Rightarrow> 'a reading" where
  "session_step m = on_result (on_wire m) fails ret"

definition open_reader :: "imap_account \<Rightarrow> open_options \<Rightarrow> string \<Rightarrow> wire \<Rightarrow> (imap_error + mailbox_reader) \<times> wire" where
  "open_reader account options mbox w =
     (case open_mailbox account options mbox w of
       (Inl failure, w1) \<Rightarrow> (case wire_error (acc_login account) failure w1 of
           (Inr e, w2) \<Rightarrow> (Inl e, w2)
         | (Inl e, w2) \<Rightarrow> (Inl e, w2))
     | (Inr (numbers, condstore), w1) \<Rightarrow>
         (Inr \<lparr>rd_account = account, rd_options = options, rd_mailbox_name = mbox, rd_numbers = numbers,
               rd_condstore = condstore, rd_needs_reconnect = False, rd_wire = w1\<rparr>, w1))"

section \<open>Refusals\<close>

definition reader_refusal :: "server_reply \<Rightarrow> server_reply reading" where
  "reader_refusal reply = reads (\<lambda>r. reply\<lparr>reply_text := replace_sign_in_name (acc_login (rd_account r)) (reply_text reply)\<rparr>)"

definition is_temporary :: "server_reply \<Rightarrow> bool" where
  "is_temporary reply \<longleftrightarrow> (case reply_code reply of Some code \<Rightarrow> eq_ignore_ascii_case code ''UNAVAILABLE'' | None \<Rightarrow> False)"

definition refused :: "imap_step \<Rightarrow> server_reply \<Rightarrow> step_failure" where
  "refused step reply = \<lparr>sf_failure = Failed step, sf_reply = Some reply\<rparr>"

definition is_parse_failure :: "net_error \<Rightarrow> bool" where
  "is_parse_failure error \<longleftrightarrow> (case error of
     NetIo kind transport too_large \<Rightarrow> kind = KindOther \<and> \<not> transport \<and> \<not> too_large
   | _ \<Rightarrow> False)"

section \<open>Connections\<close>

text \<open>Another UIDVALIDITY means the UIDs now name other messages.\<close>

definition require_same_numbering :: "mailbox_numbers \<Rightarrow> unit reading" where
  "require_same_numbering numbers = and_then (reads rd_numbers) (\<lambda>now.
     if mb_uid_validity numbers = mb_uid_validity now then ret ()
     else fails (step_failure_from ImapMailboxChanged))"

definition reconnect :: "unit reading" where
  "reconnect =
     and_then (on_wire (command CmdClose)) (\<lambda>_.
     and_then (reads (\<lambda>r. (rd_account r, rd_options r, rd_mailbox_name r))) (\<lambda>(account, options, mbox).
     and_then (session_step (open_mailbox account options mbox)) (\<lambda>(numbers, condstore).
     and_then (require_same_numbering numbers) (\<lambda>_.
     changes (\<lambda>r. r\<lparr>rd_numbers := numbers, rd_condstore := condstore, rd_needs_reconnect := False\<rparr>)))))"

definition reconnect_if_needed :: "unit reading" where
  "reconnect_if_needed = and_then (reads rd_needs_reconnect) (\<lambda>needed. only_if needed reconnect)"

definition reopen :: "unit reading" where
  "reopen = and_then (reads rd_needs_reconnect) (\<lambda>needed.
     if needed then reconnect
     else and_then (reads (\<lambda>r. (rd_mailbox_name r, rd_condstore r))) (\<lambda>(mbox, condstore).
       and_then (session_step (open_selected mbox condstore)) (\<lambda>numbers.
       and_then (require_same_numbering numbers) (\<lambda>_.
       changes (\<lambda>r. r\<lparr>rd_numbers := numbers\<rparr>)))))"

section \<open>Listings\<close>

definition listing_items :: "row_items \<Rightarrow> string" where
  "listing_items items = (case items of Standard \<Rightarrow> ''(UID FLAGS)'' | WithGmailAttributes \<Rightarrow> ''(UID FLAGS X-GM-MSGID)'')"

definition collect_reader :: "unit reading" where
  "collect_reader = on_wire (on_notices collect_notices)"

text \<open>The responses of a listing are read as they arrive; a NO or BAD ends it with a refusal.\<close>

definition fetch_listing :: "string \<Rightarrow> string \<Rightarrow> folder_listing reading" where
  "fetch_listing uids items =
     and_then reconnect_if_needed (\<lambda>_.
     and_then (on_wire (command (CmdUidFetch uids items))) (\<lambda>a.
     (let listed = fold keep_listed (ans_fetches a) [] in
     and_then collect_reader (\<lambda>_.
     and_then (case ans_error a of
         None \<Rightarrow> ret None
       | Some (NetNo status) \<Rightarrow> and_then (reader_refusal status) (\<lambda>reply. ret (Some reply))
       | Some (NetBad status) \<Rightarrow> and_then (reader_refusal status) (\<lambda>reply. ret (Some reply))
       | Some e \<Rightarrow> fails (command_failure StepFetchMessages e)) (\<lambda>refusal.
     ret \<lparr>listing_messages = map snd listed, listing_refusal = refusal\<rparr>)))))"

definition reader_list :: "row_items \<Rightarrow> 64 word option \<Rightarrow> folder_listing reading" where
  "reader_list row_items changed_since = and_then (reads rd_numbers) (\<lambda>numbers.
     if mb_message_count numbers = 0 then ret \<lparr>listing_messages = [], listing_refusal = None\<rparr>
     else (let items = listing_items row_items;
               items = (case changed_since of
                   Some since \<Rightarrow> items @ '' (CHANGEDSINCE '' @ decimal (unat since) @ '')''
                 | None \<Rightarrow> items) in
           fetch_listing ''1:*'' items))"

definition list_messages :: "row_items \<Rightarrow> folder_listing reading" where
  "list_messages row_items = reader_list row_items None"

definition list_changed_flags :: "64 word \<Rightarrow> row_items \<Rightarrow> folder_listing reading" where
  "list_changed_flags since row_items = reader_list row_items (Some since)"

definition fetch_flags_of :: "32 word list \<Rightarrow> folder_listing reading" where
  "fetch_flags_of uids = fetch_listing (uid_set uids) (listing_items Standard)"

section \<open>Rows\<close>

definition row_command_items :: "row_items \<Rightarrow> bool \<Rightarrow> string" where
  "row_command_items row_items with_structures =
     ''('' @ join '' '' ([''UID FLAGS INTERNALDATE BODY.PEEK[HEADER.FIELDS (FROM TO SUBJECT)]''] @
       (if row_items = WithGmailAttributes then [''X-GM-MSGID X-GM-LABELS''] else []) @
       (if with_structures then [''BODYSTRUCTURE''] else [])) @ '')''"

definition structure_items :: string where
  "structure_items = ''(UID BODYSTRUCTURE)''"

text \<open>One \<open>UID FETCH\<close>; a response the library could not parse leaves the session unusable.\<close>

definition reader_fetch :: "32 word list \<Rightarrow> string \<Rightarrow> fetch_responses reading" where
  "reader_fetch uids items =
     and_then reconnect_if_needed (\<lambda>_.
     and_then (on_wire (command (CmdUidFetch (uid_set uids) items))) (\<lambda>a.
     (let responses = collect_fetches a in
     and_then collect_reader (\<lambda>_.
     and_then (only_if (case fr_end responses of FetchFailed e \<Rightarrow> is_parse_failure e | _ \<Rightarrow> False)
       (and_then (on_wire (command CmdClose)) (\<lambda>_. changes (\<lambda>r. r\<lparr>rd_needs_reconnect := True\<rparr>)))) (\<lambda>_.
     ret responses)))))"

text \<open>Each row's structure on its own: the row with what was read, or none when its message disappeared.\<close>

definition fetch_structure_apart :: "imap_row \<Rightarrow> imap_row option reading" where
  "fetch_structure_apart row =
     and_then (reader_fetch [ir_uid row] structure_items) (\<lambda>responses.
     (let structure = structure_of (fr_fetches responses); described = row\<lparr>ir_structure := structure\<rparr> in
     case fr_end responses of
       FetchCompleted \<Rightarrow> if structure = None then ret None else ret (Some described)
     | FetchRejected reply \<Rightarrow>
         if is_temporary reply then fails (refused StepFetchMessages reply) else ret (Some described)
     | FetchFailed e \<Rightarrow>
         if is_parse_failure e then ret (Some described) else fails (command_failure StepFetchMessages e)))"

definition fetch_structures_apart :: "imap_row list \<Rightarrow> imap_row list reading" where
  "fetch_structures_apart rows = and_then (map_each fetch_structure_apart rows) (\<lambda>found.
     ret (concat (map (\<lambda>row. case row of Some r \<Rightarrow> [r] | None \<Rightarrow> []) found)))"

text \<open>
  What the row command left unanswered, read again apart. \<open>sort_by_key(Reverse(uid))\<close> is stable.
\<close>

definition sort_rows :: "imap_row list \<Rightarrow> imap_row list" where
  "sort_rows rows = rev (sort_key ir_uid (rev rows))"

definition read_unanswered_apart :: "32 word list \<Rightarrow> row_items \<Rightarrow> imap_row list \<Rightarrow> (imap_row list \<times> server_reply option) reading" where
  "read_unanswered_apart uids row_items rows =
     (let kept = filter (\<lambda>row. ir_structure row \<noteq> None) rows;
          unanswered = filter (\<lambda>uid. \<forall>row \<in> set kept. ir_uid row \<noteq> uid) uids in
      if unanswered = [] then ret (kept, None)
      else and_then (reader_fetch unanswered (row_command_items row_items False)) (\<lambda>responses.
        (let answered = collect_rows (fr_fetches responses) unanswered in
        and_then (case fr_end responses of
            FetchCompleted \<Rightarrow> ret None
          | FetchRejected reply \<Rightarrow> and_then (reader_refusal reply) (\<lambda>shown. ret (Some shown))
          | FetchFailed e \<Rightarrow> fails (command_failure StepFetchMessages e)) (\<lambda>refusal.
        and_then (fetch_structures_apart answered) (\<lambda>described.
        ret (sort_rows (kept @ described), refusal))))))"

definition fetch_rows_by_uid :: "32 word list \<Rightarrow> row_items \<Rightarrow> message_list reading" where
  "fetch_rows_by_uid uids row_items =
     (if uids = [] then ret \<lparr>ml_rows = [], ml_refusal = None\<rparr>
      else and_then (reader_fetch uids (row_command_items row_items True)) (\<lambda>responses.
        (let rows = collect_rows (fr_fetches responses) uids;
             apart = and_then (read_unanswered_apart uids row_items rows)
               (\<lambda>(all_rows, refusal). ret \<lparr>ml_rows = all_rows, ml_refusal = refusal\<rparr>) in
        case fr_end responses of
          FetchCompleted \<Rightarrow> ret \<lparr>ml_rows = rows, ml_refusal = None\<rparr>
        | FetchRejected reply \<Rightarrow>
            if length rows = length uids \<and> (\<forall>row \<in> set rows. ir_structure row \<noteq> None)
            then and_then (reader_refusal reply) (\<lambda>shown. ret \<lparr>ml_rows = rows, ml_refusal = Some shown\<rparr>)
            else apart
        | FetchFailed e \<Rightarrow>
            if is_parse_failure e then apart else fails (command_failure StepFetchMessages e))))"

section \<open>Texts\<close>

text \<open>
  The shapes of the requests in their derived order: single-part bodies first, then the lists of
  leaves; no limit before any limit.
\<close>

definition parts_key :: "text_parts \<Rightarrow> nat list list option" where
  "parts_key parts = (case parts of SinglePartBody \<Rightarrow> None | MultipartLeaves leaves \<Rightarrow> Some leaves)"

fun lex_less :: "('a \<Rightarrow> 'a \<Rightarrow> bool) \<Rightarrow> 'a list \<Rightarrow> 'a list \<Rightarrow> bool" where
  "lex_less lt _ [] = False"
| "lex_less lt [] (_ # _) = True"
| "lex_less lt (x # xs) (y # ys) = (lt x y \<or> \<not> lt y x \<and> lex_less lt xs ys)"

definition opt_less :: "('a \<Rightarrow> 'a \<Rightarrow> bool) \<Rightarrow> 'a option \<Rightarrow> 'a option \<Rightarrow> bool" where
  "opt_less lt a b = (case (a, b) of (_, None) \<Rightarrow> False | (None, Some _) \<Rightarrow> True | (Some x, Some y) \<Rightarrow> lt x y)"

definition shape_less :: "text_parts \<times> 32 word option \<Rightarrow> text_parts \<times> 32 word option \<Rightarrow> bool" where
  "shape_less a b \<longleftrightarrow>
     opt_less (lex_less (lex_less (<))) (parts_key (fst a)) (parts_key (fst b)) \<or>
     fst a = fst b \<and> opt_less (<) (snd a) (snd b)"

fun add_to_shape :: "text_parts \<times> 32 word option \<Rightarrow> 32 word \<Rightarrow>
    ((text_parts \<times> 32 word option) \<times> 32 word list) list \<Rightarrow> ((text_parts \<times> 32 word option) \<times> 32 word list) list" where
  "add_to_shape shape uid [] = [(shape, [uid])]"
| "add_to_shape shape uid ((other, uids) # shapes) =
     (if shape = other then (other, uids @ [uid]) # shapes
      else if shape_less shape other then (shape, [uid]) # (other, uids) # shapes
      else (other, uids) # add_to_shape shape uid shapes)"

definition uids_by_shape :: "text_request list \<Rightarrow> ((text_parts \<times> 32 word option) \<times> 32 word list) list" where
  "uids_by_shape requests = fold (\<lambda>request. add_to_shape (tr_parts request, tr_limit request) (tr_uid request)) requests []"

definition text_items :: "(section_name \<times> section_name) list \<Rightarrow> 32 word option \<Rightarrow> string" where
  "text_items paths limit =
     (let partial = (case limit of None \<Rightarrow> [] | Some n \<Rightarrow> ''<0.'' @ decimal (unat n) @ ''>'') in
      ''(UID '' @ join '' '' (map (\<lambda>(header, body).
        ''BODY.PEEK['' @ display_section header @ ''] BODY.PEEK['' @ display_section body @ '']'' @ partial) paths) @ '')'')"

text \<open>
  One command per shape; each message's text goes to the caller, \<open>on_message\<close>, which the model has as
  the list of what it was called with. A failure keeps none: the caller drops what it received.
\<close>

definition fetch_shape :: "(text_parts \<times> 32 word option) \<times> 32 word list \<Rightarrow> (32 word \<times> 32 word option \<times> message_text) list reading" where
  "fetch_shape = (\<lambda>((parts, limit), uids).
     (let paths = section_paths parts in
      and_then (reader_fetch uids (text_items paths limit)) (\<lambda>responses.
      and_then (case fr_end responses of
          FetchCompleted \<Rightarrow> ret False
        | FetchRejected reply \<Rightarrow> if is_temporary reply then fails (refused StepFetchText reply) else ret True
        | FetchFailed e \<Rightarrow> fails (command_failure StepFetchText e)) (\<lambda>rejected.
      ret (map (\<lambda>uid. (uid, limit, message_text_of (fr_fetches responses) uid paths rejected)) uids)))))"

definition fetch_text :: "text_request list \<Rightarrow> (32 word \<times> 32 word option \<times> message_text) list reading" where
  "fetch_text requests = and_then (map_each fetch_shape (uids_by_shape requests)) (\<lambda>texts. ret (concat texts))"

section \<open>Flags\<close>

definition store_change :: "store_flag \<Rightarrow> bool \<Rightarrow> string" where
  "store_change flag on =
     (if on then ''+'' else ''-'') @ ''FLAGS.SILENT ('' @
     (case flag of StoreSeen \<Rightarrow> backslash # ''Seen'' | StoreFlagged \<Rightarrow> backslash # ''Flagged'') @ '')''"

text \<open>The server's refusal is a value; a lost connection is the error, since the outcome is then unknown.\<close>

definition store_flags :: "32 word list \<Rightarrow> store_flag \<Rightarrow> bool \<Rightarrow> imap_error option reading" where
  "store_flags uids flag on =
     and_then reconnect_if_needed (\<lambda>_.
     and_then (on_wire (command (CmdUidStore (uid_set uids) (store_change flag on)))) (\<lambda>a.
     (let responses = collect_fetches a in
     and_then collect_reader (\<lambda>_.
     and_then (case fr_end responses of
         FetchCompleted \<Rightarrow> ret None
       | FetchRejected reply \<Rightarrow> ret (Some reply)
       | FetchFailed (NetBad status) \<Rightarrow> ret (Some status)
       | FetchFailed e \<Rightarrow> fails (command_failure StepStoreFlags e)) (\<lambda>refusal.
     case refusal of
       None \<Rightarrow> ret None
     | Some reply \<Rightarrow>
         and_then (reads (\<lambda>r. acc_login (rd_account r))) (\<lambda>login.
         and_then (on_wire (wire_error login (refused StepStoreFlags reply))) (\<lambda>e. ret (Some e))))))))"

end
