(* ===== verification/Imap_Texts.thy ===== *)
theory Imap_Texts
  imports Preview Imap_Reader
begin

text \<open>
  What both IMAP providers share (crate \<open>mailbag-providers\<close>, \<open>imap_texts.rs\<close>): the account as the protocol
  crate takes it, and reading what the reader shows of the messages a cycle downloads.
\<close>

section \<open>Accounts\<close>

datatype imap_credential = GoaPassword string | GoaAccessToken string

datatype imap_encryption = GoaImplicitTls | GoaStartTls

record imap_access =
  access_account_id :: account_id
  access_host :: string
  access_login :: string
  access_credential :: imap_credential
  access_encryption :: imap_encryption

definition imap_account_of :: "imap_access \<Rightarrow> imap_account" where
  "imap_account_of access = \<lparr>acc_host = access_host access, acc_login = access_login access,
     acc_credential = (case access_credential access of GoaPassword p \<Rightarrow> Password p | GoaAccessToken t \<Rightarrow> AccessTokenOf t),
     acc_encryption = (case access_encryption access of GoaImplicitTls \<Rightarrow> ImplicitTls | GoaStartTls \<Rightarrow> StartTls)\<rparr>"

section \<open>Parts\<close>

fun describe_part :: "message_part \<Rightarrow> mime_part" and describe_parts :: "message_part list \<Rightarrow> mime_part list" where
  "describe_part (MessagePart section mtype subtype parameters disposition content_id children) =
     MimePart section mtype subtype parameters disposition content_id (describe_parts children)"
| "describe_parts [] = []"
| "describe_parts (part # parts) = describe_part part # describe_parts parts"

definition text_parts_of :: "message_part \<Rightarrow> nat list list \<Rightarrow> text_parts" where
  "text_parts_of root sections = (if part_children root = [] then SinglePartBody else MultipartLeaves sections)"

definition received_text :: "mail_parser \<Rightarrow> message_text \<Rightarrow> received_content option" where
  "received_text parser received = (case received of
     Received parts \<Rightarrow> Some (case decode_message_text parser (map (\<lambda>part. (part_header part, part_body part)) parts) of
         Inr words \<Rightarrow> Text words
       | Inl explanation \<Rightarrow> Explained explanation)
   | NotReturned \<Rightarrow> Some TextNotReturned
   | Disappeared \<Rightarrow> None)"

section \<open>Readings\<close>

record message_reading =
  mrd_content :: received_content
  mrd_text_parts :: "text_parts option"
  mrd_piece_parts :: "text_parts option"
  mrd_page_first :: bool
  mrd_page_with_text :: bool
  mrd_pieces :: "message_text option"
  mrd_disappeared :: bool

definition empty_reading :: message_reading where
  "empty_reading = \<lparr>mrd_content = NotDownloaded, mrd_text_parts = None, mrd_piece_parts = None, mrd_page_first = False,
     mrd_page_with_text = False, mrd_pieces = None, mrd_disappeared = False\<rparr>"

definition plan_reading :: "message_part option \<Rightarrow> bool \<Rightarrow> message_reading" where
  "plan_reading structure is_recent = (case structure of
     None \<Rightarrow> if is_recent then empty_reading\<lparr>mrd_content := StructureUnreadable\<rparr> else empty_reading
   | Some root \<Rightarrow>
       (let described = describe_part root;
            selection = select_text_parts described;
            plain_sections = (case selection of Parts sections \<Rightarrow> sections | NotText _ \<Rightarrow> []);
            r1 = (case selection of
                NotText explanation \<Rightarrow> if is_recent then empty_reading\<lparr>mrd_content := Explained explanation\<rparr> else empty_reading
              | Parts _ \<Rightarrow> empty_reading);
            r2 = (if is_recent \<and> plain_sections \<noteq> []
                then r1\<lparr>mrd_content := TextNotReturned, mrd_text_parts := Some (text_parts_of root plain_sections)\<rparr> else r1);
            preview = select_preview_part described;
            r3 = r2\<lparr>mrd_page_first := (case preview of Some part \<Rightarrow> pv_is_html part | None \<Rightarrow> False)\<rparr> in
        case (preview, mrd_text_parts r3) of
          (Some part, Some _) \<Rightarrow>
            if pv_is_html part
            then r3\<lparr>mrd_text_parts := Some (text_parts_of root (plain_sections @ [pv_section part])), mrd_page_with_text := True\<rparr>
            else r3
        | (Some part, None) \<Rightarrow>
            if pv_is_html part
            then r3\<lparr>mrd_piece_parts := Some (text_parts_of root ([pv_section part] @ take 1 plain_sections))\<rparr>
            else if \<not> is_recent then r3\<lparr>mrd_piece_parts := Some (text_parts_of root [pv_section part])\<rparr>
            else r3
        | _ \<Rightarrow> r3))"

definition reading_requests :: "32 word \<Rightarrow> message_reading \<Rightarrow> text_request list" where
  "reading_requests uid r =
     (case mrd_text_parts r of Some parts \<Rightarrow> [\<lparr>tr_uid = uid, tr_parts = parts, tr_limit = None\<rparr>] | None \<Rightarrow> []) @
     (case mrd_piece_parts r of Some parts \<Rightarrow> [\<lparr>tr_uid = uid, tr_parts = parts, tr_limit = Some preview_piece_bytes\<rparr>] | None \<Rightarrow> [])"

text \<open>
  \<open>None\<close> where the code would panic, on a whole text without the page it asked for. The lemma on
  readings shows that a server cannot cause it.
\<close>

definition reading_receive :: "mail_parser \<Rightarrow> 32 word option \<Rightarrow> message_text \<Rightarrow> message_reading \<Rightarrow> message_reading option" where
  "reading_receive parser limit received r = (case (limit, received) of
     (_, Disappeared) \<Rightarrow> Some (r\<lparr>mrd_disappeared := True\<rparr>)
   | (None, Received parts) \<Rightarrow>
       if mrd_page_with_text r then
         (if parts = [] then None
          else (let r1 = r\<lparr>mrd_pieces := Some (Received [last parts])\<rparr> in
                Some (case received_text parser (Received (butlast parts)) of
                    Some content \<Rightarrow> r1\<lparr>mrd_content := content\<rparr>
                  | None \<Rightarrow> r1)))
       else Some (case received_text parser received of Some content \<Rightarrow> r\<lparr>mrd_content := content\<rparr> | None \<Rightarrow> r)
   | (None, NotReturned) \<Rightarrow> Some (case received_text parser received of Some content \<Rightarrow> r\<lparr>mrd_content := content\<rparr> | None \<Rightarrow> r)
   | (Some _, _) \<Rightarrow> Some (r\<lparr>mrd_pieces := Some received\<rparr>))"

definition the_preview :: "string option \<Rightarrow> string" where
  "the_preview p = (case p of Some words \<Rightarrow> words | None \<Rightarrow> [])"

definition reading_finish :: "mail_parser \<Rightarrow> message_reading \<Rightarrow> (received_content \<times> string) option" where
  "reading_finish parser r =
     (if mrd_disappeared r then None
      else (let pieces = (case mrd_pieces r of Some (Received parts) \<Rightarrow> parts | _ \<Rightarrow> []);
                from_pieces = map (\<lambda>(index, piece). the_preview (preview_of_piece parser (part_header piece) (part_body piece) (index = 0 \<and> mrd_page_first r)))
                  (enumerate 0 pieces);
                from_text = (case mrd_content r of Text words \<Rightarrow> [preview_of_text words] | _ \<Rightarrow> []);
                preview = (case find (\<lambda>p. p \<noteq> []) (from_pieces @ from_text) of Some p \<Rightarrow> p | None \<Rightarrow> []) in
            Some (mrd_content r, preview)))"

text \<open>The calls of \<open>on_message\<close>, in their order; \<open>None\<close> when one of them panics.\<close>

fun receive_all :: "mail_parser \<Rightarrow> (32 word \<times> 32 word option \<times> message_text) list \<Rightarrow> (32 word \<times> message_reading) list \<Rightarrow> (32 word \<times> message_reading) list option" where
  "receive_all parser [] readings = Some readings"
| "receive_all parser ((uid, limit, received) # calls) readings =
     (case map_of readings uid of
       None \<Rightarrow> receive_all parser calls readings
     | Some r \<Rightarrow> (case reading_receive parser limit received r of
         None \<Rightarrow> None
       | Some r' \<Rightarrow> receive_all parser calls (map (\<lambda>(u, q). (u, if u = uid then r' else q)) readings)))"

definition plan_readings :: "imap_row list \<Rightarrow> 32 word list \<Rightarrow> (32 word \<times> message_reading) list" where
  "plan_readings rows recent =
     fold (\<lambda>row. ordered_update (ir_uid row) (\<lambda>_. plan_reading (ir_structure row) (ir_uid row \<in> set recent))) rows []"

definition finish_readings :: "mail_parser \<Rightarrow> (32 word \<times> message_reading) list \<Rightarrow> (32 word \<times> received_content \<times> string) list" where
  "finish_readings parser readings =
     concat (map (\<lambda>(uid, r). case reading_finish parser r of Some found \<Rightarrow> [(uid, found)] | None \<Rightarrow> []) readings)"

definition read_contents :: "mail_parser \<Rightarrow> imap_row list \<Rightarrow> 32 word list \<Rightarrow> (32 word \<times> received_content \<times> string) list option reading" where
  "read_contents parser rows recent =
     (let readings = plan_readings rows recent in
      and_then (fetch_text (concat (map (\<lambda>(uid, r). reading_requests uid r) readings))) (\<lambda>calls.
      ret (map_option (finish_readings parser) (receive_all parser calls readings))))"

section \<open>A server cannot make a reading panic\<close>

text \<open>What is received for a shape has a part for each it asked for, or is no text at all.\<close>

lemma all_some_length: "all_some xs = Some ys \<Longrightarrow> length ys = length xs"
  by (induction xs arbitrary: ys) (auto split: option.splits)

lemma section_paths_parts: "parts = SinglePartBody \<or> (\<exists>leaf leaves. parts = MultipartLeaves (leaf # leaves)) \<Longrightarrow> section_paths parts \<noteq> []"
  by (auto simp: section_paths_def)

lemma message_text_nonempty:
  "section_paths parts \<noteq> [] \<Longrightarrow> message_text_of fetches uid (section_paths parts) rejected \<noteq> Received []"
  by (auto simp: message_text_of_def Let_def dest!: all_some_length split: option.splits)

definition asks_parts :: "text_request \<Rightarrow> bool" where
  "asks_parts request \<longleftrightarrow> section_paths (tr_parts request) \<noteq> []"

lemma text_parts_nonempty: "sections \<noteq> [] \<Longrightarrow> section_paths (text_parts_of root sections) \<noteq> []"
  by (auto simp: text_parts_of_def section_paths_def)

lemma plan_asks: "request \<in> set (reading_requests uid (plan_reading structure is_recent)) \<Longrightarrow> asks_parts request"
  by (auto simp: reading_requests_def plan_reading_def empty_reading_def asks_parts_def Let_def text_parts_nonempty
      split: option.splits if_splits text_selection.splits)

lemma shapes_ask:
  assumes "\<forall>request \<in> set requests. asks_parts request" and "((parts, limit), uids) \<in> set (uids_by_shape requests)"
  shows "section_paths parts \<noteq> []"
proof -
  have add: "((parts, limit), uids) \<in> set (add_to_shape shape uid shapes) \<Longrightarrow>
      (parts, limit) = shape \<or> (\<exists>us. ((parts, limit), us) \<in> set shapes)" for shape uid shapes
    by (induction shape uid shapes rule: add_to_shape.induct) (auto split: if_splits)
  have "\<exists>request \<in> set requests. tr_parts request = parts \<and> tr_limit request = limit"
    if "((parts, limit), uids) \<in> set (fold (\<lambda>request. add_to_shape (tr_parts request, tr_limit request) (tr_uid request)) requests [])" for uids
    using that
  proof (induction requests arbitrary: uids rule: rev_induct)
    case (snoc request requests)
    have add': "((parts, limit), us) \<in> set (add_to_shape shape uid shapes) \<Longrightarrow>
        (parts, limit) = shape \<or> (\<exists>us'. ((parts, limit), us') \<in> set shapes)" for us shape uid shapes
      by (induction shape uid shapes rule: add_to_shape.induct) (auto split: if_splits)
    from snoc.prems show ?case using add' snoc.IH by fastforce
  qed simp
  then show ?thesis using assms by (auto simp: uids_by_shape_def asks_parts_def)
qed

lemma map_each_all:
  "map_each f xs s = (Inr ys, t) \<Longrightarrow> (\<And>x s y t. x \<in> set xs \<Longrightarrow> f x s = (Inr y, t) \<Longrightarrow> Q y) \<Longrightarrow> \<forall>y \<in> set ys. Q y"
  by (induction xs arbitrary: s ys) (auto simp: and_then_def split: prod.splits sum.splits, blast+)

lemma fetch_shape_nonempty:
  "fetch_shape ((parts, limit), uids) r = (Inr calls, r') \<Longrightarrow> section_paths parts \<noteq> [] \<Longrightarrow>
    \<forall>(uid, limit, received) \<in> set calls. received \<noteq> Received []"
  by (auto simp: fetch_shape_def and_then_def Let_def message_text_nonempty message_text_nonempty [symmetric] split: prod.splits sum.splits)

lemma fetch_text_nonempty:
  assumes "\<forall>request \<in> set requests. asks_parts request" and "fetch_text requests r = (Inr calls, r')"
  shows "\<forall>(uid, limit, received) \<in> set calls. received \<noteq> Received []"
proof -
  obtain lists where "map_each fetch_shape (uids_by_shape requests) r = (Inr lists, r')" "calls = concat lists"
    using assms(2) by (auto simp: fetch_text_def and_then_def split: prod.splits sum.splits)
  moreover have "\<forall>calls \<in> set lists. \<forall>(uid, limit, received) \<in> set calls. received \<noteq> Received []"
    by (rule map_each_all [OF calculation(1)]) (metis assms(1) fetch_shape_nonempty prod.collapse shapes_ask)
  ultimately show ?thesis by auto
qed

lemma receive_some: "received \<noteq> Received [] \<Longrightarrow> reading_receive parser limit received r \<noteq> None"
  by (cases limit; cases received) (auto simp: reading_receive_def Let_def)

lemma receive_all_some:
  "\<forall>(uid, limit, received) \<in> set calls. received \<noteq> Received [] \<Longrightarrow> receive_all parser calls readings \<noteq> None"
proof (induction parser calls readings rule: receive_all.induct)
  case (2 parser uid limit received calls readings)
  show ?case
  proof (cases "map_of readings uid")
    case None
    then show ?thesis using 2 by simp
  next
    case (Some q)
    have "received \<noteq> Received []" using "2.prems" by simp
    then obtain q' where "reading_receive parser limit received q = Some q'" using receive_some [of received parser limit q] by blast
    then show ?thesis using "2.IH"(2) [OF Some] "2.prems" Some by simp
  qed
qed simp

lemma plan_readings_asks:
  assumes "request \<in> set (concat (map (\<lambda>(uid, r). reading_requests uid r) (plan_readings rows recent)))"
  shows "asks_parts request"
proof -
  have "\<forall>(uid, r) \<in> set (plan_readings rows recent). \<exists>structure is_recent. r = plan_reading structure is_recent"
  proof (induction rows rule: rev_induct)
    case (snoc row rows)
    have "(uid, r) \<in> set (ordered_update k f m) \<Longrightarrow> (uid, r) \<in> set m \<or> (\<exists>e. r = f e)" for uid r k m and f :: "message_reading option \<Rightarrow> message_reading"
      by (induction k f m rule: ordered_update.induct) (auto split: if_splits)
    then show ?case using snoc by (fastforce simp: plan_readings_def)
  qed (simp add: plan_readings_def)
  then show ?thesis using assms plan_asks by fastforce
qed


end
