(* ===== verification/Pending.thy ===== *)
theory Pending
  imports Cycle Imap_Texts
begin

text \<open>
  The sending step of an IMAP cycle (crate \<open>mailbag-providers\<close>, \<open>cycle/pending.rs\<close>): the folder's
  pending changes go to the server by the UIDs of the listing, a hundred messages a command, and end
  when the server reports the message holding them. The values a cycle sent are kept with the flags.
\<close>

definition uids_per_command :: nat where
  "uids_per_command = 100"

text \<open>\<open>cycle::imap::ListedMessage\<close>, and the map the cycle makes of the listing: the last one of an identity counts.\<close>

record listed_message =
  lm_identity :: string
  lm_uid :: "32 word"
  lm_flags :: message_flags

definition listed_by_identity :: "listed_message list \<Rightarrow> string \<Rightarrow> listed_message option" where
  "listed_by_identity listed identity = find (\<lambda>message. lm_identity message = identity) (rev listed)"

type_synonym sent_changes = "((string \<times> message_flag) \<times> bool) list"

definition flag_of :: "message_flag \<Rightarrow> bool \<Rightarrow> bool \<Rightarrow> bool" where
  "flag_of flag seen flagged = (case flag of Seen \<Rightarrow> seen | Flagged \<Rightarrow> flagged)"

section \<open>Changes the listing shows\<close>

definition pushed :: "'a \<Rightarrow> 'a list option \<Rightarrow> 'a list" where
  "pushed x entry = (case entry of Some xs \<Rightarrow> xs @ [x] | None \<Rightarrow> [x])"

definition shows_wanted :: "(string \<Rightarrow> listed_message option) \<Rightarrow> pending_change \<Rightarrow> bool" where
  "shows_wanted listed change = (case listed (change_identity change) of
     None \<Rightarrow> False
   | Some message \<Rightarrow>
       flag_of (change_flag change) (flags_seen (lm_flags message)) (flags_flagged (lm_flags message)) = change_wanted change)"

definition shown_changes :: "(string \<Rightarrow> listed_message option) \<Rightarrow> pending_change list \<Rightarrow> ((message_flag \<times> bool) \<times> string list) list" where
  "shown_changes listed pending =
     fold (\<lambda>change shown. if shows_wanted listed change
       then ordered_update (change_flag change, change_wanted change) (pushed (change_identity change)) shown
       else shown) pending []"

definition end_changes_the_listing_shows :: "(string \<Rightarrow> listed_message option) \<Rightarrow> pending_change list \<Rightarrow> ('c, unit) cycling" where
  "end_changes_the_listing_shows listed pending =
     for_each (\<lambda>((flag, v), identities). in_batches (settle identities flag v)) (shown_changes listed pending)"

section \<open>Commands\<close>

text \<open>A command for each flag and wanted value, in the order of the keys: \<open>Seen\<close> before \<open>Flagged\<close>, clearing before setting.\<close>

definition command_of :: "(string \<Rightarrow> listed_message option) \<Rightarrow> sent_changes \<Rightarrow> pending_change \<Rightarrow> (string \<times> 32 word) option" where
  "command_of listed sent change = (case listed (change_identity change) of
     None \<Rightarrow> None
   | Some message \<Rightarrow>
       if map_of sent (change_identity change, change_flag change) = Some (change_wanted change) then None
       else Some (change_identity change, lm_uid message))"

definition change_commands :: "(string \<Rightarrow> listed_message option) \<Rightarrow> sent_changes \<Rightarrow> pending_change list \<Rightarrow>
    ((message_flag \<times> bool) \<times> (string \<times> 32 word) list) list" where
  "change_commands listed sent changes_wanted =
     fold (\<lambda>change commands. case command_of listed sent change of
         None \<Rightarrow> commands
       | Some entry \<Rightarrow> ordered_update (change_flag change, change_wanted change) (pushed entry) commands)
       changes_wanted []"

definition confirmed_by :: "message_flag \<Rightarrow> bool \<Rightarrow> (string \<times> 32 word) list \<Rightarrow> listed_uid list \<Rightarrow> string list" where
  "confirmed_by flag wanted command_messages answered =
     concat (map (\<lambda>message. case find (\<lambda>(_, uid). uid = listed_uid message) command_messages of
         Some (identity, _) \<Rightarrow> [identity]
       | None \<Rightarrow> [])
       (filter (\<lambda>message. flag_of flag (listed_seen message) (listed_flagged message) = wanted) answered))"

definition store_flag_of :: "message_flag \<Rightarrow> store_flag" where
  "store_flag_of flag = (case flag of Seen \<Rightarrow> StoreSeen | Flagged \<Rightarrow> StoreFlagged)"

definition send_command :: "message_flag \<Rightarrow> bool \<Rightarrow> (string \<times> 32 word) list \<Rightarrow> sent_changes \<Rightarrow> (mailbox_reader, sent_changes) cycling" where
  "send_command flag wanted command_messages sent =
     (let identities = map fst command_messages; uids = map snd command_messages in
      and_then (in_server cycle_end_imap (store_flags uids (store_flag_of flag) wanted)) (\<lambda>refusal.
      case refusal of
        Some error \<Rightarrow>
          and_then (in_batches (drop_pending identities flag wanted)) (\<lambda>_. throw (cycle_end_imap error))
      | None \<Rightarrow>
          and_then (in_server cycle_end_imap (fetch_flags_of uids)) (\<lambda>answer.
          (let confirmed = confirmed_by flag wanted command_messages (listing_messages answer) in
           and_then (only_if (confirmed \<noteq> []) (in_batches (settle confirmed flag wanted))) (\<lambda>_.
           ret (fold (\<lambda>identity. AList.update (identity, flag) wanted) identities sent))))))"

primrec fold_each :: "('b \<Rightarrow> 'a \<Rightarrow> ('s, 'e, 'a) action) \<Rightarrow> 'b list \<Rightarrow> 'a \<Rightarrow> ('s, 'e, 'a) action" where
  "fold_each f [] a = ret a"
| "fold_each f (x # xs) a = and_then (f x a) (fold_each f xs)"

definition commands_in_order :: "((message_flag \<times> bool) \<times> (string \<times> 32 word) list) list \<Rightarrow> (message_flag \<times> bool \<times> (string \<times> 32 word) list) list" where
  "commands_in_order commands =
     concat (map (\<lambda>((flag, wanted), messages). map (\<lambda>chunk. (flag, wanted, chunk)) (chunks uids_per_command (sort_key snd messages))) commands)"

definition send_imap_changes :: "(string \<Rightarrow> listed_message option) \<Rightarrow> sent_changes \<Rightarrow> (mailbox_reader, sent_changes) cycling" where
  "send_imap_changes listed sent =
     and_then (in_batches bw_pending_changes) (\<lambda>pending.
     fold_each (\<lambda>(flag, wanted, messages). send_command flag wanted messages)
       (commands_in_order (change_commands listed sent pending)) sent)"

end
