(* ===== verification/Cycle_Imap.thy ===== *)
theory Cycle_Imap
  imports Pending
begin

text \<open>
  The cycle of an IMAP folder, Generic IMAP or Gmail (crate \<open>mailbag-providers\<close>, \<open>cycle/imap.rs\<close>,
  \<open>gmail.rs\<close>): what a pass lists, what its listing proves, the arrivals a batch at a time, and the cycle
  that puts them together. The rows of Gmail in the record are not modelled.
\<close>

definition batch_size :: nat where
  "batch_size = 100"

datatype identity_rule = Generic | Gmail

definition gmail_options :: open_options where
  "gmail_options = Some \<lparr>ci_name = ''Mailbag'', ci_version = ''0.1.0-dev'', ci_vendor = ''Andrey Mitin'',
     ci_contact = ''mitin.andrey@outlook.com'', ci_support_url = ''https://github.com/mitinand/gnome-mailbag''\<rparr>"

definition options_of :: "identity_rule \<Rightarrow> open_options" where
  "options_of rule = (case rule of Generic \<Rightarrow> None | Gmail \<Rightarrow> gmail_options)"

definition row_items_of :: "identity_rule \<Rightarrow> row_items" where
  "row_items_of rule = (case rule of Generic \<Rightarrow> Standard | Gmail \<Rightarrow> WithGmailAttributes)"

section \<open>What a pass lists\<close>

datatype pass_plan = PlanNothing | PlanChangedFlags "64 word" | PlanEverything

definition pass_plan :: "folder_numbers \<Rightarrow> folder_numbers option \<Rightarrow> bool \<Rightarrow> pass_plan" where
  "pass_plan numbers reference has_pending = (case reference of
     None \<Rightarrow> PlanEverything
   | Some old \<Rightarrow>
       (let same_messages = (num_uid_validity numbers \<noteq> None \<and> num_uid_validity numbers = num_uid_validity old \<and>
              num_message_count numbers = num_message_count old \<and>
              num_uid_next numbers \<noteq> None \<and> num_uid_next numbers = num_uid_next old) in
        case (num_highest_modseq old, num_highest_modseq numbers) of
          (Some since, Some highest_modseq) \<Rightarrow>
            if same_messages \<and> \<not> has_pending
            then (if highest_modseq = since then PlanNothing else PlanChangedFlags since)
            else PlanEverything
        | _ \<Rightarrow> PlanEverything))"

definition folder_numbers_of :: "mailbox_numbers \<Rightarrow> folder_numbers" where
  "folder_numbers_of numbers = \<lparr>num_uid_validity = mb_uid_validity numbers, num_message_count = mb_message_count numbers,
     num_uid_next = mb_uid_next numbers, num_highest_modseq = mb_highest_modseq numbers\<rparr>"

section \<open>What a listing proves\<close>

definition missing_messages :: "listed_message list \<Rightarrow> folder_sync \<Rightarrow> listed_message list" where
  "missing_messages listed stored =
     rev (sort_key lm_uid (filter (\<lambda>message. map_of (sync_stored stored) (lm_identity message) = None) listed))"

definition listing_changes :: "listed_message list \<Rightarrow> folder_sync \<Rightarrow> bool \<Rightarrow> folder_batch" where
  "listing_changes listed stored removals_proven =
     empty_batch\<lparr>batch_removed :=
         (if removals_proven then filter (\<lambda>identity. identity \<notin> lm_identity ` set listed) (map fst (sync_stored stored)) else []),
       batch_flag_states :=
         map (\<lambda>message. (lm_identity message, lm_flags message))
           (filter (\<lambda>message. case map_of (sync_stored stored) (lm_identity message) of
               Some flags \<Rightarrow> flags \<noteq> lm_flags message
             | None \<Rightarrow> False) listed)\<rparr>"

definition pass_state :: "folder_state \<Rightarrow> folder_numbers \<Rightarrow> bool \<Rightarrow> bool \<Rightarrow> folder_state option" where
  "pass_state stored numbers complete missing =
     (if missing then Some default_state
      else if complete \<and> \<not> (state_synchronized stored \<and> state_numbers stored = Some numbers)
      then Some (default_state\<lparr>state_synchronized := True, state_numbers := Some numbers\<rparr>)
      else None)"

definition short_list :: "server_reply \<Rightarrow> incomplete_list" where
  "short_list refusal = ServerRefused (reply_text refusal) (reply_code refusal)"

section \<open>Identities\<close>

definition flags_listed :: "listed_uid \<Rightarrow> message_flags" where
  "flags_listed message = \<lparr>flags_seen = listed_seen message, flags_flagged = listed_flagged message\<rparr>"

definition identity_of :: "string option \<Rightarrow> listed_uid \<Rightarrow> string option" where
  "identity_of place_prefix message = (case (place_prefix, listed_gmail_id message) of
     (Some place, _) \<Rightarrow> Some (place @ decimal (unat (listed_uid message)))
   | (None, Some gmail_id) \<Rightarrow> Some (''gmail:'' @ decimal (unat gmail_id))
   | (None, None) \<Rightarrow> None)"

definition generic_prefix :: "identity_rule \<Rightarrow> 32 word option \<Rightarrow> string \<Rightarrow> imap_error + string option" where
  "generic_prefix rule uid_validity folder = (case rule of
     Generic \<Rightarrow> (case uid_validity of
         None \<Rightarrow> Inl (imap_error_from (Failed StepOpenMailbox))
       | Some validity \<Rightarrow> Inr (Some (''imap:'' @ folder @ ''/'' @ decimal (unat validity) @ ''/'')))
   | Gmail \<Rightarrow> Inr None)"

definition identify_messages :: "string option \<Rightarrow> listed_uid list \<Rightarrow> listed_message list" where
  "identify_messages place messages =
     concat (map (\<lambda>message. case identity_of place message of
         None \<Rightarrow> []
       | Some identity \<Rightarrow> [\<lparr>lm_identity = identity, lm_uid = listed_uid message, lm_flags = flags_listed message\<rparr>]) messages)"

definition identify :: "identity_rule \<Rightarrow> folder_listing \<Rightarrow> string \<Rightarrow> (mailbox_reader, listed_message list) cycling" where
  "identify rule listing folder =
     and_then (reads (\<lambda>c. mb_uid_validity (rd_numbers (cy_server c)))) (\<lambda>uid_validity.
     case generic_prefix rule uid_validity folder of
       Inl error \<Rightarrow> throw (cycle_end_imap error)
     | Inr place \<Rightarrow> ret (identify_messages place (listing_messages listing)))"

section \<open>A state pass\<close>

record state_pass =
  sp_listed :: "listed_message list"
  sp_refusal :: "server_reply option"

definition pass_batch :: "listed_message list \<Rightarrow> folder_sync \<Rightarrow> folder_numbers \<Rightarrow> pass_plan \<Rightarrow> bool \<Rightarrow> folder_batch" where
  "pass_batch listed stored numbers plan complete =
     (listing_changes listed stored (complete \<and> plan = PlanEverything))
       \<lparr>batch_state := pass_state (sync_state stored) numbers complete (missing_messages listed stored \<noteq> [])\<rparr>"

definition pass_listing :: "identity_rule \<Rightarrow> pass_plan \<Rightarrow> (mailbox_reader, folder_listing) cycling" where
  "pass_listing rule plan = (case plan of
     PlanNothing \<Rightarrow> ret \<lparr>listing_messages = [], listing_refusal = None\<rparr>
   | PlanChangedFlags since \<Rightarrow> in_server cycle_end_imap (list_changed_flags since (row_items_of rule))
   | PlanEverything \<Rightarrow> in_server cycle_end_imap (list_messages (row_items_of rule)))"

definition run_state_pass :: "identity_rule \<Rightarrow> folder_sync \<Rightarrow> folder_numbers \<Rightarrow> pass_plan \<Rightarrow> (mailbox_reader, state_pass) cycling" where
  "run_state_pass rule stored numbers plan =
     and_then (pass_listing rule plan) (\<lambda>listing.
     and_then (reads (\<lambda>c. ref_identity (bw_folder (cy_batches c)))) (\<lambda>folder.
     and_then (identify rule listing folder) (\<lambda>listed.
     (let batch = pass_batch listed stored numbers plan (listing_refusal listing = None) in
      and_then (in_batches (bw_store_batch batch)) (\<lambda>_.
      ret \<lparr>sp_listed = listed, sp_refusal = listing_refusal listing\<rparr>)))))"

section \<open>Arrivals\<close>

text \<open>A row makes a message if its text was read, which is taken once, and it is one that was asked for.\<close>

fun arrived_of :: "mail_parser \<Rightarrow> listed_message list \<Rightarrow> imap_row list \<Rightarrow> (32 word \<times> received_content \<times> string) list \<Rightarrow> message list" where
  "arrived_of parser unknown [] contents = []"
| "arrived_of parser unknown (row # rows) contents = (case map_of contents (ir_uid row) of
     None \<Rightarrow> arrived_of parser unknown rows contents
   | Some (content, preview) \<Rightarrow>
       (let rest = arrived_of parser unknown rows (AList.delete (ir_uid row) contents) in
        case find (\<lambda>message. lm_uid message = ir_uid row) unknown of
          None \<Rightarrow> rest
        | Some listed \<Rightarrow>
            \<lparr>msg_identity = lm_identity listed, msg_fields = decode_display_fields parser (ir_list_headers row),
             msg_received = ir_internal_date row, msg_seen = ir_seen row, msg_flagged = ir_flagged row,
             msg_content = content, msg_preview = preview\<rparr> # rest))"

definition recent_uids :: "int \<Rightarrow> imap_row list \<Rightarrow> 32 word list" where
  "recent_uids limit rows =
     map ir_uid (filter (\<lambda>row. case ir_internal_date row of Some date \<Rightarrow> limit \<le> date | None \<Rightarrow> False) rows)"

definition fetch_arrivals :: "mail_parser \<Rightarrow> identity_rule \<Rightarrow> listed_message list \<Rightarrow> int \<Rightarrow> (mailbox_reader, folder_batch \<times> server_reply option) cycling" where
  "fetch_arrivals parser rule messages limit =
     and_then (in_batches (bw_stored_identities (map lm_identity messages))) (\<lambda>held.
     (let known = filter (\<lambda>message. lm_identity message \<in> set held) messages;
          unknown = filter (\<lambda>message. lm_identity message \<notin> set held) messages in
      and_then (in_server cycle_end_imap (fetch_rows_by_uid (map lm_uid unknown) (row_items_of rule))) (\<lambda>rows.
      and_then (in_server cycle_end_imap (read_contents parser (ml_rows rows) (recent_uids limit (ml_rows rows)))) (\<lambda>read.
      case read of
        None \<Rightarrow> throw CyclePanicked
      | Some contents \<Rightarrow>
          ret (empty_batch\<lparr>batch_known_arrived := map (\<lambda>message. (lm_identity message, lm_flags message)) known,
                 batch_arrived := arrived_of parser unknown (ml_rows rows) contents\<rparr>,
               ml_refusal rows)))))"

section \<open>The cycle\<close>

text \<open>
  The batches of missing messages, in order; a refusal of the rows ends them. The result is what was
  sent, with the refusal.
\<close>

primrec fetch_batches :: "mail_parser \<Rightarrow> identity_rule \<Rightarrow> int \<Rightarrow> (string \<Rightarrow> listed_message option) \<Rightarrow>
    listed_message list list \<Rightarrow> sent_changes \<Rightarrow> (mailbox_reader, sent_changes \<times> server_reply option) cycling" where
  "fetch_batches parser rule limit listed [] sent = ret (sent, None)"
| "fetch_batches parser rule limit listed (messages # rest) sent =
     and_then (fetch_arrivals parser rule messages limit) (\<lambda>(batch, refusal).
     and_then (in_batches (bw_store_batch batch)) (\<lambda>_.
     and_then (send_imap_changes listed sent) (\<lambda>sent'.
     case refusal of
       Some reply \<Rightarrow> ret (sent', Some reply)
     | None \<Rightarrow> fetch_batches parser rule limit listed rest sent')))"

definition numbers_now :: "(mailbox_reader, folder_numbers) cycling" where
  "numbers_now = reads (\<lambda>c. folder_numbers_of (rd_numbers (cy_server c)))"

definition reference_of :: "folder_state \<Rightarrow> folder_numbers option" where
  "reference_of state = (if state_synchronized state then state_numbers state else None)"

definition second_pass :: "identity_rule \<Rightarrow> folder_numbers option \<Rightarrow> (mailbox_reader, state_pass) cycling" where
  "second_pass rule reference =
     and_then (in_server cycle_end_imap reopen) (\<lambda>_.
     and_then (in_batches bw_read_folder_sync) (\<lambda>stored_now.
     and_then numbers_now (\<lambda>numbers.
     run_state_pass rule stored_now numbers (pass_plan numbers reference False))))"

definition imap_cycle :: "mail_parser \<Rightarrow> identity_rule \<Rightarrow> int \<Rightarrow> (mailbox_reader, load_result) cycling" where
  "imap_cycle parser rule limit =
     and_then (in_batches bw_read_folder_sync) (\<lambda>stored.
     and_then (in_batches bw_pending_changes) (\<lambda>pending.
     and_then numbers_now (\<lambda>numbers.
     and_then (run_state_pass rule stored numbers (pass_plan numbers (reference_of (sync_state stored)) (pending \<noteq> []))) (\<lambda>first.
     (let listed = listed_by_identity (sp_listed first); missing = missing_messages (sp_listed first) stored in
     and_then (end_changes_the_listing_shows listed pending) (\<lambda>_.
     and_then (send_imap_changes listed []) (\<lambda>sent.
     and_then (fetch_batches parser rule limit listed (chunks batch_size missing) sent) (\<lambda>(sent', withheld).
     case withheld of
       Some reply \<Rightarrow> ret (finish (Some (short_list reply)))
     | None \<Rightarrow>
         if missing = [] \<and> sent' = [] then ret (finish (map_option short_list (sp_refusal first)))
         else and_then (second_pass rule (if sp_refusal first = None then Some numbers else None)) (\<lambda>second.
           ret (finish (map_option short_list
             (case sp_refusal first of Some reply \<Rightarrow> Some reply | None \<Rightarrow> sp_refusal second))))))))))))"

definition open_folder :: "imap_access \<Rightarrow> identity_rule \<Rightarrow> string \<Rightarrow> wire \<Rightarrow> (imap_error + mailbox_reader) \<times> wire" where
  "open_folder access rule folder w = open_reader (imap_account_of access) (options_of rule) folder w"

text \<open>
  The connection is a first wait, in which the cycle may be dropped as in any other. The result is the
  cycle's end with the writer it leaves.
\<close>

definition synchronize_imap_folder ::
  "mail_parser \<Rightarrow> imap_access \<Rightarrow> identity_rule \<Rightarrow> int \<Rightarrow> wire \<Rightarrow> bool list \<Rightarrow> batch_writer \<Rightarrow> (cycle_end + load_result) \<times> batch_writer" where
  "synchronize_imap_folder parser access rule cycle_start w ready batches =
     (case open_folder access rule (ref_identity (bw_folder batches)) w of
       (Inl error, _) \<Rightarrow>
         (case and_then waits (\<lambda>_. throw (cycle_end_imap error)) \<lparr>cy_batches = batches, cy_server = (), cy_ready = ready\<rparr> of
           (result, c) \<Rightarrow> (result, cy_batches c))
     | (Inr reader, _) \<Rightarrow>
         (case and_then waits (\<lambda>_. imap_cycle parser rule (recent_limit cycle_start))
             \<lparr>cy_batches = batches, cy_server = reader, cy_ready = ready\<rparr> of
           (result, c) \<Rightarrow> (result, cy_batches c)))"

end
