(* ===== verification/Graph_Reply.thy ===== *)
theory Graph_Reply
  imports Domain Graph_Types
begin

text \<open>
  The service's JSON answers (crate \<open>mailbag-graph\<close>, \<open>reply.rs\<close>). The parsers of JSON and of dates are
  libraries: parameters, as are the other functions of the platform that the client uses. A JSON value
  is \<open>serde_json::Value\<close>; an object is its list of members.
\<close>

datatype json =
    JsonNull | JsonBool bool | JsonNumber | JsonString string | JsonArray "json list" | JsonObject "(string \<times> json) list"

record graph_platform =
  parse_json :: "string \<Rightarrow> json option"
  date_seconds :: "string \<Rightarrow> int option"
  utc_date :: "int \<Rightarrow> string"
  escape_part :: "string \<Rightarrow> string"
  hash_order :: "(string \<times> message_change) list \<Rightarrow> (string \<times> message_change) list"

section \<open>JSON values\<close>

definition json_get :: "string \<Rightarrow> json \<Rightarrow> json option" where
  "json_get field j = (case j of JsonObject members \<Rightarrow> map_of members field | _ \<Rightarrow> None)"

definition json_field :: "string \<Rightarrow> json \<Rightarrow> json" where
  "json_field field j = (case json_get field j of Some x \<Rightarrow> x | None \<Rightarrow> JsonNull)"

definition owned_text :: "json \<Rightarrow> string option" where
  "owned_text j = (case j of JsonString words \<Rightarrow> Some words | _ \<Rightarrow> None)"

definition as_bool :: "json \<Rightarrow> bool option" where
  "as_bool j = (case j of JsonBool b \<Rightarrow> Some b | _ \<Rightarrow> None)"

definition as_array :: "json \<Rightarrow> json list option" where
  "as_array j = (case j of JsonArray js \<Rightarrow> Some js | _ \<Rightarrow> None)"

definition present_text :: "json \<Rightarrow> string option" where
  "present_text j = (case owned_text j of Some [] \<Rightarrow> None | found \<Rightarrow> found)"

fun all_read :: "('a \<Rightarrow> 'b option) \<Rightarrow> 'a list \<Rightarrow> 'b list option" where
  "all_read f [] = Some []"
| "all_read f (x # xs) = (case f x of None \<Rightarrow> None | Some y \<Rightarrow> map_option ((#) y) (all_read f xs))"

definition valid :: "'a option \<Rightarrow> graph_failure + 'a" where
  "valid found = (case found of Some x \<Rightarrow> Inr x | None \<Rightarrow> Inl InvalidReply)"

definition read_answer :: "graph_platform \<Rightarrow> string \<Rightarrow> (json \<Rightarrow> 'a option) \<Rightarrow> graph_failure + 'a" where
  "read_answer platform answer f = valid (Option.bind (parse_json platform answer) f)"

definition entries_of :: "(json \<Rightarrow> 'a option) \<Rightarrow> json \<Rightarrow> 'a list option" where
  "entries_of f answer = Option.bind (as_array (json_field ''value'' answer)) (all_read f)"

section \<open>Folders\<close>

record folder_page =
  fp_entries :: "(string \<times> graph_folder option) list"
  fp_next_link :: "string option"

definition read_folder_entry :: "json \<Rightarrow> (string \<times> graph_folder option) option" where
  "read_folder_entry entry = (case owned_text (json_field ''id'' entry) of
     None \<Rightarrow> None
   | Some folder_id \<Rightarrow>
       if json_get ''@removed'' entry \<noteq> None \<or> as_bool (json_field ''isHidden'' entry) = Some True then Some (folder_id, None)
       else map_option (\<lambda>name. (folder_id, Some \<lparr>gf_id = folder_id, gf_name = name,
           gf_parent_id = owned_text (json_field ''parentFolderId'' entry), gf_well_known = None\<rparr>))
         (owned_text (json_field ''displayName'' entry)))"

definition read_folder_page :: "graph_platform \<Rightarrow> string \<Rightarrow> graph_failure + folder_page" where
  "read_folder_page platform answer = read_answer platform answer (\<lambda>j.
     case entries_of read_folder_entry j of
       None \<Rightarrow> None
     | Some entries \<Rightarrow>
         (let next_link = owned_text (json_field ''@odata.nextLink'' j) in
          if next_link = None \<and> owned_text (json_field ''@odata.deltaLink'' j) = None then None
          else Some \<lparr>fp_entries = entries, fp_next_link = next_link\<rparr>))"

definition read_folder_id :: "graph_platform \<Rightarrow> string \<Rightarrow> graph_failure + string" where
  "read_folder_id platform answer = read_answer platform answer (\<lambda>j. owned_text (json_field ''id'' j))"

section \<open>Messages\<close>

definition change_fields :: "string list" where
  "change_fields = [''subject'', ''from'', ''toRecipients'', ''receivedDateTime'', ''isRead'', ''flag'', ''bodyPreview'']"

definition flag_fields :: "string list" where
  "flag_fields = [''isRead'', ''flag'']"

definition read_mailbox :: "json \<Rightarrow> graph_mailbox option" where
  "read_mailbox recipient = map_option (\<lambda>address.
     \<lparr>gm_name = present_text (json_field ''name'' address), gm_address = present_text (json_field ''address'' address)\<rparr>)
     (json_get ''emailAddress'' recipient)"

definition read_flagged :: "json \<Rightarrow> bool option" where
  "read_flagged flag = map_option (\<lambda>status. status = ''flagged'') (owned_text (json_field ''flagStatus'' flag))"

definition somes :: "'a option list \<Rightarrow> 'a list" where
  "somes found = concat (map (\<lambda>x. case x of Some y \<Rightarrow> [y] | None \<Rightarrow> []) found)"

definition read_message_entry :: "graph_platform \<Rightarrow> json \<Rightarrow> graph_message option" where
  "read_message_entry platform entry =
     (case (owned_text (json_field ''id'' entry), as_bool (json_field ''isRead'' entry)) of
       (Some identifier, Some is_read) \<Rightarrow> Some
         \<lparr>g_immutable_id = identifier, g_subject = present_text (json_field ''subject'' entry),
          g_from = read_mailbox (json_field ''from'' entry),
          g_to = (case as_array (json_field ''toRecipients'' entry) of
              Some recipients \<Rightarrow> somes (map read_mailbox recipients) | None \<Rightarrow> []),
          g_received = Option.bind (owned_text (json_field ''receivedDateTime'' entry)) (date_seconds platform),
          g_is_read = is_read,
          g_flagged = (case read_flagged (json_field ''flag'' entry) of Some flagged \<Rightarrow> flagged | None \<Rightarrow> False),
          g_body_preview = present_text (json_field ''bodyPreview'' entry)\<rparr>
     | _ \<Rightarrow> None)"

definition read_change :: "graph_platform \<Rightarrow> json \<Rightarrow> message_change option" where
  "read_change platform entry = (case owned_text (json_field ''id'' entry) of
     None \<Rightarrow> None
   | Some identifier \<Rightarrow>
       if json_get ''@removed'' entry \<noteq> None then Some (Removed identifier)
       else if list_all (\<lambda>field. json_get field entry \<noteq> None) change_fields
       then map_option Listed (read_message_entry platform entry)
       else Some (Changed identifier (as_bool (json_field ''isRead'' entry)) (read_flagged (json_field ''flag'' entry))
         (list_ex (\<lambda>field. field \<notin> set flag_fields \<and> json_get field entry \<noteq> None) change_fields)))"

definition read_change_page :: "graph_platform \<Rightarrow> string \<Rightarrow> graph_failure + change_page" where
  "read_change_page platform answer = read_answer platform answer (\<lambda>j.
     case entries_of (read_change platform) j of
       None \<Rightarrow> None
     | Some found \<Rightarrow>
         (case (owned_text (json_field ''@odata.nextLink'' j), owned_text (json_field ''@odata.deltaLink'' j)) of
           (Some next_link, _) \<Rightarrow> Some \<lparr>page_changes = found, page_next = More next_link\<rparr>
         | (None, Some delta_link) \<Rightarrow> Some \<lparr>page_changes = found, page_next = Done delta_link\<rparr>
         | (None, None) \<Rightarrow> None))"

definition read_text_entry :: "json \<Rightarrow> (string \<times> string option) option" where
  "read_text_entry entry = map_option (\<lambda>identifier. (identifier, owned_text (json_field ''content'' (json_field ''body'' entry))))
     (owned_text (json_field ''id'' entry))"

definition read_text_page :: "graph_platform \<Rightarrow> string \<Rightarrow> graph_failure + message_texts \<times> string option" where
  "read_text_page platform answer = read_answer platform answer (\<lambda>j.
     map_option (\<lambda>texts. (texts, owned_text (json_field ''@odata.nextLink'' j))) (entries_of read_text_entry j))"

definition read_text_answer :: "graph_platform \<Rightarrow> string \<Rightarrow> graph_failure + string option" where
  "read_text_answer platform answer = read_answer platform answer (\<lambda>j.
     Some (owned_text (json_field ''content'' (json_field ''body'' j))))"

definition read_one_message :: "graph_platform \<Rightarrow> string \<Rightarrow> graph_failure + graph_message \<times> string" where
  "read_one_message platform answer = read_answer platform answer (\<lambda>j.
     case (read_message_entry platform j, owned_text (json_field ''parentFolderId'' j)) of
       (Some message, Some folder_id) \<Rightarrow> Some (message, folder_id)
     | _ \<Rightarrow> None)"

definition read_error :: "graph_platform \<Rightarrow> string \<Rightarrow> (string option \<times> string option) option" where
  "read_error platform answer = (case parse_json platform answer of
     None \<Rightarrow> None
   | Some j \<Rightarrow> (case json_get ''error'' j of
         Some (JsonObject members) \<Rightarrow>
           Some (owned_text (json_field ''code'' (JsonObject members)), owned_text (json_field ''message'' (JsonObject members)))
       | _ \<Rightarrow> None))"

end
