(* ===== verification/Graph_Client.thy ===== *)
theory Graph_Client
  imports Graph_Reply
begin

text \<open>
  The requests of crate \<open>mailbag-graph\<close> (\<open>lib.rs\<close>) to Microsoft Graph. The service is an arbitrary function
  of the requests sent; \<open>libsoup\<close> refuses an address that is none, breaks off, or gives a status and a
  body. A listing that goes on over pages is fuelled; running out of fuel is an end of its own.
\<close>

section \<open>Requests\<close>

datatype http_method = HttpGet | HttpPatch

record graph_request =
  rq_method :: http_method
  rq_address :: string
  rq_token :: string
  rq_prefer :: "string option"
  rq_body :: "json option"

datatype http_reply = BadAddress string | Broken bool string | Answered nat string

record graph_wire =
  gw_service :: "graph_request list \<Rightarrow> http_reply"
  gw_sent :: "graph_request list"

datatype graph_stop = Stops graph_error | OutOfPages

type_synonym 'a requesting = "(graph_wire, graph_stop, 'a) action"

definition preferences :: string where
  "preferences = ''IdType='' @ [CHR 0x22] @ ''ImmutableId'' @ [CHR 0x22] @ '', outlook.body-content-type='' @ [CHR 0x22] @ ''text'' @ [CHR 0x22]"

definition delta_preferences :: string where
  "delta_preferences = ''IdType='' @ [CHR 0x22] @ ''ImmutableId'' @ [CHR 0x22] @ '', odata.maxpagesize=500''"

definition graph_failed :: "graph_failure \<Rightarrow> string option \<Rightarrow> graph_error" where
  "graph_failed failure reason = \<lparr>graph_failure = failure, graph_reason = reason\<rparr>"

definition build_request :: "string \<Rightarrow> string \<Rightarrow> graph_request" where
  "build_request address token = \<lparr>rq_method = HttpGet, rq_address = address, rq_token = token, rq_prefer = None, rq_body = None\<rparr>"

definition prefer_header :: "string \<Rightarrow> graph_request \<Rightarrow> graph_request" where
  "prefer_header words request = request\<lparr>rq_prefer := Some words\<rparr>"

text \<open>An address that is none is refused before anything is sent.\<close>

definition send :: "graph_request \<Rightarrow> (nat \<times> string) requesting" where
  "send request = (\<lambda>w. case gw_service w (gw_sent w @ [request]) of
     BadAddress reason \<Rightarrow> (Inl (Stops (graph_failed InvalidReply (Some reason))), w)
   | Broken timed_out reason \<Rightarrow>
       (Inl (Stops (graph_failed (if timed_out then GraphTimedOut else ConnectionFailed) (Some reason))), w\<lparr>gw_sent := gw_sent w @ [request]\<rparr>)
   | Answered status body \<Rightarrow> (Inr (status, body), w\<lparr>gw_sent := gw_sent w @ [request]\<rparr>))"

definition check_status :: "graph_platform \<Rightarrow> nat \<Rightarrow> string \<Rightarrow> graph_error + unit" where
  "check_status platform status answer =
     (if status = 200 then Inr ()
      else (let (code, message) = (case read_error platform answer of Some found \<Rightarrow> found | None \<Rightarrow> (None, None)) in
            Inl (graph_failed (Refused status code) message)))"

definition stops :: "graph_error + 'a \<Rightarrow> 'a requesting" where
  "stops result = of_result (map_sum Stops id result)"

definition or_failed :: "graph_failure + 'a \<Rightarrow> 'a requesting" where
  "or_failed result = of_result (map_sum (\<lambda>failure. Stops (graph_failed failure None)) id result)"

definition ask :: "graph_platform \<Rightarrow> graph_request \<Rightarrow> string requesting" where
  "ask platform request = and_then (send request) (\<lambda>(status, answer).
     and_then (stops (check_status platform status answer)) (\<lambda>_. ret answer))"

section \<open>Folders\<close>

definition folder_listing_address :: "string \<Rightarrow> string" where
  "folder_listing_address service_url = service_url @ ''/me/mailFolders/delta?$select=id,displayName,parentFolderId,isHidden''"

definition add_entry :: "string \<times> graph_folder option \<Rightarrow> graph_folder list \<Rightarrow> graph_folder list" where
  "add_entry entry folders = filter (\<lambda>folder. gf_id folder \<noteq> fst entry) folders @ (case snd entry of Some folder \<Rightarrow> [folder] | None \<Rightarrow> [])"

fun read_folder_listing :: "nat \<Rightarrow> graph_platform \<Rightarrow> string \<Rightarrow> string \<Rightarrow> graph_folder list \<Rightarrow> graph_folder list requesting" where
  "read_folder_listing 0 platform token address folders = throw OutOfPages"
| "read_folder_listing (Suc n) platform token address folders =
     and_then (ask platform (build_request address token)) (\<lambda>answer.
     and_then (or_failed (read_folder_page platform answer)) (\<lambda>page.
     (let folders' = fold add_entry (fp_entries page) folders in
      case fp_next_link page of
        Some next_link \<Rightarrow> read_folder_listing n platform token next_link folders'
      | None \<Rightarrow> ret folders')))"

definition find_well_known_folder :: "graph_platform \<Rightarrow> string \<Rightarrow> string \<Rightarrow> well_known_folder \<Rightarrow> string option requesting" where
  "find_well_known_folder platform service_url token well_known =
     and_then (send (build_request (service_url @ ''/me/mailFolders/'' @ well_known_name well_known @ ''?$select=id'') token)) (\<lambda>(status, answer).
     if status = 404 then ret None
     else and_then (stops (check_status platform status answer)) (\<lambda>_.
       and_then (or_failed (read_folder_id platform answer)) (\<lambda>folder_id. ret (Some folder_id))))"

text \<open>\<open>find\<close> on \<open>iter_mut\<close>: the first folder with the id is marked.\<close>

fun mark_well_known :: "string option \<Rightarrow> well_known_folder \<Rightarrow> graph_folder list \<Rightarrow> graph_folder list" where
  "mark_well_known found well_known [] = []"
| "mark_well_known found well_known (folder # folders) =
     (if Some (gf_id folder) = found then folder\<lparr>gf_well_known := Some well_known\<rparr> # folders
      else folder # mark_well_known found well_known folders)"

primrec resolve_well_known :: "graph_platform \<Rightarrow> string \<Rightarrow> string \<Rightarrow> well_known_folder list \<Rightarrow> graph_folder list \<Rightarrow> graph_folder list requesting" where
  "resolve_well_known platform service_url token [] folders = ret folders"
| "resolve_well_known platform service_url token (well_known # rest) folders =
     and_then (find_well_known_folder platform service_url token well_known) (\<lambda>found.
     resolve_well_known platform service_url token rest (mark_well_known found well_known folders))"

definition graph_list_folders :: "nat \<Rightarrow> graph_platform \<Rightarrow> string \<Rightarrow> string \<Rightarrow> graph_folder list requesting" where
  "graph_list_folders fuel platform service_url token =
     and_then (read_folder_listing fuel platform token (folder_listing_address service_url) [])
       (resolve_well_known platform service_url token all_well_known)"

section \<open>Changes\<close>

definition changes_address :: "graph_platform \<Rightarrow> string \<Rightarrow> changes_from \<Rightarrow> string" where
  "changes_address platform service_url from_where = (case from_where of
     FirstReading folder_id \<Rightarrow> service_url @ ''/me/mailFolders/'' @ escape_part platform folder_id @
       ''/messages/delta?$select='' @ join '','' change_fields @ ''&$orderby=receivedDateTime%20desc''
   | Link link \<Rightarrow> link)"

definition rejected_position :: "graph_error \<Rightarrow> changes_from \<Rightarrow> graph_error" where
  "rejected_position error from_where = (case graph_failure error of
     Refused status _ \<Rightarrow>
       if (case from_where of Link _ \<Rightarrow> True | _ \<Rightarrow> False) \<and> 400 \<le> status \<and> status < 500 \<and> status \<noteq> 401 \<and> status \<noteq> 429
       then graph_failed PositionRejected (graph_reason error)
       else error
   | _ \<Rightarrow> error)"

definition read_message_changes :: "graph_platform \<Rightarrow> string \<Rightarrow> string \<Rightarrow> changes_from \<Rightarrow> change_page requesting" where
  "read_message_changes platform service_url token from_where =
     and_then (send (prefer_header delta_preferences (build_request (changes_address platform service_url from_where) token))) (\<lambda>(status, answer).
     and_then (stops (case check_status platform status answer of
         Inl error \<Rightarrow> Inl (rejected_position error from_where)
       | Inr x \<Rightarrow> Inr x)) (\<lambda>_.
     or_failed (read_change_page platform answer)))"

section \<open>Texts and messages\<close>

definition texts_address :: "graph_platform \<Rightarrow> string \<Rightarrow> string \<Rightarrow> int \<Rightarrow> int \<Rightarrow> string" where
  "texts_address platform service_url folder_id from_unix to_unix =
     service_url @ ''/me/mailFolders/'' @ escape_part platform folder_id @ ''/messages?$filter=receivedDateTime%20ge%20'' @
     utc_date platform from_unix @ ''%20and%20receivedDateTime%20lt%20'' @ utc_date platform (to_unix + 1) @
     ''&$select=id,body&$top=500''"

fun read_texts_from :: "nat \<Rightarrow> graph_platform \<Rightarrow> string \<Rightarrow> string \<Rightarrow> message_texts \<Rightarrow> message_texts requesting" where
  "read_texts_from 0 platform token address texts = throw OutOfPages"
| "read_texts_from (Suc n) platform token address texts =
     and_then (ask platform (prefer_header preferences (build_request address token))) (\<lambda>answer.
     and_then (or_failed (read_text_page platform answer)) (\<lambda>(page, next_link).
     case next_link of
       Some link \<Rightarrow> read_texts_from n platform token link (texts @ page)
     | None \<Rightarrow> ret (texts @ page)))"

definition read_texts_received_between ::
  "nat \<Rightarrow> graph_platform \<Rightarrow> string \<Rightarrow> string \<Rightarrow> string \<Rightarrow> int \<Rightarrow> int \<Rightarrow> message_texts requesting" where
  "read_texts_received_between fuel platform service_url token folder_id from_unix to_unix =
     read_texts_from fuel platform token (texts_address platform service_url folder_id from_unix to_unix) []"

definition read_one :: "graph_platform \<Rightarrow> string \<Rightarrow> string \<Rightarrow> string option requesting" where
  "read_one platform address token =
     and_then (send (prefer_header preferences (build_request address token))) (\<lambda>(status, answer).
     if status = 404 then ret None
     else and_then (stops (check_status platform status answer)) (\<lambda>_. ret (Some answer)))"

definition read_message_text :: "graph_platform \<Rightarrow> string \<Rightarrow> string \<Rightarrow> string \<Rightarrow> string option requesting" where
  "read_message_text platform service_url token message_id =
     and_then (read_one platform (service_url @ ''/me/messages/'' @ escape_part platform message_id @ ''?$select=body'') token) (\<lambda>found.
     case found of None \<Rightarrow> ret None | Some answer \<Rightarrow> or_failed (read_text_answer platform answer))"

definition read_graph_message :: "graph_platform \<Rightarrow> string \<Rightarrow> string \<Rightarrow> string \<Rightarrow> (graph_message \<times> string) option requesting" where
  "read_graph_message platform service_url token message_id =
     and_then (read_one platform (service_url @ ''/me/messages/'' @ escape_part platform message_id @ ''?$select='' @
       join '','' change_fields @ '',parentFolderId'') token) (\<lambda>found.
     case found of None \<Rightarrow> ret None
     | Some answer \<Rightarrow> and_then (or_failed (read_one_message platform answer)) (\<lambda>message. ret (Some message)))"

definition update_body :: "flag_update \<Rightarrow> json" where
  "update_body update = (case update of
     ReadMark is_read \<Rightarrow> JsonObject [(''isRead'', JsonBool is_read)]
   | StarMark starred \<Rightarrow> JsonObject [(''flag'', JsonObject [(''flagStatus'', JsonString (if starred then ''flagged'' else ''notFlagged''))])])"

definition update_message_flags :: "graph_platform \<Rightarrow> string \<Rightarrow> string \<Rightarrow> string \<Rightarrow> flag_update \<Rightarrow> unit requesting" where
  "update_message_flags platform service_url token message_id update =
     and_then (ask platform (prefer_header preferences
       ((build_request (service_url @ ''/me/messages/'' @ escape_part platform message_id) token)
         \<lparr>rq_method := HttpPatch, rq_body := Some (update_body update)\<rparr>))) (\<lambda>_. ret ())"

end
