(* ===== verification/Cycle_Graph.thy ===== *)
theory Cycle_Graph
  imports Cycle Graph_Client Preview
begin

text \<open>
  The cycle of a Microsoft 365 folder (crate \<open>mailbag-providers\<close>, \<open>cycle/graph.rs\<close>, \<open>microsoft365.rs\<close>,
  \<open>renewal.rs\<close> and the sending step for it in \<open>cycle/pending.rs\<close>): pages of the service's delta reading,
  each stored as a batch. The loop over pages is fuelled; \<open>Graph_Claims\<close> shows when it ends.
\<close>

definition round_readings_limit :: nat where
  "round_readings_limit = 100"

datatype graph_reading = FirstFill bool | Round | FullRereading "string list"

section \<open>Identities\<close>

definition graph_identity :: "string \<Rightarrow> string" where
  "graph_identity graph_id = ''graph:'' @ graph_id"

definition graph_id :: "string \<Rightarrow> string option" where
  "graph_id identity = strip_prefix ''graph:'' identity"

section \<open>Where a reading starts\<close>

definition where_to_start :: "folder_sync \<Rightarrow> string \<Rightarrow> changes_from \<times> graph_reading" where
  "where_to_start stored folder_id =
     (case (state_fill_place (sync_state stored), state_server_position (sync_state stored)) of
       (Some place, _) \<Rightarrow> (Link place, FirstFill True)
     | (None, Some position) \<Rightarrow> (Link position, Round)
     | (None, None) \<Rightarrow>
         if sync_stored stored \<noteq> [] then (FirstReading folder_id, FullRereading [])
         else (FirstReading folder_id, FirstFill False))"

section \<open>A page's entries\<close>

definition change_id :: "message_change \<Rightarrow> string" where
  "change_id change = (case change of Removed i \<Rightarrow> i | Changed i _ _ _ \<Rightarrow> i | Listed message \<Rightarrow> g_immutable_id message)"

definition is_removed :: "message_change \<Rightarrow> bool" where
  "is_removed change = (case change of Removed _ \<Rightarrow> True | _ \<Rightarrow> False)"

definition or_value :: "'a \<Rightarrow> 'a option \<Rightarrow> 'a" where
  "or_value x found = (case found of Some y \<Rightarrow> y | None \<Rightarrow> x)"

text \<open>The later entry onto what the earlier ones made; they are both removals or neither is.\<close>

definition combine_changes :: "message_change option \<Rightarrow> message_change \<Rightarrow> message_change" where
  "combine_changes earlier later = (case (earlier, later) of
     (Some (Listed message), Changed _ is_read flagged False) \<Rightarrow>
       Listed (message\<lparr>g_is_read := or_value (g_is_read message) is_read, g_flagged := or_value (g_flagged message) flagged\<rparr>)
   | (Some (Changed _ _ _ earlier_fields), Changed i _ _ other_fields) \<Rightarrow> Changed i None None (other_fields \<or> earlier_fields)
   | _ \<Rightarrow> later)"

definition merge_step :: "message_change \<Rightarrow> (string \<times> message_change) list \<times> string list \<Rightarrow> (string \<times> message_change) list \<times> string list" where
  "merge_step change = (\<lambda>(merged, read_again).
     (let i = change_id change; earlier = map_of merged i; rest = AList.delete i merged in
      if i \<in> set read_again then (merged, read_again)
      else if (case earlier of Some e \<Rightarrow> is_removed e \<noteq> is_removed change | None \<Rightarrow> False)
      then ((i, Changed i None None True) # rest, i # read_again)
      else ((i, combine_changes earlier change) # rest, read_again)))"

definition merge_per_message :: "message_change list \<Rightarrow> (string \<times> message_change) list" where
  "merge_per_message found = fst (fold merge_step found ([], []))"

section \<open>The service\<close>

text \<open>
  \<open>gs_renewal\<close> is what Online Accounts answers when it is asked for the access again, until it was asked:
  the token it gives, or none.
\<close>

record graph_service =
  gs_url :: string
  gs_token :: string
  gs_renewal :: "string option option"
  gs_wire :: graph_wire

type_synonym 'a serving = "(graph_service, graph_stop, 'a) action"

definition new_service :: "string \<Rightarrow> string \<Rightarrow> string option \<Rightarrow> graph_wire \<Rightarrow> graph_service" where
  "new_service url token renewal w = \<lparr>gs_url = url, gs_token = token, gs_renewal = Some renewal, gs_wire = w\<rparr>"

definition on_service :: "'a requesting \<Rightarrow> 'a serving" where
  "on_service m = on_part gs_wire (\<lambda>w g. g\<lparr>gs_wire := w\<rparr>) m"

definition is_refused_token :: "graph_error \<Rightarrow> bool" where
  "is_refused_token error = (case graph_failure error of Refused status _ \<Rightarrow> status = 401 | _ \<Rightarrow> False)"

definition renew :: "string option \<Rightarrow> string option serving" where
  "renew answer = and_then (changes (\<lambda>g. g\<lparr>gs_renewal := None\<rparr>)) (\<lambda>_. ret answer)"

definition service_request :: "(string \<Rightarrow> string \<Rightarrow> 'a requesting) \<Rightarrow> 'a serving" where
  "service_request request =
     and_then (reads (\<lambda>g. (gs_url g, gs_token g, gs_renewal g))) (\<lambda>(url, token, renewal).
     on_result (on_service (request url token))
       (\<lambda>stop. case (stop, renewal) of
           (Stops error, Some answer) \<Rightarrow>
             if is_refused_token error
             then and_then (renew answer) (\<lambda>access. case access of
                 Some renewed \<Rightarrow>
                   if renewed \<noteq> token
                   then and_then (changes (\<lambda>g. g\<lparr>gs_token := renewed\<rparr>)) (\<lambda>_. on_service (request url renewed))
                   else throw stop
               | None \<Rightarrow> throw stop)
             else throw stop
         | _ \<Rightarrow> throw stop)
       ret)"

definition graph_end :: "graph_stop \<Rightarrow> cycle_end" where
  "graph_end stop = (case stop of Stops error \<Rightarrow> cycle_end_graph error | OutOfPages \<Rightarrow> CycleUnfinished)"

definition read_changes :: "graph_platform \<Rightarrow> changes_from \<Rightarrow> change_page serving" where
  "read_changes platform from_where = service_request (\<lambda>url token. read_message_changes platform url token from_where)"

definition update_flags :: "graph_platform \<Rightarrow> string \<Rightarrow> flag_update \<Rightarrow> unit serving" where
  "update_flags platform i update = service_request (\<lambda>url token. update_message_flags platform url token i update)"

definition read_in_folder :: "graph_platform \<Rightarrow> string \<Rightarrow> string \<Rightarrow> graph_message option serving" where
  "read_in_folder platform i folder_id =
     and_then (service_request (\<lambda>url token. read_graph_message platform url token i)) (\<lambda>found.
     ret (case found of Some (message, parent) \<Rightarrow> if parent = folder_id then Some message else None | None \<Rightarrow> None))"

section \<open>Arrivals\<close>

record arrival =
  ar_message :: graph_message
  ar_wants_text :: bool

definition is_recent :: "graph_message \<Rightarrow> int \<Rightarrow> bool" where
  "is_recent message limit = (case g_received message of Some received \<Rightarrow> limit \<le> received | None \<Rightarrow> False)"

definition name_and_address :: "graph_mailbox \<Rightarrow> string option \<times> string option" where
  "name_and_address m = (gm_name m, gm_address m)"

definition received_fields :: "graph_message \<Rightarrow> display_fields" where
  "received_fields message = \<lparr>fields_subject = g_subject message,
     fields_from = display_names (map name_and_address (case g_from message of Some m \<Rightarrow> [m] | None \<Rightarrow> [])),
     fields_to = display_names (map name_and_address (g_to message))\<rparr>"

definition stored_message :: "message_texts \<Rightarrow> arrival \<Rightarrow> message" where
  "stored_message texts a =
     (let message = ar_message a in
      \<lparr>msg_identity = graph_identity (g_immutable_id message), msg_fields = received_fields message,
       msg_received = g_received message, msg_seen = g_is_read message, msg_flagged = g_flagged message,
       msg_content = (if ar_wants_text a
         then (case map_of (rev texts) (g_immutable_id message) of Some (Some words) \<Rightarrow> Text words | _ \<Rightarrow> TextNotReturned)
         else NotDownloaded),
       msg_preview = preview_of_text (or_value [] (g_body_preview message))\<rparr>)"

definition read_texts :: "nat \<Rightarrow> graph_platform \<Rightarrow> arrival list \<Rightarrow> graph_reading \<Rightarrow> string \<Rightarrow> message_texts serving" where
  "read_texts fuel platform arrivals reading folder_id =
     (let recent = map ar_message (filter ar_wants_text arrivals) in
      if recent = [] then ret []
      else if reading = Round
      then map_each (\<lambda>message. and_then
          (service_request (\<lambda>url token. read_message_text platform url token (g_immutable_id message)))
          (\<lambda>words. ret (g_immutable_id message, words))) recent
      else (case somes (map g_received recent) of
          [] \<Rightarrow> ret []
        | date # dates \<Rightarrow> service_request (\<lambda>url token. read_texts_received_between fuel platform url token folder_id
            (fold min dates date) (fold max dates date))))"

text \<open>What one entry of a page makes: a removal or an arrival, read again where the entry says too little.\<close>

definition fields_reported :: "message_change \<Rightarrow> bool" where
  "fields_reported change = (case change of Listed _ \<Rightarrow> True | Changed _ _ _ other_fields \<Rightarrow> other_fields | Removed _ \<Rightarrow> False)"

definition must_read_again :: "bool \<Rightarrow> bool \<Rightarrow> graph_reading \<Rightarrow> message_change \<Rightarrow> bool" where
  "must_read_again elsewhere known reading change =
     (if elsewhere then True
      else (case change of Listed _ \<Rightarrow> known \<and> reading = Round | Changed _ _ _ _ \<Rightarrow> True | Removed _ \<Rightarrow> False))"

definition arrival_of :: "bool \<Rightarrow> message_change \<Rightarrow> int \<Rightarrow> graph_message \<Rightarrow> arrival" where
  "arrival_of known change limit message =
     \<lparr>ar_message = message, ar_wants_text = (\<not> known \<or> fields_reported change) \<and> is_recent message limit\<rparr>"

definition entry_change :: "graph_platform \<Rightarrow> graph_reading \<Rightarrow> int \<Rightarrow> string \<Rightarrow> string list \<Rightarrow> string list \<Rightarrow>
    string \<times> message_change \<Rightarrow> (graph_service, (string + arrival) option) cycling" where
  "entry_change platform reading limit folder_id held_elsewhere held_by_account = (\<lambda>(i, change).
     (let identity = graph_identity i; known = (identity \<in> set held_by_account) in
      if is_removed change then ret (Some (Inl identity))
      else if must_read_again (identity \<in> set held_elsewhere) known reading change
      then and_then (in_server graph_end (read_in_folder platform i folder_id)) (\<lambda>found.
        ret (Some (case found of Some message \<Rightarrow> Inr (arrival_of known change limit message) | None \<Rightarrow> Inl identity)))
      else (case change of
          Listed message \<Rightarrow> ret (Some (Inr (arrival_of known change limit message)))
        | _ \<Rightarrow> ret None)))"

definition batch_from_changes :: "nat \<Rightarrow> graph_platform \<Rightarrow> (string \<times> message_change) list \<Rightarrow> graph_reading \<Rightarrow> int \<Rightarrow>
    (graph_service, folder_batch) cycling" where
  "batch_from_changes fuel platform found reading limit =
     (let identities = map (\<lambda>(i, _). graph_identity i) (hash_order platform found) in
      and_then (in_batches (bw_identities_in_other_folders identities)) (\<lambda>held_elsewhere.
      and_then (in_batches (bw_stored_identities identities)) (\<lambda>held_by_account.
      and_then (reads (\<lambda>c. ref_identity (bw_folder (cy_batches c)))) (\<lambda>folder_id.
      and_then (map_each (entry_change platform reading limit folder_id held_elsewhere held_by_account) (hash_order platform found)) (\<lambda>made.
      (let removed = concat (map (\<lambda>m. case m of Some (Inl identity) \<Rightarrow> [identity] | _ \<Rightarrow> []) made);
           arrivals = concat (map (\<lambda>m. case m of Some (Inr a) \<Rightarrow> [a] | _ \<Rightarrow> []) made) in
       and_then (in_server graph_end (read_texts fuel platform arrivals reading folder_id)) (\<lambda>texts.
       ret (empty_batch\<lparr>batch_removed := removed, batch_arrived := map (stored_message texts) arrivals\<rparr>))))))))"

section \<open>Sending\<close>

definition refuses_the_change :: "graph_error \<Rightarrow> bool" where
  "refuses_the_change error = (case graph_failure error of
     Refused status _ \<Rightarrow> 400 \<le> status \<and> status < 500 \<and> status \<noteq> 401
   | _ \<Rightarrow> False)"

definition update_of :: "pending_change \<Rightarrow> flag_update" where
  "update_of change = (case change_flag change of
     Seen \<Rightarrow> ReadMark (change_wanted change) | Flagged \<Rightarrow> StarMark (change_wanted change))"

text \<open>A refusal of the change is a value here, so that the pending change is dropped before the cycle fails.\<close>

definition send_graph_change :: "graph_platform \<Rightarrow> pending_change \<Rightarrow> (graph_service, unit) cycling" where
  "send_graph_change platform change = (case graph_id (change_identity change) of
     None \<Rightarrow> throw CyclePanicked
   | Some i \<Rightarrow>
       (let identities = [change_identity change] in
        and_then (in_server graph_end (on_result (update_flags platform i (update_of change))
            (\<lambda>stop. case stop of
                Stops error \<Rightarrow> if refuses_the_change error then ret (Some error) else throw stop
              | OutOfPages \<Rightarrow> throw stop)
            (\<lambda>_. ret None))) (\<lambda>refusal.
        case refusal of
          None \<Rightarrow> in_batches (settle identities (change_flag change) (change_wanted change))
        | Some error \<Rightarrow>
            and_then (in_batches (drop_pending identities (change_flag change) (change_wanted change))) (\<lambda>_.
            throw (CycleFailed (MicrosoftGraphChangeRefused error))))))"

definition send_graph_changes :: "graph_platform \<Rightarrow> (graph_service, unit) cycling" where
  "send_graph_changes platform =
     and_then (in_batches bw_pending_changes) (for_each (send_graph_change platform))"

section \<open>The cycle\<close>

record graph_loop =
  gl_stored :: folder_sync
  gl_from :: changes_from
  gl_reading :: graph_reading
  gl_round_start :: "string option"
  gl_named :: nat

definition not_completed :: "string option \<Rightarrow> string option \<Rightarrow> folder_state" where
  "not_completed server_position fill_place = \<lparr>state_server_position = server_position, state_fill_place = fill_place,
     state_synchronized = False, state_numbers = None\<rparr>"

text \<open>The whole folder is read instead: what the folder holds now is what its end compares with.\<close>

definition read_whole_folder :: "graph_loop \<Rightarrow> nat \<Rightarrow> (graph_service, graph_loop + load_result) cycling" where
  "read_whole_folder l named =
     and_then (in_batches bw_read_folder_sync) (\<lambda>stored.
     and_then (reads (\<lambda>c. ref_identity (bw_folder (cy_batches c)))) (\<lambda>folder_id.
     ret (Inl (l\<lparr>gl_stored := stored, gl_from := FirstReading folder_id, gl_reading := FullRereading [], gl_named := named\<rparr>))))"

definition may_reject :: "graph_loop \<Rightarrow> graph_error \<Rightarrow> bool" where
  "may_reject l error \<longleftrightarrow> graph_failure error = PositionRejected \<and>
     (case gl_from l of Link _ \<Rightarrow> True | _ \<Rightarrow> False) \<and> (case gl_reading l of FullRereading _ \<Rightarrow> False | _ \<Rightarrow> True)"

definition page_or_rejection :: "graph_platform \<Rightarrow> graph_loop \<Rightarrow> (graph_service, change_page option) cycling" where
  "page_or_rejection platform l =
     in_server graph_end (on_result (read_changes platform (gl_from l))
       (\<lambda>stop. case stop of Stops error \<Rightarrow> if may_reject l error then ret None else throw stop | OutOfPages \<Rightarrow> throw stop)
       (\<lambda>page. ret (Some page)))"

definition store_page :: "graph_platform \<Rightarrow> folder_batch \<Rightarrow> bool \<Rightarrow> (graph_service, unit) cycling" where
  "store_page platform batch sends =
     and_then (in_batches (bw_store_batch batch)) (\<lambda>_. only_if sends (send_graph_changes platform))"

definition finish_page :: "graph_platform \<Rightarrow> graph_loop \<Rightarrow> folder_batch \<Rightarrow> next_page \<Rightarrow> (graph_service, graph_loop + load_result) cycling" where
  "finish_page platform l batch next = (case next of
     More next_link \<Rightarrow>
       and_then (store_page platform
           (batch\<lparr>batch_state := Some (case gl_reading l of
               FirstFill _ \<Rightarrow> not_completed None (Some next_link)
             | _ \<Rightarrow> not_completed (gl_round_start l) None)\<rparr>) (gl_reading l \<noteq> Round)) (\<lambda>_.
       ret (Inl (l\<lparr>gl_from := Link next_link\<rparr>)))
   | Done delta_link \<Rightarrow>
       if gl_reading l = FirstFill True
       then and_then (store_page platform (batch\<lparr>batch_state := Some (not_completed (Some delta_link) None)\<rparr>) True) (\<lambda>_.
         ret (Inl (l\<lparr>gl_from := Link delta_link, gl_reading := Round, gl_round_start := Some delta_link\<rparr>)))
       else
         (let removed = (case gl_reading l of
              FullRereading listed \<Rightarrow> filter (\<lambda>identity. identity \<notin> set listed) (map fst (sync_stored (gl_stored l)))
            | _ \<Rightarrow> []) in
          and_then (store_page platform (batch\<lparr>batch_removed := batch_removed batch @ removed,
              batch_state := Some (completed (Some delta_link))\<rparr>) True) (\<lambda>_.
          ret (Inr (finish None)))))"

definition named_in_round :: "graph_loop \<Rightarrow> (string \<times> message_change) list \<Rightarrow> nat" where
  "named_in_round l found = (if gl_reading l = Round
     then gl_named l + length (filter (\<lambda>(i, _). map_of (sync_stored (gl_stored l)) (graph_identity i) \<noteq> None) found)
     else gl_named l)"

definition graph_step :: "nat \<Rightarrow> graph_platform \<Rightarrow> int \<Rightarrow> graph_loop \<Rightarrow> (graph_service, graph_loop + load_result) cycling" where
  "graph_step fuel platform limit l =
     and_then (page_or_rejection platform l) (\<lambda>found. case found of
       None \<Rightarrow> read_whole_folder l (gl_named l)
     | Some page \<Rightarrow>
         (let merged = merge_per_message (page_changes page); named = named_in_round l merged in
          if gl_reading l = Round \<and> round_readings_limit < named then read_whole_folder l named
          else
            (let reading = (case gl_reading l of
                 FullRereading listed \<Rightarrow> FullRereading (listed @ map (\<lambda>(i, _). graph_identity i) merged)
               | other \<Rightarrow> other) in
             and_then (batch_from_changes fuel platform merged reading limit) (\<lambda>batch.
             finish_page platform (l\<lparr>gl_reading := reading, gl_named := named\<rparr>) batch (page_next page)))))"

fun graph_cycle_loop :: "nat \<Rightarrow> nat \<Rightarrow> graph_platform \<Rightarrow> int \<Rightarrow> graph_loop \<Rightarrow> (graph_service, load_result) cycling" where
  "graph_cycle_loop 0 fuel platform limit l = throw CycleUnfinished"
| "graph_cycle_loop (Suc n) fuel platform limit l =
     and_then (graph_step fuel platform limit l) (\<lambda>next. case next of
       Inl l' \<Rightarrow> graph_cycle_loop n fuel platform limit l'
     | Inr result \<Rightarrow> ret result)"

definition graph_cycle :: "nat \<Rightarrow> nat \<Rightarrow> graph_platform \<Rightarrow> int \<Rightarrow> (graph_service, load_result) cycling" where
  "graph_cycle pages fuel platform limit =
     and_then (in_batches bw_read_folder_sync) (\<lambda>stored.
     and_then (reads (\<lambda>c. ref_identity (bw_folder (cy_batches c)))) (\<lambda>folder_id.
     (let (from_where, reading) = where_to_start stored folder_id in
      graph_cycle_loop pages fuel platform limit
        \<lparr>gl_stored = stored, gl_from = from_where, gl_reading = reading,
         gl_round_start = state_server_position (sync_state stored), gl_named = 0\<rparr>)))"

definition synchronize_graph_folder :: "nat \<Rightarrow> nat \<Rightarrow> graph_platform \<Rightarrow> string \<Rightarrow> string \<Rightarrow> string option \<Rightarrow> int \<Rightarrow> graph_wire \<Rightarrow>
    bool list \<Rightarrow> batch_writer \<Rightarrow> (cycle_end + load_result) \<times> batch_writer" where
  "synchronize_graph_folder pages fuel platform token service_url renewal cycle_start w ready batches =
     (case graph_cycle pages fuel platform (recent_limit cycle_start)
         \<lparr>cy_batches = batches, cy_server = new_service service_url token renewal w, cy_ready = ready\<rparr> of
       (result, c) \<Rightarrow> (result, cy_batches c))"

end
