(* ===== verification/Folders.thy ===== *)
theory Folders
  imports Domain Utf7 Imap_Types Graph_Types
begin

text \<open>
  A server's folder list as the application's folders, crate \<open>mailbag-providers\<close>, \<open>folders.rs\<close>:
  names, nesting and roles, one function per provider.
\<close>

section \<open>Text\<close>

text \<open>The first occurrence of a text, and \<open>str::rsplit_once\<close>, which takes the last one.\<close>

fun split_once_text :: "'a list \<Rightarrow> 'a list \<Rightarrow> ('a list \<times> 'a list) option" where
  "split_once_text d s = (case strip_prefix d s of
     Some after \<Rightarrow> Some ([], after)
   | None \<Rightarrow> (case s of [] \<Rightarrow> None | c # cs \<Rightarrow> map_option (\<lambda>(before, after). (c # before, after)) (split_once_text d cs)))"

declare split_once_text.simps [simp del]

lemma split_once_text_Some: "split_once_text d s = Some (p, q) \<Longrightarrow> s = p @ d @ q"
proof (induction s arbitrary: p)
  case Nil
  then show ?case by (subst (asm) split_once_text.simps) (auto split: option.splits simp: strip_prefix_Some)
next
  case (Cons c s)
  show ?case
  proof (cases "strip_prefix d (c # s)")
    case None
    with Cons.prems obtain p' where "split_once_text d s = Some (p', q)" "p = c # p'"
      by (subst (asm) split_once_text.simps) auto
    with Cons.IH show ?thesis by simp
  next
    case (Some after)
    with Cons.prems show ?thesis by (subst (asm) split_once_text.simps) (auto simp: strip_prefix_Some)
  qed
qed

definition rsplit_once :: "'a list \<Rightarrow> 'a list \<Rightarrow> ('a list \<times> 'a list) option" where
  "rsplit_once d s = map_option (\<lambda>(after, before). (rev before, rev after)) (split_once_text (rev d) (rev s))"

lemma rsplit_once_Some: "rsplit_once d s = Some (p, q) \<Longrightarrow> s = p @ d @ q"
proof -
  assume "rsplit_once d s = Some (p, q)"
  then have "split_once_text (rev d) (rev s) = Some (rev q, rev p)"
    by (auto simp: rsplit_once_def)
  from split_once_text_Some [OF this] have "rev (rev s) = rev (rev q @ rev d @ rev p)" by simp
  then show ?thesis by simp
qed

section \<open>IMAP and Gmail\<close>

definition attribute :: "string \<Rightarrow> string" where
  "attribute name = CHR 0x5C # name"

definition role_attributes :: "(string \<times> folder_role) list" where
  "role_attributes = [
     (attribute ''Inbox'', Inbox), (attribute ''Flagged'', Starred), (attribute ''Important'', Important),
     (attribute ''Junk'', Junk), (attribute ''Trash'', Trash), (attribute ''Archive'', Archive),
     (attribute ''Drafts'', Drafts), (attribute ''Sent'', Sent), (attribute ''All'', AllMail)]"

definition listed_parent :: "mailbox_name \<Rightarrow> string set \<Rightarrow> string option" where
  "listed_parent mailbox listed = (case mailbox_delimiter mailbox of
     None \<Rightarrow> None
   | Some delimiter \<Rightarrow> (case rsplit_once delimiter (mailbox_name mailbox) of
       None \<Rightarrow> None
     | Some (parent, _) \<Rightarrow> if parent \<in> listed then Some parent else None))"

text \<open>\<open>Iterator::find_map\<close>.\<close>

fun find_map :: "('a \<Rightarrow> 'b option) \<Rightarrow> 'a list \<Rightarrow> 'b option" where
  "find_map f [] = None"
| "find_map f (x # xs) = (case f x of Some y \<Rightarrow> Some y | None \<Rightarrow> find_map f xs)"

definition imap_role :: "mailbox_name \<Rightarrow> folder_role option" where
  "imap_role mailbox =
     (if eq_ignore_ascii_case (mailbox_name mailbox) ''INBOX'' then Some Inbox
      else find_map (\<lambda>attr. map_option snd (find (\<lambda>(name, _). eq_ignore_ascii_case name attr) role_attributes))
        (mailbox_attributes mailbox))"

definition has_attribute :: "mailbox_name \<Rightarrow> string \<Rightarrow> bool" where
  "has_attribute mailbox name \<longleftrightarrow> (\<exists>attr \<in> set (mailbox_attributes mailbox). eq_ignore_ascii_case attr name)"

definition shown_name :: "mailbox_name \<Rightarrow> string option \<Rightarrow> string" where
  "shown_name mailbox parent = (case (parent, mailbox_delimiter mailbox) of
     (Some p, Some delimiter) \<Rightarrow> drop (length p + length delimiter) (mailbox_name mailbox)
   | _ \<Rightarrow> mailbox_name mailbox)"

definition imap_folder :: "mailbox_list \<Rightarrow> mailbox_name \<Rightarrow> folder" where
  "imap_folder mailboxes mailbox =
     (let parent = listed_parent mailbox (mailbox_name ` set (list_names mailboxes));
          shown = shown_name mailbox parent in
      \<lparr>folder_identity = mailbox_name mailbox,
       folder_name = (if list_utf8_names mailboxes then shown else decode shown),
       folder_parent = parent,
       folder_role = imap_role mailbox,
       folder_selectable = (\<not> has_attribute mailbox (attribute ''Noselect'') \<and> \<not> has_attribute mailbox (attribute ''NonExistent''))\<rparr>)"

definition imap_folders :: "mailbox_list \<Rightarrow> folder list" where
  "imap_folders mailboxes = map (imap_folder mailboxes) (list_names mailboxes)"

definition is_container :: "folder list \<Rightarrow> folder \<Rightarrow> bool" where
  "is_container folders container \<longleftrightarrow> folder_parent container = None \<and> \<not> folder_selectable container \<and>
     (\<exists>folder \<in> set folders. folder_parent folder = Some (folder_identity container) \<and> folder_role folder \<noteq> None)"

definition gmail_folders :: "mailbox_list \<Rightarrow> folder list" where
  "gmail_folders mailboxes =
     (let folders = imap_folders mailboxes;
          containers = map folder_identity (filter (is_container folders) folders);
          kept = filter (\<lambda>folder. folder_identity folder \<notin> set containers) folders
      in map (\<lambda>folder. if (case folder_parent folder of Some parent \<Rightarrow> parent \<in> set containers | None \<Rightarrow> False)
           then folder\<lparr>folder_parent := None\<rparr> else folder) kept)"

section \<open>Microsoft 365\<close>

definition graph_role :: "well_known_folder \<Rightarrow> folder_role" where
  "graph_role f = (case f of WkInbox \<Rightarrow> Inbox | WkDrafts \<Rightarrow> Drafts | WkSentItems \<Rightarrow> Sent
     | WkDeletedItems \<Rightarrow> Trash | WkJunkEmail \<Rightarrow> Junk | WkArchive \<Rightarrow> Archive)"

definition graph_folders :: "graph_folder list \<Rightarrow> folder list" where
  "graph_folders listed = map (\<lambda>f. \<lparr>
     folder_identity = gf_id f, folder_name = gf_name f,
     folder_parent = (case gf_parent_id f of Some parent \<Rightarrow> if parent \<in> gf_id ` set listed then Some parent else None | None \<Rightarrow> None),
     folder_role = map_option graph_role (gf_well_known f),
     folder_selectable = True\<rparr>) listed"

section \<open>Properties\<close>

text \<open>Every parent a list of folders names is one of its folders.\<close>

definition parents_listed :: "folder list \<Rightarrow> bool" where
  "parents_listed folders \<longleftrightarrow> (\<forall>folder \<in> set folders. \<forall>parent. folder_parent folder = Some parent \<longrightarrow> parent \<in> folder_identity ` set folders)"

lemma listed_parent_Some:
  "listed_parent mailbox listed = Some parent \<Longrightarrow> parent \<in> listed \<and>
    (\<exists>delimiter rest. mailbox_delimiter mailbox = Some delimiter \<and> mailbox_name mailbox = parent @ delimiter @ rest)"
  by (auto simp: listed_parent_def dest: rsplit_once_Some split: option.splits if_splits)

lemma imap_folder_identity [simp]: "folder_identity (imap_folder mailboxes mailbox) = mailbox_name mailbox"
  by (simp add: imap_folder_def Let_def)

lemma parents_listed_imap: "parents_listed (imap_folders mailboxes)"
  by (auto simp: parents_listed_def imap_folders_def imap_folder_def Let_def image_image dest: listed_parent_Some)

lemma map_identity: "folder_identity ` set (imap_folders mailboxes) = mailbox_name ` set (list_names mailboxes)"
  by (simp add: imap_folders_def image_image)

text \<open>
  A Generic IMAP list keeps every mailbox once and in order; a folder's parent is a listed
  mailbox and its whole name is the parent's name, the delimiter and the part that is shown, so that
  with a nonempty delimiter the parents are ever shorter and no folder is above itself.
\<close>

lemma imap_folders_nest:
  "map folder_identity (imap_folders mailboxes) = map mailbox_name (list_names mailboxes) \<and>
   parents_listed (imap_folders mailboxes) \<and>
   (\<forall>mailbox \<in> set (list_names mailboxes). \<forall>parent delimiter.
      folder_parent (imap_folder mailboxes mailbox) = Some parent \<and> mailbox_delimiter mailbox = Some delimiter \<longrightarrow>
      mailbox_name mailbox = parent @ delimiter @ shown_name mailbox (Some parent) \<and>
      (delimiter \<noteq> [] \<longrightarrow> length parent < length (mailbox_name mailbox)))"
proof (intro conjI ballI allI impI)
  fix mailbox parent delimiter
  assume "mailbox \<in> set (list_names mailboxes)"
    and "folder_parent (imap_folder mailboxes mailbox) = Some parent \<and> mailbox_delimiter mailbox = Some delimiter"
  then obtain rest where "mailbox_name mailbox = parent @ delimiter @ rest" and d: "mailbox_delimiter mailbox = Some delimiter"
    by (auto simp: imap_folder_def Let_def dest: listed_parent_Some)
  then show "mailbox_name mailbox = parent @ delimiter @ shown_name mailbox (Some parent)"
    and "delimiter \<noteq> [] \<Longrightarrow> length parent < length (mailbox_name mailbox)"
    by (simp_all add: shown_name_def)
qed (simp_all add: parents_listed_imap, simp add: imap_folders_def)

definition demo_mailboxes :: mailbox_list where
  "demo_mailboxes = \<lparr>list_names = [
     \<lparr>mailbox_name = ''INBOX'', mailbox_attributes = [], mailbox_delimiter = Some ''/''\<rparr>,
     \<lparr>mailbox_name = ''[Gmail]'', mailbox_attributes = [attribute ''Noselect''], mailbox_delimiter = Some ''/''\<rparr>,
     \<lparr>mailbox_name = ''[Gmail]/Spam'', mailbox_attributes = [attribute ''junk''], mailbox_delimiter = Some ''/''\<rparr>,
     \<lparr>mailbox_name = ''a/b'', mailbox_attributes = [], mailbox_delimiter = Some ''/''\<rparr>], list_utf8_names = True\<rparr>"

lemma imap_folders_nest_witness:
  "shown_name (list_names demo_mailboxes ! 2) (Some ''[Gmail]'') = ''Spam''"
proof -
  have "folder_parent (imap_folder demo_mailboxes (list_names demo_mailboxes ! 2)) = Some ''[Gmail]''" by code_simp
  moreover have "list_names demo_mailboxes ! 2 \<in> set (list_names demo_mailboxes)" by (rule nth_mem) (simp add: demo_mailboxes_def)
  moreover have "mailbox_delimiter (list_names demo_mailboxes ! 2) = Some ''/''" by (simp add: demo_mailboxes_def)
  ultimately have "mailbox_name (list_names demo_mailboxes ! 2) = ''[Gmail]'' @ ''/'' @ shown_name (list_names demo_mailboxes ! 2) (Some ''[Gmail]'')"
    using imap_folders_nest [of demo_mailboxes] by blast
  then show ?thesis by (simp add: demo_mailboxes_def)
qed

text \<open>
  Gmail's list is the IMAP list without its containers and with their children directly under
  the account: nothing else is left out or moved, and every parent that is still named is listed.
\<close>

theorem gmail_folders_without_containers:
  "parents_listed (gmail_folders mailboxes) \<and>
   map folder_identity (gmail_folders mailboxes) =
     filter (\<lambda>identity. \<forall>c \<in> set (imap_folders mailboxes). is_container (imap_folders mailboxes) c \<longrightarrow> folder_identity c \<noteq> identity)
       (map mailbox_name (list_names mailboxes)) \<and>
   (\<forall>folder \<in> set (gmail_folders mailboxes). \<exists>original \<in> set (imap_folders mailboxes).
      folder = original \<or> folder = original\<lparr>folder_parent := None\<rparr> \<and>
        (\<exists>c \<in> set (imap_folders mailboxes). is_container (imap_folders mailboxes) c \<and> folder_parent original = Some (folder_identity c)))"
proof -
  let ?folders = "imap_folders mailboxes"
  let ?containers = "map folder_identity (filter (is_container ?folders) ?folders)"
  let ?kept = "filter (\<lambda>folder. folder_identity folder \<notin> set ?containers) ?folders"
  let ?move = "\<lambda>folder. if (case folder_parent folder of Some parent \<Rightarrow> parent \<in> set ?containers | None \<Rightarrow> False)
    then folder\<lparr>folder_parent := None\<rparr> else folder"
  have gmail: "gmail_folders mailboxes = map ?move ?kept" by (simp add: gmail_folders_def Let_def)
  have move: "folder_identity (?move f) = folder_identity f" for f by simp
  have ids: "map folder_identity (gmail_folders mailboxes) = map folder_identity ?kept"
    unfolding gmail by (simp add: move o_def del: if_split)
  have "parents_listed (gmail_folders mailboxes)"
    unfolding parents_listed_def
  proof (intro ballI allI impI)
    fix folder parent
    assume "folder \<in> set (gmail_folders mailboxes)" and p: "folder_parent folder = Some parent"
    then obtain f where f: "f \<in> set ?kept" "folder = ?move f" unfolding gmail by auto
    with p have fp: "folder_parent f = Some parent" "parent \<notin> set ?containers" by (auto split: if_splits option.splits)
    then have "parent \<in> folder_identity ` set ?folders" using f(1) parents_listed_imap [of mailboxes] by (auto simp: parents_listed_def)
    then have "parent \<in> set (map folder_identity ?kept)" using fp(2) by auto
    then show "parent \<in> folder_identity ` set (gmail_folders mailboxes)" unfolding ids [symmetric] by simp
  qed
  moreover have kept: "map folder_identity ?kept = filter (\<lambda>i. i \<notin> set ?containers) (map folder_identity ?folders)"
    by (simp add: filter_map o_def)
  have names: "map folder_identity ?folders = map mailbox_name (list_names mailboxes)" by (simp add: imap_folders_def o_def)
  have outside: "(\<lambda>i. i \<notin> set ?containers) = (\<lambda>i. \<forall>c \<in> set ?folders. is_container ?folders c \<longrightarrow> folder_identity c \<noteq> i)"
    by (rule ext) auto
  have "map folder_identity (gmail_folders mailboxes) =
     filter (\<lambda>identity. \<forall>c \<in> set ?folders. is_container ?folders c \<longrightarrow> folder_identity c \<noteq> identity) (map mailbox_name (list_names mailboxes))"
    unfolding ids kept names outside ..
  moreover have "\<exists>original \<in> set ?folders. folder = original \<or> folder = original\<lparr>folder_parent := None\<rparr> \<and>
        (\<exists>c \<in> set ?folders. is_container ?folders c \<and> folder_parent original = Some (folder_identity c))"
    if folder: "folder \<in> set (gmail_folders mailboxes)" for folder
  proof -
    from folder obtain f where f: "f \<in> set ?folders" "folder = ?move f" unfolding gmail by auto
    then show ?thesis by (intro bexI [of _ f]) (auto split: option.splits)
  qed
  ultimately show ?thesis by blast
qed

theorem gmail_folders_without_containers_witness:
  "map folder_identity (gmail_folders demo_mailboxes) = [''INBOX'', ''[Gmail]/Spam'', ''a/b''] \<and> parents_listed (gmail_folders demo_mailboxes)"
proof
  show "parents_listed (gmail_folders demo_mailboxes)" using gmail_folders_without_containers by blast
  show "map folder_identity (gmail_folders demo_mailboxes) = [''INBOX'', ''[Gmail]/Spam'', ''a/b'']" by code_simp
qed

lemma parents_listed_graph: "parents_listed (graph_folders listed)"
  by (auto simp: parents_listed_def graph_folders_def image_image split: option.splits if_splits)

end
