(* ===== verification/Goa.thy ===== *)
theory Goa
  imports Load_Failures Imap_Texts
begin

text \<open>
  GNOME Online Accounts (crate \<open>goa-adapter\<close>): the accounts as they are decoded (\<open>account_model.rs\<close>,
  \<open>accounts.rs\<close>), the settings and the credential a load asks for (\<open>access_calls.rs\<close>,
  \<open>imap_access.rs\<close>, \<open>graph_access.rs\<close>) and the observer of the account list (\<open>client.rs\<close>).

  D-Bus is a parameter: its answers, which GIO checked against the signature of the call, and its
  errors. A variant is what the code can read of it.
\<close>

section \<open>Accounts\<close>

datatype account_provider = ImapSmtp | Google | Microsoft365 | OtherProvider

record account_details =
  ad_provider :: account_provider
  ad_mail_enabled :: bool
  ad_needs_attention :: bool
  ad_mail_service_available :: bool
  ad_display_name :: "string option"
  ad_email_address :: "string option"

datatype error_cause = CauseUnavailable | CauseAccessDenied | CauseTimeout | CauseInvalidReply

record account_check_error =
  ce_operation :: string
  ce_cause :: error_cause

datatype account_check_result = NotChecked | CheckComplete | CheckFailed account_check_error

definition is_complete :: "account_check_result \<Rightarrow> bool" where
  "is_complete result = (case result of CheckComplete \<Rightarrow> True | _ \<Rightarrow> False)"

definition check_error :: "account_check_result \<Rightarrow> account_check_error option" where
  "check_error result = (case result of CheckFailed error \<Rightarrow> Some error | _ \<Rightarrow> None)"

record account_update =
  au_accounts :: "(account_id \<times> account_details) list"
  au_last_check :: account_check_result
  au_retry_pending :: bool

definition default_update :: account_update where
  "default_update = \<lparr>au_accounts = [], au_last_check = NotChecked, au_retry_pending = False\<rparr>"

section \<open>Answers of Online Accounts\<close>

datatype variant = VariantText string | VariantFlag bool | VariantOther

type_synonym properties = "(string \<times> variant) list"

text \<open>The objects by path, in order, each with its interfaces.\<close>

type_synonym managed_objects = "(string \<times> (string \<times> properties) list) list"

definition account_interface :: string where
  "account_interface = ''org.gnome.OnlineAccounts.Account''"

definition mail_interface :: string where
  "mail_interface = ''org.gnome.OnlineAccounts.Mail''"

definition password_based_interface :: string where
  "password_based_interface = ''org.gnome.OnlineAccounts.PasswordBased''"

definition oauth2_based_interface :: string where
  "oauth2_based_interface = ''org.gnome.OnlineAccounts.OAuth2Based''"

definition read_text_property :: "properties \<Rightarrow> string \<Rightarrow> string option" where
  "read_text_property props name = (case map_of props name of Some (VariantText t) \<Rightarrow> Some t | _ \<Rightarrow> None)"

definition read_flag_property :: "properties \<Rightarrow> string \<Rightarrow> bool option" where
  "read_flag_property props name = (case map_of props name of Some (VariantFlag b) \<Rightarrow> Some b | _ \<Rightarrow> None)"

definition invalid_reply :: account_check_error where
  "invalid_reply = \<lparr>ce_operation = ''read accounts'', ce_cause = CauseInvalidReply\<rparr>"

definition required :: "'a option \<Rightarrow> account_check_error + 'a" where
  "required found = (case found of Some x \<Rightarrow> Inr x | None \<Rightarrow> Inl invalid_reply)"

definition read_optional_text :: "properties \<Rightarrow> string \<Rightarrow> account_check_error + string option" where
  "read_optional_text props name = (case map_of props name of
     None \<Rightarrow> Inr None
   | Some (VariantText t) \<Rightarrow> Inr (if t = [] then None else Some t)
   | Some _ \<Rightarrow> Inl invalid_reply)"

definition provider_of :: "string \<Rightarrow> account_provider" where
  "provider_of t = (if t = ''imap_smtp'' then ImapSmtp else if t = ''google'' then Google
     else if t = ''ms_graph'' then Microsoft365 else OtherProvider)"

text \<open>\<open>?\<close> on a result without a state.\<close>

definition bind_sum :: "'e + 'a \<Rightarrow> ('a \<Rightarrow> 'e + 'b) \<Rightarrow> 'e + 'b" where
  "bind_sum r k = (case r of Inl e \<Rightarrow> Inl e | Inr x \<Rightarrow> k x)"

text \<open>One object's account; an object without the interface has none.\<close>

definition parse_account :: "(string \<times> properties) list \<Rightarrow> account_check_error + (account_id \<times> account_details) option" where
  "parse_account interfaces = (case map_of interfaces account_interface of
     None \<Rightarrow> Inr None
   | Some props \<Rightarrow>
       bind_sum (required (read_text_property props ''Id'')) (\<lambda>id_text.
       bind_sum (case account_id_try_from id_text of
           Inl _ \<Rightarrow> Inl \<lparr>ce_operation = ''account ID'', ce_cause = CauseInvalidReply\<rparr>
         | Inr account \<Rightarrow> Inr account) (\<lambda>account.
       bind_sum (required (read_text_property props ''ProviderType'')) (\<lambda>provider.
       bind_sum (required (read_flag_property props ''MailDisabled'')) (\<lambda>disabled.
       bind_sum (required (read_flag_property props ''AttentionNeeded'')) (\<lambda>attention.
       bind_sum (read_optional_text props ''PresentationIdentity'') (\<lambda>name.
       bind_sum (case map_of interfaces mail_interface of
           Some mail \<Rightarrow> read_optional_text mail ''EmailAddress''
         | None \<Rightarrow> Inr None) (\<lambda>email.
       Inr (Some (account, \<lparr>ad_provider = provider_of provider, ad_mail_enabled = (\<not> disabled), ad_needs_attention = attention,
         ad_mail_service_available = (map_of interfaces mail_interface \<noteq> None), ad_display_name = name,
         ad_email_address = email\<rparr>))))))))))"

fun parse_objects :: "managed_objects \<Rightarrow> (account_id \<times> account_details) list \<Rightarrow> account_check_error + (account_id \<times> account_details) list" where
  "parse_objects [] accounts = Inr accounts"
| "parse_objects ((_, interfaces) # objects) accounts =
     bind_sum (parse_account interfaces) (\<lambda>found.
       parse_objects objects (case found of
         Some (account, details) \<Rightarrow> ordered_update account (\<lambda>_. details) accounts
       | None \<Rightarrow> accounts))"

definition parse_accounts :: "managed_objects option \<Rightarrow> account_check_error + (account_id \<times> account_details) list" where
  "parse_accounts reply = bind_sum (required reply) (\<lambda>objects. parse_objects objects [])"

section \<open>Errors\<close>

text \<open>What the code tells apart of a \<open>glib::Error\<close>.\<close>

datatype glib_error =
    IoTimedOut | IoCancelled | IoPermissionDenied | IoInvalidArgument
  | BusTimeout | BusNoReply | BusAccessDenied | BusInvalidArgs | OtherGlibError

definition classify_glib_error :: "glib_error \<Rightarrow> error_cause" where
  "classify_glib_error error =
     (if error = IoTimedOut \<or> error = BusTimeout \<or> error = BusNoReply then CauseTimeout
      else if error = BusAccessDenied \<or> error = IoPermissionDenied then CauseAccessDenied
      else if error = IoInvalidArgument \<or> error = BusInvalidArgs then CauseInvalidReply
      else CauseUnavailable)"

definition map_glib_error :: "string \<Rightarrow> glib_error \<Rightarrow> account_check_error" where
  "map_glib_error operation error = \<lparr>ce_operation = operation, ce_cause = classify_glib_error error\<rparr>"

definition access_error_of :: "glib_error \<Rightarrow> access_error \<Rightarrow> access_error" where
  "access_error_of error step_failure =
     (if error = IoCancelled then AccessCancelled
      else if classify_glib_error error = CauseTimeout then AccessTimeout
      else step_failure)"

section \<open>Access for a load\<close>

record graph_access =
  ga_account :: account_id
  ga_token :: string

datatype credential_interface = OAuth2Based | PasswordBased

record imap_settings =
  is_object_path :: string
  is_host :: string
  is_login :: string
  is_encryption :: imap_encryption
  is_credential :: credential_interface

definition find_account_object :: "managed_objects \<Rightarrow> account_id \<Rightarrow> access_error + string \<times> (string \<times> properties) list" where
  "find_account_object objects account = (case find (\<lambda>(_, interfaces).
       (case map_of interfaces account_interface of
         Some props \<Rightarrow> read_text_property props ''Id'' = Some (as_str account)
       | None \<Rightarrow> False)) objects of
     Some object \<Rightarrow> Inr object
   | None \<Rightarrow> Inl AccessSettings)"

definition setting :: "'a option \<Rightarrow> access_error + 'a" where
  "setting found = (case found of Some x \<Rightarrow> Inr x | None \<Rightarrow> Inl AccessSettings)"

definition find_imap_settings :: "managed_objects \<Rightarrow> account_id \<Rightarrow> access_error + imap_settings" where
  "find_imap_settings objects account =
     bind_sum (find_account_object objects account) (\<lambda>(path, interfaces).
     bind_sum (setting (map_of interfaces mail_interface)) (\<lambda>mail.
     bind_sum (setting (read_flag_property mail ''ImapUseSsl'')) (\<lambda>ssl.
     bind_sum (setting (read_flag_property mail ''ImapUseTls'')) (\<lambda>tls.
     bind_sum (if ssl then Inr GoaImplicitTls else if tls then Inr GoaStartTls else Inl AccessNoEncryption) (\<lambda>encryption.
     bind_sum (if map_of interfaces oauth2_based_interface \<noteq> None then Inr OAuth2Based
         else if map_of interfaces password_based_interface \<noteq> None then Inr PasswordBased
         else Inl AccessSettings) (\<lambda>credential.
     bind_sum (setting (read_text_property mail ''ImapHost'')) (\<lambda>host.
     bind_sum (setting (read_text_property mail ''ImapUserName'')) (\<lambda>login.
     Inr \<lparr>is_object_path = path, is_host = host, is_login = login, is_encryption = encryption, is_credential = credential\<rparr>))))))))"

text \<open>
  The calls of an access request, and what D-Bus answers to each: the objects, and the credential that
  an interface of an object keeps. A request without the observer's connection makes no call.
\<close>

datatype access_call = GetManagedObjects | GetAccessToken string | GetPassword string string

record goa_bus =
  gb_objects :: "glib_error + managed_objects"
  gb_credential :: "access_call \<Rightarrow> glib_error + string"

definition imap_password_key :: string where
  "imap_password_key = ''imap-password''"

definition credential_call :: "imap_settings \<Rightarrow> access_call" where
  "credential_call settings = (case is_credential settings of
     OAuth2Based \<Rightarrow> GetAccessToken (is_object_path settings)
   | PasswordBased \<Rightarrow> GetPassword (is_object_path settings) imap_password_key)"

definition imap_credential_of :: "imap_settings \<Rightarrow> glib_error + string \<Rightarrow> access_error + imap_credential" where
  "imap_credential_of settings reply = (case is_credential settings of
     OAuth2Based \<Rightarrow> (case reply of Inr token \<Rightarrow> Inr (GoaAccessToken token) | Inl error \<Rightarrow> Inl (access_error_of error AccessToken))
   | PasswordBased \<Rightarrow> (case reply of Inr password \<Rightarrow> Inr (GoaPassword password) | Inl error \<Rightarrow> Inl (access_error_of error AccessPassword)))"

definition without_connection :: "bool \<Rightarrow> access_error" where
  "without_connection cancelled = (if cancelled then AccessCancelled else AccessSettings)"

definition request_imap_access :: "goa_bus option \<Rightarrow> bool \<Rightarrow> account_id \<Rightarrow> access_call list \<times> (access_error + imap_access)" where
  "request_imap_access bus cancelled account = (case bus of
     None \<Rightarrow> ([], Inl (without_connection cancelled))
   | Some b \<Rightarrow>
       (case bind_sum (map_sum (\<lambda>error. access_error_of error AccessSettings) (\<lambda>objects. objects) (gb_objects b))
           (\<lambda>objects. find_imap_settings objects account) of
         Inl error \<Rightarrow> ([GetManagedObjects], Inl error)
       | Inr settings \<Rightarrow>
           ([GetManagedObjects, credential_call settings],
            bind_sum (imap_credential_of settings (gb_credential b (credential_call settings))) (\<lambda>credential.
              Inr \<lparr>access_account_id = account, access_host = is_host settings, access_login = is_login settings,
                access_credential = credential, access_encryption = is_encryption settings\<rparr>))))"

definition request_graph_access :: "goa_bus option \<Rightarrow> bool \<Rightarrow> account_id \<Rightarrow> access_call list \<times> (access_error + graph_access)" where
  "request_graph_access bus cancelled account = (case bus of
     None \<Rightarrow> ([], Inl (without_connection cancelled))
   | Some b \<Rightarrow>
       (case bind_sum (map_sum (\<lambda>error. access_error_of error AccessSettings) (\<lambda>objects. objects) (gb_objects b))
           (\<lambda>objects. bind_sum (find_account_object objects account) (\<lambda>(path, interfaces).
             if map_of interfaces oauth2_based_interface \<noteq> None then Inr path else Inl AccessSettings)) of
         Inl error \<Rightarrow> ([GetManagedObjects], Inl error)
       | Inr path \<Rightarrow>
           ([GetManagedObjects, GetAccessToken path],
            (case gb_credential b (GetAccessToken path) of
              Inr token \<Rightarrow> Inr \<lparr>ga_account = account, ga_token = token\<rparr>
            | Inl error \<Rightarrow> Inl (access_error_of error AccessToken)))))"

section \<open>The observer\<close>

text \<open>
  \<open>ob_read\<close> is the read that runs, first for the connection and then for the accounts (the code's
  \<open>read_cancellable\<close>); \<open>ob_published\<close> are the updates handed to the application.
\<close>

datatype account_read = ConnectsToBus | ReadsAccounts

record account_observer =
  ob_update :: account_update
  ob_connected :: bool
  ob_subscribed :: bool
  ob_read :: "account_read option"
  ob_refetch_needed :: bool
  ob_stopped :: bool
  ob_published :: "account_update list"

definition new_observer :: account_observer where
  "new_observer = \<lparr>ob_update = default_update, ob_connected = False, ob_subscribed = False, ob_read = None,
     ob_refetch_needed = False, ob_stopped = False, ob_published = []\<rparr>"

definition request_read :: "account_observer \<Rightarrow> account_observer" where
  "request_read ob =
     (if ob_stopped ob then ob
      else if ob_read ob \<noteq> None then ob\<lparr>ob_refetch_needed := True\<rparr>
      else ob\<lparr>ob_read := Some (if ob_connected ob then ReadsAccounts else ConnectsToBus)\<rparr>)"

definition publish_update :: "account_observer \<Rightarrow> account_observer" where
  "publish_update ob = ob\<lparr>ob_published := ob_published ob @ [ob_update ob]\<rparr>"

definition finish_read :: "account_check_error + (account_id \<times> account_details) list \<Rightarrow> account_observer \<Rightarrow> account_observer" where
  "finish_read result ob =
     (let update = (case result of
        Inr accounts \<Rightarrow> (ob_update ob)\<lparr>au_accounts := accounts, au_last_check := CheckComplete\<rparr>
      | Inl error \<Rightarrow> (ob_update ob)\<lparr>au_last_check := CheckFailed error\<rparr>);
          update' = (if ob_refetch_needed ob then update else update\<lparr>au_retry_pending := False\<rparr>);
          ob1 = ob\<lparr>ob_read := None, ob_update := update'\<rparr>;
          ob2 = (if ob_refetch_needed ob1 then request_read (ob1\<lparr>ob_refetch_needed := False\<rparr>) else ob1)
      in publish_update ob2)"

definition refresh_accounts :: "account_observer \<Rightarrow> account_observer" where
  "refresh_accounts ob =
     (if ob_stopped ob then ob
      else (let was_pending = au_retry_pending (ob_update ob);
                ob1 = request_read (ob\<lparr>ob_update := (ob_update ob)\<lparr>au_retry_pending := True\<rparr>\<rparr>)
            in if was_pending then ob1 else publish_update ob1))"

definition stop_observer :: "account_observer \<Rightarrow> account_observer" where
  "stop_observer ob = ob\<lparr>ob_stopped := True, ob_read := None, ob_subscribed := False, ob_connected := False\<rparr>"

definition start_observer :: account_observer where
  "start_observer = request_read new_observer"

text \<open>The answers of D-Bus, dropped once the observer has stopped, and a signal of a change.\<close>

definition bus_connected :: "glib_error option \<Rightarrow> account_observer \<Rightarrow> account_observer" where
  "bus_connected failed ob =
     (if ob_stopped ob \<or> ob_read ob \<noteq> Some ConnectsToBus then ob
      else case failed of
        None \<Rightarrow> ob\<lparr>ob_subscribed := True, ob_connected := True, ob_read := Some ReadsAccounts\<rparr>
      | Some error \<Rightarrow> finish_read (Inl (map_glib_error ''connect to session bus'' error)) ob)"

definition accounts_answered :: "glib_error + managed_objects option \<Rightarrow> account_observer \<Rightarrow> account_observer" where
  "accounts_answered reply ob =
     (if ob_stopped ob \<or> ob_read ob \<noteq> Some ReadsAccounts then ob
      else finish_read (bind_sum (map_sum (map_glib_error ''read accounts'') (\<lambda>objects. objects) reply) parse_accounts) ob)"

record change_signal =
  cs_sender :: string
  cs_member :: string
  cs_path :: "string option"
  cs_first_argument :: "string option"
  cs_accepted_path_prefix :: "string option"

definition goa_bus_name :: string where
  "goa_bus_name = ''org.gnome.OnlineAccounts''"

definition account_change_signals :: "change_signal list" where
  "account_change_signals =
    [\<lparr>cs_sender = ''org.freedesktop.DBus'', cs_member = ''NameOwnerChanged'', cs_path = Some ''/org/freedesktop/DBus'',
       cs_first_argument = Some goa_bus_name, cs_accepted_path_prefix = None\<rparr>,
     \<lparr>cs_sender = goa_bus_name, cs_member = ''InterfacesAdded'', cs_path = Some ''/org/gnome/OnlineAccounts'',
       cs_first_argument = None, cs_accepted_path_prefix = None\<rparr>,
     \<lparr>cs_sender = goa_bus_name, cs_member = ''InterfacesRemoved'', cs_path = Some ''/org/gnome/OnlineAccounts'',
       cs_first_argument = None, cs_accepted_path_prefix = None\<rparr>,
     \<lparr>cs_sender = goa_bus_name, cs_member = ''PropertiesChanged'', cs_path = None,
       cs_first_argument = None, cs_accepted_path_prefix = Some ''/org/gnome/OnlineAccounts/''\<rparr>]"

text \<open>GIO matched the signal's sender, member, path and argument; the code checks the path's prefix.\<close>

definition change_signalled :: "change_signal \<Rightarrow> string \<Rightarrow> account_observer \<Rightarrow> account_observer" where
  "change_signalled signal object_path ob =
     (if ob_subscribed ob \<and>
         (case cs_accepted_path_prefix signal of None \<Rightarrow> True | Some accepted_prefix \<Rightarrow> starts_with accepted_prefix object_path)
      then request_read ob else ob)"

end
