(* ===== verification/Worker.thy ===== *)
theory Worker
  imports Cycle_Imap Cycle_Graph Folders Goa
begin

text \<open>
  A load from its start to its end (crate \<open>mailbag-providers\<close>, \<open>lib.rs\<close>, \<open>worker.rs\<close>, \<open>imap.rs\<close>, \<open>gmail.rs\<close>,
  \<open>microsoft365.rs\<close> and \<open>synchronize_folder\<close> of \<open>cycle.rs\<close>): the access from Online Accounts, the sequence
  of the account's provider on the mail worker, and the events the window receives. Threads and
  channels are not modelled: a load is one run of its sequence with the acts of the user between its
  accesses, and the channel is the list of the events sent.
\<close>

section \<open>Folder lists\<close>

definition list_imap_folders :: "imap_access \<Rightarrow> wire \<Rightarrow> (imap_error + folder list) \<times> wire" where
  "list_imap_folders access w = (case list_mailboxes (imap_account_of access) None w of
     (Inr listed, w') \<Rightarrow> (Inr (imap_folders listed), w')
   | (Inl error, w') \<Rightarrow> (Inl error, w'))"

definition list_gmail_folders :: "imap_access \<Rightarrow> wire \<Rightarrow> (imap_error + folder list) \<times> wire" where
  "list_gmail_folders access w = (case list_mailboxes (imap_account_of access) gmail_options w of
     (Inr listed, w') \<Rightarrow> (Inr (gmail_folders listed), w')
   | (Inl error, w') \<Rightarrow> (Inl error, w'))"

definition list_microsoft365_folders :: "nat \<Rightarrow> graph_platform \<Rightarrow> graph_access \<Rightarrow> string \<Rightarrow> folder list requesting" where
  "list_microsoft365_folders fuel platform access service_url =
     and_then (graph_list_folders fuel platform service_url (ga_token access)) (\<lambda>listed. ret (graph_folders listed))"

section \<open>What a load runs with\<close>

text \<open>\<open>renewal\<close> is what Online Accounts answers when the load asks for the access again.\<close>

datatype load_kind =
    GenericImapKind imap_access
  | GmailKind imap_access
  | Microsoft365Kind graph_access string "string option"

definition kind_account :: "load_kind \<Rightarrow> account_id" where
  "kind_account kind = (case kind of
     GenericImapKind access \<Rightarrow> access_account_id access
   | GmailKind access \<Rightarrow> access_account_id access
   | Microsoft365Kind access _ _ \<Rightarrow> ga_account access)"

text \<open>The libraries and the servers, the clock, the answers found in time, and the fuel for the service's pages.\<close>

record load_world =
  lw_parser :: mail_parser
  lw_platform :: graph_platform
  lw_wire :: wire
  lw_graph :: graph_wire
  lw_now :: int
  lw_ready :: "bool list"
  lw_pages :: nat
  lw_fuel :: nat
  lw_panic :: "string option"

datatype load_run = LoadEnds load_result | LoadFails load_failure | LoadPanics | LoadUnfinished

definition run_of :: "cycle_end + load_result \<Rightarrow> load_run" where
  "run_of result = (case result of
     Inr r \<Rightarrow> LoadEnds r
   | Inl (CycleStopped r) \<Rightarrow> LoadEnds r
   | Inl (CycleFailed failure) \<Rightarrow> LoadFails failure
   | Inl CyclePanicked \<Rightarrow> LoadPanics
   | Inl CycleUnfinished \<Rightarrow> LoadUnfinished)"

definition synchronize_folder :: "load_world \<Rightarrow> load_kind \<Rightarrow> batch_writer \<Rightarrow> load_run \<times> batch_writer" where
  "synchronize_folder world kind batches =
     (let (result, batches') = (case kind of
        GenericImapKind access \<Rightarrow>
          synchronize_imap_folder (lw_parser world) access Generic (lw_now world) (lw_wire world) (lw_ready world) batches
      | GmailKind access \<Rightarrow>
          synchronize_imap_folder (lw_parser world) access Gmail (lw_now world) (lw_wire world) (lw_ready world) batches
      | Microsoft365Kind access service_url renewal \<Rightarrow>
          synchronize_graph_folder (lw_pages world) (lw_fuel world) (lw_platform world) (ga_token access) service_url renewal
            (lw_now world) (lw_graph world) (lw_ready world) batches)
      in (run_of result, batches'))"

definition list_folders :: "load_world \<Rightarrow> load_kind \<Rightarrow> cycle_end + folder list" where
  "list_folders world kind = (case kind of
     GenericImapKind access \<Rightarrow> map_sum cycle_end_imap id (fst (list_imap_folders access (lw_wire world)))
   | GmailKind access \<Rightarrow> map_sum cycle_end_imap id (fst (list_gmail_folders access (lw_wire world)))
   | Microsoft365Kind access service_url _ \<Rightarrow>
       map_sum graph_end id (fst (list_microsoft365_folders (lw_fuel world) (lw_platform world) access service_url (lw_graph world))))"

text \<open>The list is one wait; the store's write asks, under its lock, whether the load was cancelled.\<close>

definition load_folder_list :: "load_world \<Rightarrow> load_kind \<Rightarrow> batch_writer \<Rightarrow> load_run \<times> batch_writer" where
  "load_folder_list world kind batches =
     (case (waits :: (unit, unit) cycling) \<lparr>cy_batches = batches, cy_server = (), cy_ready = lw_ready world\<rparr> of
       (Inl stopped, c) \<Rightarrow> (run_of (Inl stopped), cy_batches c)
     | (Inr _, c) \<Rightarrow> (case list_folders world kind of
         Inl ended \<Rightarrow> (run_of (Inl ended), cy_batches c)
       | Inr folders \<Rightarrow>
           (let w = meanwhile (cy_batches c);
                (result, s) = store_folder_list (kind_account kind) folders (bw_cancelled w) (bw_store w)
            in (LoadEnds result, w\<lparr>bw_store := s\<rparr>))))"

text \<open>
  A folder list has no writer of its own: \<open>new_writer\<close> carries the store, the cancellation and the acts
  of the user for it, and its folder is never read.
\<close>

definition load_catching_panics :: "load_world \<Rightarrow> load_kind \<Rightarrow> load_target \<Rightarrow> store \<Rightarrow> bool \<Rightarrow> user_act list list \<Rightarrow>
    load_result option \<times> batch_writer" where
  "load_catching_panics world kind target s cancelled user =
     (let (run, batches) = (case target of
        FolderList \<Rightarrow> load_folder_list world kind (new_writer s \<lparr>ref_account = kind_account kind, ref_identity = []\<rparr> cancelled user)
      | Mailbox folder \<Rightarrow> synchronize_folder world kind (new_writer s folder cancelled user))
      in (case run of
          LoadEnds result \<Rightarrow> Some result
        | LoadFails failure \<Rightarrow> Some (give_up failure)
        | LoadPanics \<Rightarrow> Some (give_up (WorkerStopped (lw_panic world)))
        | LoadUnfinished \<Rightarrow> None, batches))"

section \<open>Events\<close>

text \<open>What the worker sends for a load; it sends no end when its thread stops or the load never ends.\<close>

definition sent_events :: "load_result option \<times> batch_writer \<Rightarrow> bool \<Rightarrow> load_event list" where
  "sent_events run stopped = bw_events (snd run) @
     (case fst run of Some result \<Rightarrow> if stopped then [] else [Finished result] | None \<Rightarrow> [])"

definition is_finished :: "load_event \<Rightarrow> bool" where
  "is_finished event = (case event of Finished _ \<Rightarrow> True | _ \<Rightarrow> False)"

fun pass_events :: "load_event list \<Rightarrow> load_event list" where
  "pass_events [] = [Finished (give_up (WorkerStopped None))]"
| "pass_events (event # events) = (if is_finished event then [event] else event # pass_events events)"

definition report_events :: "load_event list option \<Rightarrow> load_event list" where
  "report_events events = (case events of
     Some sent \<Rightarrow> pass_events sent
   | None \<Rightarrow> [Finished (give_up (WorkerStopped None))])"

text \<open>
  \<open>MailLoader::start_load\<close>: the events of a load whose access Online Accounts answers with \<open>access\<close>.
  \<open>queued\<close> says whether the worker's queue took the request.
\<close>

definition start_load :: "load_world \<Rightarrow> bool \<Rightarrow> bool \<Rightarrow> access_error + load_kind \<Rightarrow> load_target \<Rightarrow> store \<Rightarrow> bool \<Rightarrow> user_act list list \<Rightarrow>
    load_event list" where
  "start_load world queued stopped access target s cancelled user = (case access of
     Inl AccessCancelled \<Rightarrow> [Finished ResultCancelled]
   | Inl error \<Rightarrow> [Finished (give_up (OnlineAccounts error))]
   | Inr kind \<Rightarrow> report_events (if queued
       then Some (sent_events (load_catching_panics world kind target s cancelled user) stopped) else None))"

end
