(* ===== verification/Cycle_View.thy ===== *)
theory Cycle_View
  imports Store_Accounts Store_Load
begin

text \<open>
  What a cycle knows of its folder: the server's side of the database, which folders hold which
  messages and the values the server reported. What the user does meanwhile leaves it, accounts
  removed apart; a reading of the folder gives it, until the cycle's next batch.
\<close>

section \<open>The server's side\<close>

definition server_side :: "db \<Rightarrow> (string \<Rightarrow> string \<Rightarrow> string set) \<times> (string \<Rightarrow> string \<Rightarrow> (folder \<times> folder_state) option) \<times> (string \<Rightarrow> string \<Rightarrow> message_flags option)" where
  "server_side d = (v_holds (view_of d), v_folder (view_of d), (\<lambda>a i. map_option e_flags (v_message (view_of d) a i)))"

fun quiet_act :: "user_act \<Rightarrow> bool" where
  "quiet_act (UserRemoves _) = False"
| "quiet_act _ = True"

lemma server_side_update:
  assumes "tables_ok d" and "harmless assign" and "\<And>m. message_row_ok m \<Longrightarrow> entry_of (assign m) = g (entry_of m)"
    and "\<And>e. e_flags (g e) = e_flags e"
  shows "server_side (sql_update_message a i assign d) = server_side d"
  using view_update_message [OF assms(1-3)] assms(4)
  by (auto simp: server_side_def spec_update_def fun_eq_iff option.map_comp o_def)

lemma server_side_pending: "tables_ok d \<Longrightarrow> server_side (sql_update_message a i (set_pending_value flag v) d) = server_side d"
  by (rule server_side_update [where g = "\<lambda>e. e\<lparr>e_pending := (e_pending e)(flag := v)\<rparr>"])
    (auto simp: harmless_def entry_of_def set_pending_value_def pending_value_def stored_content_def message_row_ok_def
      fun_eq_iff cong: option.case_cong split: message_flag.splits)

lemma quiet_act_keeps:
  assumes s: "reachable s" "store_connection s = Some c" and act: "quiet_act act"
  shows "(\<exists>c'. store_connection (act_on_store act s) = Some c') \<and>
    server_side (current_db (act_on_store act s)) = server_side (current_db s)"
proof (cases act)
  case (UserFlag account identity flag wanted)
  obtain r s' where run: "write_pending_flag account identity flag wanted s = (r, s')" by fastforce
  note run' = run [unfolded write_pending_flag_def]
  from opened_run [OF s(2) run'] obtain x c' where
    x: "execute (sql_update_message (as_str account) identity (set_pending_value flag (Some wanted))) c = (x, c')"
      "current_db s' = conn_db c'" "store_connection s' = Some c'" "current_db s = conn_db c" by blast
  have "conn_db c' = conn_db c \<or> conn_db c' = sql_update_message (as_str account) identity (set_pending_value flag (Some wanted)) (conn_db c)"
    using x(1) by (auto simp: execute_def statement_def Let_def split: list.splits option.splits sum.splits prod.splits if_splits)
  moreover have "tables_ok (conn_db c)" using opened_ok [OF s(1)] x(4) by simp
  ultimately have "server_side (current_db s') = server_side (current_db s)"
    using server_side_pending x by auto
  then show ?thesis using x UserFlag run by (simp add: act_on_store_def)
next
  case (UserReads folder)
  obtain r s' where run: "read_folder_rows folder s = (r, s')" by fastforce
  note run' = run [unfolded read_folder_rows_def]
  have keep: "db_keeps P (and_then (optional (stored_folder_id folder)) (\<lambda>found. case found of
       None \<Rightarrow> ret None
     | Some folder_id \<Rightarrow> and_then (read_listed_rows folder_id) (\<lambda>rows. and_then (read_folder_state folder_id) (\<lambda>state.
         ret (if state_synchronized state \<or> rows \<noteq> [] then Some rows else None)))))" for P
    unfolding stored_folder_id_def read_listed_rows_def read_folder_state_def
    by (auto intro!: db_keeps_reads split: option.split simp del: ret_run)
  have "current_db s' = current_db s" by (rule opened_read(1) [OF s(2) run' computes_read_folder_rows keep])
  moreover obtain c' where "store_connection s' = Some c'" by (rule opened_run [OF s(2) run']) blast
  moreover have "act_on_store act s = s'" using run UserReads by (simp add: act_on_store_def)
  ultimately show ?thesis by simp
qed (use s act in \<open>auto simp: act_on_store_def\<close>)


definition quiet_writer :: "batch_writer \<Rightarrow> bool" where
  "quiet_writer w \<longleftrightarrow> reachable (bw_store w) \<and> store_connection (bw_store w) \<noteq> None \<and>
     (\<forall>acts \<in> set (bw_user w). \<forall>act \<in> set acts. quiet_act act)"

definition folder_db :: "batch_writer \<Rightarrow> db" where
  "folder_db w = current_db (bw_store w)"

text \<open>Two writers on the same folder with the same server's side.\<close>

definition same_side :: "batch_writer \<Rightarrow> batch_writer \<Rightarrow> bool" where
  "same_side w w' \<longleftrightarrow> quiet_writer w' \<and> bw_folder w' = bw_folder w \<and> server_side (folder_db w') = server_side (folder_db w)"

lemma same_side_trans: "same_side u v \<Longrightarrow> same_side v w \<Longrightarrow> same_side u w"
  by (simp add: same_side_def)

lemma quiet_act_side: "quiet_writer w \<Longrightarrow> quiet_act act \<Longrightarrow> same_side w (user_acts act w)"
proof -
  assume w: "quiet_writer w" and act: "quiet_act act"
  then obtain c where c: "reachable (bw_store w)" "store_connection (bw_store w) = Some c" by (auto simp: quiet_writer_def)
  note kept = quiet_act_keeps [OF c act] reachable_user [OF c(1), of act]
  have "store_connection (act_on_store act (bw_store w)) \<noteq> None" using kept(1) by fastforce
  then show ?thesis
    using w kept by (simp add: same_side_def quiet_writer_def user_acts_def folder_db_def)
qed

lemma quiet_acts_side: "quiet_writer w \<Longrightarrow> \<forall>act \<in> set acts. quiet_act act \<Longrightarrow> same_side w (fold user_acts acts w)"
proof (induction acts arbitrary: w)
  case (Cons act acts)
  then have "same_side w (user_acts act w)" by (intro quiet_act_side) auto
  moreover have "same_side (user_acts act w) (fold user_acts acts (user_acts act w))"
    using Cons.prems calculation by (intro Cons.IH) (auto simp: same_side_def)
  ultimately show ?case using same_side_trans by simp
qed (simp add: same_side_def)

lemma meanwhile_side: "quiet_writer w \<Longrightarrow> same_side w (meanwhile w)"
proof (cases "bw_user w")
  case (Cons acts rest)
  assume "quiet_writer w"
  then have "quiet_writer (w\<lparr>bw_user := rest\<rparr>)" "\<forall>act \<in> set acts. quiet_act act"
    using Cons by (auto simp: quiet_writer_def)
  from quiet_acts_side [OF this] show ?thesis
    by (simp add: meanwhile_def Cons same_side_def folder_db_def)
qed (simp add: meanwhile_def same_side_def)

section \<open>Reading a folder\<close>

definition snapshot :: "folder_ref \<Rightarrow> folder_sync \<Rightarrow> db \<Rightarrow> bool" where
  "snapshot folder stored d \<longleftrightarrow>
     (\<exists>p. v_folder (view_of d) (as_str (ref_account folder)) (ref_identity folder) = Some (p, sync_state stored)) \<and>
     (\<forall>i. map_of (sync_stored stored) i =
       (if i \<in> v_holds (view_of d) (as_str (ref_account folder)) (ref_identity folder)
        then map_option e_flags (v_message (view_of d) (as_str (ref_account folder)) i) else None))"

lemma snapshot_side: "server_side d = server_side d' \<Longrightarrow> snapshot folder stored d \<longleftrightarrow> snapshot folder stored d'"
  by (auto simp: snapshot_def server_side_def fun_eq_iff)

lemma read_present:
  assumes "tables_ok (conn_db c)"
    and "(and_then (stored_folder_id folder) k :: 'a sql) c = (Inr x, c')"
  shows "folder_present folder (conn_db c)"
proof (rule ccontr)
  assume "\<not> folder_present folder (conn_db c)"
  then have "filter (folder_at (as_str (ref_account folder)) (ref_identity folder)) (db_folders (conn_db c)) = []"
    using assms(1) by (simp add: folder_present_def lookup_folder_def filter_Nil_find)
  then show False
    using assms(2) by (auto simp: and_then_def stored_folder_id_def query_row_def statement_def Let_def
        split: list.splits option.splits prod.splits)
qed

lemma read_snapshot:
  assumes s: "reachable s" "store_connection s = Some c" and run: "read_folder_sync folder s = (Inr stored, s')"
  shows "snapshot folder stored (current_db s)" and "current_db s' = current_db s" and "\<exists>c'. store_connection s' = Some c'"
proof -
  note run' = run [unfolded read_folder_sync_def]
  have keep: "db_keeps P (and_then (stored_folder_id folder) (\<lambda>folder_id.
     and_then (read_folder_state folder_id) (\<lambda>state.
     and_then (read_folder_identities folder_id) (\<lambda>stored.
     ret \<lparr>sync_state = state, sync_stored = stored\<rparr>))))" for P
    unfolding stored_folder_id_def read_folder_identities_def read_folder_state_def by (intro db_keeps_reads)
  obtain x c' where x: "and_then (stored_folder_id folder) (\<lambda>folder_id.
     and_then (read_folder_state folder_id) (\<lambda>state.
     and_then (read_folder_identities folder_id) (\<lambda>stored.
     ret \<lparr>sync_state = state, sync_stored = stored\<rparr>))) c = (x, c')" "store_connection s' = Some c'"
    "Inr stored = map_sum (\<lambda>e. storage_failure Write (Sqlite e)) id x" "current_db s = conn_db c"
    by (rule opened_run [OF s(2) run']) blast
  have ok: "tables_ok (current_db s)" by (rule opened_ok [OF s(1)])
  obtain y where y: "x = Inr y" using x(3) by (cases x) auto
  have present: "folder_present folder (current_db s)"
    unfolding x(4) by (rule read_present [OF _ x(1) [unfolded y]]) (use ok x(4) in simp)
  then obtain r where r: "lookup_folder (current_db s) (as_str (ref_account folder)) (ref_identity folder) = Some r"
    by (auto simp: folder_present_def)
  note res = opened_read [OF s(2) run' computes_read_folder_sync keep]
  have "stored = sync_value folder (current_db s)" by (rule res(2) [OF refl present])
  moreover have "v_folder (view_of (current_db s)) (as_str (ref_account folder)) (ref_identity folder) =
      Some (fst (folder_of r), sync_state (sync_value folder (current_db s)))"
    using r sync_value_view(1) [OF ok r] by (simp add: view_of_def)
  moreover have "map_option (\<lambda>m. \<lparr>flags_seen = mr_seen m, flags_flagged = mr_flagged m\<rparr>) x = map_option e_flags (map_option entry_of x)" for x
    by (cases x) (simp_all add: entry_of_def)
  ultimately show "snapshot folder stored (current_db s)"
    using sync_value_view(2) [OF ok r] by (simp add: snapshot_def view_of_def) blast
  show "current_db s' = current_db s" by (rule res(1))
  show "\<exists>c'. store_connection s' = Some c'" using x(2) by blast
qed

lemma writer_reads_snapshot:
  assumes w: "quiet_writer w" and run: "bw_read_folder_sync w = (Inr stored, w')"
  shows "same_side w w'" and "snapshot (bw_folder w) stored (folder_db w)"
proof -
  let ?u = "meanwhile w"
  have side: "same_side w ?u" by (rule meanwhile_side [OF w])
  obtain s' where s': "read_folder_sync (bw_folder ?u) (bw_store ?u) = (Inr stored, s')" "w' = ?u\<lparr>bw_store := s'\<rparr>"
    using run side by (auto simp: bw_read_folder_sync_def in_store_def map_error_def on_result_def on_part_def and_then_def
        same_side_def split: prod.splits sum.splits)
  obtain c where c: "reachable (bw_store ?u)" "store_connection (bw_store ?u) = Some c"
    using side by (auto simp: same_side_def quiet_writer_def)
  note read = read_snapshot [OF c s'(1)]
  have "reachable s'" using reachable.step [OF c(1) store_step.sync [of _ "bw_folder ?u"]] s'(1) by simp
  then show "same_side w w'"
    using side read(2,3) s'(2) by (auto simp: same_side_def quiet_writer_def folder_db_def)
  show "snapshot (bw_folder w) stored (folder_db w)"
    using side read(1) snapshot_side [of "folder_db ?u" "folder_db w"] by (auto simp: same_side_def folder_db_def)
qed

section \<open>Storing what a pass proves\<close>

lemma flags_spec:
  "map_option e_flags (v_message (spec_flags a states v) a i) =
    (case map_of (rev states) i of Some flags \<Rightarrow> map_option (\<lambda>_. flags) (v_message v a i) | None \<Rightarrow> map_option e_flags (v_message v a i))"
proof (induction states arbitrary: v)
  case (Cons p states)
  obtain j flags where p: "p = (j, flags)" by fastforce
  have "map_option e_flags (v_message (spec_flags a (p # states) v) a i) =
      map_option e_flags (v_message (spec_flags a states (spec_update a j (with_flags flags) v)) a i)"
    by (simp add: spec_flags_def p)
  also have "\<dots> = (case map_of (rev states) i of
      Some fl \<Rightarrow> map_option (\<lambda>_. fl) (v_message (spec_update a j (with_flags flags) v) a i)
    | None \<Rightarrow> map_option e_flags (v_message (spec_update a j (with_flags flags) v) a i))"
    by (rule Cons.IH)
  also have "\<dots> = (case map_of (rev (p # states)) i of
      Some fl \<Rightarrow> map_option (\<lambda>_. fl) (v_message v a i) | None \<Rightarrow> map_option e_flags (v_message v a i))"
    by (cases "map_of (rev states) i"; cases "v_message v a i")
      (auto simp: p spec_update_def with_flags_def map_add_def split: option.split)
  finally show ?case .
qed (simp add: spec_flags_def)

lemma spec_empty: "spec_batch a f empty_batch v = v"
  by (simp add: spec_batch_def empty_batch_def spec_removals_def spec_flags_def)

lemma writer_stores:
  assumes w: "quiet_writer w" and run: "bw_store_batch batch w = (Inr (), w')"
  shows "\<exists>u. same_side w u \<and> quiet_writer w' \<and> bw_folder w' = bw_folder w \<and>
    view_of (folder_db w') = spec_batch (as_str (ref_account (bw_folder w))) (ref_identity (bw_folder w)) batch (view_of (folder_db u))"
proof (cases "batch = empty_batch")
  case True
  then have "w' = w" using run by (simp add: bw_store_batch_def)
  then show ?thesis using True w by (intro exI [of _ w]) (simp add: same_side_def spec_empty)
next
  case False
  let ?u = "meanwhile w"
  have side: "same_side w ?u" by (rule meanwhile_side [OF w])
  then obtain c where c: "reachable (bw_store ?u)" "store_connection (bw_store ?u) = Some c"
    by (auto simp: same_side_def quiet_writer_def)
  obtain r s' where r: "store_batch (bw_folder ?u) batch (bw_cancelled ?u) (bw_store ?u) = (r, s')" by fastforce
  have "r = Inr Stored"
    using run False r
    by (auto simp: bw_store_batch_def and_then_def on_result_def on_part_def sends_event_def
        split: sum.splits store_write.splits)
  have w': "bw_store w' = s'" "bw_folder w' = bw_folder ?u" "bw_user w' = bw_user ?u"
    using run False r \<open>r = Inr Stored\<close>
    by (auto simp: bw_store_batch_def and_then_def on_result_def on_part_def sends_event_def)
  have stored: "\<not> bw_cancelled ?u"
    using r \<open>r = Inr Stored\<close> c by (auto simp: store_batch_def with_connection_def run_work_def split: prod.splits sum.splits)
  have run': "store_batch (bw_folder ?u) batch False (bw_store ?u) = (Inr Stored, s')" using r \<open>r = Inr Stored\<close> stored by simp
  note view = store_batch_view(2) [OF c run']
  have "store_connection s' \<noteq> None"
    using opened_run [OF c(2) run' [unfolded store_batch_def]] by (metis option.distinct(1))
  moreover have "reachable s'"
    using reachable.step [OF c(1) store_step.batch [of _ "bw_folder ?u" batch False]] run' by simp
  ultimately show ?thesis
    using side view w' by (intro exI [of _ ?u]) (auto simp: same_side_def quiet_writer_def folder_db_def)
qed

end
