(* ===== verification/Cycle_Elsewhere.thy ===== *)
theory Cycle_Elsewhere
  imports Cycle_View
begin

text \<open>
  What is elsewhere: the other accounts' messages but for their pending values, and every other
  folder with its state and its memberships. No access of a cycle to the store touches it.
\<close>

definition unwished :: "entry \<Rightarrow> entry" where
  "unwished e = e\<lparr>e_pending := (\<lambda>_. None)\<rparr>"

definition elsewhere :: "string \<Rightarrow> string \<Rightarrow> view \<Rightarrow> view" where
  "elsewhere a f v = \<lparr>
     v_folder = (\<lambda>b g. if b = a \<and> g = f then None else v_folder v b g),
     v_message = (\<lambda>b i. if b = a then None else map_option unwished (v_message v b i)),
     v_holds = (\<lambda>b g. if b = a \<and> g = f then {} else v_holds v b g)\<rparr>"

lemma elsewhere_update: "elsewhere a f (spec_update a i g v) = elsewhere a f v"
  by (simp add: elsewhere_def spec_update_def fun_eq_iff)

lemma elsewhere_wish: "(\<And>e. unwished (g e) = unwished e) \<Longrightarrow> elsewhere a f (spec_update b i g v) = elsewhere a f v"
  by (simp add: elsewhere_def spec_update_def fun_eq_iff option.map_comp o_def)

lemma elsewhere_flags: "elsewhere a f (spec_flags a states v) = elsewhere a f v"
  unfolding spec_flags_def
  by (rule fold_keeps [where P = "\<lambda>w. elsewhere a f w = elsewhere a f v"]) (auto simp: elsewhere_update)

lemma elsewhere_hold: "elsewhere a f (spec_hold a f i v) = elsewhere a f v"
  by (auto simp: elsewhere_def spec_hold_def fun_eq_iff)

lemma elsewhere_batch: "elsewhere a f (spec_batch a f batch v) = elsewhere a f v"
proof -
  have removals: "elsewhere a f (spec_removals a f removed w) = elsewhere a f w" for removed w
    by (auto simp: spec_removals_def spec_purge_def fold_remove elsewhere_def fun_eq_iff)
  have arrive: "elsewhere a f (spec_arrive a f message w) = elsewhere a f w" for message w
    by (auto simp: spec_arrive_def elsewhere_def spec_hold_def fun_eq_iff)
  have arrived: "elsewhere a f (fold (spec_arrive a f) messages w) = elsewhere a f w" for messages w
    by (rule fold_keeps [where P = "\<lambda>u. elsewhere a f u = elsewhere a f w"]) (simp_all add: arrive)
  have known: "elsewhere a f (fold (\<lambda>(i, _). spec_known a f i) known w) = elsewhere a f w" for known and w :: view
    by (rule fold_keeps [where P = "\<lambda>u. elsewhere a f u = elsewhere a f w"]) (auto simp: spec_known_def elsewhere_hold)
  have state: "elsewhere a f (spec_state a f st w) = elsewhere a f w" for st w
    by (auto simp: spec_state_def elsewhere_def fun_eq_iff)
  show ?thesis
    by (simp add: spec_batch_def Let_def removals elsewhere_flags arrived known state split: option.split)
qed

section \<open>A law of the stores\<close>

definition kept_elsewhere :: "folder_ref \<Rightarrow> view \<Rightarrow> store \<Rightarrow> bool" where
  "kept_elsewhere folder E s \<longleftrightarrow> reachable s \<and> store_connection s \<noteq> None \<and>
     elsewhere (as_str (ref_account folder)) (ref_identity folder) (view_of (current_db s)) = E"

definition rest_fine :: "folder_ref \<Rightarrow> view \<Rightarrow> db \<Rightarrow> bool" where
  "rest_fine folder E d \<longleftrightarrow> tables_ok d \<and> elsewhere (as_str (ref_account folder)) (ref_identity folder) (view_of d) = E"

lemma kept_with_connection:
  assumes s: "kept_elsewhere folder E s" and work: "db_keeps (rest_fine folder E) work"
    and step: "reachable (snd (with_connection operation work s))"
  shows "kept_elsewhere folder E (snd (with_connection operation work s))"
proof -
  obtain c where c: "store_connection s = Some c" using s by (auto simp: kept_elsewhere_def)
  obtain r s' where run: "with_connection operation work s = (r, s')" by fastforce
  obtain x c' where x: "work c = (x, c')" "current_db s' = conn_db c'" "store_connection s' = Some c'" "current_db s = conn_db c"
    by (rule opened_run [OF c run]) blast
  have "rest_fine folder E (conn_db c)"
    using s x(4) opened_ok(1) [of s] by (simp add: kept_elsewhere_def rest_fine_def)
  then have "rest_fine folder E (conn_db c')"
    using work x(1) keepsD_eq [of "\<lambda>c. rest_fine folder E (conn_db c)" work c x c'] by (simp add: db_keeps_def)
  then show ?thesis using x run step by (simp add: kept_elsewhere_def rest_fine_def)
qed

lemma rest_update:
  assumes "harmless assign" and "\<And>m. message_row_ok m \<Longrightarrow> entry_of (assign m) = g (entry_of m)" and "rest_fine folder E d"
  shows "rest_fine folder E (sql_update_message (as_str (ref_account folder)) i assign d)"
  using assms(3) view_update_message [OF _ assms(1,2), of d "as_str (ref_account folder)" i] tables_ok_update_message [OF _ assms(1)]
  by (simp add: rest_fine_def elsewhere_update)

lemma entry_of_settle: "entry_of (settle_row flag v m) =
    (entry_of m)\<lparr>e_flags := (case flag of Seen \<Rightarrow> (e_flags (entry_of m))\<lparr>flags_seen := v\<rparr> | Flagged \<Rightarrow> (e_flags (entry_of m))\<lparr>flags_flagged := v\<rparr>),
      e_pending := (e_pending (entry_of m))(flag := nullif (e_pending (entry_of m) flag) v)\<rparr>"
  by (cases flag) (simp_all add: entry_of_def settle_row_def set_server_value_def set_pending_value_def pending_value_def
      stored_content_def fun_eq_iff cong: option.case_cong split: message_flag.split)

lemma entry_of_drop: "entry_of (drop_row flag v m) =
    (entry_of m)\<lparr>e_pending := (e_pending (entry_of m))(flag := nullif (e_pending (entry_of m) flag) v)\<rparr>"
  by (cases flag) (simp_all add: entry_of_def drop_row_def set_pending_value_def pending_value_def
      stored_content_def fun_eq_iff cong: option.case_cong split: message_flag.split)

lemma entry_of_wish: "entry_of (set_pending_value flag v m) = (entry_of m)\<lparr>e_pending := (e_pending (entry_of m))(flag := v)\<rparr>"
  by (cases flag) (simp_all add: entry_of_def set_pending_value_def pending_value_def
      stored_content_def fun_eq_iff cong: option.case_cong split: message_flag.split)

lemma kept_update_messages:
  assumes s: "kept_elsewhere folder E s" and h: "harmless assign"
    and g: "\<And>m. message_row_ok m \<Longrightarrow> entry_of (assign m) = g (entry_of m)"
    and step: "reachable (snd (update_messages (ref_account folder) identities assign s))"
  shows "kept_elsewhere folder E (snd (update_messages (ref_account folder) identities assign s))"
  using step unfolding update_messages_def
  by (intro kept_with_connection [OF s] db_keeps_transaction [OF computes_update_messages [where P = "\<lambda>_. True"]])
    (auto intro!: fold_keeps [where P = "rest_fine folder E"] rest_update [OF h g])

lemma kept_reads:
  assumes "kept_elsewhere folder E s"
  shows "kept_elsewhere folder E (snd (read_folder_sync folder s))"
    and "kept_elsewhere folder E (snd (identities_in_other_folders folder identities s))"
    and "kept_elsewhere folder E (snd (stored_identities account identities s))"
    and "kept_elsewhere folder E (snd (pending_changes folder s))"
    and "kept_elsewhere folder E (snd (read_folder_rows other s))"
proof -
  have r: "reachable s" using assms by (simp add: kept_elsewhere_def)
  show "kept_elsewhere folder E (snd (read_folder_sync folder s))"
    using reachable.step [OF r store_step.sync [of _ folder]] unfolding read_folder_sync_def
    by (rule kept_with_connection [OF assms, rotated])
      (unfold stored_folder_id_def read_folder_state_def read_folder_identities_def, intro db_keeps_reads)
  show "kept_elsewhere folder E (snd (identities_in_other_folders folder identities s))"
    using reachable.step [OF r store_step.elsewhere [of _ folder identities]] unfolding identities_in_other_folders_def
    by (rule kept_with_connection [OF assms, rotated])
      (unfold stored_folder_id_def read_identities_in_other_folders_def, intro db_keeps_reads)
  show "kept_elsewhere folder E (snd (stored_identities account identities s))"
    using reachable.step [OF r store_step.identities [of _ account identities]] unfolding stored_identities_def
    by (rule kept_with_connection [OF assms, rotated]) (unfold read_stored_identities_def, intro db_keeps_reads)
  show "kept_elsewhere folder E (snd (pending_changes folder s))"
    using reachable.step [OF r store_step.changes [of _ folder]] unfolding pending_changes_def
    by (rule kept_with_connection [OF assms, rotated])
      (unfold stored_folder_id_def read_pending_changes_def, intro db_keeps_reads)
  show "kept_elsewhere folder E (snd (read_folder_rows other s))"
    using reachable_user [OF r, of "UserReads other"] unfolding act_on_store_def user_act.case read_folder_rows_def
    by (rule kept_with_connection [OF assms, rotated])
      (unfold stored_folder_id_def read_listed_rows_def read_folder_state_def,
        auto intro!: db_keeps_reads split: option.split simp del: ret_run)
qed

lemma kept_batch:
  assumes "kept_elsewhere folder E s"
  shows "kept_elsewhere folder E (snd (store_batch folder batch cancelled s))"
proof -
  obtain c where c: "reachable s" "store_connection s = Some c" using assms by (auto simp: kept_elsewhere_def)
  obtain r s' where run: "store_batch folder batch cancelled s = (r, s')" by fastforce
  have reach: "reachable s'" using reachable.step [OF c(1) store_step.batch [of _ folder batch cancelled]] run by simp
  obtain c' where c': "store_connection s' = Some c'"
    by (rule opened_run [OF c(2) run [unfolded store_batch_def]]) blast
  have "elsewhere (as_str (ref_account folder)) (ref_identity folder) (view_of (current_db s')) =
      elsewhere (as_str (ref_account folder)) (ref_identity folder) (view_of (current_db s))"
  proof (cases cancelled)
    case True
    then have "current_db s' = current_db s"
      using run c(2) by (auto simp: store_batch_def with_connection_def run_work_def current_db_def split: prod.splits sum.splits)
    then show ?thesis by simp
  next
    case False
    show ?thesis
    proof (cases r)
      case (Inl e)
      have "with_connection Write (transaction (store_batch_body folder batch)) s = (r, s')"
        using run False by (simp add: store_batch_def)
      from opened_transaction(1) [OF c(2) this computes_batch_body] Inl show ?thesis by simp
    next
      case (Inr w)
      have "store_batch folder batch False s = (Inr w, s')" using run False Inr by simp
      from store_batch_view(2) [OF c this] show ?thesis by (simp add: elsewhere_batch)
    qed
  qed
  then show ?thesis using assms reach c' run by (simp add: kept_elsewhere_def)
qed

lemma kept_user: "quiet_act act \<Longrightarrow> kept_elsewhere folder E s \<Longrightarrow> kept_elsewhere folder E (act_on_store act s)"
proof (cases act)
  case (UserFlag account identity flag wanted)
  assume s: "kept_elsewhere folder E s"
  have "db_keeps (rest_fine folder E) (execute (sql_update_message (as_str account) identity (set_pending_value flag (Some wanted))))"
    unfolding execute_def
  proof (rule db_keeps_statement)
    fix d and x :: unit and d'
    assume d: "rest_fine folder E d"
      and eq: "(Inr ((), sql_update_message (as_str account) identity (set_pending_value flag (Some wanted)) d) :: sqlite_error + unit \<times> db) = Inr (x, d')"
    have "tables_ok d" using d by (simp add: rest_fine_def)
    note view = view_update_message [OF this harmless_pending entry_of_wish, of "as_str account" identity]
    show "rest_fine folder E d'"
      using d eq view tables_ok_update_message [OF _ harmless_pending]
      by (auto simp: rest_fine_def elsewhere_wish unwished_def)
  qed
  moreover have "reachable (snd (write_pending_flag account identity flag wanted s))"
    using reachable_user [of s act] s UserFlag by (simp add: kept_elsewhere_def act_on_store_def)
  ultimately show ?thesis
    using s UserFlag unfolding act_on_store_def write_pending_flag_def by (simp add: kept_with_connection)
qed (simp_all add: act_on_store_def kept_reads)

interpretation rest: store_law "kept_elsewhere folder E" folder quiet_act
  for folder E
proof unfold_locales
  fix s :: store and identities flag v
  assume s: "kept_elsewhere folder E s"
  have r: "reachable s" using s by (simp add: kept_elsewhere_def)
  show "kept_elsewhere folder E (snd (settle_flags (ref_account folder) identities flag v s))"
    using reachable.step [OF r store_step.settle [of _ "ref_account folder" identities flag v]] unfolding settle_flags_def
    by (rule kept_update_messages [OF s harmless_settle, rotated]) (rule entry_of_settle)
  show "kept_elsewhere folder E (snd (drop_pending_flags (ref_account folder) identities flag v s))"
    using reachable.step [OF r store_step.refuse [of _ "ref_account folder" identities flag v]] unfolding drop_pending_flags_def
    by (rule kept_update_messages [OF s harmless_drop, rotated]) (rule entry_of_drop)
qed (simp_all add: kept_reads kept_batch kept_user)

end
