(* ===== verification/Imap_Laws.thy ===== *)
theory Imap_Laws
  imports Imap_Reader
begin

text \<open>
  What every run of the reader keeps, whatever the server answers: an interface of laws on the history
  of commands, its two interpretations on the reader (the credentials travel only over TLS; the only
  change of mail is of two flags), and the properties of a reader's life.
\<close>

section \<open>Commands\<close>

definition secret :: "imap_command \<Rightarrow> bool" where
  "secret c \<longleftrightarrow> (case c of CmdLogin _ _ \<Rightarrow> True | CmdResponse _ \<Rightarrow> True | _ \<Rightarrow> False)"

definition connects :: "imap_command \<Rightarrow> bool" where
  "connects c \<longleftrightarrow> (case c of CmdConnect _ _ \<Rightarrow> True | _ \<Rightarrow> False)"

text \<open>The connection is secured: its TLS handshake succeeded, and no other connection was opened since.\<close>

definition secured :: "(imap_command list \<Rightarrow> answer) \<Rightarrow> imap_command list \<Rightarrow> bool" where
  "secured server h \<longleftrightarrow> (\<exists>before encryption after. h = before @ CmdHandshake encryption # after \<and>
     ans_error (server (before @ [CmdHandshake encryption])) = None \<and> (\<forall>c \<in> set after. \<not> connects c))"

definition reading_items :: "string \<Rightarrow> bool" where
  "reading_items items \<longleftrightarrow> (\<exists>r. items = listing_items r) \<or>
     (\<exists>r since. items = listing_items r @ '' (CHANGEDSINCE '' @ decimal since @ '')'') \<or>
     (\<exists>r b. items = row_command_items r b) \<or> items = structure_items \<or> (\<exists>parts limit. items = text_items (section_paths parts) limit)"

text \<open>The commands the program sends besides its credentials.\<close>

definition ordinary :: "imap_command \<Rightarrow> bool" where
  "ordinary c \<longleftrightarrow> (case c of
     CmdLogin _ _ \<Rightarrow> False
   | CmdResponse _ \<Rightarrow> False
   | CmdRun words \<Rightarrow> words = ''COMPRESS DEFLATE'' \<or> words = ''ENABLE UTF8=ACCEPT'' \<or> starts_with ''ID ('' words
   | CmdUidFetch _ items \<Rightarrow> reading_items items
   | CmdUidStore _ change \<Rightarrow> (\<exists>flag on. change = store_change flag on)
   | _ \<Rightarrow> True)"

lemma secured_ordinary: "secured server h \<Longrightarrow> \<not> connects c \<Longrightarrow> secured server (h @ [c])"
proof -
  assume "secured server h" and c: "\<not> connects c"
  then obtain b e a where "h = b @ CmdHandshake e # a" "ans_error (server (b @ [CmdHandshake e])) = None" "\<forall>c \<in> set a. \<not> connects c"
    unfolding secured_def by blast
  then show ?thesis unfolding secured_def
    by (intro exI [of _ b] exI [of _ e] exI [of _ "a @ [c]"]) (use c in auto)
qed

lemma secured_handshake: "ans_error (server (h @ [CmdHandshake e])) = None \<Longrightarrow> secured server (h @ [CmdHandshake e])"
  unfolding secured_def by (intro exI [of _ h] exI [of _ e] exI [of _ "[]"]) simp

lemma reading_items_intros [simp, intro]:
  "reading_items (listing_items r)" "reading_items (listing_items r @ '' (CHANGEDSINCE '' @ decimal n @ '')'')"
  "reading_items (row_command_items r b)" "reading_items structure_items" "reading_items (text_items (section_paths parts) limit)"
  unfolding reading_items_def by blast+

lemma command_wire:
  "w_server (snd (command c w)) = w_server w" "w_sent (snd (command c w)) = w_sent w @ [c]"
  by (simp_all add: command_def Let_def)

lemma keeps_then:
  "triple P m (\<lambda>_. Q) (\<lambda>_. P) \<Longrightarrow> (\<And>x. keeps Q (k x)) \<Longrightarrow> (\<And>s. Q s \<Longrightarrow> P s) \<Longrightarrow> keeps P (and_then m k)"
proof (rule keepsI)
  fix s
  assume m: "triple P m (\<lambda>_. Q) (\<lambda>_. P)" and k: "\<And>x. keeps Q (k x)" and QP: "\<And>s. Q s \<Longrightarrow> P s" and s: "P s"
  show "P (snd (and_then m k s))"
  using m s
  proof (cases rule: triple_cases)
    case (error e t)
    then show ?thesis by (simp add: and_then_err)
  next
    case (ok x t)
    then show ?thesis using keepsD [OF k ok(2)] QP by (simp add: and_then_ok)
  qed
qed

section \<open>Laws of a reader\<close>

lemma fails_never [simp]: "fails failure r = (Inr x, t) \<longleftrightarrow> False"
  by (auto simp: fails_def on_wire_def on_part_def wire_error_def and_then_def split: prod.splits sum.splits)

lemma keeps_end: "(\<And>e. keeps P (m e)) \<Longrightarrow> keeps P n \<Longrightarrow> (\<And>s. keeps P (k s)) \<Longrightarrow>
    keeps P (case x of FetchCompleted \<Rightarrow> n | FetchRejected s \<Rightarrow> k s | FetchFailed e \<Rightarrow> m e)"
  by (cases x) simp_all

text \<open>
  A property of readers that each step of a session, each command and a new opening of the mailbox
  under the same numbering keep. Every operation of the reader then keeps it.
\<close>

locale reader_law =
  fixes P :: "mailbox_reader \<Rightarrow> bool"
  assumes law_open: "keeps P (on_wire (open_mailbox account options mbox))"
    and law_select: "keeps P (on_wire (open_selected mbox condstore))"
    and law_command: "ordinary c \<Longrightarrow> keeps P (on_wire (command c) :: answer reading)"
    and law_notices: "keeps P (on_wire (on_notices f) :: unit reading)"
    and law_error: "keeps P (on_wire (wire_error login failure) :: imap_error reading)"
    and law_numbers: "P r \<Longrightarrow> mb_uid_validity numbers = mb_uid_validity (rd_numbers r) \<Longrightarrow>
      P (r\<lparr>rd_numbers := numbers, rd_condstore := d, rd_needs_reconnect := b\<rparr>)"
begin

lemma keeps_fails [keeps_intros]: "keeps P (fails failure)"
  unfolding fails_def by (intro keeps_intros law_error)

lemma keeps_session_step: "keeps P (on_wire m) \<Longrightarrow> keeps P (session_step m)"
  unfolding session_step_def by (intro keeps_intros)

lemma keeps_new_numbers:
  assumes "\<And>r. f r = r\<lparr>rd_numbers := numbers, rd_condstore := rd_condstore (f r), rd_needs_reconnect := rd_needs_reconnect (f r)\<rparr>"
  shows "keeps P (and_then (require_same_numbering numbers) (\<lambda>_. changes f))"
proof (rule keepsI)
  fix r assume r: "P r"
  have "P (f r)" if "mb_uid_validity numbers = mb_uid_validity (rd_numbers r)"
    using law_numbers [OF r that] assms by metis
  moreover have "P (snd ((fails (step_failure_from ImapMailboxChanged) :: unit reading) r))"
    by (rule keepsD [OF keeps_fails r])
  ultimately show "P (snd (and_then (require_same_numbering numbers) (\<lambda>_. changes f) r))"
    by (auto simp: require_same_numbering_def and_then_def split: prod.splits sum.splits)
qed

lemma keeps_broken [keeps_intros]: "keeps P (changes (\<lambda>r. r\<lparr>rd_needs_reconnect := b\<rparr>))"
proof (rule keeps_changes)
  fix r assume "P r"
  from law_numbers [OF this refl, of b "rd_condstore r"] show "P (r\<lparr>rd_needs_reconnect := b\<rparr>)" by simp
qed

lemma keeps_reconnect [keeps_intros]: "keeps P reconnect"
  unfolding reconnect_def
  by (intro keeps_intros law_command keeps_session_step law_open keeps_new_numbers) (simp_all add: ordinary_def)

lemma keeps_reconnect_if_needed [keeps_intros]: "keeps P reconnect_if_needed"
  unfolding reconnect_if_needed_def by (intro keeps_intros)

lemma keeps_reopen [keeps_intros]: "keeps P reopen"
  unfolding reopen_def by (intro keeps_intros keeps_session_step law_select keeps_new_numbers) simp

lemma keeps_refusal [keeps_intros]: "keeps P (reader_refusal reply)"
  unfolding reader_refusal_def by (intro keeps_intros)

lemma keeps_collect_reader [keeps_intros]: "keeps P collect_reader"
  unfolding collect_reader_def by (rule law_notices)

lemma keeps_fetch_listing: "reading_items items \<Longrightarrow> keeps P (fetch_listing uids items)"
  unfolding fetch_listing_def Let_def
  by (intro keeps_intros law_command)
     (auto intro!: keeps_intros split: option.split net_error.split simp: ordinary_def simp del: ret_run throw_run)

lemma keeps_reader_list [keeps_intros]: "keeps P (reader_list items since)"
  unfolding reader_list_def Let_def
  by (intro keeps_intros keeps_fetch_listing; cases since) (simp_all only: option.case reading_items_intros)

lemma keeps_list_messages [keeps_intros]: "keeps P (list_messages items)"
  unfolding list_messages_def by (intro keeps_intros)

lemma keeps_list_changed_flags [keeps_intros]: "keeps P (list_changed_flags since items)"
  unfolding list_changed_flags_def by (intro keeps_intros)

lemma keeps_fetch_flags_of [keeps_intros]: "keeps P (fetch_flags_of uids)"
  unfolding fetch_flags_of_def by (intro keeps_fetch_listing) simp

lemma keeps_reader_fetch: "reading_items items \<Longrightarrow> keeps P (reader_fetch uids items)"
  unfolding reader_fetch_def Let_def
  by (intro keeps_intros law_command) (simp_all add: ordinary_def)

lemma keeps_fetch_structure_apart [keeps_intros]: "keeps P (fetch_structure_apart row)"
  unfolding fetch_structure_apart_def Let_def
  by (intro keeps_intros keeps_reader_fetch keeps_end) simp

lemma keeps_read_unanswered_apart [keeps_intros]: "keeps P (read_unanswered_apart uids items rows)"
  unfolding read_unanswered_apart_def fetch_structures_apart_def Let_def
  by (intro keeps_intros keeps_reader_fetch keeps_end) simp

lemma keeps_fetch_rows_by_uid [keeps_intros]: "keeps P (fetch_rows_by_uid uids items)"
  unfolding fetch_rows_by_uid_def Let_def
  by (intro keeps_intros keeps_reader_fetch keeps_end) simp

lemma keeps_fetch_shape [keeps_intros]: "keeps P (fetch_shape shape)"
proof -
  obtain parts limit uids where "shape = ((parts, limit), uids)" by (metis surj_pair)
  then show ?thesis unfolding fetch_shape_def Let_def
    by (simp only: prod.case) (intro keeps_intros keeps_reader_fetch keeps_end reading_items_intros)
qed

lemma keeps_fetch_text [keeps_intros]: "keeps P (fetch_text requests)"
  unfolding fetch_text_def by (intro keeps_intros)

lemma keeps_store_flags [keeps_intros]: "keeps P (store_flags uids flag on)"
  unfolding store_flags_def Let_def
  by (intro keeps_intros law_command)
     (auto intro!: keeps_intros law_error split: fetch_end.split net_error.split simp: ordinary_def simp del: ret_run throw_run)

end

text \<open>The session after its handshake.\<close>

definition after_handshake :: "imap_account \<Rightarrow> open_options \<Rightarrow> imap_step \<Rightarrow> (string list \<times> bool) stepping" where
  "after_handshake account options s =
     and_then (on_notices follow_notices) (\<lambda>_.
     and_then (only_if (acc_encryption account = ImplicitTls) read_greeting) (\<lambda>_.
     and_then (sign_in account) (\<lambda>_.
     and_then (collected CmdCapabilities (command_failure s)) (\<lambda>a.
     (let capabilities = ans_capabilities a in
     and_then (only_if (''COMPRESS=DEFLATE'' \<in> set capabilities) (compress_session s)) (\<lambda>_.
     and_then (if ''UTF8=ACCEPT'' \<in> set capabilities \<or> ''UTF8=ONLY'' \<in> set capabilities
               then enable_utf8_names s else ret False) (\<lambda>utf8_names.
     and_then (case options of Some identity \<Rightarrow> identify_client identity s | None \<Rightarrow> ret ()) (\<lambda>_.
     and_then (on_notices collect_notices) (\<lambda>_.
     ret (capabilities, utf8_names))))))))))"

lemma sign_in_session_eq: "sign_in_session account options s =
     and_then (connect (acc_host account) (acc_encryption account)) (\<lambda>_.
     and_then (only_if (acc_encryption account = StartTls) upgrade_plaintext) (\<lambda>_.
     and_then (start_tls (acc_encryption account)) (\<lambda>_.
     after_handshake account options s)))"
  by (simp only: sign_in_session_def after_handshake_def)

section \<open>Laws of a history\<close>

locale history_law =
  fixes fine :: "(imap_command list \<Rightarrow> answer) \<Rightarrow> imap_command list \<Rightarrow> bool"
  assumes law_ordinary: "fine server h \<Longrightarrow> ordinary c \<Longrightarrow> fine server (h @ [c])"
    and law_secret: "fine server h \<Longrightarrow> secured server h \<Longrightarrow> secret c \<Longrightarrow> fine server (h @ [c])"
begin

definition wire_fine :: "wire \<Rightarrow> bool" where
  "wire_fine w \<longleftrightarrow> fine (w_server w) (w_sent w)"

definition wire_secured :: "wire \<Rightarrow> bool" where
  "wire_secured w \<longleftrightarrow> wire_fine w \<and> secured (w_server w) (w_sent w)"

lemma secured_fine: "wire_secured w \<Longrightarrow> wire_fine w"
  by (simp add: wire_secured_def)

lemma keeps_command: "ordinary c \<Longrightarrow> keeps wire_fine (command c)"
  by (rule keepsI) (simp add: wire_fine_def command_wire law_ordinary)

lemma keeps_command_secured: "ordinary c \<or> secret c \<Longrightarrow> \<not> connects c \<Longrightarrow> keeps wire_secured (command c)"
  by (rule keepsI) (auto simp: wire_secured_def wire_fine_def command_wire law_ordinary law_secret secured_ordinary)

lemma keeps_notices [keeps_intros]: "keeps wire_fine (on_notices f)" "keeps wire_secured (on_notices f)"
  unfolding on_notices_def by (rule keeps_changes; simp add: wire_fine_def wire_secured_def)+

lemma keeps_compressed [keeps_intros]:
  "keeps wire_fine (changes (\<lambda>w. w\<lparr>w_compressed := b\<rparr>))" "keeps wire_secured (changes (\<lambda>w. w\<lparr>w_compressed := b\<rparr>))"
  by (rule keeps_changes; simp add: wire_fine_def wire_secured_def)+

lemma keeps_wire_error [keeps_intros]: "keeps wire_fine (wire_error login failure)"
  by (rule keepsI) (simp add: wire_error_def wire_fine_def split: prod.splits)

lemma keeps_checked: "keeps P (command c :: answer stepping) \<Longrightarrow> keeps P (checked c h)"
  unfolding checked_def by (intro keeps_intros)

lemma keeps_collected: "keeps P (command c :: answer stepping) \<Longrightarrow> (\<And>f. keeps P (on_notices f :: unit stepping)) \<Longrightarrow> keeps P (collected c h)"
  unfolding collected_def by (intro keeps_intros)

lemma keeps_connect: "keeps wire_fine (connect host e)"
  unfolding connect_def by (intro keeps_intros keeps_checked keeps_command) (simp add: ordinary_def)

lemma keeps_upgrade: "keeps wire_fine upgrade_plaintext"
  unfolding upgrade_plaintext_def
  by (auto intro!: keeps_intros keeps_checked keeps_command split: option.split response.split status.split
      simp: ordinary_def simp del: ret_run throw_run)

lemma triple_start_tls: "triple wire_fine (start_tls e) (\<lambda>_. wire_secured) (\<lambda>_. wire_fine)"
  by (auto simp: triple_def start_tls_def checked_def and_then_def command_def Let_def wire_secured_def wire_fine_def
      law_ordinary ordinary_def secured_handshake split: option.splits)

lemma keeps_greeting: "keeps wire_secured read_greeting"
  unfolding read_greeting_def
  by (auto intro!: keeps_intros keeps_checked keeps_command_secured split: option.split response.split status.split
      simp: ordinary_def connects_def simp del: ret_run throw_run)

lemma responses_secret: "c \<in> set (challenge_responses process sent challenges) \<Longrightarrow> secret c \<and> \<not> connects c"
  by (induction challenges arbitrary: sent) (auto simp: secret_def connects_def split: prod.splits)

lemma append_secured: "\<forall>c \<in> set cs. secret c \<and> \<not> connects c \<Longrightarrow> wire_secured w \<Longrightarrow> wire_secured (w\<lparr>w_sent := w_sent w @ cs\<rparr>)"
proof (induction cs rule: rev_induct)
  case (snoc c cs)
  then have "wire_secured (w\<lparr>w_sent := w_sent w @ cs\<rparr>)" by simp
  then show ?case using snoc.prems(1)
    by (auto simp: wire_secured_def wire_fine_def law_secret secured_ordinary simp flip: append_assoc)
qed simp

lemma keeps_authenticate: "keeps wire_secured (authenticate mechanism process)"
  unfolding authenticate_def
  by (intro keeps_intros keeps_command_secured keeps_changes append_secured)
     (auto simp: ordinary_def connects_def dest: responses_secret)

lemma keeps_sign_in: "keeps wire_secured (sign_in account)"
  unfolding sign_in_def Let_def
  by (intro keeps_intros keeps_collected keeps_command_secured)
     (auto intro!: keeps_intros keeps_authenticate keeps_checked keeps_command_secured split: credential.split
      simp: ordinary_def secret_def connects_def simp del: ret_run throw_run)

lemma keeps_accepted:
  "words = ''COMPRESS DEFLATE'' \<or> words = ''ENABLE UTF8=ACCEPT'' \<or> starts_with ''ID ('' words \<Longrightarrow> keeps wire_secured (accepted words s)"
  unfolding accepted_def
  by (intro keeps_intros keeps_command_secured)
     (auto intro!: keeps_intros split: option.split net_error.split simp: ordinary_def connects_def simp del: ret_run throw_run)

lemma keeps_identify: "keeps wire_secured (identify_client identity s)"
  unfolding identify_client_def Let_def by (intro keeps_intros keeps_accepted) (simp add: starts_with_iff)

lemma keeps_after_handshake: "keeps wire_secured (after_handshake account options s)"
  unfolding after_handshake_def compress_session_def enable_utf8_names_def Let_def
  by (intro keeps_intros keeps_greeting keeps_sign_in keeps_collected keeps_command_secured keeps_identify keeps_accepted)
     (simp_all add: ordinary_def connects_def)

lemma keeps_sign_in_session [keeps_intros]: "keeps wire_fine (sign_in_session account options s)"
  unfolding sign_in_session_eq
  by (intro keeps_and_then keeps_then [OF triple_start_tls] keeps_only_if keeps_connect keeps_upgrade keeps_after_handshake secured_fine)

lemma keeps_select_secured: "keeps wire_secured (select_mailbox capabilities mailbox)"
  unfolding select_mailbox_def open_selected_def Let_def
  by (intro keeps_intros keeps_collected keeps_command_secured) (simp_all add: ordinary_def connects_def)

lemma keeps_open_selected [keeps_intros]: "keeps wire_fine (open_selected mailbox condstore)"
  unfolding open_selected_def by (intro keeps_intros keeps_collected keeps_command) (simp add: ordinary_def)

lemma keeps_open_mailbox [keeps_intros]: "keeps wire_fine (open_mailbox account options mailbox)"
  unfolding open_mailbox_def select_mailbox_def Let_def by (intro keeps_intros)

lemma keeps_list_mailboxes: "keeps wire_fine (list_mailboxes account options)"
  unfolding list_mailboxes_def sign_in_and_list_def
  by (intro keeps_intros keeps_collected keeps_command) (simp add: ordinary_def)

definition reader_fine :: "mailbox_reader \<Rightarrow> bool" where
  "reader_fine r \<longleftrightarrow> wire_fine (rd_wire r)"

lemma keeps_on_wire: "keeps wire_fine m \<Longrightarrow> keeps reader_fine (on_wire m)"
  unfolding on_wire_def by (rule keeps_on_part [where Q = wire_fine]) (simp_all add: reader_fine_def)

lemma reader_fine_law: "reader_law reader_fine"
  by (unfold_locales; (intro keeps_on_wire keeps_intros keeps_command)?) (simp_all add: reader_fine_def)

lemma open_reader_fine: "wire_fine w \<Longrightarrow> open_reader account options mbox w = (r, w') \<Longrightarrow>
    wire_fine w' \<and> (\<forall>reader. r = Inr reader \<longrightarrow> reader_fine reader)"
  using keepsD [OF keeps_open_mailbox, of w account options mbox]
  by (auto simp: open_reader_def wire_error_def wire_fine_def reader_fine_def split: prod.splits sum.splits)

end

sublocale history_law \<subseteq> reader: reader_law reader_fine
  by (rule reader_fine_law)

end
