(* ===== verification/Cycle_Laws.thy ===== *)
theory Cycle_Laws
  imports Cycle_Imap Imap_Laws
begin

text \<open>
  What every operation of an IMAP cycle keeps, proved once from the law of the stores and the law of the
  readers it is put together from.
\<close>

lemma keeps_fold_each [keeps_intros]: "(\<And>x a. keeps P (f x a)) \<Longrightarrow> keeps P (fold_each f xs a)"
  by (induction xs arbitrary: a) (simp_all add: keeps_intros)

locale imap_cycle_law = store_law holds folder may + server: reader_law P
  for holds :: "store \<Rightarrow> bool" and folder :: folder_ref and may :: "user_act \<Rightarrow> bool" and P :: "mailbox_reader \<Rightarrow> bool"
begin

lemma keeps_read_contents: "keeps P (read_contents parser rows recent)"
  unfolding read_contents_def Let_def by (intro keeps_and_then server.keeps_fetch_text keeps_ret)

lemma keeps_asked [keeps_intros]: "keeps P m \<Longrightarrow> keeps (cycle_fine writer_ok P) (in_server ended m)"
  by (rule keeps_in_server [OF _ writer_meanwhile])

lemma keeps_waited [keeps_intros]: "keeps (cycle_fine writer_ok P) waits"
  by (rule keeps_waits [OF writer_meanwhile])

lemma keeps_end_changes [keeps_intros]: "keeps (cycle_fine writer_ok P) (end_changes_the_listing_shows listed pending)"
  unfolding end_changes_the_listing_shows_def
  by (rule keeps_for_each) (auto intro!: keeps_in_batches keeps_settle)

lemma keeps_send_command [keeps_intros]: "keeps (cycle_fine writer_ok P) (send_command flag wanted messages sent)"
  unfolding send_command_def Let_def
  by (intro keeps_and_then keeps_asked server.keeps_store_flags keeps_case_option)
    (intro keeps_and_then keeps_intros keeps_in_batches server.keeps_fetch_flags_of)+

lemma keeps_send_imap_changes [keeps_intros]: "keeps (cycle_fine writer_ok P) (send_imap_changes listed sent)"
  unfolding send_imap_changes_def
  by (intro keeps_and_then keeps_in_batches keeps_bw_pending_changes keeps_fold_each) (auto intro: keeps_send_command)

lemma keeps_run_state_pass [keeps_intros]: "keeps (cycle_fine writer_ok P) (run_state_pass rule stored numbers plan)"
proof -
  have listing: "keeps (cycle_fine writer_ok P) (pass_listing rule plan)"
    unfolding pass_listing_def
    by (cases plan) (simp_all add: keeps_ret keeps_asked server.keeps_list_messages server.keeps_list_changed_flags)
  have identified: "keeps (cycle_fine writer_ok P) (identify rule listing f)" for listing f
    unfolding identify_def by (intro keeps_and_then keeps_reads keeps_case_sum keeps_throw keeps_ret)
  show ?thesis
    unfolding run_state_pass_def Let_def
    by (intro keeps_and_then listing identified keeps_reads keeps_in_batches keeps_bw_store_batch keeps_ret)
qed

lemma keeps_fetch_arrivals [keeps_intros]: "keeps (cycle_fine writer_ok P) (fetch_arrivals parser rule messages limit)"
  unfolding fetch_arrivals_def Let_def
  by (intro keeps_and_then keeps_in_batches keeps_bw_stored_identities keeps_asked server.keeps_fetch_rows_by_uid
      keeps_read_contents keeps_case_option keeps_throw keeps_ret)

lemma keeps_fetch_batches [keeps_intros]: "keeps (cycle_fine writer_ok P) (fetch_batches parser rule limit listed batches sent)"
  by (induction batches arbitrary: sent)
    (auto intro!: keeps_ret keeps_and_then keeps_fetch_arrivals keeps_in_batches keeps_bw_store_batch
      keeps_send_imap_changes keeps_case_option)

lemma keeps_second_pass [keeps_intros]: "keeps (cycle_fine writer_ok P) (second_pass rule reference)"
  unfolding second_pass_def numbers_now_def
  by (intro keeps_and_then keeps_asked server.keeps_reopen keeps_in_batches keeps_bw_read_folder_sync keeps_reads keeps_run_state_pass)

lemma keeps_imap_cycle: "keeps (cycle_fine writer_ok P) (imap_cycle parser rule limit)"
  unfolding imap_cycle_def numbers_now_def Let_def
  apply (intro keeps_and_then keeps_in_batches keeps_bw_read_folder_sync keeps_bw_pending_changes keeps_reads
      keeps_run_state_pass keeps_end_changes keeps_send_imap_changes keeps_fetch_batches)
  apply (auto intro!: keeps_case_option keeps_ret keeps_if keeps_and_then keeps_second_pass)
  done

end

end
