(* ===== verification/Imap_Claims.thy ===== *)
theory Imap_Claims
  imports Imap_Laws
begin

text \<open>
  The life of a reader: the steps it may take, the interpretations of the laws on it, and the
  properties that hold of every life with every server.
\<close>

section \<open>Steps\<close>

inductive reader_step :: "mailbox_reader \<Rightarrow> mailbox_reader \<Rightarrow> bool" where
  listing: "reader_step r (snd (list_messages items r))"
| changed: "reader_step r (snd (list_changed_flags since items r))"
| flags: "reader_step r (snd (fetch_flags_of uids r))"
| rows: "reader_step r (snd (fetch_rows_by_uid uids items r))"
| texts: "reader_step r (snd (fetch_text requests r))"
| storing: "reader_step r (snd (store_flags uids flag on r))"
| reopening: "reader_step r (snd (reopen r))"

inductive reader_reached :: "(imap_command list \<Rightarrow> answer) \<Rightarrow> mailbox_reader \<Rightarrow> bool" where
  opened: "open_reader account options mbox (new_wire server) = (Inr r, w) \<Longrightarrow> reader_reached server r"
| stepped: "reader_reached server r \<Longrightarrow> reader_step r r' \<Longrightarrow> reader_reached server r'"

text \<open>The wires the program leaves: of a reader, of one that could not be opened, of a list of mailboxes.\<close>

inductive wire_reached :: "(imap_command list \<Rightarrow> answer) \<Rightarrow> wire \<Rightarrow> bool" where
  of_reader: "reader_reached server r \<Longrightarrow> wire_reached server (rd_wire r)"
| of_opening: "wire_reached server (snd (open_reader account options mbox (new_wire server)))"
| of_listing: "wire_reached server (snd (list_mailboxes account options (new_wire server)))"

context reader_law
begin

lemma step_keeps: "reader_step r r' \<Longrightarrow> P r \<Longrightarrow> P r'"
  by (induction rule: reader_step.induct)
     (auto intro: keepsD [OF keeps_list_messages] keepsD [OF keeps_list_changed_flags] keepsD [OF keeps_fetch_flags_of]
       keepsD [OF keeps_fetch_rows_by_uid] keepsD [OF keeps_fetch_text] keepsD [OF keeps_store_flags] keepsD [OF keeps_reopen])

end

context history_law
begin

lemma reached_fine: "reader_reached server r \<Longrightarrow> fine server [] \<Longrightarrow> reader_fine r"
proof (induction rule: reader_reached.induct)
  case (opened account options mbox server r w)
  then have "wire_fine (new_wire server)" by (simp add: wire_fine_def new_wire_def)
  then show ?case using open_reader_fine opened by blast
next
  case (stepped server r r')
  then show ?case using reader.step_keeps by blast
qed

lemma wire_reached_fine:
  assumes start: "fine server []" and reached: "wire_reached server w"
  shows "fine (w_server w) (w_sent w)"
proof -
  have new: "wire_fine (new_wire server)" using start by (simp add: wire_fine_def new_wire_def)
  from reached have "wire_fine w"
  proof cases
    case (of_reader r)
    then show ?thesis using reached_fine [OF _ start] by (simp add: reader_fine_def)
  next
    case (of_opening account options mbox)
    then show ?thesis using open_reader_fine [OF new] by (metis prod.collapse)
  next
    case (of_listing account options)
    then show ?thesis using keepsD [OF keeps_list_mailboxes new] by simp
  qed
  then show ?thesis by (simp add: wire_fine_def)
qed

end

section \<open>The laws on the reader's definitions\<close>

definition secrets_secured :: "(imap_command list \<Rightarrow> answer) \<Rightarrow> imap_command list \<Rightarrow> bool" where
  "secrets_secured server h \<longleftrightarrow> (\<forall>before c after. h = before @ c # after \<longrightarrow> secret c \<longrightarrow> secured server before)"

lemma secrets_secured_snoc: "secrets_secured server h \<Longrightarrow> (secret c \<Longrightarrow> secured server h) \<Longrightarrow> secrets_secured server (h @ [c])"
  unfolding secrets_secured_def
proof (intro allI impI)
  fix before d after
  assume old: "\<forall>before c after. h = before @ c # after \<longrightarrow> secret c \<longrightarrow> secured server before"
    and new: "secret c \<Longrightarrow> secured server h" and split: "h @ [c] = before @ d # after" and d: "secret d"
  show "secured server before"
  proof (cases after rule: rev_cases)
    case Nil
    then show ?thesis using split new d by simp
  next
    case (snoc rest e)
    then show ?thesis using split old d by simp
  qed
qed

interpretation credentials: history_law secrets_secured
proof unfold_locales
  show "secrets_secured server (h @ [c])" if "secrets_secured server h" "ordinary c" for server h c
    using that(2) by (intro secrets_secured_snoc [OF that(1)]) (auto simp: ordinary_def secret_def split: imap_command.splits)
qed (auto intro: secrets_secured_snoc)

interpretation commands: history_law "\<lambda>server h. \<forall>c \<in> set h. ordinary c \<or> secret c"
  by unfold_locales auto

interpretation one_server: history_law "\<lambda>s h. s = server"
  for server
  by unfold_locales auto

interpretation numbering: reader_law "\<lambda>r. mb_uid_validity (rd_numbers r) = v"
  for v
  by unfold_locales (auto simp: keeps_def on_wire_def on_part_def split: prod.splits)

lemma wire_reached_server: "wire_reached server w \<Longrightarrow> w_server w = server"
  using one_server.wire_reached_fine by blast

section \<open>Credentials\<close>

text \<open>
  C36: Credentials travel only over a secured connection: whatever the server announces and answers,
  and however often the reader reconnects, a \<open>LOGIN\<close> and an answer to a challenge are sent only after
  the TLS handshake of the current connection succeeded.
\<close>

theorem credentials_only_secured:
  assumes "wire_reached server w" and "w_sent w = before @ c # after" and "secret c"
  shows "secured server before"
  using credentials.wire_reached_fine [OF _ assms(1)] wire_reached_server [OF assms(1)] assms(2,3)
  by (auto simp: secrets_secured_def)

definition demo_answer :: answer where
  "demo_answer = \<lparr>ans_error = None, ans_fetches = [], ans_capabilities = [], ans_numbers =
     \<lparr>mb_uid_validity = Some 7, mb_message_count = 2, mb_uid_next = Some 12, mb_highest_modseq = None\<rparr>,
     ans_names = [], ans_greeting = Some (RespData StOk False None), ans_challenges = [], ans_notices = []\<rparr>"

definition demo_fetch :: "32 word \<Rightarrow> message_flag_name list \<Rightarrow> fetch" where
  "demo_fetch uid flags = \<lparr>fetch_uid = Some uid, fetch_flags = Some flags, fetch_gmail_id = None, fetch_gmail_labels = None,
     fetch_date = None, fetch_sections = [], fetch_structure = None\<rparr>"

definition demo_server :: "imap_command list \<Rightarrow> answer" where
  "demo_server h = (case last h of
     CmdPlainCapabilities \<Rightarrow> demo_answer\<lparr>ans_capabilities := [''STARTTLS'']\<rparr>
   | CmdCapabilities \<Rightarrow> demo_answer\<lparr>ans_capabilities := [''AUTH=PLAIN'']\<rparr>
   | CmdAuthenticate _ \<Rightarrow> demo_answer\<lparr>ans_challenges := [[]]\<rparr>
   | CmdUidFetch _ _ \<Rightarrow> demo_answer\<lparr>ans_fetches := [demo_fetch 9 [FlagSeen], demo_fetch 4 [], demo_fetch 9 []]\<rparr>
   | CmdUidStore _ _ \<Rightarrow> demo_answer\<lparr>ans_error := Some (NetNo \<lparr>reply_code = None, reply_text = ''for ann: no''\<rparr>)\<rparr>
   | _ \<Rightarrow> demo_answer)"

definition demo_imap_account :: imap_account where
  "demo_imap_account = \<lparr>acc_host = ''h'', acc_login = ''ann'', acc_credential = Password ''pw'', acc_encryption = StartTls\<rparr>"

definition demo_reader :: mailbox_reader where
  "demo_reader = (case open_reader demo_imap_account None ''INBOX'' (new_wire demo_server) of
     (Inr r, _) \<Rightarrow> r
   | _ \<Rightarrow> \<lparr>rd_account = demo_imap_account, rd_options = None, rd_mailbox_name = [], rd_numbers = ans_numbers demo_answer,
       rd_condstore = False, rd_needs_reconnect = True, rd_wire = new_wire demo_server\<rparr>)"

definition demo_history :: "imap_command list" where
  "demo_history = [CmdConnect ''h'' StartTls, CmdPlainGreeting, CmdPlainCapabilities, CmdPlainStartTls, CmdHandshake StartTls,
     CmdCapabilities, CmdAuthenticate ''PLAIN'']"

lemma demo_reader_sent: "w_sent (rd_wire demo_reader) =
    demo_history @ CmdResponse ([CHR 0x00] @ ''ann'' @ [CHR 0x00] @ ''pw'') # [CmdCapabilities, CmdSelect ''INBOX'' False]"
  by code_simp

lemma demo_reader_opened: "\<exists>w. open_reader demo_imap_account None ''INBOX'' (new_wire demo_server) = (Inr demo_reader, w)"
proof -
  have "isl (fst (open_reader demo_imap_account None ''INBOX'' (new_wire demo_server))) = False" by code_simp
  then show ?thesis by (auto simp: demo_reader_def split: prod.splits sum.splits)
qed

lemma demo_reader_reached: "reader_reached demo_server demo_reader"
  using demo_reader_opened reader_reached.opened by blast

theorem credentials_only_secured_witness:
  "secured demo_server demo_history"
  by (rule credentials_only_secured [OF wire_reached.of_reader [OF demo_reader_reached] demo_reader_sent]) (simp add: secret_def)

section \<open>Changes of mail\<close>

text \<open>Every body section is asked for with \<open>PEEK\<close>, which leaves \<open>\Seen\<close> as it is.\<close>

fun peeks :: "char \<Rightarrow> string \<Rightarrow> bool" where
  "peeks before [] = True"
| "peeks before (c # cs) = ((c = CHR ''['' \<longrightarrow> before = CHR ''K'') \<and> peeks c cs)"

lemma peeks_append: "peeks p a \<Longrightarrow> (\<And>q. peeks q b) \<Longrightarrow> peeks p (a @ b)"
  by (induction a arbitrary: p) auto

lemma peeks_plain: "CHR ''['' \<notin> set s \<Longrightarrow> peeks p s"
  by (induction s arbitrary: p) auto

lemma peeks_join: "(\<And>q. peeks q sep) \<Longrightarrow> (\<And>x q. x \<in> set xs \<Longrightarrow> peeks q x) \<Longrightarrow> peeks p (join sep xs)"
proof (induction sep xs arbitrary: p rule: join.induct)
  case (3 sep x y ys)
  then show ?case by (auto intro!: peeks_append)
qed auto

lemma set_decimal: "set (decimal n) \<subseteq> range digit"
proof (induction n rule: decimal.induct)
  case (1 n)
  then show ?case by (subst decimal.simps) auto
qed

lemma digit_not_bracket: "digit n \<noteq> CHR ''['' "
proof
  assume "digit n = CHR ''['' "
  then have "(of_char (digit n) :: nat) = of_char (CHR ''['' )" by (rule arg_cong)
  then show False by (simp add: digit_def)
qed

lemma peeks_decimal: "peeks p (decimal n)"
  using set_decimal [of n] digit_not_bracket by (intro peeks_plain) (metis imageE subsetD)

lemma peeks_section: "peeks p (display_section name)"
  by (cases name) (auto simp: display_section_def section_numbers_def intro!: peeks_append peeks_join peeks_decimal)

lemma peeks_text_items: "peeks p (text_items paths limit)"
proof -
  have limit: "peeks q (case limit of None \<Rightarrow> [] | Some n \<Rightarrow> ''<0.'' @ decimal (unat n) @ ''>'')" for q
    by (cases limit) (auto intro!: peeks_append peeks_decimal)
  have one: "peeks q (''BODY.PEEK['' @ display_section h @ ''] BODY.PEEK['' @ display_section b @ '']'' @
      (case limit of None \<Rightarrow> [] | Some n \<Rightarrow> ''<0.'' @ decimal (unat n) @ ''>''))" for q h b
    by (intro peeks_append peeks_section limit) simp_all
  have "peeks q (''(UID '' @ join '' '' (map (\<lambda>(h, b). ''BODY.PEEK['' @ display_section h @ ''] BODY.PEEK['' @ display_section b @ '']'' @
      (case limit of None \<Rightarrow> [] | Some n \<Rightarrow> ''<0.'' @ decimal (unat n) @ ''>'')) paths) @ '')'')" for q
    by (intro peeks_append peeks_join) (use one in \<open>auto simp del: append.simps\<close>)
  then show ?thesis by (simp only: text_items_def Let_def)
qed

lemma peeks_row_items: "peeks p (row_command_items r b)"
  by (simp add: row_command_items_def)

lemma peeks_reading: "reading_items items \<Longrightarrow> peeks p items"
proof -
  have list: "peeks q (listing_items r)" for q r by (simp add: listing_items_def split: row_items.split)
  have since: "peeks q ('' (CHANGEDSINCE '' @ decimal n @ '')'')" for q n
    by (intro peeks_append peeks_decimal) simp_all
  assume "reading_items items"
  then show ?thesis unfolding reading_items_def
    using list since peeks_text_items peeks_row_items peeks_append by (auto simp: structure_items_def simp del: append.simps)
qed

text \<open>What a command may be, read off its words.\<close>

definition harmless_command :: "imap_command \<Rightarrow> bool" where
  "harmless_command c \<longleftrightarrow> (case c of
     CmdUidStore _ change \<Rightarrow> 
       (\<exists>flag \<in> {''Seen'', ''Flagged''}. change = ''+FLAGS.SILENT ('' @ backslash # flag @ '')'' \<or> change = ''-FLAGS.SILENT ('' @ backslash # flag @ '')'')
   | CmdUidFetch _ items \<Rightarrow> peeks (CHR '' '') items
   | CmdRun words \<Rightarrow> words = ''COMPRESS DEFLATE'' \<or> words = ''ENABLE UTF8=ACCEPT'' \<or> starts_with ''ID ('' words
   | _ \<Rightarrow> True)"

text \<open>
  C38: Of the mail on the server the program changes only whether messages are read and starred:
  every \<open>UID STORE\<close> adds or removes exactly one of these two flags, every body is fetched with
  \<open>PEEK\<close>, which marks nothing read, and the only commands besides are those of signing in.
\<close>

theorem only_two_flags_change:
  assumes "wire_reached server w" and "c \<in> set (w_sent w)"
  shows "harmless_command c"
proof -
  have "ordinary c \<or> secret c" using commands.wire_reached_fine [OF _ assms(1)] assms(2) by auto
  then show ?thesis
  proof
    assume c: "ordinary c"
    show ?thesis
    proof (cases c)
      case (CmdUidStore uids change)
      then obtain flag on where "change = store_change flag on" using c by (auto simp: ordinary_def)
      then show ?thesis using CmdUidStore
        by (cases flag; cases on) (auto simp: harmless_command_def store_change_def)
    qed (use c in \<open>simp_all add: harmless_command_def ordinary_def peeks_reading\<close>)
  qed (auto simp: secret_def harmless_command_def split: imap_command.splits)
qed

theorem only_two_flags_change_witness:
  "harmless_command (CmdUidStore ''4'' (store_change StoreSeen True))"
proof (rule only_two_flags_change)
  show "wire_reached demo_server (rd_wire (snd (store_flags [4] StoreSeen True demo_reader)))"
    by (intro wire_reached.of_reader reader_reached.stepped [OF demo_reader_reached] reader_step.storing)
  show "CmdUidStore ''4'' (store_change StoreSeen True) \<in> set (w_sent (rd_wire (snd (store_flags [4] StoreSeen True demo_reader))))"
    by code_simp
qed

section \<open>The numbering\<close>

lemma open_selected_numbers:
  "open_selected mbox d w = (Inr numbers, w') \<Longrightarrow> numbers = ans_numbers (w_server w (w_sent w @ [CmdSelect mbox d]))"
  by (simp add: open_selected_def collected_def and_then_def on_notices_def command_def Let_def split: option.splits)

lemma fails_numbers: "fails failure r = (x, r') \<Longrightarrow> isl x \<and> rd_numbers r' = rd_numbers r"
  by (auto simp: fails_def and_then_def on_wire_def on_part_def wire_error_def split: prod.splits)

lemma reopen_numbers:
  assumes "\<not> rd_needs_reconnect r"
  shows "case reopen r of
       (Inr _, r'') \<Rightarrow> rd_numbers r'' = ans_numbers (w_server (rd_wire r) (w_sent (rd_wire r) @ [CmdSelect (rd_mailbox_name r) (rd_condstore r)]))
     | (Inl _, r'') \<Rightarrow> rd_numbers r'' = rd_numbers r"
proof (cases "open_selected (rd_mailbox_name r) (rd_condstore r) (rd_wire r)")
  case (Pair x w)
  show ?thesis
  proof (cases x)
    case (Inl f)
    obtain y r'' where "fails f (r\<lparr>rd_wire := w\<rparr>) = (y :: imap_error + mailbox_numbers, r'')" by fastforce
    then have "session_step (open_selected (rd_mailbox_name r) (rd_condstore r)) r = (y, r'')" "isl y" "rd_numbers r'' = rd_numbers r"
      using Pair Inl fails_numbers [of f "r\<lparr>rd_wire := w\<rparr>" y r'']
      by (simp_all add: session_step_def on_result_def on_wire_def on_part_def)
    then show ?thesis using assms by (cases y) (simp_all add: reopen_def and_then_def)
  next
    case (Inr numbers)
    have step: "session_step (open_selected (rd_mailbox_name r) (rd_condstore r)) r = (Inr numbers, r\<lparr>rd_wire := w\<rparr>)"
      using Pair Inr by (simp add: session_step_def on_result_def on_wire_def on_part_def)
    obtain y r'' where "fails (step_failure_from ImapMailboxChanged) (r\<lparr>rd_wire := w\<rparr>) = (y :: imap_error + unit, r'')" by fastforce
    then show ?thesis using assms step open_selected_numbers Pair Inr fails_numbers [of _ "r\<lparr>rd_wire := w\<rparr>" y r'']
      by (cases y) (auto simp: reopen_def require_same_numbering_def and_then_def)
  qed
qed



section \<open>What reaches the user\<close>

lemma replaced_hides:
  "CHR ''<'' \<notin> set name \<Longrightarrow> CHR ''>'' \<notin> set name \<Longrightarrow> \<not> occurs_in name ''login'' \<Longrightarrow> name \<noteq> [] \<Longrightarrow>
    \<not> occurs_in name (replace_sign_in_name name words)"
  by (simp add: replace_sign_in_name_scrub scrub_hides)

text \<open>
  The user's sign-in name never reaches an error: no spelling of it in ASCII letters occurs in
  the reply or in an alert of an error, whatever the server wrote, nor in a refusal that travels with
  a listing. The name must have no angle bracket and must not be a part of \<open>login\<close>, the mark that
  replaces it. The texts are otherwise the server's: the mark replaces each occurrence from the left.
\<close>

theorem sign_in_name_hidden:
  assumes "CHR ''<'' \<notin> set (acc_login (rd_account r))" and "CHR ''>'' \<notin> set (acc_login (rd_account r))"
    and "\<not> occurs_in (acc_login (rd_account r)) ''login''" and "acc_login (rd_account r) \<noteq> []"
  shows "(case fails failure r of
       (Inl e, _) \<Rightarrow> \<forall>words \<in> set (imap_alerts e) \<union> reply_text ` set_option (imap_server_reply e). \<not> occurs_in (acc_login (rd_account r)) words
     | (Inr x, _) \<Rightarrow> False) \<and>
    (case reader_refusal reply r of
       (Inr shown, _) \<Rightarrow> reply_text shown = scrub (acc_login (rd_account r)) (reply_text reply) \<and>
         reply_code shown = reply_code reply \<and> \<not> occurs_in (acc_login (rd_account r)) (reply_text shown)
     | (Inl e, _) \<Rightarrow> False)"
  using replaced_hides [OF assms] scrub_hides [OF assms]
  by (auto simp: fails_def and_then_def on_wire_def on_part_def wire_error_def notices_error_def Let_def
      reader_refusal_def replace_sign_in_name_scrub [OF assms(4)] split: prod.splits option.splits)

theorem sign_in_name_hidden_witness:
  "\<not> occurs_in ''ann'' (reply_text \<lparr>reply_code = None, reply_text = ''for <login>: no''\<rparr>)"
proof -
  have name: "acc_login (rd_account demo_reader) = ''ann''" by code_simp
  let ?reply = "\<lparr>reply_code = None, reply_text = ''for ann: no''\<rparr> :: server_reply"
  have "reader_refusal ?reply demo_reader = (Inr \<lparr>reply_code = None, reply_text = scrub ''ann'' ''for ann: no''\<rparr>, demo_reader)"
    using name by (simp add: reader_refusal_def replace_sign_in_name_scrub)
  moreover have "scrub ''ann'' ''for ann: no'' = ''for <login>: no''" by code_simp
  ultimately show ?thesis
    using sign_in_name_hidden [of demo_reader "step_failure_from ImapMailboxChanged" ?reply] name
    by (simp add: eq_ignore_ascii_case_def to_ascii_lowercase_def ascii_lower_def)
qed

section \<open>Words received before TLS\<close>

definition quiet :: "wire \<Rightarrow> bool" where
  "quiet w \<longleftrightarrow> w_notices w = default_notices"

definition wordless :: "step_failure \<Rightarrow> wire \<Rightarrow> bool" where
  "wordless failure w \<longleftrightarrow> quiet w \<and> sf_reply failure = None"

lemma triple_unheard:
  "unheard c \<Longrightarrow> (\<And>e. sf_reply (h e) = None) \<Longrightarrow> triple quiet (checked c h) (\<lambda>_. quiet) wordless"
  by (auto simp: triple_def checked_def and_then_def command_def Let_def quiet_def wordless_def default_notices_def split: option.splits)

lemma triple_connect: "triple quiet (connect host e) (\<lambda>_. quiet) wordless"
  unfolding connect_def
  by (rule triple_and_then [where R = "\<lambda>_. quiet"], simp add: triple_def quiet_def)
     (intro triple_and_then [OF triple_unheard] triple_ret; simp add: unheard_def step_failure_from_def)

lemma triple_refused: "triple quiet (throw (step_failure_from f)) (\<lambda>_. quiet) wordless"
  by (rule triple_throw) (simp add: wordless_def step_failure_from_def)

lemma triple_upgrade: "triple quiet upgrade_plaintext (\<lambda>_. quiet) wordless"
proof -
  have checked: "triple quiet (checked c (\<lambda>e. step_failure_from (h e))) (\<lambda>_. quiet) wordless" if "unheard c" for c h
    using that by (intro triple_unheard) (simp_all add: step_failure_from_def)
  have starttls: "triple quiet (and_then (checked CmdPlainCapabilities (\<lambda>e. step_failure_from (starttls_failure e))) (\<lambda>c.
         if ''STARTTLS'' \<notin> set (ans_capabilities c) then throw (step_failure_from (Failed StepSecureConnection))
         else and_then (checked CmdPlainStartTls (\<lambda>e. step_failure_from (starttls_failure e))) (\<lambda>_. ret ()))) (\<lambda>_. quiet) wordless"
    by (rule triple_and_then [OF checked])
       (auto intro!: triple_refused triple_and_then [OF checked] triple_ret simp: unheard_def simp del: throw_run ret_run)
  show ?thesis
    unfolding upgrade_plaintext_def
  proof (rule triple_and_then [OF checked])
    show "triple quiet (case ans_greeting a of
       None \<Rightarrow> throw (step_failure_from (Failed StepConnect))
     | Some (RespData StOk _ _) \<Rightarrow>
         and_then (checked CmdPlainCapabilities (\<lambda>e. step_failure_from (starttls_failure e))) (\<lambda>c.
         if ''STARTTLS'' \<notin> set (ans_capabilities c) then throw (step_failure_from (Failed StepSecureConnection))
         else and_then (checked CmdPlainStartTls (\<lambda>e. step_failure_from (starttls_failure e))) (\<lambda>_. ret ()))
     | Some (RespData StPreAuth _ _) \<Rightarrow> throw (step_failure_from (Failed StepSecureConnection))
     | Some _ \<Rightarrow> throw (step_failure_from (Failed StepConnect))) (\<lambda>_. quiet) wordless" for a
      using starttls triple_refused by (auto split: option.split response.split status.split simp del: throw_run)
  qed (simp add: unheard_def)
qed

lemma triple_handshake:
  "triple quiet (start_tls e) (\<lambda>_ w. secured (w_server w) (w_sent w)) wordless"
  by (auto simp: triple_def start_tls_def checked_def and_then_def command_def Let_def quiet_def wordless_def unheard_def
      step_failure_from_def default_notices_def secured_handshake split: option.splits)

lemma triple_secured:
  assumes "\<And>server. keeps (one_server.wire_secured server) m"
  shows "triple (\<lambda>w. secured (w_server w) (w_sent w)) m (\<lambda>_ w. secured (w_server w) (w_sent w)) (\<lambda>_ w. secured (w_server w) (w_sent w))"
proof -
  have "secured (w_server (snd (m w))) (w_sent (snd (m w)))" if "secured (w_server w) (w_sent w)" for w
    using keepsD [OF assms [of "w_server w"], of w] that unfolding one_server.wire_secured_def one_server.wire_fine_def by metis
  then have "m w = (x, w') \<Longrightarrow> secured (w_server w) (w_sent w) \<Longrightarrow> secured (w_server w') (w_sent w')" for w x w'
    by (metis snd_conv)
  then show ?thesis by (intro tripleI) blast+
qed

lemma triple_open_mailbox:
  "triple quiet (open_mailbox account options mailbox) (\<lambda>_ _. True) (\<lambda>f w. wordless f w \<or> secured (w_server w) (w_sent w))"
proof -
  let ?S = "\<lambda>w. secured (w_server w) (w_sent w)"
  let ?E = "\<lambda>f w. wordless f w \<or> ?S w"
  have early: "triple quiet m (\<lambda>_. quiet) wordless \<Longrightarrow> triple quiet m (\<lambda>_. quiet) ?E" for m :: "unit stepping"
    by (erule triple_weaken) auto
  have upgrade: "triple quiet (only_if b upgrade_plaintext) (\<lambda>_. quiet) ?E" for b
    using early [OF triple_upgrade] by (auto simp: only_if_def triple_ret)
  have rest: "triple ?S (after_handshake account options StepOpenMailbox) (\<lambda>_. ?S) ?E"
    by (rule triple_weaken [OF triple_secured [OF one_server.keeps_after_handshake]]) auto
  have select: "triple ?S (select_mailbox capabilities mailbox) (\<lambda>_ _. True) ?E" for capabilities
    by (rule triple_weaken [OF triple_secured [OF one_server.keeps_select_secured]]) auto
  have tls: "triple quiet (start_tls e) (\<lambda>_. ?S) ?E" for e
    by (rule triple_weaken [OF triple_handshake]) auto
  have "triple quiet (sign_in_session account options StepOpenMailbox) (\<lambda>_. ?S) ?E"
    unfolding sign_in_session_eq
    by (intro triple_and_then [OF early [OF triple_connect]] triple_and_then [OF upgrade] triple_and_then [OF tls] rest)
  then show ?thesis unfolding open_mailbox_def
    by (rule triple_and_then) (use select in auto)
qed


definition demo_attacker :: "imap_command list \<Rightarrow> answer" where
  "demo_attacker h = (case last h of
     CmdPlainStartTls \<Rightarrow> demo_answer\<lparr>ans_error := Some (NetNo \<lparr>reply_code = None, reply_text = ''call 555''\<rparr>),
       ans_notices := [RespData StOk True (Some ''call 555'')]\<rparr>
   | CmdPlainCapabilities \<Rightarrow> demo_answer\<lparr>ans_capabilities := [''STARTTLS'']\<rparr>
   | _ \<Rightarrow> demo_answer)"


end
