(* ===== verification/Cycle_Claims.thy ===== *)
theory Cycle_Claims
  imports Cycle_Elsewhere Cycle_Laws Imap_Claims
begin

text \<open>
  What an IMAP cycle does to its folder, whatever the server answers and the user does meanwhile.
\<close>

section \<open>Every cycle leaves a sound store\<close>

interpretation numbered: imap_cycle_law reachable folder "\<lambda>_. True" "\<lambda>r. mb_uid_validity (rd_numbers r) = v"
  for folder v
  by unfold_locales

interpretation apart: imap_cycle_law "kept_elsewhere folder E" folder quiet_act "\<lambda>r. mb_uid_validity (rd_numbers r) = v"
  for folder E v
  by unfold_locales

context imap_cycle_law
begin

lemma waits_fine: "writer_ok w \<Longrightarrow> waits \<lparr>cy_batches = w, cy_server = s, cy_ready = ready\<rparr> = (r, c) \<Longrightarrow> writer_ok (cy_batches c)"
proof -
  assume w: "writer_ok w" and run: "waits \<lparr>cy_batches = w, cy_server = s, cy_ready = ready\<rparr> = (r, c)"
  have "cycle_fine writer_ok (\<lambda>_. True) \<lparr>cy_batches = w, cy_server = s, cy_ready = ready\<rparr>" using w by (simp add: cycle_fine_def)
  from keepsD_eq [OF keeps_waits [OF writer_meanwhile] this run] show ?thesis by (simp add: cycle_fine_def)
qed

lemma synchronize_fine:
  assumes "writer_ok batches" and opened: "\<And>reader w'. open_folder access rule (ref_identity (bw_folder batches)) w = (Inr reader, w') \<Longrightarrow> P reader"
    and run: "synchronize_imap_folder parser access rule start w ready batches = (r, batches')"
  shows "writer_ok batches'"
proof (cases "open_folder access rule (ref_identity (bw_folder batches)) w")
  case (Pair opened_as w')
  show ?thesis
  proof (cases opened_as)
    case (Inl error)
    then obtain c where "waits \<lparr>cy_batches = batches, cy_server = (), cy_ready = ready\<rparr> = (fst (waits \<lparr>cy_batches = batches, cy_server = (), cy_ready = ready\<rparr>), c)"
      and "batches' = cy_batches c"
      using run Pair by (auto simp: synchronize_imap_folder_def and_then_def split: prod.splits sum.splits)
    then show ?thesis using waits_fine [OF assms(1)] by metis
  next
    case (Inr reader)
    have "keeps (cycle_fine writer_ok P) (and_then waits (\<lambda>_. imap_cycle parser rule (recent_limit start)))"
      by (intro keeps_and_then keeps_waited keeps_imap_cycle)
    from keepsD [OF this, of "\<lparr>cy_batches = batches, cy_server = reader, cy_ready = ready\<rparr>"] show ?thesis
      using assms(1) opened Pair Inr run by (auto simp: synchronize_imap_folder_def cycle_fine_def split: prod.splits)
  qed
qed

end

text \<open>A cycle evaluated: the store holds two messages that the server's listing does not name.\<close>

definition demo_parser :: mail_parser where
  "demo_parser = \<lparr>parse_message = (\<lambda>_. None), parse_headers = (\<lambda>_. None), has_charset_decoder = (\<lambda>_. False), html_to_text = (\<lambda>p. p)\<rparr>"

definition demo_access :: imap_access where
  "demo_access = \<lparr>access_account_id = demo_account, access_host = ''h'', access_login = ''ann'',
     access_credential = GoaPassword ''pw'', access_encryption = GoaStartTls\<rparr>"

definition demo_writer :: batch_writer where
  "demo_writer = new_writer demo_loaded demo_inbox False [[UserFlag demo_account ''m1'' Flagged True]]"

definition demo_cycle :: "(cycle_end + load_result) \<times> batch_writer" where
  "demo_cycle = synchronize_imap_folder demo_parser demo_access Generic 0 (new_wire demo_server) [] demo_writer"

lemma demo_cycle_run:
  "synchronize_imap_folder demo_parser demo_access Generic 0 (new_wire demo_server) [] demo_writer = (Inr (ResultStored None), snd demo_cycle)"
proof -
  have "fst demo_cycle = Inr (ResultStored None)" by code_simp
  then show ?thesis by (simp add: demo_cycle_def prod_eq_iff)
qed

lemma demo_writer_quiet: "quiet_writer demo_writer" "bw_events demo_writer = []"
  using demo_reachable(3) demo_connections(2) by (simp_all add: quiet_writer_def demo_writer_def new_writer_def)

lemma imap_cycle_reached:
  assumes "reached.writer_ok (bw_folder batches) batches"
    and "synchronize_imap_folder parser access rule start w ready batches = (r, batches')"
  shows "reached.writer_ok (bw_folder batches) batches'"
proof -
  let ?folder = "bw_folder batches"
  let ?v = "mb_uid_validity (rd_numbers (projr (fst (open_folder access rule (ref_identity ?folder) w))))"
  show ?thesis by (rule numbered.synchronize_fine [where v = ?v, OF assms(1) _ assms(2)]) simp
qed

text \<open>
  C18: a cycle touches nothing but its folder: every other folder keeps its state and its messages, and
  the other accounts' messages keep all but the user's own marks, unless the user removes an account
  meanwhile.
\<close>

theorem cycle_keeps_elsewhere:
  assumes "quiet_writer batches" and "bw_events batches = []"
    and "synchronize_imap_folder parser access rule start w ready batches = (r, batches')"
  shows "elsewhere (as_str (ref_account (bw_folder batches))) (ref_identity (bw_folder batches)) (view_of (folder_db batches')) =
    elsewhere (as_str (ref_account (bw_folder batches))) (ref_identity (bw_folder batches)) (view_of (folder_db batches))"
proof -
  let ?folder = "bw_folder batches"
  let ?E = "elsewhere (as_str (ref_account ?folder)) (ref_identity ?folder) (view_of (folder_db batches))"
  let ?v = "mb_uid_validity (rd_numbers (projr (fst (open_folder access rule (ref_identity ?folder) w))))"
  have "rest.writer_ok ?folder ?E batches"
    using assms(1,2) by (auto simp: rest.writer_ok_def kept_elsewhere_def quiet_writer_def folder_db_def)
  then have "rest.writer_ok ?folder ?E batches'"
    by (rule apart.synchronize_fine [where v = ?v, OF _ _ assms(3)]) simp
  then show ?thesis by (simp add: rest.writer_ok_def kept_elsewhere_def folder_db_def)
qed

theorem cycle_keeps_elsewhere_witness:
  "v_holds (view_of (folder_db (snd demo_cycle))) ''a'' ''A'' = v_holds (view_of (folder_db demo_writer)) ''a'' ''A''"
proof -
  have at: "bw_folder demo_writer = demo_inbox" by (simp add: demo_writer_def new_writer_def)
  have "v_holds (elsewhere ''a'' ''I'' (view_of (folder_db (snd demo_cycle)))) = v_holds (elsewhere ''a'' ''I'' (view_of (folder_db demo_writer)))"
    using cycle_keeps_elsewhere [OF demo_writer_quiet demo_cycle_run] unfolding at by (simp add: demo_inbox_def demo_account_def)
  from fun_cong [OF fun_cong [OF this, of "''a''"], of "''A''"] show ?thesis by (simp add: elsewhere_def)
qed

section \<open>What a pass proves\<close>

lemma in_server_side:
  assumes "quiet_writer (cy_batches c)" and "in_server ended m c = (r, c')"
  shows "same_side (cy_batches c) (cy_batches c')"
  using meanwhile_side [OF assms(1)] assms(2)
  by (auto simp: in_server_def waits_def on_result_def and_then_def on_part_def take_ready_def split: prod.splits sum.splits if_splits)

lemma pass_listing_side:
  assumes "quiet_writer (cy_batches c)" and "pass_listing rule plan c = (Inr listing, c')"
  shows "same_side (cy_batches c) (cy_batches c')"
proof (cases plan)
  case PlanNothing
  then show ?thesis using assms by (simp add: pass_listing_def same_side_def)
qed (use assms in_server_side in \<open>auto simp: pass_listing_def\<close>)

lemma run_state_pass_run:
  assumes "run_state_pass rule stored numbers plan c = (Inr pass, c')"
  obtains listing c1 where "pass_listing rule plan c = (Inr listing, c1)" and "sp_refusal pass = listing_refusal listing"
    and "bw_store_batch (pass_batch (sp_listed pass) stored numbers plan (sp_refusal pass = None)) (cy_batches c1) = (Inr (), cy_batches c')"
proof -
  obtain listing c1 where listing: "pass_listing rule plan c = (Inr listing, c1)"
    using assms by (auto simp: run_state_pass_def and_then_def split: prod.splits sum.splits)
  obtain listed where listed: "identify rule listing (ref_identity (bw_folder (cy_batches c1))) c1 = (Inr listed, c1)"
    using assms listing by (auto simp: run_state_pass_def identify_def and_then_def split: prod.splits sum.splits)
  have "in_batches (bw_store_batch (pass_batch listed stored numbers plan (listing_refusal listing = None))) c1 = (Inr (), c')"
    and pass: "pass = \<lparr>sp_listed = listed, sp_refusal = listing_refusal listing\<rparr>"
    using assms listing listed by (auto simp: run_state_pass_def Let_def and_then_def split: prod.splits sum.splits)
  then have "bw_store_batch (pass_batch listed stored numbers plan (listing_refusal listing = None)) (cy_batches c1) = (Inr (), cy_batches c')"
    by (auto simp: in_batches_def map_error_def on_result_def on_part_def split: prod.splits sum.splits)
  with that listing pass show thesis by simp
qed

lemma pass_batch_bare:
  "batch_arrived (pass_batch listed stored numbers plan complete) = []"
  "batch_known_arrived (pass_batch listed stored numbers plan complete) = []"
  by (simp_all add: pass_batch_def listing_changes_def empty_batch_def)

lemma missing_iff:
  "missing_messages listed stored = [] \<longleftrightarrow> (\<forall>message \<in> set listed. map_of (sync_stored stored) (lm_identity message) \<noteq> None)"
proof -
  let ?lacking = "filter (\<lambda>message. map_of (sync_stored stored) (lm_identity message) = None) listed"
  have "length (missing_messages listed stored) = length ?lacking" by (simp add: missing_messages_def)
  then have "missing_messages listed stored = [] \<longleftrightarrow> ?lacking = []" by (metis length_0_conv)
  then show ?thesis by (simp add: filter_empty_conv)
qed

lemma bare_spec:
  assumes "batch_arrived batch = []" and "batch_known_arrived batch = []"
  shows "v_holds (spec_batch a f batch v) = (\<lambda>b g. if b = a \<and> g = f then v_holds v b g - set (batch_removed batch) else v_holds v b g)"
    and "v_message (spec_batch a f batch v) = v_message (spec_flags a (batch_flag_states batch) (spec_removals a f (batch_removed batch) v))"
  using assms by (simp_all add: spec_batch_def Let_def holds_removals spec_flags_def [of a "[]"])

lemma map_of_listed:
  assumes "distinct (map lm_identity listed)" and "message \<in> set listed" and "P message"
  shows "map_of (rev (map (\<lambda>m. (lm_identity m, lm_flags m)) (filter P listed))) (lm_identity message) = Some (lm_flags message)"
proof -
  have "distinct (map fst (rev (map (\<lambda>m. (lm_identity m, lm_flags m)) (filter P listed))))"
    using assms(1) by (simp add: rev_map o_def distinct_map_filter flip: rev_map)
  then show ?thesis using assms(2,3) by (intro map_of_is_SomeI) auto
qed


lemma removed_in_pass:
  assumes stored: "\<And>i. map_of (sync_stored stored) i \<noteq> None \<longleftrightarrow> i \<in> H"
  shows "H - set (batch_removed (pass_batch listed stored numbers plan complete)) =
    (if complete \<and> plan = PlanEverything then H \<inter> lm_identity ` set listed else H)"
proof -
  have "H = fst ` set (sync_stored stored)" using stored map_of_eq_None_iff by (metis subsetI subset_antisym)
  then show ?thesis by (auto simp: pass_batch_def listing_changes_def empty_batch_def)
qed

lemma state_of_pass:
  "batch_state (pass_batch listed stored numbers plan complete) =
    pass_state (sync_state stored) numbers complete (missing_messages listed stored \<noteq> [])"
  by (simp add: pass_batch_def)

lemma flags_of_pass:
  assumes "distinct (map lm_identity listed)" and "message \<in> set listed" and "map_of (sync_stored stored) (lm_identity message) = Some flags"
  shows "(case map_of (rev (batch_flag_states (pass_batch listed stored numbers plan complete))) (lm_identity message) of
      Some fl \<Rightarrow> fl | None \<Rightarrow> flags) = lm_flags message"
proof (cases "flags = lm_flags message")
  case True
  have "fl = lm_flags message" if "map_of (rev (batch_flag_states (pass_batch listed stored numbers plan complete))) (lm_identity message) = Some fl" for fl
  proof -
    from map_of_SomeD [OF that] obtain other where other: "other \<in> set listed" "lm_identity other = lm_identity message" "fl = lm_flags other"
      by (auto simp: pass_batch_def listing_changes_def empty_batch_def)
    then have "other = message" using assms(1,2) by (metis distinct_map inj_onD)
    then show ?thesis using other by simp
  qed
  then show ?thesis using True by (simp split: option.split)
next
  case False
  then show ?thesis
    using map_of_listed [OF assms(1,2), of "\<lambda>m. case map_of (sync_stored stored) (lm_identity m) of Some fl \<Rightarrow> fl \<noteq> lm_flags m | None \<Rightarrow> False"] assms(3)
    by (simp add: pass_batch_def listing_changes_def empty_batch_def)
qed

lemma pass_stores_flags:
  assumes full: "view_full v" and d: "distinct (map lm_identity listed)" and m: "message \<in> set listed"
    and fl: "map_of (sync_stored stored) (lm_identity message) = Some flags"
    and old: "map_option e_flags (v_message v a (lm_identity message)) = Some flags"
  shows "map_option e_flags (v_message (spec_batch a f (pass_batch listed stored numbers plan complete) v) a (lm_identity message)) =
    Some (lm_flags message)"
proof -
  let ?i = "lm_identity message" and ?batch = "pass_batch listed stored numbers plan complete"
  have "?i \<notin> set (batch_removed ?batch)"
    using m by (auto simp: pass_batch_def listing_changes_def empty_batch_def)
  then have "survives a f ?batch v ?i" by (simp add: survives_def)
  then have kept: "v_message (spec_removals a f (batch_removed ?batch) v) a ?i = v_message v a ?i"
    by (rule removals_message [OF full])
  obtain e where e: "v_message v a ?i = Some e" "e_flags e = flags" using old by auto
  show ?thesis
    unfolding bare_spec(2) [OF pass_batch_bare] flags_spec kept
    using flags_of_pass [OF d m fl, of numbers plan complete] e by (simp split: option.splits)
qed

text \<open>
  C8: what a state pass leaves of a folder: a message is removed only when the server's complete
  listing of everything lacks it; the folder is marked synchronized, with the pass's numbers, exactly
  when the listing completed and every message in it is stored; and each listed message of the folder
  has the flags the server reported. The user's marks meanwhile change none of it.
\<close>

theorem pass_proves:
  assumes "quiet_writer (cy_batches c0)" and "in_batches bw_read_folder_sync c0 = (Inr stored, c)"
    and "run_state_pass rule stored numbers plan c = (Inr pass, c')"
    and "a = as_str (ref_account (bw_folder (cy_batches c0)))" and "f = ref_identity (bw_folder (cy_batches c0))"
    and "v = view_of (folder_db (cy_batches c0))" and "v' = view_of (folder_db (cy_batches c'))"
    and "L = lm_identity ` set (sp_listed pass)"
  shows "v_holds v' a f = (if plan = PlanEverything \<and> sp_refusal pass = None then v_holds v a f \<inter> L else v_holds v a f) \<and>
    (\<exists>p st. v_folder v' a f = Some (p, st) \<and> (state_synchronized st \<longrightarrow> L \<subseteq> v_holds v' a f) \<and>
      (sp_refusal pass = None \<and> L \<subseteq> v_holds v a f \<longrightarrow> state_synchronized st \<and> state_numbers st = Some numbers)) \<and>
    (distinct (map lm_identity (sp_listed pass)) \<longrightarrow> (\<forall>message \<in> set (sp_listed pass). lm_identity message \<in> v_holds v a f \<longrightarrow>
      map_option e_flags (v_message v' a (lm_identity message)) = Some (lm_flags message)))"
proof -
  let ?b = "cy_batches c0" and ?H = "v_holds v a f"
  have read: "bw_read_folder_sync ?b = (Inr stored, cy_batches c)"
    using assms(2) by (auto simp: in_batches_def map_error_def on_result_def on_part_def split: prod.splits sum.splits)
  note side1 = writer_reads_snapshot(1) [OF assms(1) read] and snap = writer_reads_snapshot(2) [OF assms(1) read]
  obtain listing c1 where run: "pass_listing rule plan c = (Inr listing, c1)"
    "bw_store_batch (pass_batch (sp_listed pass) stored numbers plan (sp_refusal pass = None)) (cy_batches c1) = (Inr (), cy_batches c')"
    by (rule run_state_pass_run [OF assms(3)])
  let ?batch = "pass_batch (sp_listed pass) stored numbers plan (sp_refusal pass = None)"
  have "same_side (cy_batches c) (cy_batches c1)"
    by (rule pass_listing_side [OF _ run(1)]) (use side1 in \<open>simp add: same_side_def\<close>)
  with side1 have side2: "same_side ?b (cy_batches c1)" by (rule same_side_trans)
  then have w: "quiet_writer (cy_batches c1)" "bw_folder (cy_batches c1) = bw_folder ?b" by (simp_all add: same_side_def)
  obtain u where u: "same_side (cy_batches c1) u"
    and v': "v' = spec_batch a f ?batch (view_of (folder_db u))"
    using writer_stores [OF w(1) run(2)] w(2) assms(4,5,7) by auto
  from same_side_trans [OF side2 u] have side: "server_side (folder_db u) = server_side (folder_db ?b)" and q: "quiet_writer u"
    by (simp_all add: same_side_def)
  have side': "v_holds (view_of (folder_db u)) = v_holds v" "v_folder (view_of (folder_db u)) = v_folder v"
    "\<And>i. map_option e_flags (v_message (view_of (folder_db u)) a i) = map_option e_flags (v_message v a i)"
    using side assms(6) by (simp_all add: server_side_def fun_eq_iff)
  have full: "view_full (view_of (folder_db u))"
    using q opened_ok(2) by (simp_all add: quiet_writer_def folder_db_def)
  have present: "v_message v a i \<noteq> None" if "i \<in> ?H" for i
    using that held_lookup [OF opened_ok(1), of "bw_store ?b" i a f] assms(1,6) by (auto simp: quiet_writer_def folder_db_def view_of_def)
  obtain p where p: "v_folder v a f = Some (p, sync_state stored)" using snap assms(4-6) by (auto simp: snapshot_def)
  have stored: "map_of (sync_stored stored) i = (if i \<in> ?H then map_option e_flags (v_message v a i) else None)" for i
    using snap assms(4-6) by (simp add: snapshot_def)
  have known: "map_of (sync_stored stored) i \<noteq> None \<longleftrightarrow> i \<in> ?H" for i using stored present by (cases "i \<in> ?H") auto
  note holds' = bare_spec(1) [OF pass_batch_bare, of a f "sp_listed pass" stored numbers plan "sp_refusal pass = None" "view_of (folder_db u)"]
  have H': "v_holds v' a f = (if plan = PlanEverything \<and> sp_refusal pass = None then ?H \<inter> L else ?H)"
    unfolding v' holds' side'(1) assms(8)
    using removed_in_pass [where H = ?H, OF known, of "sp_listed pass" numbers plan "sp_refusal pass = None"] by (simp add: conj_commute)
  have missing: "missing_messages (sp_listed pass) stored = [] \<longleftrightarrow> L \<subseteq> ?H"
    unfolding missing_iff using known assms(8) by blast
  have state: "\<exists>p st. v_folder v' a f = Some (p, st) \<and> (state_synchronized st \<longrightarrow> L \<subseteq> v_holds v' a f) \<and>
      (sp_refusal pass = None \<and> L \<subseteq> ?H \<longrightarrow> state_synchronized st \<and> state_numbers st = Some numbers)"
    using p missing H' unfolding v' folder_batch side'(2) state_of_pass
    by (auto simp: pass_state_def default_state_def)
  have flags: "map_option e_flags (v_message v' a (lm_identity message)) = Some (lm_flags message)"
    if d: "distinct (map lm_identity (sp_listed pass))" and m: "message \<in> set (sp_listed pass)" and h: "lm_identity message \<in> ?H" for message
  proof -
    obtain flags where fl: "map_of (sync_stored stored) (lm_identity message) = Some flags" using known h by blast
    have "map_option e_flags (v_message (view_of (folder_db u)) a (lm_identity message)) = Some flags"
      unfolding side'(3) using fl h stored [of "lm_identity message"] by simp
    then show ?thesis unfolding v' by (rule pass_stores_flags [OF full d m fl])
  qed
  show ?thesis using H' state flags by blast
qed

text \<open>The pass of the demonstration: both stored messages are gone, two new ones are missing.\<close>

definition demo_pass_start :: "mailbox_reader cycle" where
  "demo_pass_start = \<lparr>cy_batches = demo_writer, cy_server = demo_reader, cy_ready = []\<rparr>"

definition demo_pass :: "(cycle_end + state_pass) \<times> mailbox_reader cycle" where
  "demo_pass = (case in_batches bw_read_folder_sync demo_pass_start of
     (Inr stored, c) \<Rightarrow> run_state_pass Generic stored (folder_numbers_of (rd_numbers demo_reader)) PlanEverything c
   | (Inl e, c) \<Rightarrow> (Inl e, c))"

lemma demo_pass_run:
  obtains stored c pass c' where "in_batches bw_read_folder_sync demo_pass_start = (Inr stored, c)"
    and "run_state_pass Generic stored (folder_numbers_of (rd_numbers demo_reader)) PlanEverything c = (Inr pass, c')"
    and "c' = snd demo_pass" and "sp_refusal pass = None" and "map lm_identity (sp_listed pass) = [''imap:I/7/4'', ''imap:I/7/9'']"
proof -
  have "case fst demo_pass of Inl _ \<Rightarrow> False
    | Inr pass \<Rightarrow> sp_refusal pass = None \<and> map lm_identity (sp_listed pass) = [''imap:I/7/4'', ''imap:I/7/9'']" by code_simp
  then have ok: "\<not> isl (fst demo_pass)" "sp_refusal (projr (fst demo_pass)) = None"
    "map lm_identity (sp_listed (projr (fst demo_pass))) = [''imap:I/7/4'', ''imap:I/7/9'']" by (auto split: sum.splits)
  then obtain stored c where 1: "in_batches bw_read_folder_sync demo_pass_start = (Inr stored, c)"
    by (auto simp: demo_pass_def split: prod.splits sum.splits)
  have "demo_pass = run_state_pass Generic stored (folder_numbers_of (rd_numbers demo_reader)) PlanEverything c"
    using 1 by (simp add: demo_pass_def)
  then have 2: "run_state_pass Generic stored (folder_numbers_of (rd_numbers demo_reader)) PlanEverything c = (Inr (projr (fst demo_pass)), snd demo_pass)"
    using ok(1) by (metis prod.collapse sum.collapse(2))
  show thesis by (rule that [OF 1 2 refl ok(2,3)])
qed

theorem pass_proves_witness:
  "v_holds (view_of (folder_db (cy_batches (snd demo_pass)))) ''a'' ''I'' \<inter> {''m1'', ''m2''} = {} \<and>
   (\<exists>p st. v_folder (view_of (folder_db (cy_batches (snd demo_pass)))) ''a'' ''I'' = Some (p, st) \<and>
      (state_synchronized st \<longrightarrow> ''imap:I/7/9'' \<in> v_holds (view_of (folder_db (cy_batches (snd demo_pass)))) ''a'' ''I''))"
proof -
  obtain stored c pass c' where run: "in_batches bw_read_folder_sync demo_pass_start = (Inr stored, c)"
    "run_state_pass Generic stored (folder_numbers_of (rd_numbers demo_reader)) PlanEverything c = (Inr pass, c')"
    and c': "c' = snd demo_pass" and pass: "sp_refusal pass = None" "map lm_identity (sp_listed pass) = [''imap:I/7/4'', ''imap:I/7/9'']"
    by (rule demo_pass_run)
  have quiet: "quiet_writer (cy_batches demo_pass_start)" using demo_writer_quiet by (simp add: demo_pass_start_def)
  have at: "bw_folder (cy_batches demo_pass_start) = demo_inbox" by (simp add: demo_pass_start_def demo_writer_def new_writer_def)
  have listed: "lm_identity ` set (sp_listed pass) = {''imap:I/7/4'', ''imap:I/7/9''}"
    using arg_cong [OF pass(2), of set] by simp
  have key: "as_str (ref_account demo_inbox) = ''a''" "ref_identity demo_inbox = ''I''" by (simp_all add: demo_inbox_def demo_account_def)
  note proves = pass_proves [OF quiet run refl refl refl refl refl, unfolded at key listed c']
  have "v_holds (view_of (folder_db (cy_batches (snd demo_pass)))) ''a'' ''I'' \<subseteq> {''imap:I/7/4'', ''imap:I/7/9''}"
    using conjunct1 [OF proves] by (simp only: pass(1) simp_thms if_True) (rule Int_lower2)
  then have "v_holds (view_of (folder_db (cy_batches (snd demo_pass)))) ''a'' ''I'' \<inter> {''m1'', ''m2''} = {}" by auto
  moreover from conjunct1 [OF conjunct2 [OF proves]] have "\<exists>p st. v_folder (view_of (folder_db (cy_batches (snd demo_pass)))) ''a'' ''I'' = Some (p, st) \<and>
      (state_synchronized st \<longrightarrow> ''imap:I/7/9'' \<in> v_holds (view_of (folder_db (cy_batches (snd demo_pass)))) ''a'' ''I'')"
    by blast
  ultimately show ?thesis by (rule conjI)
qed

section \<open>The commands that send the user's changes\<close>

lemma pushed_update:
  "mset (concat (map (\<lambda>(k, xs). map (Pair k) xs) (ordered_update k (pushed x) m))) =
    add_mset (k, x) (mset (concat (map (\<lambda>(k, xs). map (Pair k) xs) m)))"
  by (induction k "pushed x" m rule: ordered_update.induct) (auto simp: pushed_def)

lemma change_commands_mset:
  "mset (concat (map (\<lambda>(k, xs). map (Pair k) xs) (change_commands listed sent changes_wanted))) =
    mset (concat (map (\<lambda>change. case command_of listed sent change of None \<Rightarrow> []
      | Some entry \<Rightarrow> [((change_flag change, change_wanted change), entry)]) changes_wanted))"
proof (induction changes_wanted rule: rev_induct)
  case (snoc change changes_wanted)
  then show ?case by (cases "command_of listed sent change") (simp_all add: change_commands_def pushed_update)
qed (simp add: change_commands_def)


end
