(* ===== verification/Graph_Laws.thy ===== *)
theory Graph_Laws
  imports Cycle_Graph
begin

text \<open>
  What every request, and every operation of a Microsoft 365 cycle, keeps, proved once: a law of the
  wire that each harmless request under the current token keeps, carried to the service with the
  renewal of its token, and put together with a law of the stores.
\<close>

text \<open>A request that reads, or changes one of a message's two flags.\<close>

definition harmless_request :: "graph_request \<Rightarrow> bool" where
  "harmless_request request \<longleftrightarrow>
     (case rq_method request of
       HttpGet \<Rightarrow> rq_body request = None
     | HttpPatch \<Rightarrow> (\<exists>update. rq_body request = Some (update_body update)))"

lemma harmless_requests [simp]:
  "harmless_request (build_request address token)"
  "harmless_request (prefer_header words request) = harmless_request request"
  "harmless_request ((build_request address token)\<lparr>rq_method := HttpPatch, rq_body := Some (update_body update)\<rparr>)"
  "rq_token (build_request address token) = token"
  "rq_token (prefer_header words request) = rq_token request"
  by (auto simp: harmless_request_def build_request_def prefer_header_def cong: http_method.case_cong)

locale wire_law =
  fixes W :: "string \<Rightarrow> graph_wire \<Rightarrow> bool"
  assumes law_send: "harmless_request request \<Longrightarrow> rq_token request = token \<Longrightarrow> keeps (W token) (send request)"
begin

lemma keeps_stops [keeps_intros]: "keeps P (stops result)"
  by (simp add: stops_def keeps_of_result)

lemma keeps_or_failed [keeps_intros]: "keeps P (or_failed result)"
  by (simp add: or_failed_def keeps_of_result)

lemma keeps_ask [keeps_intros]: "harmless_request request \<Longrightarrow> rq_token request = token \<Longrightarrow> keeps (W token) (ask platform request)"
  unfolding ask_def by (intro keeps_and_then keeps_case_prod keeps_stops keeps_ret law_send)

lemma keeps_read_message_changes [keeps_intros]: "keeps (W token) (read_message_changes platform url token from_where)"
  unfolding read_message_changes_def by (intro keeps_and_then keeps_case_prod keeps_stops keeps_or_failed law_send) simp_all

lemma keeps_read_texts_from: "keeps (W token) (read_texts_from fuel platform token address texts)"
  by (induction fuel arbitrary: address texts)
    (auto intro!: keeps_throw keeps_and_then keeps_ask keeps_or_failed keeps_case_option keeps_ret)

lemma keeps_read_one [keeps_intros]: "keeps (W token) (read_one platform address token)"
  unfolding read_one_def by (intro keeps_and_then keeps_case_prod keeps_if keeps_ret keeps_stops law_send) simp_all

lemma keeps_read_message_text [keeps_intros]: "keeps (W token) (read_message_text platform url token i)"
  unfolding read_message_text_def by (intro keeps_and_then keeps_read_one keeps_case_option keeps_ret keeps_or_failed)

lemma keeps_read_graph_message [keeps_intros]: "keeps (W token) (read_graph_message platform url token i)"
  unfolding read_graph_message_def
  by (intro keeps_and_then keeps_read_one keeps_case_option keeps_ret keeps_or_failed)

lemma keeps_read_texts_between [keeps_intros]: "keeps (W token) (read_texts_received_between fuel platform url token folder_id d e)"
  unfolding read_texts_received_between_def by (rule keeps_read_texts_from)

lemma keeps_update_message_flags [keeps_intros]: "keeps (W token) (update_message_flags platform url token i update)"
  unfolding update_message_flags_def by (intro keeps_and_then keeps_ask keeps_ret) simp_all

lemma keeps_read_folder_listing: "keeps (W token) (read_folder_listing fuel platform token address folders)"
  by (induction fuel arbitrary: address folders)
    (auto intro!: keeps_throw keeps_and_then keeps_ask keeps_or_failed keeps_case_option keeps_ret simp: Let_def)

lemma keeps_find_well_known [keeps_intros]: "keeps (W token) (find_well_known_folder platform url token well_known)"
  unfolding find_well_known_folder_def
  by (intro keeps_and_then keeps_case_prod keeps_if keeps_ret keeps_stops keeps_or_failed law_send) simp_all

lemma keeps_graph_list_folders: "keeps (W token) (graph_list_folders fuel platform url token)"
proof -
  have "keeps (W token) (resolve_well_known platform url token names folders)" for names folders
    by (induction names arbitrary: folders) (auto intro: keeps_ret keeps_and_then keeps_find_well_known)
  then show ?thesis unfolding graph_list_folders_def by (intro keeps_and_then keeps_read_folder_listing)
qed

end

text \<open>
  The service: its wire under its present token, and a renewal that leads from the token \<open>old\<close> it
  started with to the token Online Accounts gives, \<open>given\<close>.
\<close>

locale service_law = wire_law W for W :: "string \<Rightarrow> graph_wire \<Rightarrow> bool" +
  fixes old :: string and given :: "string option"
  assumes law_renewed: "given = Some new \<Longrightarrow> W old w \<Longrightarrow> W new w"
begin

definition service_fine :: "graph_service \<Rightarrow> bool" where
  "service_fine g \<longleftrightarrow> W (gs_token g) (gs_wire g) \<and> (gs_renewal g = None \<or> gs_renewal g = Some given \<and> gs_token g = old)"

lemma keeps_service_request:
  assumes m: "\<And>url token. keeps (W token) (request url token)"
  shows "keeps service_fine (service_request request)"
proof (rule keepsI)
  fix g assume g: "service_fine g"
  obtain r w where first: "request (gs_url g) (gs_token g) (gs_wire g) = (r, w)" by fastforce
  have w: "W (gs_token g) w" using keepsD_eq [OF m _ first] g by (simp add: service_fine_def)
  have again: "W new (snd (request (gs_url g) new w))" if "gs_renewal g = Some (Some new)" for new
    using keepsD [OF m law_renewed, of new w] g w that by (auto simp: service_fine_def)
  show "service_fine (snd (service_request request g))"
    using first g w again
    by (auto simp: service_request_def and_then_def on_result_def on_service_def on_part_def renew_def service_fine_def
        split: sum.splits graph_stop.splits option.splits prod.splits if_splits)
qed

lemma keeps_read_changes: "keeps service_fine (read_changes platform from_where)"
  unfolding read_changes_def by (intro keeps_service_request keeps_read_message_changes)

lemma keeps_update_flags: "keeps service_fine (update_flags platform i update)"
  unfolding update_flags_def by (intro keeps_service_request keeps_update_message_flags)

lemma keeps_read_in_folder: "keeps service_fine (read_in_folder platform i folder_id)"
  unfolding read_in_folder_def by (intro keeps_and_then keeps_ret keeps_service_request keeps_read_graph_message)

lemma keeps_read_texts: "keeps service_fine (read_texts fuel platform arrivals reading folder_id)"
  unfolding read_texts_def Let_def
  by (auto intro!: keeps_if keeps_ret keeps_map_each keeps_and_then keeps_service_request keeps_read_message_text
      keeps_read_texts_between split: list.split simp del: ret_run)

end

section \<open>The cycle\<close>

locale graph_cycle_law = store_law holds folder may + service_law W old given
  for holds :: "store \<Rightarrow> bool" and folder :: folder_ref and may :: "user_act \<Rightarrow> bool"
    and W :: "string \<Rightarrow> graph_wire \<Rightarrow> bool" and old :: string and given :: "string option"
begin

abbreviation fine :: "graph_service cycle \<Rightarrow> bool" where
  "fine \<equiv> cycle_fine writer_ok service_fine"

lemma keeps_service_asked [keeps_intros]: "keeps service_fine m \<Longrightarrow> keeps fine (in_server ended m)"
  by (rule keeps_in_server [OF _ writer_meanwhile])

lemma keeps_entry_change: "keeps fine (entry_change platform reading limit folder_id elsewhere known entry)"
proof -
  obtain i change where entry: "entry = (i, change)" by fastforce
  show ?thesis
    unfolding entry_change_def entry Let_def prod.case
    by (intro keeps_if keeps_ret keeps_and_then keeps_service_asked keeps_read_in_folder) (cases change; simp add: keeps_ret)
qed

lemma keeps_batch_from_changes [keeps_intros]: "keeps fine (batch_from_changes fuel platform found reading limit)"
  unfolding batch_from_changes_def Let_def
  by (intro keeps_and_then keeps_in_batches keeps_bw_identities_in_other_folders keeps_bw_stored_identities keeps_reads
      keeps_map_each keeps_entry_change keeps_service_asked keeps_read_texts keeps_ret)

lemma keeps_send_graph_changes [keeps_intros]: "keeps fine (send_graph_changes platform)"
proof -
  have refusable: "keeps service_fine (on_result (update_flags platform i update)
      (\<lambda>stop. case stop of
          Stops error \<Rightarrow> if refuses_the_change error then ret (Some error) else throw stop
        | OutOfPages \<Rightarrow> throw stop)
      (\<lambda>_. ret None))" for i update
  proof (intro keeps_on_result keeps_update_flags keeps_ret)
    show "keeps service_fine (case stop of
        Stops error \<Rightarrow> if refuses_the_change error then ret (Some error) else throw stop
      | OutOfPages \<Rightarrow> throw stop)" for stop
      by (cases stop) (simp_all add: keeps_ret keeps_throw del: ret_run throw_run)
  qed
  have "keeps fine (send_graph_change platform change)" for change
    unfolding send_graph_change_def Let_def
    by (intro keeps_case_option keeps_throw keeps_and_then keeps_service_asked refusable keeps_in_batches keeps_settle keeps_drop_pending)
  then show ?thesis
    unfolding send_graph_changes_def by (intro keeps_and_then keeps_in_batches keeps_bw_pending_changes keeps_for_each)
qed

lemma keeps_store_page [keeps_intros]: "keeps fine (store_page platform batch sends)"
  unfolding store_page_def
  by (intro keeps_and_then keeps_in_batches keeps_bw_store_batch keeps_only_if keeps_send_graph_changes)

lemma keeps_finish_page [keeps_intros]: "keeps fine (finish_page platform l batch next)"
  unfolding finish_page_def Let_def
  by (cases "next") (auto simp del: ret_run intro!: keeps_and_then keeps_store_page keeps_ret)

lemma keeps_read_whole_folder [keeps_intros]: "keeps fine (read_whole_folder l named)"
  unfolding read_whole_folder_def
  by (intro keeps_and_then keeps_in_batches keeps_bw_read_folder_sync keeps_reads keeps_ret)

lemma keeps_page_or_rejection [keeps_intros]: "keeps fine (page_or_rejection platform l)"
  unfolding page_or_rejection_def
proof (intro keeps_service_asked keeps_on_result keeps_read_changes keeps_ret)
  show "keeps service_fine (case stop of Stops error \<Rightarrow> if may_reject l error then ret None else throw stop | OutOfPages \<Rightarrow> throw stop)" for stop
    by (cases stop) (simp_all add: keeps_ret keeps_throw del: ret_run throw_run)
qed

lemma keeps_graph_step [keeps_intros]: "keeps fine (graph_step fuel platform limit l)"
  unfolding graph_step_def Let_def
  by (intro keeps_and_then keeps_page_or_rejection keeps_case_option keeps_read_whole_folder keeps_if
      keeps_batch_from_changes keeps_finish_page)

lemma keeps_graph_cycle_loop [keeps_intros]: "keeps fine (graph_cycle_loop n fuel platform limit l)"
  by (induction n arbitrary: l) (auto intro!: keeps_throw keeps_and_then keeps_graph_step keeps_case_sum keeps_ret)

lemma keeps_graph_cycle: "keeps fine (graph_cycle n fuel platform limit)"
  unfolding graph_cycle_def Let_def
  by (intro keeps_and_then keeps_in_batches keeps_bw_read_folder_sync keeps_reads keeps_case_prod keeps_graph_cycle_loop)

lemma synchronize_graph_fine:
  assumes "writer_ok batches" and "W old w"
    and "graph_cycle pages fuel platform limit \<lparr>cy_batches = batches, cy_server = new_service url old given w, cy_ready = ready\<rparr> = (r, c)"
  shows "writer_ok (cy_batches c)" and "service_fine (cy_server c)"
proof -
  have "fine \<lparr>cy_batches = batches, cy_server = new_service url old given w, cy_ready = ready\<rparr>"
    using assms(1,2) by (simp add: cycle_fine_def service_fine_def new_service_def)
  from keepsD_eq [OF keeps_graph_cycle this assms(3)] show "writer_ok (cy_batches c)" "service_fine (cy_server c)"
    by (simp_all add: cycle_fine_def)
qed

end

end
