(* ===== verification/Graph_Claims.thy ===== *)
theory Graph_Claims
  imports Graph_Laws Store_Demo
begin

text \<open>
  A Microsoft 365 cycle: what it sends, how the entries of a page are merged, and that it ends.
\<close>

section \<open>What a cycle sends\<close>

text \<open>The requests up to now: those under the old token first, then those under the given one.\<close>

definition sent_in_order :: "(graph_request list \<Rightarrow> http_reply) \<Rightarrow> string \<Rightarrow> string option \<Rightarrow> string \<Rightarrow> graph_wire \<Rightarrow> bool" where
  "sent_in_order service old given token w \<longleftrightarrow> gw_service w = service \<and> list_all harmless_request (gw_sent w) \<and>
     (\<exists>before after. gw_sent w = before @ after \<and> list_all (\<lambda>request. rq_token request = old) before \<and>
       list_all (\<lambda>request. Some (rq_token request) = given) after \<and> (token = old \<and> after = [] \<or> Some token = given))"

lemma keeps_send:
  assumes "\<And>w. P w \<Longrightarrow> P (w\<lparr>gw_sent := gw_sent w @ [request]\<rparr>)"
  shows "keeps P (send request)"
  using assms by (auto simp: keeps_def send_def split: http_reply.split)

lemma sent_more:
  assumes "sent_in_order service old given token w" and "harmless_request request" and "rq_token request = token"
  shows "sent_in_order service old given token (w\<lparr>gw_sent := gw_sent w @ [request]\<rparr>)"
proof -
  obtain before after where sent: "gw_sent w = before @ after" "list_all (\<lambda>request. rq_token request = old) before"
    "list_all (\<lambda>request. Some (rq_token request) = given) after" "token = old \<and> after = [] \<or> Some token = given"
    using assms(1) by (auto simp: sent_in_order_def)
  have w: "gw_service w = service" "list_all harmless_request (gw_sent w)" using assms(1) by (simp_all add: sent_in_order_def)
  have "\<exists>before' after'. gw_sent w @ [request] = before' @ after' \<and> list_all (\<lambda>request. rq_token request = old) before' \<and>
      list_all (\<lambda>request. Some (rq_token request) = given) after' \<and> (token = old \<and> after' = [] \<or> Some token = given)"
  proof (cases "Some token = given")
    case True
    then show ?thesis using sent assms(3) by (intro exI [of _ before] exI [of _ "after @ [request]"]) simp
  next
    case False
    then show ?thesis using sent assms(3) by (intro exI [of _ "before @ [request]"] exI [of _ "[]"]) simp
  qed
  then show ?thesis using w assms(2) by (simp add: sent_in_order_def)
qed

interpretation requests: service_law "sent_in_order service old given" old given
  for service old given
proof unfold_locales
  fix request :: graph_request and token
  assume "harmless_request request" "rq_token request = token"
  then show "keeps (sent_in_order service old given token) (send request)"
    by (intro keeps_send) (rule sent_more)
qed (auto simp: sent_in_order_def)

interpretation anything: store_law "\<lambda>_. True" folder "\<lambda>_. True"
  for folder
  by unfold_locales simp_all

interpretation sending: graph_cycle_law "\<lambda>_. True" folder "\<lambda>_. True" "sent_in_order service old given" old given
  for folder service old given
  by unfold_locales


definition demo_service :: "graph_request list \<Rightarrow> http_reply" where
  "demo_service h = (if rq_token (last h) = ''t1'' then Answered 401 [] else Broken True ''silence'')"

definition demo_platform :: graph_platform where
  "demo_platform = \<lparr>parse_json = (\<lambda>_. None), date_seconds = (\<lambda>_. None), utc_date = (\<lambda>_. []), escape_part = (\<lambda>part. part), hash_order = (\<lambda>found. found)\<rparr>"

definition demo_graph_run :: "(cycle_end + load_result) \<times> graph_service cycle" where
  "demo_graph_run = graph_cycle 5 5 demo_platform 0
    \<lparr>cy_batches = new_writer demo_loaded demo_inbox False [], cy_server = new_service ''u'' ''t1'' (Some ''t2'') \<lparr>gw_service = demo_service, gw_sent = []\<rparr>, cy_ready = []\<rparr>"


section \<open>Merged entries\<close>

lemma merge_keys_distinct: "distinct (map fst (merge_per_message found))"
proof -
  have "distinct (map fst (fst state)) \<Longrightarrow> distinct (map fst (fst (fold merge_step found state)))" for state
  proof (induction found arbitrary: state)
    case (Cons change found)
    have "distinct (map fst (fst (merge_step change state)))"
      using Cons.prems by (cases state) (auto simp: merge_step_def Let_def delete_keys distinct_removeAll)
    then show ?case using Cons.IH by simp
  qed simp
  then show ?thesis by (simp add: merge_per_message_def)
qed

text \<open>The entries of one message in their order, as if nothing else were on the page: the reference.\<close>

fun story :: "message_change option \<Rightarrow> message_change list \<Rightarrow> message_change option" where
  "story earlier [] = earlier"
| "story earlier (entry # rest) = story (Some (combine_changes earlier entry)) rest"

definition mixed :: "message_change list \<Rightarrow> bool" where
  "mixed found \<longleftrightarrow> (\<exists>entry \<in> set found. is_removed entry) \<and> (\<exists>entry \<in> set found. \<not> is_removed entry)"

definition merged_reference :: "string \<Rightarrow> message_change list \<Rightarrow> message_change option" where
  "merged_reference i found = (if mixed found then Some (Changed i None None True) else story None found)"

lemma story_snoc: "story earlier (found @ [entry]) = Some (combine_changes (story earlier found) entry)"
  by (induction earlier found rule: story.induct) simp_all

lemma removed_combine: "is_removed (combine_changes earlier later) = is_removed later"
  by (auto simp: combine_changes_def is_removed_def split: option.split message_change.split bool.split)

lemma story_removed: "story None found = Some e \<Longrightarrow> is_removed e = is_removed (last found)"
  by (cases found rule: rev_cases) (auto simp: story_snoc removed_combine)

lemma mixed_snoc:
  assumes "\<not> mixed found"
  shows "mixed (found @ [entry]) \<longleftrightarrow> (case story None found of Some e \<Rightarrow> is_removed e \<noteq> is_removed entry | None \<Rightarrow> False)"
proof (cases found rule: rev_cases)
  case Nil
  then show ?thesis by (auto simp: mixed_def)
next
  case (snoc before latest)
  have "story None found = Some (combine_changes (story None before) latest)" by (simp add: snoc story_snoc)
  moreover have "\<forall>x \<in> set found. is_removed x = is_removed latest" using assms snoc by (auto simp: mixed_def)
  ultimately show ?thesis using snoc by (auto simp: mixed_def removed_combine)
qed

lemma merged_state:
  "(i \<in> set (snd (fold merge_step found ([], []))) \<longleftrightarrow> mixed (filter (\<lambda>entry. change_id entry = i) found)) \<and>
   map_of (fst (fold merge_step found ([], []))) i = merged_reference i (filter (\<lambda>entry. change_id entry = i) found)"
proof (induction found rule: rev_induct)
  case Nil
  then show ?case by (simp add: mixed_def merged_reference_def)
next
  case (snoc entry found)
  obtain merged again where state: "fold merge_step found ([], []) = (merged, again)" by fastforce
  let ?mine = "filter (\<lambda>entry. change_id entry = i) found"
  have now: "(i \<in> set again) = mixed ?mine" "map_of merged i = merged_reference i ?mine" using snoc.IH state by simp_all
  have fold: "fold merge_step (found @ [entry]) ([], []) = merge_step entry (merged, again)" by (simp add: state)
  have "(i \<in> set (snd (merge_step entry (merged, again))) \<longleftrightarrow> mixed (filter (\<lambda>entry. change_id entry = i) (found @ [entry]))) \<and>
      map_of (fst (merge_step entry (merged, again))) i = merged_reference i (filter (\<lambda>entry. change_id entry = i) (found @ [entry]))"
  proof (cases "change_id entry = i")
    case False
    then show ?thesis using now by (auto simp: merge_step_def Let_def delete_conv')
  next
    case True
    show ?thesis
    proof (cases "mixed ?mine")
      case True
      then have "mixed (?mine @ [entry])" by (auto simp: mixed_def)
      then show ?thesis using True \<open>change_id entry = i\<close> now by (simp add: merge_step_def Let_def merged_reference_def)
    next
      case False
      note split = mixed_snoc [OF False, of entry]
      have "map_of merged i = story None ?mine" using False now by (simp add: merged_reference_def)
      then show ?thesis using False True now split
        by (cases "story None ?mine") (auto simp: merge_step_def Let_def merged_reference_def story_snoc)
    qed
  qed
  then show ?case unfolding fold .
qed


section \<open>A cycle ends\<close>

text \<open>An action that never ends with \<open>bad\<close> and keeps \<open>P\<close>.\<close>

definition avoids :: "('s \<Rightarrow> bool) \<Rightarrow> 'e \<Rightarrow> ('s, 'e, 'a) action \<Rightarrow> bool" where
  "avoids P bad m \<longleftrightarrow> (\<forall>s. P s \<longrightarrow> P (snd (m s)) \<and> fst (m s) \<noteq> Inl bad)"

named_theorems avoids_intros \<open>rules that show that an action never ends in a certain way\<close>

lemma avoids_ret [avoids_intros]: "avoids P bad (ret x)" by (simp add: avoids_def)
lemma avoids_reads [avoids_intros]: "avoids P bad (reads f)" by (simp add: avoids_def)
lemma avoids_throw [avoids_intros]: "e \<noteq> bad \<Longrightarrow> avoids P bad (throw e)" by (simp add: avoids_def)
lemma avoids_changes: "(\<And>s. P s \<Longrightarrow> P (f s)) \<Longrightarrow> avoids P bad (changes f)" by (simp add: avoids_def)

lemma avoids_and_then [avoids_intros]:
  "avoids P bad m \<Longrightarrow> (\<And>x. avoids P bad (k x)) \<Longrightarrow> avoids P bad (and_then m k)"
  unfolding avoids_def and_then_def by (fastforce split: prod.splits sum.splits)

lemma avoids_on_result:
  "avoids P worse m \<Longrightarrow> (\<And>e. e \<noteq> worse \<Longrightarrow> avoids P bad (h e)) \<Longrightarrow> (\<And>x. avoids P bad (k x)) \<Longrightarrow> avoids P bad (on_result m h k)"
  unfolding avoids_def on_result_def by (fastforce split: prod.splits sum.splits)

lemma avoids_if [avoids_intros]: "(b \<Longrightarrow> avoids P bad m) \<Longrightarrow> (\<not> b \<Longrightarrow> avoids P bad n) \<Longrightarrow> avoids P bad (if b then m else n)"
  by simp

lemma avoids_option [avoids_intros]:
  "(x = None \<Longrightarrow> avoids P bad m) \<Longrightarrow> (\<And>y. x = Some y \<Longrightarrow> avoids P bad (k y)) \<Longrightarrow> avoids P bad (case x of None \<Rightarrow> m | Some y \<Rightarrow> k y)"
  by (cases x) simp_all

lemma avoids_prod [avoids_intros]: "(\<And>x y. p = (x, y) \<Longrightarrow> avoids P bad (k x y)) \<Longrightarrow> avoids P bad (case p of (x, y) \<Rightarrow> k x y)"
  by (cases p) simp

lemma avoids_map_each [avoids_intros]: "(\<And>x. avoids P bad (f x)) \<Longrightarrow> avoids P bad (map_each f xs)"
  by (induction xs) (auto intro: avoids_intros)

lemma avoids_for_each [avoids_intros]: "(\<And>x. avoids P bad (f x)) \<Longrightarrow> avoids P bad (for_each f xs)"
  by (induction xs) (auto intro: avoids_intros)

lemma avoids_only_if [avoids_intros]: "avoids P bad m \<Longrightarrow> avoids P bad (only_if b m)"
  by (simp add: only_if_def avoids_ret)

lemma avoids_on_part:
  assumes "avoids Q bad m" and "\<And>s. P s \<Longrightarrow> Q (get s)" and "\<And>s p. P s \<Longrightarrow> Q p \<Longrightarrow> P (put p s)"
  shows "avoids P bad (on_part get put m)"
  using assms unfolding avoids_def on_part_def by (auto split: prod.splits) (metis snd_conv, metis fst_conv)

text \<open>
  What ends a reading of the service: a place of each address below \<open>n\<close>, each next link being at an
  earlier place than the address it was answered to.
\<close>

definition pages_end :: "graph_platform \<Rightarrow> (graph_request list \<Rightarrow> http_reply) \<Rightarrow> (string \<Rightarrow> nat) \<Rightarrow> nat \<Rightarrow> bool" where
  "pages_end platform service place n \<longleftrightarrow> (\<forall>address. place address < n) \<and>
     (\<forall>before request answer j next_link. service (before @ [request]) = Answered 200 answer \<longrightarrow> parse_json platform answer = Some j \<longrightarrow>
        owned_text (json_field ''@odata.nextLink'' j) = Some next_link \<longrightarrow> place next_link < place (rq_address request))"

definition served_by :: "(graph_request list \<Rightarrow> http_reply) \<Rightarrow> graph_wire \<Rightarrow> bool" where
  "served_by service w \<longleftrightarrow> gw_service w = service"

definition serves :: "(graph_request list \<Rightarrow> http_reply) \<Rightarrow> string \<Rightarrow> graph_service \<Rightarrow> bool" where
  "serves service url g \<longleftrightarrow> served_by service (gs_wire g) \<and> gs_url g = url"

lemma avoids_send [avoids_intros]: "avoids (served_by service) OutOfPages (send request)"
  by (auto simp: avoids_def send_def served_by_def split: http_reply.split)

lemma avoids_stops [avoids_intros]: "avoids P OutOfPages (stops result)"
  by (cases result) (simp_all add: avoids_def stops_def)

lemma avoids_or_failed [avoids_intros]: "avoids P OutOfPages (or_failed result)"
  by (cases result) (simp_all add: avoids_def or_failed_def)

lemma avoids_ask [avoids_intros]: "avoids (served_by service) OutOfPages (ask platform request)"
  unfolding ask_def by (intro avoids_intros)

lemma asked:
  assumes "ask platform request w = (Inr answer, w')" and "served_by service w"
  shows "\<exists>before. service (before @ [request]) = Answered 200 answer"
proof -
  obtain status w1 where sent: "send request w = (Inr (status, answer), w1)" "map_sum Stops id (check_status platform status answer) = Inr ()"
    using assms(1) by (auto simp: ask_def and_then_def stops_def split: prod.splits sum.splits)
  then have "check_status platform status answer = Inr ()" by (cases "check_status platform status answer") simp_all
  then have "status = 200" by (auto simp: check_status_def Let_def split: if_splits prod.splits)
  then show ?thesis
    using sent(1) assms(2) by (auto simp: send_def served_by_def split: http_reply.splits)
qed

lemma text_page_next:
  assumes "or_failed (read_text_page platform answer) w = (Inr (page, Some link), w')"
  shows "\<exists>j. parse_json platform answer = Some j \<and> owned_text (json_field ''@odata.nextLink'' j) = Some link"
  using assms by (cases "parse_json platform answer")
    (auto simp: or_failed_def read_text_page_def read_answer_def valid_def split: option.splits)

lemma avoids_read_texts_from:
  assumes "pages_end platform service place n"
  shows "place address < fuel \<Longrightarrow> avoids (served_by service) OutOfPages (read_texts_from fuel platform token address texts)"
proof (induction fuel arbitrary: address texts)
  case (Suc fuel)
  let ?request = "prefer_header preferences (build_request address token)"
  have rq: "rq_address ?request = address" by (simp add: prefer_header_def build_request_def)
  show ?case
    unfolding avoids_def
  proof (intro allI impI)
    fix w assume w: "served_by service w"
    obtain r1 w1 where ask: "ask platform ?request w = (r1, w1)" by fastforce
    have 1: "served_by service w1" "r1 \<noteq> Inl OutOfPages"
      using avoids_ask [unfolded avoids_def] w ask by (metis fst_conv snd_conv)+
    show "served_by service (snd (read_texts_from (Suc fuel) platform token address texts w)) \<and>
        fst (read_texts_from (Suc fuel) platform token address texts w) \<noteq> Inl OutOfPages"
    proof (cases r1)
      case (Inl e)
      then show ?thesis using ask 1 by (simp add: and_then_def)
    next
      case (Inr answer)
      obtain r2 w2 where read: "or_failed (read_text_page platform answer) w1 = (r2, w2)" by fastforce
      have 2: "served_by service w2" "r2 \<noteq> Inl OutOfPages"
        using avoids_or_failed [where P = "served_by service", unfolded avoids_def] 1(1) read by (metis fst_conv snd_conv)+
      show ?thesis
      proof (cases r2)
        case (Inl e)
        then show ?thesis using ask Inr read 2 by (simp add: and_then_def)
      next
        case page: (Inr p)
        obtain found link where p: "p = (found, link)" by fastforce
        show ?thesis
        proof (cases link)
          case None
          then show ?thesis using ask Inr read page p 2 by (simp add: and_then_def)
        next
          case (Some next_link)
          obtain before where "service (before @ [?request]) = Answered 200 answer"
            using asked [OF ask [unfolded Inr] w] by blast
          moreover obtain j where "parse_json platform answer = Some j" "owned_text (json_field ''@odata.nextLink'' j) = Some next_link"
            using text_page_next read page p Some by blast
          ultimately have "place next_link < place address" using assms rq unfolding pages_end_def by metis
          then have "avoids (served_by service) OutOfPages (read_texts_from fuel platform token next_link (texts @ found))"
            using Suc by simp
          then show ?thesis using ask Inr read page p Some 2(1) by (simp add: and_then_def avoids_def)
        qed
      qed
    qed
  qed
qed simp

lemma avoids_service_request:
  assumes "\<And>token. avoids (served_by service) OutOfPages (request url token)"
  shows "avoids (serves service url) OutOfPages (service_request request)"
  unfolding avoids_def
proof (intro allI impI)
  fix g assume g: "serves service url g"
  have run: "served_by service (snd (request url token w)) \<and> fst (request url token w) \<noteq> Inl OutOfPages" if "served_by service w" for token w
    using assms that by (simp add: avoids_def)
  obtain r w where first: "request url (gs_token g) (gs_wire g) = (r, w)" by fastforce
  have w: "served_by service w" "r \<noteq> Inl OutOfPages" using run [of "gs_wire g" "gs_token g"] g first by (auto simp: serves_def)
  have url: "url = gs_url g" using g by (simp add: serves_def)
  have again: "served_by service w'" "x \<noteq> Inl OutOfPages" if "request url token w = (x, w')" for token x w'
    using run [OF w(1), of token] that by auto
  show "serves service url (snd (service_request request g)) \<and> fst (service_request request g) \<noteq> Inl OutOfPages"
    using g first w
    by (auto dest: again [unfolded url] simp: service_request_def and_then_def on_result_def on_service_def on_part_def renew_def serves_def
        split: sum.splits graph_stop.splits option.splits prod.splits if_splits)
qed

lemma service_request_result:
  assumes "service_request request g = (Inr x, g')" and "serves service url g"
    and "\<And>token. keeps (served_by service) (request url token)"
    and "\<And>token w x w'. served_by service w \<Longrightarrow> request url token w = (Inr x, w') \<Longrightarrow> Q x"
  shows "Q x"
proof -
  obtain r w where first: "request url (gs_token g) (gs_wire g) = (r, w)" by fastforce
  have wire: "served_by service (gs_wire g)" "gs_url g = url" using assms(2) by (simp_all add: serves_def)
  have w: "served_by service w" by (rule keepsD_eq [OF assms(3) wire(1) first])
  show ?thesis
  proof (cases r)
    case (Inr y)
    then show ?thesis using assms(1,4) first wire
      by (auto simp: service_request_def and_then_def on_result_def on_service_def on_part_def)
  next
    case (Inl stop)
    then obtain new w' where "request url new w = (Inr x, w')"
      using assms(1) first wire
      by (auto simp: service_request_def and_then_def on_result_def on_service_def on_part_def renew_def
          split: graph_stop.splits option.splits prod.splits if_splits)
    then show ?thesis by (rule assms(4) [OF w])
  qed
qed

section \<open>Every operation of the cycle\<close>

definition at_service :: "(graph_request list \<Rightarrow> http_reply) \<Rightarrow> string \<Rightarrow> graph_service cycle \<Rightarrow> bool" where
  "at_service service url c \<longleftrightarrow> serves service url (cy_server c)"

lemma avoids_in_batches [avoids_intros]: "avoids (at_service service url) CycleUnfinished (in_batches m)"
  by (auto simp: avoids_def in_batches_def map_error_def on_result_def on_part_def at_service_def cycle_end_result_def
      split: prod.splits sum.splits)

lemma avoids_waits [avoids_intros]: "avoids (at_service service url) CycleUnfinished waits"
  by (auto simp: avoids_def waits_def and_then_def on_part_def at_service_def take_ready_def cycle_end_result_def)

lemma avoids_in_server [avoids_intros]:
  assumes "avoids (serves service url) OutOfPages m"
  shows "avoids (at_service service url) CycleUnfinished (in_server graph_end m)"
  unfolding in_server_def
proof (rule avoids_on_result)
  show "avoids (at_service service url) OutOfPages (on_part cy_server (\<lambda>s c. c\<lparr>cy_server := s\<rparr>) m)"
    by (rule avoids_on_part [OF assms]) (simp_all add: at_service_def)
  show "avoids (at_service service url) CycleUnfinished (and_then waits (\<lambda>_. throw (graph_end e)))" if "e \<noteq> OutOfPages" for e
    using that by (cases e) (auto intro!: avoids_intros simp: graph_end_def cycle_end_graph_def)
qed (intro avoids_intros)

lemma avoids_requests:
  "avoids (served_by service) OutOfPages (read_message_changes platform url token from_where)"
  "avoids (served_by service) OutOfPages (update_message_flags platform url token i update)"
  "avoids (served_by service) OutOfPages (read_graph_message platform url token i)"
  "avoids (served_by service) OutOfPages (read_message_text platform url token i)"
  unfolding read_message_changes_def update_message_flags_def read_graph_message_def read_message_text_def read_one_def
  by (intro avoids_intros)+

lemma avoids_send_graph_changes [avoids_intros]:
  "avoids (at_service service url) CycleUnfinished (send_graph_changes platform)"
proof -
  have "avoids (serves service url) OutOfPages (on_result (update_flags platform i update)
      (\<lambda>stop. case stop of
          Stops error \<Rightarrow> if refuses_the_change error then ret (Some error) else throw stop
        | OutOfPages \<Rightarrow> throw stop)
      (\<lambda>_. ret None))" for i update
  proof (rule avoids_on_result)
    show "avoids (serves service url) OutOfPages (update_flags platform i update)"
      unfolding update_flags_def by (intro avoids_service_request avoids_requests)
    show "avoids (serves service url) OutOfPages (case stop of
          Stops error \<Rightarrow> if refuses_the_change error then ret (Some error) else throw stop
        | OutOfPages \<Rightarrow> throw stop)" if "stop \<noteq> OutOfPages" for stop
      using that by (cases stop) (auto intro!: avoids_intros simp del: ret_run throw_run)
  qed (intro avoids_intros)
  then have "avoids (at_service service url) CycleUnfinished (send_graph_change platform entry)" for entry
    unfolding send_graph_change_def Let_def by (intro avoids_intros) simp_all
  then show ?thesis unfolding send_graph_changes_def by (intro avoids_intros)
qed

lemma avoids_batch_from_changes:
  assumes ends: "pages_end platform service place n" and fuel: "n \<le> fuel"
  shows "avoids (at_service service url) CycleUnfinished (batch_from_changes fuel platform found reading limit)"
proof -
  have texts: "avoids (served_by service) OutOfPages (read_texts_received_between fuel platform url token folder_id d e)" for token folder_id d e
    unfolding read_texts_received_between_def
    by (rule avoids_read_texts_from [OF ends]) (use ends fuel in \<open>auto simp: pages_end_def intro: less_le_trans\<close>)
  have "avoids (serves service url) OutOfPages (read_texts fuel platform arrivals reading folder_id)" for arrivals folder_id
  proof -
    have between: "avoids (serves service url) OutOfPages (case dates of
          [] \<Rightarrow> ret []
        | date # later \<Rightarrow> service_request (\<lambda>url token. read_texts_received_between fuel platform url token folder_id
            (fold min later date) (fold max later date)))" for dates
      by (cases dates) (auto intro!: avoids_ret avoids_service_request texts simp del: ret_run)
    show ?thesis
      unfolding read_texts_def Let_def
      by (intro avoids_intros avoids_service_request avoids_requests between)
  qed
  moreover have "avoids (at_service service url) CycleUnfinished (entry_change platform reading limit folder_id elsewhere known entry)" for folder_id elsewhere known entry
  proof -
    obtain i change where entry: "entry = (i, change)" by fastforce
    have "avoids (at_service service url) CycleUnfinished (case change of
        Listed message \<Rightarrow> ret (Some (Inr (arrival_of b change limit message))) | _ \<Rightarrow> ret None)" for b
      by (cases change) (auto intro: avoids_ret)
    then show ?thesis
      unfolding entry_change_def entry Let_def prod.case read_in_folder_def
      by (intro avoids_intros avoids_service_request avoids_requests)
  qed
  ultimately show ?thesis unfolding batch_from_changes_def Let_def by (intro avoids_intros)
qed

text \<open>What is left of a cycle: the readings still to come, and the place of the address it reads next.\<close>

definition readings_left :: "graph_reading \<Rightarrow> nat" where
  "readings_left reading = (case reading of FirstFill _ \<Rightarrow> 2 | Round \<Rightarrow> 1 | FullRereading _ \<Rightarrow> 0)"

definition steps_left :: "graph_platform \<Rightarrow> string \<Rightarrow> (string \<Rightarrow> nat) \<Rightarrow> nat \<Rightarrow> graph_loop \<Rightarrow> nat" where
  "steps_left platform url place n l = readings_left (gl_reading l) * n + place (changes_address platform url (gl_from l))"

lemma change_page_next:
  assumes "read_message_changes platform url token from_where w = (Inr page, w')" and "served_by service w"
    and "pages_end platform service place n" and "page_next page = More link"
  shows "place link < place (changes_address platform url from_where)"
proof -
  let ?request = "prefer_header delta_preferences (build_request (changes_address platform url from_where) token)"
  obtain status answer w1 where sent: "send ?request w = (Inr (status, answer), w1)"
    and status: "stops (case check_status platform status answer of Inl error \<Rightarrow> Inl (rejected_position error from_where) | Inr x \<Rightarrow> Inr x) w1 = (Inr (), w1)"
    and read: "or_failed (read_change_page platform answer) w1 = (Inr page, w')"
    using assms(1) by (auto simp: read_message_changes_def and_then_def stops_def split: prod.splits sum.splits)
  have "status = 200" using status
    by (cases "check_status platform status answer") (auto simp: stops_def check_status_def Let_def split: if_splits prod.splits)
  then have "service (gw_sent w @ [?request]) = Answered 200 answer"
    using sent assms(2) by (auto simp: send_def served_by_def split: http_reply.splits)
  moreover obtain j where "parse_json platform answer = Some j" "owned_text (json_field ''@odata.nextLink'' j) = Some link"
    using read assms(4) by (cases "parse_json platform answer")
      (auto simp: or_failed_def read_change_page_def read_answer_def valid_def split: option.splits)
  moreover have "rq_address ?request = changes_address platform url from_where" by (simp add: prefer_header_def build_request_def)
  ultimately show ?thesis using assms(3) unfolding pages_end_def by metis
qed

lemma fewer_readings:
  assumes "pages_end platform service place n" and "readings_left (gl_reading l') < readings_left (gl_reading l)"
  shows "steps_left platform url place n l' < steps_left platform url place n l"
proof -
  have "place (changes_address platform url (gl_from l')) < n" using assms(1) by (simp add: pages_end_def)
  moreover have "Suc (readings_left (gl_reading l')) * n \<le> readings_left (gl_reading l) * n"
    using assms(2) by (intro mult_right_mono) simp_all
  ultimately show ?thesis by (simp add: steps_left_def)
qed

lemma nearer_page:
  assumes "gl_from l' = Link link" and "readings_left (gl_reading l') = readings_left (gl_reading l)"
    and "place link < place (changes_address platform url (gl_from l))"
  shows "steps_left platform url place n l' < steps_left platform url place n l"
  using assms by (simp add: steps_left_def changes_address_def)

lemma asked_page:
  assumes "page_or_rejection platform l c = (Inr (Some page), c')"
  shows "\<exists>g. read_changes platform (gl_from l) (cy_server c) = (Inr page, g)"
proof -
  obtain r g where r: "read_changes platform (gl_from l) (cy_server c) = (r, g)" by fastforce
  then show ?thesis
    using assms by (cases r)
      (auto simp: page_or_rejection_def in_server_def on_result_def on_part_def and_then_def
        split: graph_stop.splits if_splits prod.splits sum.splits)
qed

lemma rejected_page:
  assumes "page_or_rejection platform l c = (Inr None, c')"
  shows "0 < readings_left (gl_reading l)"
proof -
  obtain r g where r: "read_changes platform (gl_from l) (cy_server c) = (r, g)" by fastforce
  then obtain error where "may_reject l error"
    using assms by (cases r)
      (auto simp: page_or_rejection_def in_server_def on_result_def on_part_def and_then_def
        split: graph_stop.splits if_splits prod.splits sum.splits)
  then show ?thesis by (auto simp: may_reject_def readings_left_def split: graph_reading.splits)
qed

lemma whole_folder_next:
  assumes "read_whole_folder l named c = (Inr next_state, c')"
  shows "\<exists>l'. next_state = Inl l' \<and> gl_reading l' = FullRereading []"
  using assms by (auto simp: read_whole_folder_def and_then_def split: prod.splits sum.splits)

lemma finished_page:
  assumes "finish_page platform l batch following c = (Inr (Inl l'), c')"
  shows "(\<exists>link. following = More link \<and> l' = l\<lparr>gl_from := Link link\<rparr>) \<or>
    gl_reading l = FirstFill True \<and> gl_reading l' = Round"
  using assms by (cases following) (auto simp: finish_page_def and_then_def Let_def split: prod.splits sum.splits if_splits)

lemma next_page_nearer:
  assumes "pages_end platform service place n" and "at_service service url c"
    and "page_or_rejection platform l c = (Inr (Some page), c')" and "page_next page = More link"
  shows "place link < place (changes_address platform url (gl_from l))"
proof -
  obtain g where read: "read_changes platform (gl_from l) (cy_server c) = (Inr page, g)" using asked_page [OF assms(3)] by blast
  have serves: "serves service url (cy_server c)" using assms(2) by (simp add: at_service_def)
  have keeps: "keeps (served_by service) (read_message_changes platform url token (gl_from l))" for token
    using avoids_requests(1) by (simp add: avoids_def keeps_def)
  have "page_next page = More link \<longrightarrow> place link < place (changes_address platform url (gl_from l))"
    by (rule service_request_result [OF read [unfolded read_changes_def] serves keeps]) (use change_page_next assms(1) in blast)
  then show ?thesis using assms(4) by simp
qed

lemma step_progress:
  assumes ends: "pages_end platform service place n" and c: "at_service service url c"
    and step: "graph_step fuel platform limit l c = (Inr (Inl l'), c')"
  shows "steps_left platform url place n l' < steps_left platform url place n l"
proof -
  obtain found c1 where page: "page_or_rejection platform l c = (Inr found, c1)"
    using step by (auto simp: graph_step_def and_then_def split: prod.splits sum.splits)
  show ?thesis
  proof (cases found)
    case None
    then have "gl_reading l' = FullRereading []"
      using step page whole_folder_next [of l _ c1] by (fastforce simp: graph_step_def and_then_def)
    then show ?thesis using rejected_page page None by (intro fewer_readings [OF ends]) (simp add: readings_left_def)
  next
    case (Some p)
    let ?merged = "merge_per_message (page_changes p)"
    let ?named = "named_in_round l ?merged"
    let ?reading = "case gl_reading l of FullRereading listed \<Rightarrow> FullRereading (listed @ map (\<lambda>(i, _). graph_identity i) ?merged) | other \<Rightarrow> other"
    let ?l = "l\<lparr>gl_reading := ?reading, gl_named := ?named\<rparr>"
    have rank: "readings_left ?reading = readings_left (gl_reading l)" by (auto simp: readings_left_def split: graph_reading.split)
    show ?thesis
    proof (cases "gl_reading l = Round \<and> round_readings_limit < ?named")
      case True
      then have "gl_reading l' = FullRereading []"
        using step page Some whole_folder_next [of l ?named c1] by (fastforce simp: graph_step_def and_then_def Let_def)
      then show ?thesis using True by (intro fewer_readings [OF ends]) (simp add: readings_left_def)
    next
      case False
      then obtain batch c2 where "finish_page platform ?l batch (page_next p) c2 = (Inr (Inl l'), c')"
        using step page Some by (auto simp: graph_step_def and_then_def Let_def split: prod.splits sum.splits if_splits)
      from finished_page [OF this] show ?thesis
      proof
        assume "\<exists>link. page_next p = More link \<and> l' = ?l\<lparr>gl_from := Link link\<rparr>"
        then obtain link where link: "page_next p = More link" "l' = ?l\<lparr>gl_from := Link link\<rparr>" by blast
        show ?thesis
          by (rule nearer_page [of _ link]) (use link rank next_page_nearer [OF ends c page [unfolded Some]] in simp_all)
      next
        assume "gl_reading ?l = FirstFill True \<and> gl_reading l' = Round"
        then have "readings_left (gl_reading l') < readings_left ?reading" by (simp add: readings_left_def)
        then show ?thesis using rank by (intro fewer_readings [OF ends]) simp
      qed
    qed
  qed
qed

lemma avoids_graph_step:
  assumes "pages_end platform service place n" and "n \<le> fuel"
  shows "avoids (at_service service url) CycleUnfinished (graph_step fuel platform limit l)"
proof -
  have read: "avoids (at_service service url) CycleUnfinished (page_or_rejection platform l)"
    unfolding page_or_rejection_def
  proof (rule avoids_in_server, rule avoids_on_result)
    show "avoids (serves service url) OutOfPages (read_changes platform (gl_from l))"
      unfolding read_changes_def by (intro avoids_service_request avoids_requests)
    show "avoids (serves service url) OutOfPages (case stop of Stops error \<Rightarrow> if may_reject l error then ret None else throw stop | OutOfPages \<Rightarrow> throw stop)"
      if "stop \<noteq> OutOfPages" for stop
      using that by (cases stop) (auto intro!: avoids_intros simp del: ret_run throw_run)
  qed (intro avoids_intros)
  have stored: "avoids (at_service service url) CycleUnfinished (store_page platform batch sends)" for batch sends
    unfolding store_page_def by (intro avoids_intros)
  have finished: "avoids (at_service service url) CycleUnfinished (finish_page platform l batch following)" for l batch following
    unfolding finish_page_def Let_def by (cases following) (auto intro!: avoids_and_then avoids_ret stored simp del: ret_run)
  show ?thesis
    unfolding graph_step_def read_whole_folder_def Let_def
    by (intro avoids_intros read finished avoids_batch_from_changes [OF assms])
qed

lemma loop_ends:
  assumes "pages_end platform service place n" and "n \<le> fuel"
  shows "steps_left platform url place n l < pages \<Longrightarrow> at_service service url c \<Longrightarrow>
    fst (graph_cycle_loop pages fuel platform limit l c) \<noteq> Inl CycleUnfinished"
proof (induction pages arbitrary: l c)
  case (Suc pages)
  obtain r c1 where step: "graph_step fuel platform limit l c = (r, c1)" by fastforce
  have c1: "at_service service url c1" "r \<noteq> Inl CycleUnfinished"
    using avoids_graph_step [OF assms, of url limit l, unfolded avoids_def, rule_format, OF Suc.prems(2)] step by simp_all
  show ?case
  proof (cases r)
    case (Inl e)
    then show ?thesis using step c1 by (simp add: and_then_def)
  next
    case (Inr next_state)
    then show ?thesis
    proof (cases next_state)
      case (Inl l')
      have "steps_left platform url place n l' < pages"
        using step_progress [OF assms(1) Suc.prems(2)] step \<open>r = Inr next_state\<close> Inl Suc.prems(1) by fastforce
      from Suc.IH [OF this c1(1)] show ?thesis using step \<open>r = Inr next_state\<close> Inl by (simp add: and_then_def)
    qed (use step Inr in \<open>simp add: and_then_def\<close>)
  qed
qed simp

text \<open>
  C22: a Microsoft 365 cycle ends: if the service's listings end within \<open>n\<close> pages, the cycle is over after
  at most three readings of them, the saved fill, the round after it and one reading of the whole
  folder, however the service orders its answers, rejects positions or refuses tokens: with that many
  pages allowed it is never cut off, so it returns its result or its error.
\<close>

theorem graph_cycle_ends:
  assumes "pages_end platform service place n" and "n \<le> fuel" and "3 * n \<le> pages" and "gw_service w = service"
  shows "fst (synchronize_graph_folder pages fuel platform token url renewal start w ready batches) \<noteq> Inl CycleUnfinished"
proof -
  let ?c = "\<lparr>cy_batches = batches, cy_server = new_service url token renewal w, cy_ready = ready\<rparr>"
  have at: "at_service service url ?c" using assms(4) by (simp add: at_service_def serves_def served_by_def new_service_def)
  obtain r c1 where read: "in_batches bw_read_folder_sync ?c = (r, c1)" by fastforce
  have c1: "at_service service url c1" "r \<noteq> Inl CycleUnfinished"
    using avoids_in_batches [unfolded avoids_def, rule_format, OF at] read by (metis fst_conv snd_conv)+
  have "fst (graph_cycle pages fuel platform (recent_limit start) ?c) \<noteq> Inl CycleUnfinished"
  proof (cases r)
    case (Inr stored)
    let ?folder = "ref_identity (bw_folder (cy_batches c1))"
    let ?l = "\<lparr>gl_stored = stored, gl_from = fst (where_to_start stored ?folder), gl_reading = snd (where_to_start stored ?folder),
       gl_round_start = state_server_position (sync_state stored), gl_named = 0\<rparr>"
    have "place (changes_address platform url (gl_from ?l)) < n" using assms(1) by (simp add: pages_end_def)
    moreover have "readings_left (gl_reading ?l) * n \<le> 2 * n" by (intro mult_right_mono) (simp_all add: readings_left_def split: graph_reading.split)
    ultimately have "steps_left platform url place n ?l < pages" using assms(3) unfolding steps_left_def by linarith
    from loop_ends [OF assms(1,2) this c1(1)] show ?thesis
      using read Inr by (simp add: graph_cycle_def and_then_def Let_def case_prod_beta)
  qed (use read c1 in \<open>simp add: graph_cycle_def and_then_def\<close>)
  then show ?thesis by (simp add: synchronize_graph_folder_def case_prod_beta)
qed

text \<open>A service of two pages, the second without an entry, as the demonstration parses them.\<close>

definition demo_pages :: "graph_request list \<Rightarrow> http_reply" where
  "demo_pages h = (if rq_address (last h) = ''l2'' then Answered 200 ''done'' else Answered 200 ''more'')"

definition demo_json :: graph_platform where
  "demo_json = demo_platform\<lparr>parse_json := (\<lambda>answer.
     if answer = ''more'' then Some (JsonObject [(''value'', JsonArray []), (''@odata.nextLink'', JsonString ''l2'')])
     else if answer = ''done'' then Some (JsonObject [(''value'', JsonArray []), (''@odata.deltaLink'', JsonString ''l3'')])
     else None)\<rparr>"

theorem graph_cycle_ends_witness:
  "fst (synchronize_graph_folder 6 2 demo_json ''t1'' ''u'' None 0 \<lparr>gw_service = demo_pages, gw_sent = []\<rparr> []
     (new_writer demo_listed demo_inbox False [])) = Inr (ResultStored None) \<and>
   fst (synchronize_graph_folder 6 2 demo_json ''t1'' ''u'' None 0 \<lparr>gw_service = demo_pages, gw_sent = []\<rparr> []
     (new_writer demo_listed demo_inbox False [])) \<noteq> Inl CycleUnfinished"
proof
  show "fst (synchronize_graph_folder 6 2 demo_json ''t1'' ''u'' None 0 \<lparr>gw_service = demo_pages, gw_sent = []\<rparr> []
     (new_writer demo_listed demo_inbox False [])) = Inr (ResultStored None)" by code_simp
  have "pages_end demo_json demo_pages (\<lambda>address. if address = ''l2'' then 0 else 1) 2"
    by (auto simp: pages_end_def demo_pages_def demo_json_def json_field_def json_get_def owned_text_def split: if_splits)
  then show "fst (synchronize_graph_folder 6 2 demo_json ''t1'' ''u'' None 0 \<lparr>gw_service = demo_pages, gw_sent = []\<rparr> []
     (new_writer demo_listed demo_inbox False [])) \<noteq> Inl CycleUnfinished"
    by (rule graph_cycle_ends) simp_all
qed

end
