(* ===== verification/Load_Claims.thy ===== *)
theory Load_Claims
  imports Worker Cycle_Claims Graph_Claims
begin

text \<open>
  A load as the window sees it: it ends once, with the worker's result, and leaves a sound store,
  whichever provider serves the account.
\<close>

section \<open>An IMAP cycle ends\<close>

text \<open>Nothing in an IMAP cycle waits for fuel: \<open>ends\<close> says that an action never gives \<open>CycleUnfinished\<close>.\<close>

abbreviation ends :: "('s, cycle_end, 'a) action \<Rightarrow> bool" where
  "ends m \<equiv> avoids (\<lambda>_. True) CycleUnfinished m"

named_theorems ends_intros \<open>rules that show that an action of an IMAP cycle ends\<close>

lemma ends_in_batches [ends_intros]: "ends (in_batches m)"
  by (auto simp: avoids_def in_batches_def map_error_def on_result_def on_part_def cycle_end_result_def
      split: prod.splits sum.splits)

lemma ends_waits [ends_intros]: "ends waits"
  by (auto simp: avoids_def waits_def and_then_def on_part_def cycle_end_result_def)

lemma ends_on_result: "(\<And>e. ends (h e)) \<Longrightarrow> (\<And>x. ends (k x)) \<Longrightarrow> ends (on_result m h k)"
  unfolding avoids_def on_result_def by (auto split: prod.splits sum.splits)

lemma ends_asked [ends_intros]: "ends (in_server cycle_end_imap m)"
  unfolding in_server_def
  by (intro ends_on_result avoids_and_then ends_waits avoids_ret avoids_throw) (simp add: cycle_end_imap_def)

lemma ends_case_sum [ends_intros]: "(\<And>e. ends (f e)) \<Longrightarrow> (\<And>x. ends (g x)) \<Longrightarrow> ends (case x of Inl e \<Rightarrow> f e | Inr y \<Rightarrow> g y)"
  by (cases x) simp_all

lemma ends_fold_each [ends_intros]: "(\<And>x a. ends (f x a)) \<Longrightarrow> ends (fold_each f xs a)"
  by (induction xs arbitrary: a) (simp_all add: avoids_intros del: ret_run)

lemma ends_send_imap_changes [ends_intros]: "ends (send_imap_changes listed sent)"
proof -
  have "ends (send_command flag wanted messages sent)" for flag wanted messages sent
    unfolding send_command_def Let_def
    by (intro avoids_intros ends_intros) (simp add: cycle_end_imap_def)
  then show ?thesis
    unfolding send_imap_changes_def by (intro avoids_and_then ends_intros) auto
qed

lemma ends_run_state_pass [ends_intros]: "ends (run_state_pass rule stored numbers plan)"
proof -
  have "ends (pass_listing rule plan)"
    unfolding pass_listing_def by (cases plan) (simp_all add: avoids_ret ends_asked del: ret_run)
  moreover have "ends (identify rule listing f)" for listing f
    unfolding identify_def
    by (intro avoids_intros ends_intros) (simp add: cycle_end_imap_def)
  ultimately show ?thesis
    unfolding run_state_pass_def Let_def by (intro avoids_intros ends_intros)
qed

lemma ends_fetch_batches [ends_intros]: "ends (fetch_batches parser rule limit listed batches sent)"
proof -
  have "ends (fetch_arrivals parser rule messages limit)" for messages
    unfolding fetch_arrivals_def Let_def by (intro avoids_intros ends_intros) simp
  then show ?thesis
    by (induction batches arbitrary: sent) (auto intro!: avoids_intros ends_intros simp del: ret_run)
qed

lemma ends_end_changes [ends_intros]: "ends (end_changes_the_listing_shows listed pending)"
  unfolding end_changes_the_listing_shows_def by (rule avoids_for_each) (auto intro: ends_in_batches)

lemma ends_imap_cycle: "ends (imap_cycle parser rule limit)"
  unfolding imap_cycle_def second_pass_def numbers_now_def Let_def
  by (intro avoids_intros ends_intros)

lemma ends_refused: "ends (and_then waits (\<lambda>_. throw (cycle_end_imap e)))"
  by (intro avoids_and_then ends_waits avoids_throw) (simp add: cycle_end_imap_def)

lemma synchronize_imap_ends: "fst (synchronize_imap_folder parser access rule start w ready batches) \<noteq> Inl CycleUnfinished"
proof -
  have "ends (and_then waits (\<lambda>_. imap_cycle parser rule (recent_limit start)))"
    by (intro avoids_and_then ends_waits ends_imap_cycle)
  then have "fst (and_then waits (\<lambda>_. imap_cycle parser rule (recent_limit start)) c) \<noteq> Inl CycleUnfinished" for c
    by (simp add: avoids_def)
  moreover have "fst (and_then waits (\<lambda>_. throw (cycle_end_imap e)) c) \<noteq> (Inl CycleUnfinished :: cycle_end + load_result)"
    for e and c :: "unit cycle"
    using ends_refused [of e, unfolded avoids_def] by blast
  ultimately show ?thesis
    unfolding synchronize_imap_folder_def by (simp add: case_prod_beta split: sum.split)
qed

section \<open>What every load keeps\<close>

interpretation graph_loads: graph_cycle_law reachable folder "\<lambda>_. True" "\<lambda>_ _. True" old given
  for folder old given
  by unfold_locales (simp_all add: keeps_def)

interpretation heard: imap_cycle_law "\<lambda>_. True" folder "\<lambda>_. True" "\<lambda>r. mb_uid_validity (rd_numbers r) = v"
  for folder v
  by unfold_locales

lemma graph_cycle_reached:
  assumes "reached.writer_ok (bw_folder batches) batches"
    and "synchronize_graph_folder pages fuel platform token url renewal start w ready batches = (r, batches')"
  shows "reached.writer_ok (bw_folder batches) batches'"
proof -
  obtain c where run: "graph_cycle pages fuel platform (recent_limit start)
      \<lparr>cy_batches = batches, cy_server = new_service url token renewal w, cy_ready = ready\<rparr> = (r, c)" and "batches' = cy_batches c"
    using assms(2) by (auto simp: synchronize_graph_folder_def split: prod.splits)
  with graph_loads.synchronize_graph_fine(1) [OF assms(1) TrueI run] show ?thesis by simp
qed

lemma waits_reached:
  assumes "reached.writer_ok folder w" and "waits \<lparr>cy_batches = w, cy_server = x, cy_ready = ready\<rparr> = (r, c)"
  shows "reached.writer_ok folder (cy_batches c)"
  by (rule numbered.waits_fine [OF assms])

lemma folder_list_reached:
  assumes "reached.writer_ok folder batches" and "load_folder_list world kind batches = (run, batches')"
  shows "reached.writer_ok folder batches'"
proof -
  obtain r c where wait: "waits \<lparr>cy_batches = batches, cy_server = (), cy_ready = lw_ready world\<rparr> = (r, c)" by fastforce
  let ?w = "meanwhile (cy_batches c)"
  note w = waits_reached [OF assms(1) wait] reached.writer_user [OF waits_reached [OF assms(1) wait]]
  have "reachable (snd (store_folder_list account folders cancelled (bw_store ?w)))" for account folders cancelled
  proof -
    have "reachable (bw_store ?w)" using w(2) by (simp add: reached.writer_ok_def)
    with reachable.step [OF this store_step.replace [of _ account folders cancelled]] show ?thesis
      by (auto simp: store_folder_list_def split: prod.split sum.split store_write.split)
  qed
  then have stored: "reached.writer_ok folder (?w\<lparr>bw_store := snd (store_folder_list account folders cancelled (bw_store ?w))\<rparr>)"
    for account folders cancelled using w(2) by (simp add: reached.writer_ok_def)
  show ?thesis
  proof (cases r)
    case (Inr x)
    then show ?thesis
      using w(1) stored assms(2) wait by (cases "list_folders world kind") (auto simp: load_folder_list_def Let_def case_prod_beta)
  qed (use w(1) assms(2) wait in \<open>auto simp: load_folder_list_def\<close>)
qed

lemma load_reached:
  assumes "reachable s" and "load_catching_panics world kind target s cancelled user = (r, batches)"
  shows "\<exists>folder. reached.writer_ok folder batches"
proof -
  have new: "reached.writer_ok folder (new_writer s folder cancelled user)" for folder
    using assms(1) by (simp add: reached.writer_ok_def new_writer_def)
  have cycle: "reached.writer_ok folder (snd (synchronize_folder world kind (new_writer s folder cancelled user)))" for folder
  proof -
    let ?w = "new_writer s folder cancelled user"
    have at: "bw_folder ?w = folder" by (simp add: new_writer_def)
    note imap = imap_cycle_reached [of ?w, unfolded at, OF new prod.collapse [symmetric]]
    note graph = graph_cycle_reached [of ?w, unfolded at, OF new prod.collapse [symmetric]]
    show ?thesis by (cases kind) (simp_all add: synchronize_folder_def case_prod_beta imap graph)
  qed
  have listed: "reached.writer_ok folder (snd (load_folder_list world kind (new_writer s folder cancelled user)))" for folder
    by (rule folder_list_reached [OF new prod.collapse [symmetric]])
  show ?thesis
  proof (cases target)
    case FolderList
    then show ?thesis using assms(2) listed unfolding load_catching_panics_def by (simp add: case_prod_beta) blast
  next
    case (Mailbox folder)
    then show ?thesis using assms(2) cycle unfolding load_catching_panics_def by (simp add: case_prod_beta) blast
  qed
qed

text \<open>The only event a worker sends before the end is a change of the store.\<close>

lemma load_events:
  assumes "reachable s"
  shows "list_all (\<lambda>event. event = StoreChanged) (bw_events (snd (load_catching_panics world kind target s cancelled user)))"
  using load_reached [OF assms prod.collapse [symmetric]] by (auto simp: reached.writer_ok_def)

lemma pass_changes:
  "list_all (\<lambda>event. event = StoreChanged) sent \<Longrightarrow> pass_events (sent @ rest) = sent @ pass_events rest"
  by (induction sent) (simp_all add: is_finished_def)

lemma synchronize_imap_result:
  "run_of (fst (synchronize_imap_folder parser access rule start w ready batches)) \<noteq> LoadUnfinished"
  using synchronize_imap_ends by (auto simp: run_of_def split: sum.split cycle_end.split)

lemma imap_list_result:
  assumes "kind = GenericImapKind access \<or> kind = GmailKind access"
  shows "fst (load_folder_list world kind batches) \<noteq> LoadUnfinished"
proof -
  have "list_folders world kind \<noteq> Inl CycleUnfinished"
    using assms by (auto simp: list_folders_def cycle_end_imap_def map_sum_def split: sum.splits)
  moreover have "waits c \<noteq> (Inl CycleUnfinished, c')" for c c' :: "unit cycle"
    using ends_waits [unfolded avoids_def, rule_format, of c] by auto
  ultimately show ?thesis
    by (auto simp: load_folder_list_def run_of_def Let_def split: prod.split sum.split cycle_end.split)
qed

lemma imap_load_result:
  assumes "kind = GenericImapKind access \<or> kind = GmailKind access"
  shows "fst (load_catching_panics world kind target s cancelled user) \<noteq> None"
proof -
  have "fst (synchronize_folder world kind batches) \<noteq> LoadUnfinished" for batches
    using assms by (auto simp: synchronize_folder_def case_prod_beta synchronize_imap_result)
  then show ?thesis
    using imap_list_result [OF assms]
    by (cases target) (auto simp: load_catching_panics_def case_prod_beta split: load_run.split)
qed

section \<open>Claims\<close>

text \<open>
  C6: a load never breaks the store: whichever provider serves the account, whatever its server answers,
  whenever the load fails, is cancelled or panics, and whatever the user does between its accesses, the
  store it leaves is sound (each message in a folder, no duplicates, every value readable).
\<close>

theorem load_keeps_store:
  assumes "reachable s" and "load_catching_panics world kind target s cancelled user = (r, batches)"
  shows "store_ok (bw_store batches)"
  using load_reached [OF assms] by (auto simp: reached.writer_ok_def reachable_ok)

definition demo_world :: load_world where
  "demo_world = \<lparr>lw_parser = demo_parser, lw_platform = demo_json, lw_wire = new_wire demo_server,
     lw_graph = \<lparr>gw_service = demo_pages, gw_sent = []\<rparr>, lw_now = 0, lw_ready = [], lw_pages = 6, lw_fuel = 2, lw_panic = None\<rparr>"

definition demo_load :: "load_result option \<times> batch_writer" where
  "demo_load = load_catching_panics demo_world (GenericImapKind demo_access) (Mailbox demo_inbox) demo_loaded False
     [[UserFlag demo_account ''m1'' Flagged True]]"

lemma demo_load_run: "demo_load = (Some (ResultStored None), snd demo_cycle)"
  using demo_cycle_run by (simp add: demo_load_def load_catching_panics_def synchronize_folder_def demo_world_def run_of_def demo_writer_def)

theorem load_keeps_store_witness:
  "store_ok (bw_store (snd demo_load)) \<and> fst demo_load = Some (ResultStored None)"
proof
  show "store_ok (bw_store (snd demo_load))"
    by (rule load_keeps_store [OF demo_reachable(3)]) (simp add: demo_load_def prod_eq_iff)
  show "fst demo_load = Some (ResultStored None)" by (simp add: demo_load_run)
qed



end
