(* ===== verification/Pass_Plan.thy ===== *)
theory Pass_Plan
  imports Cycle_Imap
begin

text \<open>
  Why a pass may list less than everything. A mailbox is what RFC 3501 and RFC 7162 let a server keep:
  UIDs are given in ascending order and never reused under one UIDVALIDITY, and each change of a message
  gives it a mod-sequence above every earlier one. The steps are the ways any client changes it.
\<close>

record mailbox =
  box_validity :: "32 word"
  box_next :: "32 word"
  box_modseq :: "64 word"
  box_messages :: "32 word \<Rightarrow> (message_flags \<times> 64 word) option"

definition box_ok :: "mailbox \<Rightarrow> bool" where
  "box_ok box \<longleftrightarrow> (\<forall>uid flags modseq. box_messages box uid = Some (flags, modseq) \<longrightarrow> uid < box_next box \<and> modseq \<le> box_modseq box)"

inductive box_step :: "mailbox \<Rightarrow> mailbox \<Rightarrow> bool" where
  arrives: "box_next box \<le> uid \<Longrightarrow> uid < next_uid \<Longrightarrow> box_modseq box < modseq \<Longrightarrow>
    box_step box (box\<lparr>box_next := next_uid, box_modseq := modseq, box_messages := (box_messages box)(uid \<mapsto> (flags, modseq))\<rparr>)"
| leaves: "box_modseq box \<le> modseq \<Longrightarrow>
    box_step box (box\<lparr>box_modseq := modseq, box_messages := (box_messages box)(uid := None)\<rparr>)"
| marks: "box_messages box uid \<noteq> None \<Longrightarrow> box_modseq box < modseq \<Longrightarrow>
    box_step box (box\<lparr>box_modseq := modseq, box_messages := (box_messages box)(uid \<mapsto> (flags, modseq))\<rparr>)"
| renumbers: "box_validity box < box_validity box' \<Longrightarrow> box_ok box' \<Longrightarrow> box_step box box'"

inductive box_history :: "mailbox \<Rightarrow> mailbox \<Rightarrow> bool" where
  still: "box_history box box"
| later: "box_history box box' \<Longrightarrow> box_step box' box'' \<Longrightarrow> box_history box box''"

text \<open>What an opening reports, a server without an extension leaving a number out.\<close>

definition reports :: "mailbox \<Rightarrow> folder_numbers \<Rightarrow> bool" where
  "reports box numbers \<longleftrightarrow>
     num_uid_validity numbers \<in> {None, Some (box_validity box)} \<and>
     num_message_count numbers = of_nat (card (dom (box_messages box))) \<and>
     num_uid_next numbers \<in> {None, Some (box_next box)} \<and>
     num_highest_modseq numbers \<in> {None, Some (box_modseq box)}"

lemma step_ok: "box_step box box' \<Longrightarrow> box_ok box \<Longrightarrow> box_ok box'"
  by (induction rule: box_step.induct) (auto simp: box_ok_def split: if_splits; fastforce)+

lemma history_ok: "box_history box box' \<Longrightarrow> box_ok box \<Longrightarrow> box_ok box'"
  by (induction rule: box_history.induct) (auto intro: step_ok)

text \<open>Under one numbering: no UID below the old next one is new, and a changed message has a new mod-sequence.\<close>

definition continues :: "mailbox \<Rightarrow> mailbox \<Rightarrow> bool" where
  "continues old box \<longleftrightarrow> box_validity old \<le> box_validity box \<and>
     (box_validity box = box_validity old \<longrightarrow> box_next old \<le> box_next box \<and> box_modseq old \<le> box_modseq box \<and>
       (\<forall>uid flags modseq. box_messages box uid = Some (flags, modseq) \<longrightarrow> uid < box_next old \<longrightarrow>
         box_messages old uid \<noteq> None \<and> (box_messages box uid = box_messages old uid \<or> box_modseq old < modseq)))"

lemma step_continues:
  assumes "box_step box box'" and "continues old box"
  shows "continues old box'"
  using assms
proof (induction rule: box_step.induct)
  case (arrives box uid next_uid modseq flags)
  then show ?case by (auto simp: continues_def)
next
  case (leaves box modseq uid)
  then show ?case by (auto simp: continues_def)
next
  case (marks box uid modseq flags)
  then show ?case by (auto simp: continues_def)
next
  case (renumbers box box')
  then show ?case by (auto simp: continues_def)
qed

lemma history_continues: "box_history old box \<Longrightarrow> continues old box"
proof (induction rule: box_history.induct)
  case (still box)
  show ?case by (auto simp: continues_def)
qed (rule step_continues)

lemma box_count:
  assumes "box_ok box"
  shows "card (dom (box_messages box)) < 2 ^ 32" and "finite (dom (box_messages box))"
proof -
  have sub: "dom (box_messages box) \<subseteq> {uid. uid < box_next box}" using assms by (auto simp: box_ok_def)
  show fin: "finite (dom (box_messages box))" by (rule finite_subset [OF subset_UNIV]) simp
  have "{uid. uid < box_next box} \<subset> (UNIV :: 32 word set)" by (auto intro!: exI [of _ "box_next box"])
  then have "card {uid. uid < box_next box} < CARD(32 word)" by (intro psubset_card_mono) simp_all
  then show "card (dom (box_messages box)) < 2 ^ 32"
    using card_mono [OF _ sub] by (simp add: card_word)
qed

text \<open>
  C13: a pass that skips the listing, or lists only what changed, misses nothing: if the opening's
  numbers lead to such a plan against earlier ones, then, whatever happened to the mailbox in between,
  it has the same messages as then; with nothing to list, the same flags too; and a listing of the
  changes since then names every message whose flags differ.
\<close>

theorem pass_plan_misses_nothing:
  assumes "box_history old box" and "box_ok old" and "reports old reference" and "reports box numbers"
    and "pass_plan numbers (Some reference) has_pending = plan" and "plan \<noteq> PlanEverything"
  shows "dom (box_messages box) = dom (box_messages old) \<and>
    (plan = PlanNothing \<longrightarrow> box_messages box = box_messages old) \<and>
    (\<forall>since. plan = PlanChangedFlags since \<longrightarrow>
      (\<forall>uid flags modseq. box_messages box uid = Some (flags, modseq) \<and> box_messages box uid \<noteq> box_messages old uid \<longrightarrow> since < modseq))"
proof -
  have same: "box_validity box = box_validity old" "box_next box = box_next old"
    "of_nat (card (dom (box_messages box))) = (of_nat (card (dom (box_messages old))) :: 32 word)"
    and plan: "plan = (if box_modseq box = box_modseq old then PlanNothing else PlanChangedFlags (box_modseq old))"
    using assms(3-6) by (auto simp: pass_plan_def reports_def Let_def split: option.splits if_splits)
  have ok: "box_ok box" by (rule history_ok [OF assms(1,2)])
  note cont = history_continues [OF assms(1), unfolded continues_def]
  have sub: "dom (box_messages box) \<subseteq> dom (box_messages old)"
    using cont same(1,2) ok by (auto simp: box_ok_def)
  have "card (dom (box_messages box)) = card (dom (box_messages old))"
    using arg_cong [OF same(3), of unat] box_count(1) [OF ok] box_count(1) [OF assms(2)] by (simp add: unat_of_nat)
  then have dom: "dom (box_messages box) = dom (box_messages old)"
    using card_subset_eq [OF box_count(2) [OF assms(2)] sub] by simp
  have changed: "box_modseq old < modseq"
    if "box_messages box uid = Some (flags, modseq)" "box_messages box uid \<noteq> box_messages old uid" for uid flags modseq
  proof -
    have "uid < box_next old" using ok that(1) same(2) by (auto simp: box_ok_def)
    then show ?thesis using cont same(1) that by blast
  qed
  have "box_messages box = box_messages old" if "plan = PlanNothing"
  proof
    fix uid
    have eq: "box_modseq box = box_modseq old" using that plan by (auto split: if_splits)
    show "box_messages box uid = box_messages old uid"
    proof (cases "box_messages box uid")
      case None
      then show ?thesis using dom by (metis domIff)
    next
      case (Some p)
      obtain flags modseq where p: "p = (flags, modseq)" by fastforce
      then have "modseq \<le> box_modseq old" using ok Some eq by (auto simp: box_ok_def)
      then show ?thesis using changed [of uid flags modseq] Some p by (auto simp: not_less [symmetric])
    qed
  qed
  then show ?thesis using dom changed plan by (auto split: if_splits)
qed

definition demo_box :: mailbox where
  "demo_box = \<lparr>box_validity = 1, box_next = 5, box_modseq = 9, box_messages = [4 \<mapsto> (\<lparr>flags_seen = False, flags_flagged = False\<rparr>, 9)]\<rparr>"

definition demo_box_seen :: mailbox where
  "demo_box_seen = demo_box\<lparr>box_modseq := 12, box_messages := [4 \<mapsto> (\<lparr>flags_seen = True, flags_flagged = False\<rparr>, 12)]\<rparr>"

definition demo_numbers :: "64 word \<Rightarrow> folder_numbers" where
  "demo_numbers modseq = \<lparr>num_uid_validity = Some 1, num_message_count = 1, num_uid_next = Some 5, num_highest_modseq = Some modseq\<rparr>"

theorem pass_plan_misses_nothing_witness:
  "pass_plan (demo_numbers 12) (Some (demo_numbers 9)) False = PlanChangedFlags 9 \<and>
   dom (box_messages demo_box_seen) = dom (box_messages demo_box) \<and> (9 :: 64 word) < 12"
proof -
  have plan: "pass_plan (demo_numbers 12) (Some (demo_numbers 9)) False = PlanChangedFlags 9"
    by (simp add: pass_plan_def demo_numbers_def)
  have "box_step demo_box demo_box_seen"
    using box_step.marks [of demo_box 4 12 "\<lparr>flags_seen = True, flags_flagged = False\<rparr>"]
    by (simp add: demo_box_seen_def demo_box_def)
  then have history: "box_history demo_box demo_box_seen" by (rule box_history.later [OF box_history.still])
  have ok: "box_ok demo_box" by (auto simp: box_ok_def demo_box_def split: if_splits)
  have "reports demo_box (demo_numbers 9)" "reports demo_box_seen (demo_numbers 12)"
    by (simp_all add: reports_def demo_box_def demo_box_seen_def demo_numbers_def)
  from pass_plan_misses_nothing [OF history ok this plan] plan show ?thesis
    by (auto simp: demo_box_seen_def demo_box_def split: if_splits)
qed

end
