(* ===== verification/Imap_Listing.thy ===== *)
theory Imap_Listing
  imports Imap_Claims
begin

text \<open>
  What a listing and the rows of a command say of the server's responses: the ordered maps they are
  built in, and the properties of the two collections.
\<close>

section \<open>Ordered maps\<close>

lemma sorted_lookup:
  fixes m :: "('k::linorder \<times> 'v) list"
  assumes "sorted_wrt (<) (map fst m)" and "(k, v) \<in> set m"
  shows "map_of m k = Some v"
  using assms(2) strict_sorted_iff [THEN iffD1, OF assms(1)] by (intro map_of_is_SomeI) simp_all

text \<open>A fold of ordered updates by key is, per key, the fold over that key's elements.\<close>

definition keyed :: "('a \<Rightarrow> ('k::linorder) option) \<Rightarrow> ('a \<Rightarrow> 'v option \<Rightarrow> 'v) \<Rightarrow> 'a list \<Rightarrow> ('k \<times> 'v) list" where
  "keyed key f xs = fold (\<lambda>x m. case key x of None \<Rightarrow> m | Some k \<Rightarrow> ordered_update k (f x) m) xs []"

lemma keyed_snoc: "keyed key f (xs @ [x]) = (case key x of None \<Rightarrow> keyed key f xs | Some k \<Rightarrow> ordered_update k (f x) (keyed key f xs))"
  by (simp add: keyed_def split: option.split)

lemma keyed_sorted: "sorted_wrt (<) (map fst (keyed key f xs))"
  by (induction xs rule: rev_induct) (auto simp: keyed_snoc ordered_update_sorted split: option.split, simp add: keyed_def)

lemma keyed_lookup:
  "map_of (keyed key f xs) k = fold (\<lambda>x entry. Some (f x entry)) (filter (\<lambda>x. key x = Some k) xs) None"
proof (induction xs rule: rev_induct)
  case (snoc x xs)
  then show ?case by (auto simp: keyed_snoc ordered_update_lookup keyed_sorted split: option.split)
qed (simp add: keyed_def)

lemma fold_Some_None: "fold (\<lambda>x entry. Some (f x entry)) xs None = None \<longleftrightarrow> xs = []"
  by (induction xs rule: rev_induct) auto

section \<open>Listings\<close>

definition listed_entry :: "fetch \<Rightarrow> listed_uid option \<Rightarrow> listed_uid" where
  "listed_entry f entry =
     (let m = (case entry of Some m \<Rightarrow> m
               | None \<Rightarrow> \<lparr>listed_uid = the (fetch_uid f), listed_seen = False, listed_flagged = False, listed_gmail_id = None\<rparr>);
          m1 = (if has_flags f then m\<lparr>listed_seen := FlagSeen \<in> set (flags_of f), listed_flagged := FlagFlagged \<in> set (flags_of f)\<rparr> else m) in
      case fetch_gmail_id f of Some gid \<Rightarrow> m1\<lparr>listed_gmail_id := Some gid\<rparr> | None \<Rightarrow> m1)"

lemma keep_listed_keyed: "fold keep_listed fetches [] = keyed fetch_uid listed_entry fetches"
proof -
  have "keep_listed f m = (case fetch_uid f of None \<Rightarrow> m | Some k \<Rightarrow> ordered_update k (listed_entry f) m)" for f m
  proof (cases "fetch_uid f")
    case (Some uid)
    then have "listed_entry f = (\<lambda>entry.
       (let m = (case entry of Some m \<Rightarrow> m
               | None \<Rightarrow> \<lparr>listed_uid = uid, listed_seen = False, listed_flagged = False, listed_gmail_id = None\<rparr>);
            m1 = (if has_flags f then m\<lparr>listed_seen := FlagSeen \<in> set (flags_of f), listed_flagged := FlagFlagged \<in> set (flags_of f)\<rparr> else m) in
        case fetch_gmail_id f of Some gid \<Rightarrow> m1\<lparr>listed_gmail_id := Some gid\<rparr> | None \<Rightarrow> m1))"
      by (intro ext) (simp only: listed_entry_def option.sel)
    with Some show ?thesis by (simp only: keep_listed_def option.case)
  qed (simp add: keep_listed_def)
  then show ?thesis unfolding keyed_def by (intro fold_cong) (simp_all add: fun_eq_iff)
qed

text \<open>The latest flags and the latest identifier among a message's responses.\<close>

definition latest_flags :: "fetch list \<Rightarrow> message_flag_name list" where
  "latest_flags responses = (case find has_flags (rev responses) of Some f \<Rightarrow> flags_of f | None \<Rightarrow> [])"

definition listed_of :: "32 word \<Rightarrow> fetch list \<Rightarrow> listed_uid" where
  "listed_of uid responses = \<lparr>listed_uid = uid, listed_seen = (FlagSeen \<in> set (latest_flags responses)),
     listed_flagged = (FlagFlagged \<in> set (latest_flags responses)), listed_gmail_id = first_some fetch_gmail_id (rev responses)\<rparr>"

lemma fold_listed_entry:
  "\<forall>f \<in> set responses. fetch_uid f = Some uid \<Longrightarrow> responses \<noteq> [] \<Longrightarrow>
    fold (\<lambda>f entry. Some (listed_entry f entry)) responses None = Some (listed_of uid responses)"
proof (induction responses rule: rev_induct)
  case (snoc f fs)
  show ?case
  proof (cases "fs = []")
    case True
    then show ?thesis using snoc.prems
      by (auto simp: listed_entry_def listed_of_def latest_flags_def has_flags_def flags_of_def Let_def split: option.split)
  next
    case False
    then have "fold (\<lambda>f entry. Some (listed_entry f entry)) fs None = Some (listed_of uid fs)" using snoc by simp
    then show ?thesis
      by (auto simp: listed_entry_def listed_of_def latest_flags_def Let_def split: option.split)
  qed
qed simp

lemma listed_lookup: "map_of (fold keep_listed fetches []) uid =
    (let responses = filter (\<lambda>f. fetch_uid f = Some uid) fetches in if responses = [] then None else Some (listed_of uid responses))"
  using fold_listed_entry [of "filter (\<lambda>f. fetch_uid f = Some uid) fetches" uid]
  by (auto simp: keep_listed_keyed keyed_lookup Let_def)

text \<open>
  A listing is what the server reported: every message it named by UID is listed once, in the
  order of the UIDs, with the latest flags and the latest identifier among its responses, however
  they are split and interleaved, and no other message is listed.
\<close>

lemma listing_reports:
  "sorted_wrt (<) (map fst (fold keep_listed fetches [])) \<and>
   set (map snd (fold keep_listed fetches [])) =
     (\<lambda>uid. listed_of uid (filter (\<lambda>f. fetch_uid f = Some uid) fetches)) ` {uid. \<exists>f \<in> set fetches. fetch_uid f = Some uid}"
proof
  let ?m = "fold keep_listed fetches []"
  show sorted: "sorted_wrt (<) (map fst ?m)" by (simp add: keep_listed_keyed keyed_sorted)
  have entry: "(uid, l) \<in> set ?m \<longleftrightarrow> (\<exists>f \<in> set fetches. fetch_uid f = Some uid) \<and> l = listed_of uid (filter (\<lambda>f. fetch_uid f = Some uid) fetches)" for uid l
  proof -
    have "(uid, l) \<in> set ?m \<longleftrightarrow> map_of ?m uid = Some l"
      using sorted_lookup [OF sorted] map_of_SomeD by metis
    then show ?thesis by (auto simp: listed_lookup Let_def filter_empty_conv)
  qed
  show "set (map snd ?m) = (\<lambda>uid. listed_of uid (filter (\<lambda>f. fetch_uid f = Some uid) fetches)) ` {uid. \<exists>f \<in> set fetches. fetch_uid f = Some uid}"
  proof (intro set_eqI iffI)
    fix l assume "l \<in> set (map snd ?m)"
    then obtain uid where "(uid, l) \<in> set ?m" by auto
    then show "l \<in> (\<lambda>uid. listed_of uid (filter (\<lambda>f. fetch_uid f = Some uid) fetches)) ` {uid. \<exists>f \<in> set fetches. fetch_uid f = Some uid}"
      using entry by auto
  next
    fix l assume "l \<in> (\<lambda>uid. listed_of uid (filter (\<lambda>f. fetch_uid f = Some uid) fetches)) ` {uid. \<exists>f \<in> set fetches. fetch_uid f = Some uid}"
    then obtain uid where "(uid, l) \<in> set ?m" using entry by auto
    then show "l \<in> set (map snd ?m)" by force
  qed
qed

text \<open>
  A listing is complete only if the server completed the command: without a refusal it is exactly
  what the server reported up to its completion; with one, the server answered NO or BAD; any other
  end of the command is an error and no listing.
\<close>

theorem listing_complete_iff:
  assumes "fetch_listing uids items r = (Inr listing, r')" and "\<not> rd_needs_reconnect r"
  shows "\<exists>a. a = w_server (rd_wire r) (w_sent (rd_wire r) @ [CmdUidFetch uids items]) \<and>
    listing_messages listing = map snd (fold keep_listed (ans_fetches a) []) \<and>
    (listing_refusal listing = None \<longleftrightarrow> ans_error a = None) \<and>
    (listing_refusal listing \<noteq> None \<longleftrightarrow> (\<exists>status. ans_error a = Some (NetNo status) \<or> ans_error a = Some (NetBad status)))"
proof -
  let ?a = "w_server (rd_wire r) (w_sent (rd_wire r) @ [CmdUidFetch uids items])"
  have "listing_messages listing = map snd (fold keep_listed (ans_fetches ?a) [])"
    and "(listing_refusal listing = None \<and> ans_error ?a = None) \<or>
      (listing_refusal listing \<noteq> None \<and> (\<exists>status. ans_error ?a = Some (NetNo status) \<or> ans_error ?a = Some (NetBad status)))"
    using assms
    by (auto simp: fetch_listing_def reconnect_if_needed_def only_if_def on_wire_def on_part_def command_def collect_reader_def
        on_notices_def reader_refusal_def and_then_def Let_def split: prod.splits sum.splits option.splits net_error.splits)
  then show ?thesis by auto
qed

theorem listing_complete_iff_witness:
  "\<exists>listing r'. fetch_listing ''1:*'' ''(UID FLAGS)'' demo_reader = (Inr listing, r') \<and> listing_refusal listing = None"
proof -
  have "isl (fst (fetch_listing ''1:*'' ''(UID FLAGS)'' demo_reader)) = False" by code_simp
  then obtain listing r' where l: "fetch_listing ''1:*'' ''(UID FLAGS)'' demo_reader = (Inr listing, r')"
    by (cases "fetch_listing ''1:*'' ''(UID FLAGS)'' demo_reader"; cases "fst (fetch_listing ''1:*'' ''(UID FLAGS)'' demo_reader)") auto
  have "\<not> rd_needs_reconnect demo_reader" by code_simp
  moreover have "w_server (rd_wire demo_reader) = demo_server"
    by (rule wire_reached_server [OF wire_reached.of_reader [OF demo_reader_reached]])
  ultimately have "listing_refusal listing = None"
    using listing_complete_iff [OF l] by (simp add: demo_server_def demo_answer_def)
  then show ?thesis using l by blast
qed

section \<open>Rows\<close>

lemma group_keyed: "group_by_uid uids fetches =
    keyed (\<lambda>f. case fetch_uid f of Some uid \<Rightarrow> if uid \<in> set uids then Some uid else None | None \<Rightarrow> None)
      (\<lambda>f entry. (case entry of Some fs \<Rightarrow> fs | None \<Rightarrow> []) @ [f]) fetches"
proof -
  have step: "(\<lambda>f by_uid. case fetch_uid f of
     Some uid \<Rightarrow> if uid \<in> set uids
       then ordered_update uid (\<lambda>entry. (case entry of Some fs \<Rightarrow> fs | None \<Rightarrow> []) @ [f]) by_uid
       else by_uid
   | None \<Rightarrow> by_uid) = (\<lambda>f m. case (case fetch_uid f of Some uid \<Rightarrow> if uid \<in> set uids then Some uid else None | None \<Rightarrow> None) of
      None \<Rightarrow> m | Some k \<Rightarrow> ordered_update k (\<lambda>entry. (case entry of Some fs \<Rightarrow> fs | None \<Rightarrow> []) @ [f]) m)"
    by (intro ext) (auto split: option.split)
  show ?thesis unfolding group_by_uid_def keyed_def step ..
qed

lemma fold_collect: "xs \<noteq> [] \<Longrightarrow> fold (\<lambda>f entry. Some ((case entry of Some fs \<Rightarrow> fs | None \<Rightarrow> []) @ [f])) xs None = Some xs"
proof (induction xs rule: rev_induct)
  case (snoc x xs)
  then show ?case by (cases "xs = []") auto
qed simp

lemma group_lookup: "map_of (group_by_uid uids fetches) uid =
    (let responses = filter (\<lambda>f. fetch_uid f = Some uid) fetches in
     if uid \<in> set uids \<and> responses \<noteq> [] then Some responses else None)"
proof -
  have "filter (\<lambda>f. (case fetch_uid f of Some uid \<Rightarrow> if uid \<in> set uids then Some uid else None | None \<Rightarrow> None) = Some uid) fetches =
      (if uid \<in> set uids then filter (\<lambda>f. fetch_uid f = Some uid) fetches else [])"
    by (cases "uid \<in> set uids"; induction fetches) (auto split: option.splits if_splits)
  then show ?thesis using fold_collect by (auto simp: group_keyed keyed_lookup Let_def)
qed

lemma row_of_uid: "row_of uid responses = Some row \<Longrightarrow> ir_uid row = uid"
  by (auto simp: row_of_def Let_def split: option.splits)

lemma row_in: "row \<in> set (concat (map (\<lambda>(uid, responses). case row_of uid responses of Some row \<Rightarrow> [row] | None \<Rightarrow> []) m)) \<longleftrightarrow>
    (\<exists>responses. (ir_uid row, responses) \<in> set m \<and> row_of (ir_uid row) responses = Some row)"
proof (induction m)
  case (Cons e m)
  obtain uid responses where e: "e = (uid, responses)" by fastforce
  show ?case
  proof (cases "row_of uid responses")
    case None
    with Cons e show ?thesis by auto
  next
    case (Some found)
    have "row = found \<longleftrightarrow> ir_uid row = uid \<and> row_of (ir_uid row) responses = Some row"
    proof
      show "row = found \<Longrightarrow> ir_uid row = uid \<and> row_of (ir_uid row) responses = Some row"
        using Some row_of_uid [OF Some] by simp
      show "ir_uid row = uid \<and> row_of (ir_uid row) responses = Some row \<Longrightarrow> row = found"
        using Some by (metis option.inject)
    qed
    moreover have "(\<exists>rs. (ir_uid row, rs) \<in> set (e # m) \<and> row_of (ir_uid row) rs = Some row) \<longleftrightarrow>
        (ir_uid row = uid \<and> row_of (ir_uid row) responses = Some row) \<or> (\<exists>rs. (ir_uid row, rs) \<in> set m \<and> row_of (ir_uid row) rs = Some row)"
      unfolding e by auto
    ultimately show ?thesis using Cons.IH by (simp add: e Some)
  qed
qed simp

lemma rows_descend: "sorted_wrt (<) (map fst m) \<Longrightarrow>
    sorted_wrt (>) (map ir_uid (concat (map (\<lambda>(uid, responses). case row_of uid responses of Some row \<Rightarrow> [row] | None \<Rightarrow> []) (rev m))))"
proof (induction m)
  case (Cons e m)
  let ?rows = "\<lambda>m. concat (map (\<lambda>(uid, responses). case row_of uid responses of Some row \<Rightarrow> [row] | None \<Rightarrow> []) m)"
  obtain uid responses where e: "e = (uid, responses)" by fastforce
  have "uid < ir_uid row" if "row \<in> set (?rows (rev m))" for row
    using that Cons.prems e unfolding row_in by force
  moreover have "sorted_wrt (>) (map ir_uid (?rows (rev m)))" using Cons by simp
  moreover have "?rows (rev (e # m)) = ?rows (rev m) @ (case row_of uid responses of Some row \<Rightarrow> [row] | None \<Rightarrow> [])"
    by (simp add: e)
  ultimately show ?case
    by (cases "row_of uid responses") (simp_all only: map_append sorted_wrt_append list.simps option.case append_Nil2, simp add: row_of_uid)
qed simp

text \<open>
  The rows of a command are the answered ones of the messages it asked for: in descending order of
  their UIDs and each once; a row is made of exactly the responses that name its message, and a
  message has one exactly when it was asked for and its header lines arrived.
\<close>

theorem rows_of_responses:
  "sorted_wrt (>) (map ir_uid (collect_rows fetches uids)) \<and>
   (row \<in> set (collect_rows fetches uids) \<longleftrightarrow>
     ir_uid row \<in> set uids \<and> row_of (ir_uid row) (filter (\<lambda>f. fetch_uid f = Some (ir_uid row)) fetches) = Some row)"
proof
  have sorted: "sorted_wrt (<) (map fst (group_by_uid uids fetches))" by (simp add: group_keyed keyed_sorted)
  then show "sorted_wrt (>) (map ir_uid (collect_rows fetches uids))" unfolding collect_rows_def by (rule rows_descend)
  have "row \<in> set (collect_rows fetches uids) \<longleftrightarrow>
      (\<exists>responses. (ir_uid row, responses) \<in> set (group_by_uid uids fetches) \<and> row_of (ir_uid row) responses = Some row)"
    unfolding collect_rows_def row_in by simp
  also have "\<dots> \<longleftrightarrow> (\<exists>responses. map_of (group_by_uid uids fetches) (ir_uid row) = Some responses \<and> row_of (ir_uid row) responses = Some row)"
    using sorted_lookup [OF sorted] map_of_SomeD by metis
  also have "\<dots> \<longleftrightarrow> ir_uid row \<in> set uids \<and> row_of (ir_uid row) (filter (\<lambda>f. fetch_uid f = Some (ir_uid row)) fetches) = Some row"
    by (auto simp: group_lookup Let_def row_of_def)
  finally show "row \<in> set (collect_rows fetches uids) \<longleftrightarrow>
     ir_uid row \<in> set uids \<and> row_of (ir_uid row) (filter (\<lambda>f. fetch_uid f = Some (ir_uid row)) fetches) = Some row" .
qed

end
