(* ===== verification/Content_Claims.thy ===== *)
theory Content_Claims
  imports Preview
begin

text \<open>The properties of choosing and decoding a message's text.\<close>

section \<open>Choosing\<close>

text \<open>
  The reader is shown only text that is the message's: the sections chosen are sections of plain
  texts that are no attached files and lie outside attachments and encrypted parts, each taken once
  and in the order of the message; without any, the reason is said, never an empty text.
\<close>

theorem selection_shown:
  "case select_text_parts root of
     Parts sections \<Rightarrow> sections \<noteq> [] \<and> subseq sections (shown_parts root)
   | NotText explanation \<Rightarrow> walk_parts (walk_message root) = [] \<and>
       (explanation = NoPlainText (walk_has_html (walk_message root)) \<or> walk_explanation (walk_message root) = Some explanation)"
proof -
  have "subseq (walk_parts (walk_message root)) (shown_parts root)"
    using visit_adds(1) [of root default_walk] by (auto simp: walk_message_def adds_def default_walk_def)
  then show ?thesis by (auto simp: select_text_parts_def Let_def split: option.split)
qed

lemma list_all_digits_star: "list_all is_ascii_digit s \<Longrightarrow> strip_suffix ''*'' s = None"
proof (rule ccontr)
  assume digits: "list_all is_ascii_digit s" and "strip_suffix ''*'' s \<noteq> None"
  then obtain r where "s = r @ ''*''" by (auto simp: strip_suffix_Some)
  then show False using digits by (simp add: is_ascii_digit_def)
qed

text \<open>
  A parameter carries a file name exactly in the forms RFC 2231 allows: \<open>name\<close>, the extended
  \<open>name*\<close>, and a continuation \<open>name*0\<close> or \<open>name*0*\<close> with any digits.
\<close>

lemma file_name_forms:
  "is_file_name_parameter p \<longleftrightarrow> p = ''name'' \<or> p = ''name*'' \<or>
     (\<exists>digits. digits \<noteq> [] \<and> list_all is_ascii_digit digits \<and> (p = ''name*'' @ digits \<or> p = ''name*'' @ digits @ ''*''))"
proof (cases "strip_prefix ''name'' p")
  case None
  then have "p \<noteq> ''name'' @ r" for r using strip_prefix_append [of "''name''" r] by auto
  then have other: "p \<noteq> ''name'' @ r" for r .
  have "p \<noteq> ''name''" "p \<noteq> ''name*''" "p \<noteq> ''name*'' @ d" for d
    using other [of "[]"] other [of "''*''"] other [of "''*'' @ d"] by auto
  then show ?thesis using None by (auto simp: is_file_name_parameter_def)
next
  case (Some rest)
  then have p: "p = ''name'' @ rest" by (simp add: strip_prefix_Some)
  show ?thesis
  proof (cases "strip_prefix ''*'' rest")
    case None
    then have "rest \<noteq> ''*'' @ r" for r using strip_prefix_append [of "''*''" r] by auto
    then have "rest \<noteq> CHR ''*'' # r" for r by simp
    then show ?thesis using p Some None by (auto simp: is_file_name_parameter_def)
  next
    case star: (Some continuation)
    then have rest: "rest = ''*'' @ continuation" by (simp add: strip_prefix_Some)
    have "is_file_name_parameter p \<longleftrightarrow> continuation = [] \<or>
        (\<exists>digits. digits \<noteq> [] \<and> list_all is_ascii_digit digits \<and> (continuation = digits \<or> continuation = digits @ ''*''))"
    proof (cases "strip_suffix ''*'' continuation")
      case None
      then have "continuation \<noteq> d @ ''*''" for d using strip_suffix_Some [of "''*''" continuation d] by auto
      then show ?thesis using Some star None by (auto simp: is_file_name_parameter_def Let_def)
    next
      case inner: (Some s)
      then have "continuation = s @ ''*''" by (simp add: strip_suffix_Some)
      then show ?thesis using Some star inner by (auto simp: is_file_name_parameter_def Let_def is_ascii_digit_def)
    qed
    then show ?thesis using p rest by auto
  qed
qed

section \<open>Flowed text\<close>

text \<open>The characters that are no layout: neither space, line ending nor quoting mark.\<close>

definition inked :: "string \<Rightarrow> string" where
  "inked s = filter (\<lambda>c. c \<notin> {CHR '' '', carriage, newline, CHR ''>''}) s"

lemma inked_simps [simp]: "inked [] = []" "inked (a @ b) = inked a @ inked b"
  "inked (c # s) = (if c \<in> {CHR '' '', carriage, newline, CHR ''>''} then inked s else c # inked s)"
  by (simp_all add: inked_def)

lemma inked_join: "inked sep = [] \<Longrightarrow> inked (join sep xs) = concat (map inked xs)"
  by (induction sep xs rule: join.induct) auto

lemma inked_split: "concat (map inked (split_on newline s)) = inked s"
  using inked_join [of "[newline]" "split_on newline s"] by (simp add: join_split_on)

lemma inked_quote: "inked (quote_prefix depth) = []"
  by (simp add: quote_prefix_def) (simp add: inked_def)

lemma inked_line: "unflow_line d raw = (depth, separator, ends, content) \<Longrightarrow> inked content = inked raw"
proof -
  assume run: "unflow_line d raw = (depth, separator, ends, content)"
  define line where "line = (case strip_suffix [carriage] raw of Some l \<Rightarrow> l | None \<Rightarrow> raw)"
  define quoted where "quoted = drop (length (takeWhile (\<lambda>c. c = CHR ''>'') line)) line"
  define t where "t = (case strip_prefix '' '' quoted of Some t \<Rightarrow> t | None \<Rightarrow> quoted)"
  have line: "inked line = inked raw"
  proof (cases "strip_suffix [carriage] raw")
    case (Some l)
    then have raw: "raw = l @ [carriage]" by (simp add: strip_suffix_Some)
    have "line = l" unfolding line_def Some by simp
    then show ?thesis using raw by simp
  qed (simp add: line_def)
  have "inked line = inked (takeWhile (\<lambda>c. c = CHR ''>'') line) @ inked quoted"
    unfolding quoted_def by (metis dropWhile_eq_drop inked_simps(2) takeWhile_dropWhile_id)
  moreover have "inked (takeWhile (\<lambda>c. c = CHR ''>'') line) = []" by (induction line) auto
  ultimately have quoted: "inked quoted = inked raw" using line by simp
  have t: "inked t = inked quoted"
  proof (cases "strip_prefix '' '' quoted")
    case (Some l)
    then have quoted: "quoted = '' '' @ l" by (simp add: strip_prefix_Some)
    have "t = l" unfolding t_def Some by simp
    then show ?thesis using quoted by simp
  qed (simp add: t_def)
  have "content = t \<or> (ends_with '' '' t \<and> content = butlast t)"
  proof -
    have "unflow_line d raw = (length (takeWhile (\<lambda>c. c = CHR ''>'') line), t = ''-- '', t = ''-- '' \<or> \<not> ends_with '' '' t,
        if \<not> (t = ''-- '' \<or> \<not> ends_with '' '' t) \<and> d then butlast t else t)"
      unfolding unflow_line_def Let_def t_def quoted_def line_def ..
    then show ?thesis using run by (auto split: if_splits)
  qed
  then have "inked content = inked t" by (auto simp: ends_with_iff)
  then show ?thesis using t quoted by simp
qed

lemma inked_last: "lines \<noteq> [] \<Longrightarrow> concat (map inked (butlast lines @ [last lines @ c])) = concat (map inked lines) @ inked c"
  by (cases lines rule: rev_cases) simp_all

lemma unflow_loop_inked:
  "(open_paragraph \<noteq> None \<longrightarrow> lines \<noteq> []) \<Longrightarrow>
    concat (map inked (unflow_loop d lines open_paragraph raws)) = concat (map inked lines) @ concat (map inked raws)"
proof (induction raws arbitrary: lines open_paragraph)
  case (Cons raw raws)
  obtain depth separator ends content where run: "unflow_line d raw = (depth, separator, ends, content)" by (metis surj_pair)
  let ?lines = "if open_paragraph = Some depth \<and> \<not> separator then butlast lines @ [last lines @ content] else lines @ [quote_prefix depth @ content]"
  have "concat (map inked ?lines) = concat (map inked lines) @ inked raw"
  proof (cases "open_paragraph = Some depth \<and> \<not> separator")
    case True
    then have "lines \<noteq> []" using Cons.prems by simp
    then show ?thesis using True inked_last [of lines content] inked_line [OF run] by simp
  next
    case False
    have "concat (map inked (lines @ [quote_prefix depth @ content])) = concat (map inked lines) @ inked raw"
      by (simp add: inked_quote inked_line [OF run])
    with False show ?thesis by (simp only: if_False)
  qed
  moreover have "unflow_loop d lines open_paragraph (raw # raws) = unflow_loop d ?lines (if ends then None else Some depth) raws"
    by (simp only: unflow_loop.simps run Let_def prod.case)
  moreover have "concat (map inked (unflow_loop d ?lines (if ends then None else Some depth) raws)) =
      concat (map inked ?lines) @ concat (map inked raws)"
    by (rule Cons.IH) simp
  ultimately show ?case by simp
qed simp

text \<open>
  Joining the soft line breaks of flowed text loses and invents nothing but layout: the characters
  other than spaces, line endings and quoting marks are the same, in the same order, for every text
  and both readings of the trailing space.
\<close>

theorem unflow_keeps_ink:
  "inked (unflow_text words delete_space) = inked words"
proof -
  have "inked (unflow_text words delete_space) = concat (map inked (unflow_loop delete_space [] None (split_on newline words)))"
    unfolding unflow_text_def by (rule inked_join) simp
  also have "\<dots> = inked words" by (simp add: unflow_loop_inked inked_split)
  finally show ?thesis .
qed

section \<open>Decoding\<close>

lemma all_right_map [simp]: "all_right (map Inr ys) = Inr ys"
  by (induction ys) simp_all

lemma all_right_Inr: "all_right xs = Inr ys \<longleftrightarrow> xs = map Inr ys"
  by (induction xs arbitrary: ys) (auto split: sum.splits)

lemma all_right_Inl: "all_right xs = Inl e \<longleftrightarrow> (\<exists>before after. xs = map Inr before @ Inl e # after)"
proof (induction xs)
  case (Cons x xs)
  show ?case
  proof (cases x)
    case (Inl f)
    then show ?thesis by (auto simp: Cons_eq_append_conv)
  next
    case (Inr y)
    then have "all_right (x # xs) = Inl e \<longleftrightarrow> all_right xs = Inl e" by (auto split: sum.splits)
    also have "\<dots> \<longleftrightarrow> (\<exists>before after. x # xs = map Inr before @ Inl e # after)"
      using Inr Cons.IH by (auto simp: Cons_eq_append_conv) (metis list.simps(9))+
    finally show ?thesis .
  qed
qed simp

text \<open>
  A message's text is shown whole or not at all: the parts decode to a text only if every one of
  them decodes, and then it is their texts in order with an empty line between; otherwise the reason
  is that of the first part that does not. A base64 body that ends inside a group of four, an unknown
  encoding or character set, and an encoding problem never decode.
\<close>

lemma text_whole_or_reason:
  "(case decode_message_text parser parts of
     Inr words \<Rightarrow> \<exists>texts. words = join [newline, newline] texts \<and> map (\<lambda>(h, b). decode_text_part parser h b) parts = map Inr texts
   | Inl e \<Rightarrow> \<exists>before part after texts. parts = before @ part # after \<and> map (\<lambda>(h, b). decode_text_part parser h b) before = map Inr texts \<and>
       decode_text_part parser (fst part) (snd part) = Inl e) \<and>
   (case parse_message parser (entity_of header body) of
     Some (part # _) \<Rightarrow>
       pp_encoding_problem part \<or> (\<exists>e. pp_encoding part = Some e \<and> e \<noteq> [] \<and> \<not> is_known_encoding e) \<or>
       (\<exists>e. pp_encoding part = Some e \<and> eq_ignore_ascii_case e ''base64'' \<and> \<not> base64_groups_are_complete body) \<or>
       (\<exists>c. pp_charset part = Some c \<and> \<not> is_known_charset parser c) \<or> pp_text part = None
       \<longleftrightarrow> isl (decode_text_part parser header body)
   | _ \<Rightarrow> decode_text_part parser header body = Inl Undecodable)"
proof
  show "case decode_message_text parser parts of
     Inr words \<Rightarrow> \<exists>texts. words = join [newline, newline] texts \<and> map (\<lambda>(h, b). decode_text_part parser h b) parts = map Inr texts
   | Inl e \<Rightarrow> \<exists>before part after texts. parts = before @ part # after \<and> map (\<lambda>(h, b). decode_text_part parser h b) before = map Inr texts \<and>
       decode_text_part parser (fst part) (snd part) = Inl e"
  proof (cases "all_right (map (\<lambda>(h, b). decode_text_part parser h b) parts)")
    case (Inl e)
    then obtain texts after where failed: "map (\<lambda>(h, b). decode_text_part parser h b) parts = map Inr texts @ Inl e # after"
      using all_right_Inl [THEN iffD1, OF Inl] by (elim exE) (rule that)
    obtain before others where split: "parts = before @ others" "map (\<lambda>(h, b). decode_text_part parser h b) before = map Inr texts"
      "map (\<lambda>(h, b). decode_text_part parser h b) others = Inl e # after"
      using map_eq_append_conv [THEN iffD1, OF failed] by (elim exE conjE) (rule that; simp)
    then obtain part rest where "others = part # rest" "decode_text_part parser (fst part) (snd part) = Inl e"
      by (cases others) (simp_all add: split_def)
    then have "\<exists>before part after texts. parts = before @ part # after \<and> map (\<lambda>(h, b). decode_text_part parser h b) before = map Inr texts \<and>
       decode_text_part parser (fst part) (snd part) = Inl e"
      using split(1,2) by blast
    then show ?thesis by (simp only: decode_message_text_def Inl sum.case)
  next
    case (Inr texts)
    then show ?thesis by (auto simp: decode_message_text_def all_right_Inr)
  qed
  show "case parse_message parser (entity_of header body) of
     Some (part # _) \<Rightarrow>
       pp_encoding_problem part \<or> (\<exists>e. pp_encoding part = Some e \<and> e \<noteq> [] \<and> \<not> is_known_encoding e) \<or>
       (\<exists>e. pp_encoding part = Some e \<and> eq_ignore_ascii_case e ''base64'' \<and> \<not> base64_groups_are_complete body) \<or>
       (\<exists>c. pp_charset part = Some c \<and> \<not> is_known_charset parser c) \<or> pp_text part = None
       \<longleftrightarrow> isl (decode_text_part parser header body)
   | _ \<Rightarrow> decode_text_part parser header body = Inl Undecodable"
  proof (cases "parse_message parser (entity_of header body)")
    case None
    then show ?thesis by (simp add: decode_text_part_def decode_entity_def)
  next
    case (Some parts)
    show ?thesis
    proof (cases parts)
      case Nil
      then show ?thesis using Some by (simp add: decode_text_part_def decode_entity_def)
    next
      case (Cons part others)
      have unnamed: "\<not> eq_ignore_ascii_case [] ''base64''" by (simp add: eq_ignore_ascii_case_def to_ascii_lowercase_def)
      show ?thesis using Some Cons unnamed
        by (cases "pp_encoding part"; cases "pp_charset part"; cases "pp_text part")
           (simp_all add: decode_text_part_def decode_entity_def Let_def)
    qed
  qed
qed

end
