(* ===== verification/Shown_Text.thy ===== *)
theory Shown_Text
  imports Preview
begin

text \<open>
  The texts of messages and servers as labels show them (crate \<open>mailbag\<close>, the text rules of
  \<open>mail_ui.rs\<close>): bounded, without NUL, with no run too long to wrap, and the dates of the rows. GLib's
  calendar and the locale are parameters.
\<close>

section \<open>Inert text\<close>

definition display_limit_bytes :: nat where
  "display_limit_bytes = 65536"

definition longest_word_wrapped_run :: nat where
  "longest_word_wrapped_run = 100"

text \<open>\<open>str::is_char_boundary\<close> up to the length: no continuation byte follows.\<close>

definition is_char_boundary :: "string \<Rightarrow> nat \<Rightarrow> bool" where
  "is_char_boundary s i \<longleftrightarrow> i = 0 \<or> i = length s \<or> i < length s \<and> \<not> (0x80 \<le> (of_char (s ! i) :: nat) \<and> (of_char (s ! i) :: nat) < 0xC0)"

text \<open>The loop that steps back to a boundary; position 0 is one.\<close>

fun cut_end :: "string \<Rightarrow> nat \<Rightarrow> nat" where
  "cut_end s 0 = 0"
| "cut_end s (Suc n) = (if is_char_boundary s (Suc n) then Suc n else cut_end s n)"

definition replacement_character :: string where
  "replacement_character = [CHR 0xEF, CHR 0xBF, CHR 0xBD]"

definition inert_text :: "string \<Rightarrow> string" where
  "inert_text s = concat (map (\<lambda>c. if c = CHR 0x00 then replacement_character else [c])
     (take (cut_end s (min (length s) display_limit_bytes)) s))"

definition sender_text :: "display_fields \<Rightarrow> string" where
  "sender_text shown = (case fields_from shown of Some sender \<Rightarrow> inert_text sender | None \<Rightarrow> ''Unknown sender'')"

definition subject_text :: "display_fields \<Rightarrow> string" where
  "subject_text shown = (case fields_subject shown of Some subject \<Rightarrow> inert_text subject | None \<Rightarrow> ''No subject'')"

section \<open>Runs without a place to break\<close>

text \<open>Both loops walk over characters, here code points.\<close>

fun run_lengths :: "nat \<Rightarrow> nat list \<Rightarrow> nat list" where
  "run_lengths current [] = []"
| "run_lengths current (c # cs) =
     (let current' = (if is_whitespace c then 0 else current + 1) in current' # run_lengths current' cs)"

definition longest_unbroken_run :: "string \<Rightarrow> nat" where
  "longest_unbroken_run s = fold max (run_lengths 0 (chars_of s)) 0"

datatype wrap_mode = WrapChar | WrapWordChar

definition wrapping_of :: "string \<Rightarrow> wrap_mode" where
  "wrapping_of s = (if longest_word_wrapped_run < longest_unbroken_run s then WrapChar else WrapWordChar)"

definition cut_runs :: "nat list \<Rightarrow> nat list" where
  "cut_runs cs = map fst (filter (\<lambda>(c, current). current \<le> longest_word_wrapped_run) (zip cs (run_lengths 0 cs)))"

definition cut_unbroken_runs :: "string \<Rightarrow> string" where
  "cut_unbroken_runs s = utf8 (cut_runs (chars_of s))"

section \<open>Dates\<close>

text \<open>\<open>str::find\<close>: where the pattern starts first.\<close>

fun sublist_at :: "string \<Rightarrow> string \<Rightarrow> nat option" where
  "sublist_at p [] = (if p = [] then Some 0 else None)"
| "sublist_at p (c # cs) = (if starts_with p (c # cs) then Some 0 else map_option Suc (sublist_at p cs))"

text \<open>
  A local time of GLib: its year, its wording by a format, and the seconds from the start of another's
  day to the start of its own.
\<close>

record 't calendar =
  year_of :: "'t \<Rightarrow> int"
  worded :: "'t \<Rightarrow> string \<Rightarrow> string"
  day_starts_apart :: "'t \<Rightarrow> 't \<Rightarrow> int"
  new_years_eve :: 't

text \<open>\<open>f64::round\<close> of the seconds in days: to the nearest, a half away from zero.\<close>

definition rounded_days :: "int \<Rightarrow> int" where
  "rounded_days seconds =
     (if 0 \<le> seconds then (2 * seconds + 86400) div 172800 else - ((86400 - 2 * seconds) div 172800))"

definition days_before :: "'t calendar \<Rightarrow> 't \<Rightarrow> 't \<Rightarrow> int" where
  "days_before calendar received now = rounded_days (day_starts_apart calendar received now)"

definition locale_time_form :: "string \<Rightarrow> string \<Rightarrow> string" where
  "locale_time_form full_time am_pm =
     (if am_pm \<noteq> [] \<and> sublist_at am_pm full_time \<noteq> None then ''%-I:%M %p'' else ''%H:%M'')"

definition day_month_form :: "string \<Rightarrow> string" where
  "day_month_form short_date = (case (sublist_at ''31'' short_date, sublist_at ''12'' short_date) of
     (Some day, Some month) \<Rightarrow> if month < day then ''%B %-d'' else ''%-d %B''
   | _ \<Rightarrow> ''%-d %B'')"

definition date_wording :: "'t calendar \<Rightarrow> 't \<Rightarrow> 't \<Rightarrow> string" where
  "date_wording calendar received now =
     (let days = days_before calendar received now in
      if days = 0 then worded calendar received (locale_time_form (worded calendar now ''%X'') (worded calendar now ''%p''))
      else if days = 1 then ''Yesterday''
      else worded calendar received
        (if 2 \<le> days \<and> days \<le> 6 then ''%A''
         else if year_of calendar received = year_of calendar now
         then day_month_form (worded calendar (new_years_eve calendar) ''%x'')
         else ''%x''))"

end
