(* ===== verification/Declarations.thy ===== *)
theory Declarations
  imports Domain Shown_Text
begin

text \<open>
  What the user is told about each failure (crate \<open>mailbag\<close>, \<open>failure_declarations.rs\<close>) and the
  parts of \<open>failure_dialog.rs\<close> that make texts of it: the report, a status page's description, and the
  label and action of the one button. The widgets themselves are GTK's.
\<close>

section \<open>Declared failures\<close>

datatype failure_action = Retry | OnlineAccountsSettings

datatype retried_operation = RefreshMailbox | RefreshAccount | ReadStoredMail

record declared_failure =
  df_title :: string
  df_explanation :: string
  df_advice :: "string option"
  df_action :: "failure_action option"
  df_remote_texts :: "remote_text list"
  df_details :: string

definition message_not_changed :: "failure_kind \<Rightarrow> string" where
  "message_not_changed kind = (case kind of
     StorageFull \<Rightarrow> ''Message not changed. Free some disk space, then try again.''
   | _ \<Rightarrow> ''Message not changed. Try again.'')"

definition choose_by_load :: "retried_operation \<Rightarrow> string \<Rightarrow> string \<Rightarrow> string" where
  "choose_by_load retried folder_list mailbox = (case retried of
     RefreshAccount \<Rightarrow> folder_list
   | RefreshMailbox \<Rightarrow> mailbox
   | ReadStoredMail \<Rightarrow> mailbox)"

definition remote_heading :: "remote_source \<Rightarrow> string" where
  "remote_heading source = (case source of
     ServerAlert \<Rightarrow> ''Alert from the mail server''
   | ServerReply \<Rightarrow> ''Reply from the mail server''
   | ServiceMessage \<Rightarrow> ''Message from the mail service''
   | System \<Rightarrow> ''From the system'')"

section \<open>Steps of a server\<close>

definition failed_step_title :: "server_step \<Rightarrow> string" where
  "failed_step_title step = (case step of
     Connect \<Rightarrow> ''Server unreachable''
   | SecureConnection \<Rightarrow> ''Secure connection failed''
   | SignIn \<Rightarrow> ''Sign-in rejected''
   | ListFolders \<Rightarrow> ''Mailbox list not received''
   | OpenMailbox \<Rightarrow> ''Mailbox not opened''
   | FetchMessages \<Rightarrow> ''Message list not received''
   | FetchText \<Rightarrow> ''Message text not received''
   | ChangeFlags \<Rightarrow> ''Message change not confirmed'')"

definition failed_step_explanation :: "server_step \<Rightarrow> string" where
  "failed_step_explanation step = (case step of
     Connect \<Rightarrow> ''The mail server could not be reached.''
   | SecureConnection \<Rightarrow> ''A verified encrypted connection to the mail server could not be established, so no password was sent.''
   | SignIn \<Rightarrow> ''The mail server rejected sign-in.''
   | ListFolders \<Rightarrow> ''The mail server did not send the mailbox list.''
   | OpenMailbox \<Rightarrow> ''The mail server did not open this mailbox.''
   | FetchMessages \<Rightarrow> ''The mail server did not send this mailbox's messages.''
   | FetchText \<Rightarrow> ''The mail server did not send the text of these messages.''
   | ChangeFlags \<Rightarrow> ''The mail server did not confirm the change to these messages.'')"

definition waiting_step_explanation :: "server_step \<Rightarrow> string" where
  "waiting_step_explanation step = (case step of
     Connect \<Rightarrow> ''The mail server did not answer the connection.''
   | SecureConnection \<Rightarrow> ''The mail server stopped responding while the encrypted connection was being set up.''
   | SignIn \<Rightarrow> ''The mail server stopped responding during sign-in.''
   | ListFolders \<Rightarrow> ''The mail server stopped responding while sending the mailbox list.''
   | OpenMailbox \<Rightarrow> ''The mail server stopped responding while opening this mailbox.''
   | FetchMessages \<Rightarrow> ''The mail server stopped responding while sending this mailbox's messages.''
   | FetchText \<Rightarrow> ''The mail server stopped responding while sending the message text.''
   | ChangeFlags \<Rightarrow> ''The mail server stopped responding while changing these messages.'')"

section \<open>Failures\<close>

definition check_sign_in :: "retried_operation \<Rightarrow> string" where
  "check_sign_in retried = choose_by_load retried
     ''Check this account's sign-in in Online Accounts, then choose Refresh Account.''
     ''Check this account's sign-in in Online Accounts, then choose Refresh Mailbox.''"

text \<open>The title, the explanation, the advice and the action of each kind.\<close>

definition declared_words :: "failure_kind \<Rightarrow> retried_operation \<Rightarrow> string \<times> string \<times> string option \<times> failure_action option" where
  "declared_words kind retried = (case kind of
     AccountSettingsUnavailable \<Rightarrow>
       (''Account settings unavailable'',
        ''This account's settings could not be read from Online Accounts.'',
        Some (choose_by_load retried
          ''Check this account in Online Accounts, then choose Refresh Account.''
          ''Check this account in Online Accounts, then choose Refresh Mailbox.''),
        Some OnlineAccountsSettings)
   | EncryptionNotConfigured \<Rightarrow>
       (''No encryption configured'',
        ''This account has no encryption configured, so no password was requested and no connection was made.'',
        Some (choose_by_load retried
          ''Choose SSL or STARTTLS for this account in Online Accounts, then choose Refresh Account.''
          ''Choose SSL or STARTTLS for this account in Online Accounts, then choose Refresh Mailbox.''),
        Some OnlineAccountsSettings)
   | PasswordUnavailable \<Rightarrow>
       (''Password unavailable'',
        ''This account's password could not be read from Online Accounts, so no sign-in was attempted.'',
        Some (check_sign_in retried), Some OnlineAccountsSettings)
   | AuthorizationUnavailable \<Rightarrow>
       (''Authorization unavailable'',
        ''This account's authorization could not be read from Online Accounts, so no sign-in was attempted.'',
        Some (check_sign_in retried), Some OnlineAccountsSettings)
   | OnlineAccountsNotResponding \<Rightarrow>
       (''Online Accounts not responding'',
        ''Online Accounts did not answer in time, so no sign-in was attempted.'', None, Some Retry)
   | AccountRequestStopped \<Rightarrow>
       (''Loading stopped'',
        choose_by_load retried
          ''Loading the mailbox list stopped before it finished.''
          ''Loading this mailbox stopped before it finished.'',
        None, Some Retry)
   | ServerUnavailable _ \<Rightarrow>
       (''Server unavailable'', ''The mail server is temporarily unavailable.'', None, Some Retry)
   | ServerRejectedSignIn \<Rightarrow>
       (failed_step_title SignIn, failed_step_explanation SignIn, Some (check_sign_in retried), Some OnlineAccountsSettings)
   | ServerStepFailed step \<Rightarrow> (failed_step_title step, failed_step_explanation step, None, Some Retry)
   | ServerNotResponding step \<Rightarrow> (''Server not responding'', waiting_step_explanation step, None, Some Retry)
   | NoSignInMethod \<Rightarrow>
       (''No sign-in method'',
        ''The mail server offers no supported sign-in method, so no password was sent.'', None, None)
   | MailboxChanged \<Rightarrow>
       (''Mailbox changed'', ''The messages being loaded are no longer in this mailbox.'', None, Some Retry)
   | ServiceUnreachable \<Rightarrow>
       (''Service unreachable'', ''The mail service could not be reached.'', None, Some Retry)
   | ServiceNotResponding \<Rightarrow>
       (''Service not responding'',
        choose_by_load retried
          ''The mail service stopped responding while sending the mailbox list.''
          ''The mail service stopped responding.'',
        None, Some Retry)
   | ServiceRejectedSignIn \<Rightarrow>
       (''Sign-in rejected'', ''The mail service rejected sign-in.'', Some (check_sign_in retried), Some OnlineAccountsSettings)
   | RequestRefused \<Rightarrow>
       (''Request failed'',
        choose_by_load retried
          ''The mail service refused the request for the mailbox list.''
          ''The mail service refused the request.'',
        None, Some Retry)
   | UnexpectedAnswer \<Rightarrow>
       (''Unexpected answer'',
        choose_by_load retried
          ''The mail service sent the mailbox list in an unexpected form.''
          ''The mail service answered in an unexpected form.'',
        None, Some Retry)
   | Stopped \<Rightarrow>
       (''Refresh stopped'',
        choose_by_load retried
          ''Loading the mailbox list stopped because of an internal error.''
          ''Loading this mailbox stopped because of an internal error.'',
        Some ''If this happens again, report it with the technical details.'', Some Retry)
   | StorageFull \<Rightarrow>
       (''Not enough disk space'', ''There is not enough free disk space to store mail.'',
        Some ''Free some disk space, then try again.'', Some Retry)
   | MailNotSaved \<Rightarrow>
       (''Mail not saved'',
        choose_by_load retried
          ''The received mailbox list could not be saved.''
          ''The received messages could not be saved.'',
        None, Some Retry)
   | StoredMailUnreadable \<Rightarrow>
       (''Stored mail unreadable'', ''The stored mail could not be read.'', None, Some Retry))"

definition declare_failure :: "failure \<Rightarrow> retried_operation \<Rightarrow> declared_failure" where
  "declare_failure f retried =
     (let (title, explanation, advice, action) = declared_words (failure_kind f) retried in
      \<lparr>df_title = title, df_explanation = explanation, df_advice = advice, df_action = action,
       df_remote_texts = failure_texts f, df_details = failure_details f\<rparr>)"

definition declare_short_list :: "incomplete_list \<Rightarrow> declared_failure" where
  "declare_short_list incomplete = (case incomplete of
     ServerRefused reply _ \<Rightarrow>
       \<lparr>df_title = ''Some messages not loaded'',
        df_explanation = ''The mail server stopped sending the message list, so some messages are missing.'',
        df_advice = None, df_action = Some Retry,
        df_remote_texts = [\<lparr>remote_source = ServerReply, remote_words = reply\<rparr>],
        df_details = technical_details incomplete\<rparr>)"

section \<open>Contents without a text\<close>

definition explain_content :: "content_explanation \<Rightarrow> string \<times> string" where
  "explain_content explanation = (case explanation of
     NoPlainText True \<Rightarrow> (''HTML version only'', ''This message has only an HTML version, which cannot be shown yet.'')
   | NoPlainText False \<Rightarrow> (''No text'', ''This message has no text to show.'')
   | Encrypted \<Rightarrow> (''Encrypted message'', ''This message is encrypted and cannot be decrypted.'')
   | SecuredWithSMime \<Rightarrow> (''Secured message'', ''This message is secured with S/MIME and cannot be read.'')
   | UnknownCharset charset \<Rightarrow> (''Unknown character set'', ''This message uses an unknown character set: '' @ charset)
   | UnknownEncoding enc \<Rightarrow> (''Unknown encoding'', ''This message's text uses an unknown encoding: '' @ enc)
   | Undecodable \<Rightarrow> (''Text unreadable'', ''This message's text could not be read.''))"

definition declared_content :: "string \<times> string \<Rightarrow> declared_failure" where
  "declared_content = (\<lambda>(title, explanation).
     \<lparr>df_title = title, df_explanation = explanation, df_advice = None, df_action = None, df_remote_texts = [], df_details = []\<rparr>)"

definition declare_content :: "received_content \<Rightarrow> declared_failure option" where
  "declare_content content = (case content of
     Text _ \<Rightarrow> None
   | Explained explanation \<Rightarrow> Some (declared_content (explain_content explanation))
   | StructureUnreadable \<Rightarrow> Some (declared_content (''Message unreadable'',
       ''The mail server could not describe this message, so its content could not be read.''))
   | TextNotReturned \<Rightarrow> Some (declared_content (''Text not received'', ''This message's text was not received.''))
   | NotDownloaded \<Rightarrow> Some (declared_content (''Text not downloaded'',
       ''The text of this message was not downloaded. Texts are downloaded for messages received in the last 30 days.'')))"

section \<open>The dialog's texts\<close>

text \<open>The label and the action of the form's button; none hides it.\<close>

definition action_button :: "failure_action option \<Rightarrow> retried_operation \<Rightarrow> (string \<times> string) option" where
  "action_button action retried = (case action of
     None \<Rightarrow> None
   | Some Retry \<Rightarrow> (case retried of
       RefreshMailbox \<Rightarrow> Some (''Retry'', ''app.refresh-mailbox'')
     | RefreshAccount \<Rightarrow> Some (''Retry'', ''app.refresh-account'')
     | ReadStoredMail \<Rightarrow> Some (''Retry'', ''app.read-stored-mail''))
   | Some OnlineAccountsSettings \<Rightarrow> Some (''Online Accounts'', ''app.accounts''))"

definition paragraph_break :: string where
  "paragraph_break = [newline, newline]"

text \<open>\<open>escape\<close> is \<open>glib::markup_escape_text\<close>.\<close>

definition status_description :: "(string \<Rightarrow> string) \<Rightarrow> declared_failure \<Rightarrow> string" where
  "status_description escape f =
     escape (cut_unbroken_runs (inert_text (join paragraph_break
       (df_explanation f # (case df_advice f of Some advice \<Rightarrow> [advice] | None \<Rightarrow> [])))))"

definition report_text :: "declared_failure \<Rightarrow> string" where
  "report_text f =
     (let parts = [df_title f, df_explanation f, (case df_advice f of Some advice \<Rightarrow> advice | None \<Rightarrow> [])] @
            map (\<lambda>t. remote_heading (remote_source t) @ '':'' @ [newline] @ remote_words t) (df_remote_texts f) @
            (if df_details f \<noteq> [] then [''Technical details:'' @ [newline] @ df_details f] else [])
      in join paragraph_break (map inert_text (filter (\<lambda>part. part \<noteq> []) parts)))"

end
