(* ===== verification/Mail_List.thy ===== *)
theory Mail_List
  imports Declarations
begin

text \<open>
  The list of messages and the reader (crate \<open>mailbag\<close>, \<open>mail_ui.rs\<close> and \<open>message_item.rs\<close>): the row
  objects, how the list follows a new read of the stored rows, and what opens and closes a message.

  GTK is not modelled. A row object is a record with the number of the object it is; what GTK draws of
  it is its fields. The timers and the frame callback are flags that an event fires, the calls to the
  window are collected in \<open>ml_calls\<close>, and \<open>ml_selected\<close> is the position the code selected last.
\<close>

section \<open>Row objects\<close>

record message_item =
  item_object :: nat
  item_listed :: message_list_row
  item_unread :: bool
  item_starred :: bool
  item_pointed :: bool
  item_shown :: bool
  item_transition :: "32 word"

definition item_identity :: "message_item \<Rightarrow> string" where
  "item_identity item = row_identity (item_listed item)"

definition row_transition :: "32 word" where
  "row_transition = 220"

definition new_item :: "nat \<Rightarrow> message_list_row \<Rightarrow> message_item" where
  "new_item object row = \<lparr>item_object = object, item_listed = row, item_unread = (\<not> row_seen row),
     item_starred = row_flagged row, item_pointed = False, item_shown = True, item_transition = 0\<rparr>"

definition lists_same_message :: "message_item \<Rightarrow> message_list_row \<Rightarrow> bool" where
  "lists_same_message item row \<longleftrightarrow> row_identity (item_listed item) = row_identity row \<and>
     row_fields (item_listed item) = row_fields row \<and> row_received (item_listed item) = row_received row \<and>
     row_preview (item_listed item) = row_preview row"

definition show_over :: "bool \<Rightarrow> 32 word \<Rightarrow> message_item \<Rightarrow> message_item" where
  "show_over is_shown transition item = item\<lparr>item_transition := transition, item_shown := is_shown\<rparr>"

definition star_icon :: "message_item \<Rightarrow> string" where
  "star_icon item = (case (item_starred item, item_pointed item) of
     (True, _) \<Rightarrow> ''starred-symbolic''
   | (False, True) \<Rightarrow> ''non-starred-symbolic''
   | (False, False) \<Rightarrow> [])"

definition star_style :: "message_item \<Rightarrow> string" where
  "star_style item = (if item_starred item then ''warning'' else ''dim-label'')"

definition row_state_text :: "message_item \<Rightarrow> string" where
  "row_state_text item = (case (item_unread item, item_starred item) of
     (True, False) \<Rightarrow> ''Unread''
   | (False, False) \<Rightarrow> ''Read''
   | (True, True) \<Rightarrow> ''Unread, starred''
   | (False, True) \<Rightarrow> ''Read, starred'')"

section \<open>The rows the list shows\<close>

definition shown_rows :: "message_list_row list \<Rightarrow> bool \<Rightarrow> string option \<Rightarrow> string set \<Rightarrow> message_list_row list" where
  "shown_rows rows unread_only open_one removed =
     filter (\<lambda>row. \<not> unread_only \<or> \<not> row_seen row \<or> open_one = Some (row_identity row))
       (filter (\<lambda>row. row_identity row \<notin> removed) rows)"

definition next_after_leaving :: "(nat \<times> bool) option \<Rightarrow> (nat \<times> bool) option \<Rightarrow> nat option" where
  "next_after_leaving upper lower = map_option fst (case (upper, lower) of
     (None, None) \<Rightarrow> None
   | (Some _, None) \<Rightarrow> upper
   | (Some (_, True), Some (_, False)) \<Rightarrow> upper
   | (None, Some _) \<Rightarrow> lower
   | (Some (_, False), Some _) \<Rightarrow> lower
   | (Some (_, True), Some (_, True)) \<Rightarrow> lower)"

section \<open>Changing the list by difference\<close>

datatype list_change = AtOnce | Animated

fun common_start :: "message_item list \<Rightarrow> message_list_row list \<Rightarrow> nat" where
  "common_start (item # items) (row # rows) =
     (if lists_same_message item row then Suc (common_start items rows) else 0)"
| "common_start _ _ = 0"

text \<open>The objects that come in, from the removed ones or new, numbered from \<open>object\<close> on.\<close>

definition arriving_item :: "list_change \<Rightarrow> nat \<Rightarrow> message_list_row \<Rightarrow> message_item" where
  "arriving_item change object row = (case change of
     Animated \<Rightarrow> show_over False row_transition (new_item object row)
   | AtOnce \<Rightarrow> new_item object row)"

fun added_items :: "(string \<Rightarrow> message_item option) \<Rightarrow> list_change \<Rightarrow> nat \<Rightarrow> message_list_row list \<Rightarrow> message_item list \<times> nat" where
  "added_items removed change object [] = ([], object)"
| "added_items removed change object (row # rows) =
     (let (item, object') = (case removed (row_identity row) of
        Some item \<Rightarrow> if lists_same_message item row then (item, object) else (arriving_item change object row, Suc object)
      | None \<Rightarrow> (arriving_item change object row, Suc object));
          (items, object'') = added_items removed change object' rows
      in (item # items, object''))"

definition splice :: "'a list \<Rightarrow> nat \<Rightarrow> nat \<Rightarrow> 'a list \<Rightarrow> 'a list" where
  "splice items position n added = take position items @ added @ drop (position + n) items"

definition follow_flags :: "message_item \<Rightarrow> message_list_row \<Rightarrow> message_item" where
  "follow_flags item row = item\<lparr>item_unread := \<not> row_seen row, item_starred := row_flagged row\<rparr>"

text \<open>The items of the rows, in place; the splice leaves no fewer items than rows.\<close>

fun follow_rows :: "message_item list \<Rightarrow> message_list_row list \<Rightarrow> message_item list" where
  "follow_rows (item # items) (row # rows) = follow_flags item row # follow_rows items rows"
| "follow_rows items _ = items"

text \<open>The list changed to \<open>rows\<close>, the objects of its rows that are closed, and the next free number.\<close>

definition update_list_by_difference ::
  "message_item list \<Rightarrow> message_list_row list \<Rightarrow> list_change \<Rightarrow> nat \<Rightarrow> message_item list \<times> nat list \<times> nat" where
  "update_list_by_difference items rows change object =
     (let same_start = common_start items rows;
          same_end = common_start (rev (drop same_start items)) (rev (drop same_start rows));
          middle = take (length items - same_end - same_start) (drop same_start items);
          removed = collect_map (map (\<lambda>item. (item_identity item, item)) middle);
          (added, object') = added_items (map_of removed) change object
            (take (length rows - same_end - same_start) (drop same_start rows));
          spliced = (if removed \<noteq> [] \<or> added \<noteq> [] then splice items same_start (length removed) added else items);
          followed = follow_rows spliced rows
      in (followed, map item_object (filter (\<lambda>item. \<not> item_shown item) (take (length rows) followed)), object'))"

definition stays_listed :: "message_list_row list \<Rightarrow> message_item \<Rightarrow> bool" where
  "stays_listed rows item = (case map_of (collect_map (map (\<lambda>row. (row_identity row, row)) rows)) (item_identity item) of
     Some row \<Rightarrow> lists_same_message item row
   | None \<Rightarrow> False)"

definition close_leaving_rows :: "message_item list \<Rightarrow> message_list_row list \<Rightarrow> message_item list \<times> bool" where
  "close_leaving_rows items rows =
     (map (\<lambda>item. if \<not> stays_listed rows item \<and> item_shown item then show_over False row_transition item else item) items,
      list_ex (\<lambda>item. \<not> stays_listed rows item \<and> item_shown item) items)"

text \<open>The first position of a list of positions whose row is not closed, with whether it is unread.\<close>

definition first_shown :: "message_item list \<Rightarrow> nat list \<Rightarrow> (nat \<times> bool) option" where
  "first_shown items positions =
     map_option (\<lambda>position. (position, item_unread (items ! position))) (find (\<lambda>position. item_shown (items ! position)) positions)"

definition position_of :: "message_item list \<Rightarrow> string \<Rightarrow> nat option" where
  "position_of items identity = find (\<lambda>position. item_identity (items ! position) = identity) [0..<length items]"

section \<open>State\<close>

text \<open>What the window hears of the list and the reader.\<close>

datatype mail_call =
    ContentRequest account_id string
  | FlagChange account_id string message_flag bool
  | RowRemoved

text \<open>The reader's envelope; the date GLib words is the received time.\<close>

record envelope =
  env_starred :: bool
  env_subject :: string
  env_sender :: string
  env_to :: "string option"
  env_received :: "int option"

text \<open>
  \<open>ml_listed\<close> are the rows with the number that stands for the \<open>Rc\<close> they came in; \<open>ml_opening\<close> are the
  closed rows each frame callback will open; \<open>ml_failure\<close> is what takes the body's place.
\<close>

record mail_ui =
  ml_items :: "message_item list"
  ml_next_object :: nat
  ml_selected :: "nat option"
  ml_listed :: "(folder_ref \<times> nat \<times> message_list_row list) option"
  ml_unread_only :: bool
  ml_removed :: "string set"
  ml_pending_change :: bool
  ml_opening :: "nat list list"
  ml_open :: "string option"
  ml_pending_read :: bool
  ml_envelope :: "envelope option"
  ml_body :: string
  ml_failure :: "(declared_failure \<times> retried_operation) option"
  ml_reader_shown :: bool
  ml_brought_forward :: bool
  ml_mark_enabled :: bool
  ml_calls :: "mail_call list"

definition envelope_of :: "message_item \<Rightarrow> envelope" where
  "envelope_of item = (let shown = row_fields (item_listed item) in
     \<lparr>env_starred = item_starred item, env_subject = subject_text shown, env_sender = sender_text shown,
      env_to = map_option inert_text (fields_to shown), env_received = row_received (item_listed item)\<rparr>)"

definition star_button :: "envelope \<Rightarrow> string \<times> string" where
  "star_button e = (if env_starred e then (''starred-symbolic'', ''Unstar this message'')
     else (''non-starred-symbolic'', ''Star this message''))"

definition close_reader :: "mail_ui \<Rightarrow> mail_ui" where
  "close_reader m = m\<lparr>ml_pending_read := False, ml_open := None, ml_mark_enabled := False, ml_selected := None,
     ml_reader_shown := False, ml_brought_forward := False\<rparr>"

definition new_mail_ui :: mail_ui where
  "new_mail_ui = \<lparr>ml_items = [], ml_next_object = 0, ml_selected = None, ml_listed = None, ml_unread_only = False,
     ml_removed = {}, ml_pending_change = False, ml_opening = [], ml_open = None, ml_pending_read = False,
     ml_envelope = None, ml_body = [], ml_failure = None, ml_reader_shown = False, ml_brought_forward = False,
     ml_mark_enabled = False, ml_calls = []\<rparr>"

definition calls :: "mail_call \<Rightarrow> mail_ui \<Rightarrow> mail_ui" where
  "calls call m = m\<lparr>ml_calls := ml_calls m @ [call]\<rparr>"

section \<open>The list follows the rows\<close>

definition set_shown :: "bool \<Rightarrow> 32 word \<Rightarrow> nat list \<Rightarrow> message_item list \<Rightarrow> message_item list" where
  "set_shown is_shown transition objects items =
     map (\<lambda>item. if item_object item \<in> set objects then show_over is_shown transition item else item) items"

definition change_list :: "message_list_row list \<Rightarrow> list_change \<Rightarrow> mail_ui \<Rightarrow> mail_ui" where
  "change_list shown change m =
     (let (items, closed, object) = update_list_by_difference (ml_items m) shown change (ml_next_object m);
          m' = m\<lparr>ml_items := items, ml_next_object := object\<rparr>
      in case change of
        AtOnce \<Rightarrow> m'\<lparr>ml_items := set_shown True 0 closed items\<rparr>
      | Animated \<Rightarrow> if closed = [] then m' else m'\<lparr>ml_opening := ml_opening m @ [closed]\<rparr>)"

text \<open>
  \<open>animates\<close>: the list is on screen and the system's animations are on. First the list is changed, at
  once or after the rows that leave are closed; then the reader follows.
\<close>

definition listing :: "bool \<Rightarrow> list_change \<Rightarrow> message_list_row list \<Rightarrow> mail_ui \<Rightarrow> mail_ui" where
  "listing animates wanted shown m = (case (if animates then wanted else AtOnce) of
     AtOnce \<Rightarrow> change_list shown AtOnce (m\<lparr>ml_pending_change := False\<rparr>)
   | Animated \<Rightarrow>
       (let (items, started) = close_leaving_rows (ml_items m) shown;
            m0 = m\<lparr>ml_items := items, ml_pending_change := ml_pending_change m \<or> started\<rparr>
        in if ml_pending_change m0 then m0 else change_list shown Animated m0))"

definition update_shown :: "bool \<Rightarrow> list_change \<Rightarrow> mail_ui \<Rightarrow> mail_ui" where
  "update_shown animates wanted m = (case ml_listed m of
     None \<Rightarrow> m
   | Some (_, _, rows) \<Rightarrow>
       (let shown = shown_rows rows (ml_unread_only m) (ml_open m) (ml_removed m); m1 = listing animates wanted shown m
        in case ml_open m of
          None \<Rightarrow> m1
        | Some identity \<Rightarrow>
            (case (if identity \<in> row_identity ` set shown then position_of (ml_items m1) identity else None) of
              Some position \<Rightarrow> m1\<lparr>ml_selected := Some position, ml_envelope := Some (envelope_of (ml_items m1 ! position))\<rparr>
            | None \<Rightarrow> close_reader m1)))"

definition clear :: "mail_ui \<Rightarrow> mail_ui" where
  "clear m = (if ml_listed m = None then m else close_reader (m\<lparr>ml_items := [], ml_listed := None\<rparr>))"

definition show_rows :: "bool \<Rightarrow> folder_ref \<Rightarrow> nat \<Rightarrow> message_list_row list \<Rightarrow> mail_ui \<Rightarrow> mail_ui" where
  "show_rows animates folder read rows m =
     (let (same_account, same_folder, change, unchanged) = (case ml_listed m of
        Some (listed, listed_read, _) \<Rightarrow>
          if listed = folder then (True, True, Animated, listed_read = read)
          else (ref_account listed = ref_account folder, False, AtOnce, False)
      | None \<Rightarrow> (False, False, AtOnce, False))
      in if unchanged then m
      else (let m1 = (if same_account then m else clear m);
                m2 = m1\<lparr>ml_listed := Some (folder, read, rows), ml_removed := (if same_folder then ml_removed m1 else {})\<rparr>
            in update_shown animates change m2))"

definition set_unread_filter :: "bool \<Rightarrow> bool \<Rightarrow> mail_ui \<Rightarrow> mail_ui" where
  "set_unread_filter animates unread_only m = update_shown animates AtOnce (m\<lparr>ml_unread_only := unread_only\<rparr>)"

definition shows_no_row :: "mail_ui \<Rightarrow> bool" where
  "shows_no_row m = (case ml_listed m of
     None \<Rightarrow> False
   | Some (_, _, rows) \<Rightarrow> shown_rows rows (ml_unread_only m) (ml_open m) (ml_removed m) = [])"

text \<open>The timer after the closing, and the frame callback that opens the rows that came in closed.\<close>

definition after_closing :: "bool \<Rightarrow> mail_ui \<Rightarrow> mail_ui" where
  "after_closing animates m =
     (if ml_pending_change m then update_shown animates Animated (m\<lparr>ml_pending_change := False\<rparr>) else m)"

definition frames_passed :: "mail_ui \<Rightarrow> mail_ui" where
  "frames_passed m = (case ml_opening m of
     [] \<Rightarrow> m
   | closed # rest \<Rightarrow> m\<lparr>ml_items := set_shown True row_transition closed (ml_items m), ml_opening := rest\<rparr>)"

section \<open>Opening a message\<close>

definition request_content :: "account_id \<Rightarrow> string \<Rightarrow> mail_ui \<Rightarrow> mail_ui" where
  "request_content account identity m = calls (ContentRequest account identity) m"

definition open_at :: "nat \<Rightarrow> bool \<Rightarrow> mail_ui \<Rightarrow> mail_ui" where
  "open_at position bring_reader_forward m =
     (if position < length (ml_items m) then
        (let item = ml_items m ! position in
         if \<not> item_shown item then m
         else (case ml_listed m of
           None \<Rightarrow> m
         | Some (folder, _) \<Rightarrow>
             request_content (ref_account folder) (item_identity item)
               (m\<lparr>ml_open := Some (item_identity item), ml_mark_enabled := True, ml_pending_read := True,
                  ml_selected := Some position, ml_envelope := Some (envelope_of item), ml_body := [], ml_failure := None,
                  ml_reader_shown := True, ml_brought_forward := (bring_reader_forward \<or> ml_brought_forward m)\<rparr>)))
      else m)"

definition activate :: "bool \<Rightarrow> nat \<Rightarrow> mail_ui \<Rightarrow> mail_ui" where
  "activate animates position m =
     (let m' = open_at position True m in if ml_unread_only m' then update_shown animates AtOnce m' else m')"

definition next_after_leaving_at :: "message_item list \<Rightarrow> nat \<Rightarrow> nat option" where
  "next_after_leaving_at items position =
     next_after_leaving (first_shown items (rev [0..<position])) (first_shown items [position + 1..<length items])"

definition remove_in_window :: "bool \<Rightarrow> string \<Rightarrow> mail_ui \<Rightarrow> mail_ui" where
  "remove_in_window animates identity m = (case position_of (ml_items m) identity of
     None \<Rightarrow> m
   | Some position \<Rightarrow>
       (let m1 = m\<lparr>ml_removed := insert identity (ml_removed m)\<rparr>;
            m2 = (if ml_open m1 = Some identity
              then (case next_after_leaving_at (ml_items m1) position of
                Some next_one \<Rightarrow> open_at next_one False m1
              | None \<Rightarrow> close_reader m1)
              else m1)
        in calls RowRemoved (update_shown animates Animated m2)))"

section \<open>Flags\<close>

definition change_listed_flag :: "string \<Rightarrow> message_flag \<Rightarrow> bool \<Rightarrow> mail_ui \<Rightarrow> mail_ui" where
  "change_listed_flag identity flag wanted m = (case ml_listed m of
     None \<Rightarrow> m
   | Some (folder, _) \<Rightarrow> calls (FlagChange (ref_account folder) identity flag wanted) m)"

definition change_flag :: "message_flag \<Rightarrow> bool \<Rightarrow> mail_ui \<Rightarrow> mail_ui" where
  "change_flag flag wanted m =
     (let m1 = (if flag = Seen \<and> \<not> wanted then m\<lparr>ml_pending_read := False\<rparr> else m) in
      case ml_open m1 of None \<Rightarrow> m1 | Some identity \<Rightarrow> change_listed_flag identity flag wanted m1)"

definition open_item :: "mail_ui \<Rightarrow> message_item option" where
  "open_item m = (case ml_open m of
     None \<Rightarrow> None
   | Some identity \<Rightarrow> map_option (\<lambda>position. ml_items m ! position) (position_of (ml_items m) identity))"

text \<open>The timer of a second after the opening.\<close>

definition read_after_opening :: "mail_ui \<Rightarrow> mail_ui" where
  "read_after_opening m =
     (if ml_pending_read m
      then (let m1 = m\<lparr>ml_pending_read := False\<rparr> in
        case open_item m1 of
          Some item \<Rightarrow> if item_unread item then change_flag Seen True m1 else m1
        | None \<Rightarrow> m1)
      else m)"

definition point_row :: "nat \<Rightarrow> bool \<Rightarrow> mail_ui \<Rightarrow> mail_ui" where
  "point_row position pointed m =
     (if position < length (ml_items m)
      then m\<lparr>ml_items := (ml_items m)[position := (ml_items m ! position)\<lparr>item_pointed := pointed\<rparr>]\<rparr> else m)"

definition toggle_row_star :: "nat \<Rightarrow> mail_ui \<Rightarrow> mail_ui" where
  "toggle_row_star position m =
     (if position < length (ml_items m) \<and> star_icon (ml_items m ! position) \<noteq> []
      then change_listed_flag (item_identity (ml_items m ! position)) Flagged (\<not> item_starred (ml_items m ! position)) m
      else m)"

section \<open>The reader's content\<close>

definition open_message_of :: "mail_ui \<Rightarrow> (account_id \<times> string) option" where
  "open_message_of m = (case (ml_open m, ml_listed m) of
     (Some identity, Some (folder, _)) \<Rightarrow> Some (ref_account folder, identity)
   | _ \<Rightarrow> None)"

definition read_open_content_again :: "mail_ui \<Rightarrow> mail_ui" where
  "read_open_content_again m = (case open_message_of m of
     Some (account, identity) \<Rightarrow> request_content account identity m
   | None \<Rightarrow> m)"

definition show_content :: "account_id \<Rightarrow> string \<Rightarrow> failure + received_content option \<Rightarrow> mail_ui \<Rightarrow> mail_ui" where
  "show_content account identity content m =
     (if open_message_of m \<noteq> Some (account, identity) then m
      else case content of
        Inr (Some found) \<Rightarrow>
          m\<lparr>ml_body := (case found of Text body \<Rightarrow> inert_text body | _ \<Rightarrow> ml_body m),
            ml_failure := map_option (\<lambda>f. (f, RefreshMailbox)) (declare_content found)\<rparr>
      | Inr None \<Rightarrow> close_reader m
      | Inl failed_read \<Rightarrow> m\<lparr>ml_failure := Some (declare_failure failed_read ReadStoredMail, ReadStoredMail)\<rparr>)"

definition title_of :: "string option \<Rightarrow> string option \<Rightarrow> string \<times> string" where
  "title_of mailbox account = (case (mailbox, account) of
     (Some name, Some label) \<Rightarrow> (name, label)
   | (None, Some label) \<Rightarrow> (label, [])
   | _ \<Rightarrow> (''Mailbag'', []))"

end
