(* ===== verification/Mail_List_Claims.thy ===== *)
theory Mail_List_Claims
  imports Mail_List
begin

text \<open>
  What the list and the reader show, whatever the user and the cycles do: the list becomes the rows it
  should show, the objects of unchanged messages stay, and the open message is one of its rows.
\<close>

section \<open>A demonstration\<close>

definition demo_row :: "string \<Rightarrow> bool \<Rightarrow> message_list_row" where
  "demo_row identity seen = \<lparr>row_identity = identity, row_fields = \<lparr>fields_subject = None, fields_from = None, fields_to = None\<rparr>,
     row_received = None, row_seen = seen, row_flagged = False, row_preview = []\<rparr>"

definition demo_rows :: "message_list_row list" where
  "demo_rows = [demo_row ''m1'' False, demo_row ''m2'' True, demo_row ''m3'' True]"

definition demo_place :: folder_ref where
  "demo_place = \<lparr>ref_account = AccountId ''a'', ref_identity = ''I''\<rparr>"

definition demo_mail :: mail_ui where
  "demo_mail = set_unread_filter False True (activate False 1 (show_rows False demo_place 0 demo_rows new_mail_ui))"

section \<open>The list changed by difference\<close>

text \<open>The item shows the row, with its read state and its star.\<close>

definition shows_row :: "message_item \<Rightarrow> message_list_row \<Rightarrow> bool" where
  "shows_row item row \<longleftrightarrow> lists_same_message item row \<and> item_unread item = (\<not> row_seen row) \<and> item_starred item = row_flagged row"

lemma lists_identity: "lists_same_message item row \<Longrightarrow> item_identity item = row_identity row"
  by (simp add: lists_same_message_def item_identity_def)

lemma lists_identities: "list_all2 lists_same_message items rows \<Longrightarrow> map item_identity items = map row_identity rows"
  by (induction rule: list_all2_induct) (simp_all add: lists_identity)

lemma lists_flags [simp]:
  "lists_same_message (show_over b t item) row = lists_same_message item row"
  "lists_same_message (follow_flags item row') row = lists_same_message item row"
  "item_identity (show_over b t item) = item_identity item" "item_identity (follow_flags item row') = item_identity item"
  "item_object (show_over b t item) = item_object item" "item_object (follow_flags item row') = item_object item"
  "shows_row (show_over b t item) row = shows_row item row"
  by (simp_all add: lists_same_message_def item_identity_def show_over_def follow_flags_def shows_row_def)

lemma arriving_lists [simp]:
  "lists_same_message (arriving_item change object row) row" "item_object (arriving_item change object row) = object"
  by (cases change; simp add: arriving_item_def new_item_def lists_same_message_def show_over_def)+

lemma common_start_length: "common_start items rows \<le> length items" "common_start items rows \<le> length rows"
  by (induction items rows rule: common_start.induct) auto

lemma common_start_lists:
  "list_all2 lists_same_message (take (common_start items rows) items) (take (common_start items rows) rows)"
  by (induction items rows rule: common_start.induct) auto

lemma follow_rows_shows:
  "list_all2 lists_same_message items rows \<Longrightarrow> list_all2 shows_row (follow_rows items rows) rows"
  by (induction rule: list_all2_induct) (simp_all add: shows_row_def, simp add: follow_flags_def)

lemma follow_rows_objects: "map item_object (follow_rows items rows) = map item_object items"
  by (induction items rows rule: follow_rows.induct) simp_all

lemma added_lists: "list_all2 lists_same_message (fst (added_items removed change object rows)) rows"
  by (induction rows arbitrary: object) (auto simp: case_prod_beta Let_def split: option.split)

text \<open>The list split at the rows it has in common with the new ones, from both ends.\<close>

lemma split_ends:
  fixes items :: "message_item list" and rows :: "message_list_row list"
  defines "s \<equiv> common_start items rows"
  defines "e \<equiv> common_start (rev (drop s items)) (rev (drop s rows))"
  obtains first middle last_items first' middle' last' where "items = first @ middle @ last_items" "rows = first' @ middle' @ last'"
    "list_all2 lists_same_message first first'" "list_all2 lists_same_message last_items last'"
    "length first = s" "length first' = s" "length last_items = e" "length last' = e"
    "take (length items - e - s) (drop s items) = middle" "take (length rows - e - s) (drop s rows) = middle'"
proof -
  note s = common_start_length [of items rows, folded s_def]
  note e = common_start_length [of "rev (drop s items)" "rev (drop s rows)", folded e_def, simplified]
  have "list_all2 lists_same_message (take e (rev (drop s items))) (take e (rev (drop s rows)))"
    unfolding e_def by (rule common_start_lists)
  then have ends: "list_all2 lists_same_message (drop (length items - e) items) (drop (length rows - e) rows)"
    using s e by (simp add: take_rev list_all2_rev)
  have split: "xs = take s xs @ take (length xs - e - s) (drop s xs) @ drop (length xs - e) xs" if "s + e \<le> length xs" for xs :: "'z list"
  proof -
    have "drop (length xs - e) xs = drop (length xs - e - s) (drop s xs)" using that by simp
    then show ?thesis by (metis append_take_drop_id)
  qed
  show thesis
    by (rule that [OF split split common_start_lists [of items rows, folded s_def] ends]) (use s e in simp_all)
qed

lemma collect_length:
  assumes "distinct (map fst ps)" shows "length (collect_map ps) = length ps"
proof -
  have "set (map fst (collect_map ps)) = set (map fst ps)"
    using map_of_collect_map_distinct [OF assms] by (metis dom_map_of_conv_image_fst list.set_map)
  then show ?thesis using distinct_card [OF distinct_collect_map [of ps]] distinct_card [OF assms] by (metis length_map)
qed

lemma middle_replaced:
  assumes "distinct (map item_identity middle)"
  shows "length (collect_map (map (\<lambda>item. (item_identity item, item)) middle)) = length middle"
    and "map_of (collect_map (map (\<lambda>item. (item_identity item, item)) middle)) = map_of (map (\<lambda>item. (item_identity item, item)) middle)"
proof -
  have "distinct (map fst (map (\<lambda>item. (item_identity item, item)) middle))" using assms by (simp add: o_def)
  then show "length (collect_map (map (\<lambda>item. (item_identity item, item)) middle)) = length middle"
    and "map_of (collect_map (map (\<lambda>item. (item_identity item, item)) middle)) = map_of (map (\<lambda>item. (item_identity item, item)) middle)"
    by (simp_all add: collect_length map_of_collect_map_distinct)
qed

text \<open>The changed list: the common ends around the added items, each following its row.\<close>

lemma updated_list:
  assumes "distinct (map item_identity items)"
  obtains first middle last_items middle' where
    "items = first @ middle @ last_items" "\<exists>first' last'. rows = first' @ middle' @ last' \<and>
      list_all2 lists_same_message first first' \<and> list_all2 lists_same_message last_items last'"
    "fst (update_list_by_difference items rows change object) =
      follow_rows (first @ fst (added_items (map_of (map (\<lambda>item. (item_identity item, item)) middle)) change object middle') @ last_items) rows"
    "snd (snd (update_list_by_difference items rows change object)) =
      snd (added_items (map_of (map (\<lambda>item. (item_identity item, item)) middle)) change object middle')"
proof -
  obtain first middle last_items first' middle' last' where parts: "items = first @ middle @ last_items" "rows = first' @ middle' @ last'"
    "list_all2 lists_same_message first first'" "list_all2 lists_same_message last_items last'"
    "length first = common_start items rows" "length first' = common_start items rows"
    "length last_items = common_start (rev (drop (common_start items rows) items)) (rev (drop (common_start items rows) rows))"
    "take (length items - common_start (rev (drop (common_start items rows) items)) (rev (drop (common_start items rows) rows)) - common_start items rows)
      (drop (common_start items rows) items) = middle"
    "take (length rows - common_start (rev (drop (common_start items rows) items)) (rev (drop (common_start items rows) rows)) - common_start items rows)
      (drop (common_start items rows) rows) = middle'"
    by (rule split_ends [of items rows]) blast
  let ?removed = "collect_map (map (\<lambda>item. (item_identity item, item)) middle)"
  have "distinct (map item_identity middle)" using assms parts(1) by simp
  note removed = middle_replaced [OF this]
  let ?added = "fst (added_items (map_of ?removed) change object middle')"
  have none: "items = first @ ?added @ last_items" if "?removed = []" "?added = []"
  proof -
    have "middle = []" using removed(1) that(1) by (simp add: collect_map_def)
    then show ?thesis using parts(1) that(2) by simp
  qed
  have spliced: "splice items (length first) (length ?removed) ?added = first @ ?added @ last_items"
    using parts(1) by (simp add: splice_def removed(1))
  have "fst (update_list_by_difference items rows change object) = follow_rows (first @ ?added @ last_items) rows"
    unfolding update_list_by_difference_def Let_def parts(8,9)
    unfolding parts(5) [symmetric] spliced [symmetric] case_prod_beta
    using none spliced by auto
  moreover have "snd (snd (update_list_by_difference items rows change object)) = snd (added_items (map_of ?removed) change object middle')"
    unfolding update_list_by_difference_def Let_def parts(8,9) by (simp add: case_prod_beta)
  ultimately show thesis
    using that [OF parts(1), of middle'] parts(2,3,4) unfolding removed(2) by blast
qed

lemma updated_lists:
  assumes "distinct (map item_identity items)"
  shows "list_all2 shows_row (fst (update_list_by_difference items rows change object)) rows"
proof -
  obtain first middle last_items middle' where parts: "items = first @ middle @ last_items" "\<exists>first' last'. rows = first' @ middle' @ last' \<and>
      list_all2 lists_same_message first first' \<and> list_all2 lists_same_message last_items last'"
    "fst (update_list_by_difference items rows change object) =
      follow_rows (first @ fst (added_items (map_of (map (\<lambda>item. (item_identity item, item)) middle)) change object middle') @ last_items) rows"
    by (rule updated_list [OF assms]) blast
  then show ?thesis
    by (auto intro!: follow_rows_shows list_all2_appendI added_lists)
qed

lemma added_keeps:
  "row \<in> set rows \<Longrightarrow> removed (row_identity row) = Some item \<Longrightarrow> lists_same_message item row \<Longrightarrow>
    item \<in> set (fst (added_items removed change object rows))"
  by (induction rows arbitrary: object) (auto simp: case_prod_beta Let_def split: option.split)

lemma kept_item:
  assumes lists: "list_all2 lists_same_message items rows" and "distinct (map row_identity rows)"
    and "item \<in> set items" "row \<in> set rows" "lists_same_message item row"
  shows "\<exists>item' \<in> set (follow_rows items rows). item_object item' = item_object item \<and> shows_row item' row"
proof -
  obtain i where i: "i < length items" "items ! i = item" using assms(3) by (auto simp: in_set_conv_nth)
  have n: "length items = length rows" using lists by (rule list_all2_lengthD)
  have "lists_same_message item (rows ! i)" using list_all2_nthD [OF lists i(1)] i(2) by simp
  then have "row_identity (rows ! i) = row_identity row" using assms(5) by (metis lists_identity)
  then have row: "rows ! i = row" using distinct_map_unique [OF assms(2) _ assms(4)] i(1) n by simp
  have len: "length (follow_rows items rows) = length rows" by (rule list_all2_lengthD [OF follow_rows_shows [OF lists]])
  have "shows_row (follow_rows items rows ! i) row"
    using list_all2_nthD [OF follow_rows_shows [OF lists]] i(1) n len row by metis
  moreover have "item_object (follow_rows items rows ! i) = item_object item"
    using arg_cong [OF follow_rows_objects [of items rows], of "\<lambda>xs. xs ! i"] i n len by simp
  ultimately show ?thesis using i(1) n len by (metis nth_mem)
qed

text \<open>
  C14: changing the list by difference gives exactly the rows: each row is shown by the item at its place
  with its read state and star, and the object of every message that is still listed unchanged stays in
  the list, so that no other row is built again.
\<close>

theorem list_becomes_rows:
  assumes "distinct (map item_identity items)" and "distinct (map row_identity rows)"
  shows "list_all2 shows_row (fst (update_list_by_difference items rows change object)) rows \<and>
    (\<forall>item \<in> set items. \<forall>row \<in> set rows. lists_same_message item row \<longrightarrow>
      (\<exists>item' \<in> set (fst (update_list_by_difference items rows change object)).
        item_object item' = item_object item \<and> shows_row item' row))"
proof (intro conjI ballI impI)
  show "list_all2 shows_row (fst (update_list_by_difference items rows change object)) rows"
    by (rule updated_lists [OF assms(1)])
next
  fix item row
  assume item: "item \<in> set items" and row: "row \<in> set rows" and same: "lists_same_message item row"
  obtain first middle last_items middle' first' last' where parts: "items = first @ middle @ last_items" "rows = first' @ middle' @ last'"
      "list_all2 lists_same_message first first'" "list_all2 lists_same_message last_items last'"
    and updated: "fst (update_list_by_difference items rows change object) =
      follow_rows (first @ fst (added_items (map_of (map (\<lambda>item. (item_identity item, item)) middle)) change object middle') @ last_items) rows"
    by (rule updated_list [OF assms(1), of rows change object]) blast
  let ?items = "first @ fst (added_items (map_of (map (\<lambda>item. (item_identity item, item)) middle)) change object middle') @ last_items"
  have all: "list_all2 lists_same_message ?items rows"
    unfolding parts(2) by (intro list_all2_appendI parts(3,4) added_lists)
  have "item \<in> set ?items"
  proof (cases "item \<in> set middle")
    case True
    then obtain before after where middle: "middle = before @ item # after" by (auto simp: in_set_conv_decomp)
    have apart: "\<not> row \<in> set rows'" if d: "list_all2 lists_same_message others rows'" "set others \<subseteq> set first \<union> set last_items" for others rows'
    proof
      assume "row \<in> set rows'"
      then have "row_identity row \<in> set (map item_identity others)" unfolding lists_identities [OF d(1)] by simp
      then have "item_identity item \<in> item_identity ` (set first \<union> set last_items)" using d(2) lists_identity [OF same] by auto
      then show False using assms(1) unfolding parts(1) middle by auto
    qed
    have "row \<in> set middle'" using row apart [OF parts(3)] apart [OF parts(4)] unfolding parts(2) by auto
    moreover have "map_of (map (\<lambda>item. (item_identity item, item)) middle) (row_identity row) = Some item"
      using assms(1) True lists_identity [OF same] unfolding parts(1)
      by (intro map_of_is_SomeI) (auto simp: o_def intro: image_eqI [where x = item])
    ultimately show ?thesis using added_keeps same by auto
  qed (use item parts(1) in auto)
  then show "\<exists>item' \<in> set (fst (update_list_by_difference items rows change object)).
      item_object item' = item_object item \<and> shows_row item' row"
    unfolding updated using kept_item [OF all assms(2) _ row same] by blast
qed

theorem list_becomes_rows_witness:
  "list_all2 shows_row (fst (update_list_by_difference (ml_items demo_mail) demo_rows Animated 2)) demo_rows \<and>
   map item_object (fst (update_list_by_difference (ml_items demo_mail) demo_rows Animated 3)) = [0, 1, 3]"
proof
  have "distinct (map item_identity (ml_items demo_mail))" "distinct (map row_identity demo_rows)" by code_simp+
  from list_becomes_rows [OF this]
  show "list_all2 shows_row (fst (update_list_by_difference (ml_items demo_mail) demo_rows Animated 2)) demo_rows" by blast
  show "map item_object (fst (update_list_by_difference (ml_items demo_mail) demo_rows Animated 3)) = [0, 1, 3]" by code_simp
qed

section \<open>Events\<close>

text \<open>What happens to the list and the reader. The rows of a folder have distinct identities, as those of the store.\<close>

inductive mail_step :: "mail_ui \<Rightarrow> mail_ui \<Rightarrow> bool" where
  rows: "distinct (map row_identity rows) \<Longrightarrow> mail_step m (show_rows animates folder read rows m)"
| filtered: "mail_step m (set_unread_filter animates unread_only m)"
| activated: "mail_step m (activate animates position m)"
| trashed: "mail_step m (remove_in_window animates identity m)"
| closed: "mail_step m (after_closing animates m)"
| frames: "mail_step m (frames_passed m)"
| flag: "mail_step m (change_flag flag wanted m)"
| read: "mail_step m (read_after_opening m)"
| pointed: "mail_step m (point_row position is_pointed m)"
| starred: "mail_step m (toggle_row_star position m)"
| content: "mail_step m (show_content account identity answer m)"
| again: "mail_step m (read_open_content_again m)"
| cleared: "mail_step m (clear m)"

inductive mail_reached :: "mail_ui \<Rightarrow> bool" where
  start: "mail_reached new_mail_ui"
| step: "mail_reached m \<Longrightarrow> mail_step m m' \<Longrightarrow> mail_reached m'"

section \<open>The invariant\<close>

definition listed_rows :: "mail_ui \<Rightarrow> message_list_row list" where
  "listed_rows m = (case ml_listed m of Some (_, _, rows) \<Rightarrow> rows | None \<Rightarrow> [])"

text \<open>What holds even while an operation is at work.\<close>

definition parts_ok :: "mail_ui \<Rightarrow> bool" where
  "parts_ok m \<longleftrightarrow> distinct (map row_identity (listed_rows m)) \<and> distinct (map item_identity (ml_items m)) \<and>
     (ml_listed m = None \<longrightarrow> ml_items m = [] \<and> ml_open m = None) \<and>
     (ml_mark_enabled m \<longleftrightarrow> ml_open m \<noteq> None) \<and> (ml_reader_shown m \<longleftrightarrow> ml_open m \<noteq> None) \<and>
     (ml_pending_read m \<longrightarrow> ml_open m \<noteq> None) \<and> (ml_open m = None \<longrightarrow> ml_selected m = None)"

definition open_listed :: "mail_ui \<Rightarrow> bool" where
  "open_listed m \<longleftrightarrow> (case ml_open m of
     Some identity \<Rightarrow> ml_selected m = position_of (ml_items m) identity \<and> identity \<in> item_identity ` set (ml_items m)
   | None \<Rightarrow> True)"

text \<open>The list shows its rows, the message open now or until now among them.\<close>

definition settled :: "mail_ui \<Rightarrow> bool" where
  "settled m \<longleftrightarrow> (\<exists>kept. (ml_open m = kept \<or> ml_open m = None) \<and>
     list_all2 shows_row (ml_items m) (shown_rows (listed_rows m) (ml_unread_only m) kept (ml_removed m)))"

definition mail_ok :: "mail_ui \<Rightarrow> bool" where
  "mail_ok m \<longleftrightarrow> parts_ok m \<and> open_listed m \<and> (ml_pending_change m \<or> settled m)"

lemma shown_rows_distinct: "distinct (map row_identity rows) \<Longrightarrow> distinct (map row_identity (shown_rows rows u kept removed))"
  unfolding shown_rows_def by (intro distinct_map_filter')

lemma shows_lists: "shows_row item row \<Longrightarrow> lists_same_message item row"
  by (simp add: shows_row_def)

lemma shows_identities: "list_all2 shows_row items rows \<Longrightarrow> map item_identity items = map row_identity rows"
  by (rule lists_identities, erule list_all2_mono) (rule shows_lists)

lemma set_shown_shows [simp]: "list_all2 shows_row (set_shown b t objects items) rows = list_all2 shows_row items rows"
  unfolding set_shown_def list_all2_map1 by (intro list.rel_cong) simp_all

lemma set_shown_identities [simp]: "map item_identity (set_shown b t objects items) = map item_identity items"
  by (simp add: set_shown_def)

lemma close_leaving_identities [simp]: "map item_identity (fst (close_leaving_rows items rows)) = map item_identity items"
  by (simp add: close_leaving_rows_def)

lemma position_of_identities: "position_of items identity = find (\<lambda>p. map item_identity items ! p = identity) [0..<length (map item_identity items)]"
  unfolding position_of_def by (auto intro: find_cong)

lemma position_of_cong: "map item_identity items = map item_identity items' \<Longrightarrow> position_of items identity = position_of items' identity"
  unfolding position_of_identities by simp

lemma position_of_Some: "position_of items identity = Some p \<Longrightarrow> p < length items \<and> item_identity (items ! p) = identity"
  unfolding position_of_def by (drule find_Some_mem) simp

lemma position_of_None: "position_of items identity = None \<longleftrightarrow> identity \<notin> item_identity ` set items"
proof -
  have "(\<forall>i \<in> set [0..<length items]. item_identity (items ! i) \<noteq> identity) \<longleftrightarrow> (\<forall>item \<in> set items. item_identity item \<noteq> identity)"
    by (auto simp: all_set_conv_all_nth)
  then show ?thesis unfolding position_of_def find_None_iff' by auto
qed

lemma mail_ok_new: "mail_ok new_mail_ui"
  by (simp add: mail_ok_def parts_ok_def open_listed_def settled_def new_mail_ui_def listed_rows_def shown_rows_def)

text \<open>Steps that touch neither the rows nor what is open.\<close>

lemma same_list_ok:
  assumes "mail_ok m" and "map item_identity (ml_items m') = map item_identity (ml_items m)"
    and "\<And>rows. list_all2 shows_row (ml_items m) rows \<Longrightarrow> list_all2 shows_row (ml_items m') rows"
    and "ml_listed m' = ml_listed m" "ml_open m' = ml_open m" "ml_selected m' = ml_selected m" "ml_mark_enabled m' = ml_mark_enabled m"
      "ml_reader_shown m' = ml_reader_shown m" "ml_unread_only m' = ml_unread_only m" "ml_removed m' = ml_removed m"
      "ml_pending_change m' = ml_pending_change m" "ml_pending_read m' \<longrightarrow> ml_pending_read m"
  shows "mail_ok m'"
proof -
  have "ml_items m' = [] \<longleftrightarrow> ml_items m = []" using assms(2) by (metis map_is_Nil_conv)
  moreover have "item_identity ` set (ml_items m') = item_identity ` set (ml_items m)" using assms(2) by (metis list.set_map)
  moreover have "settled m \<Longrightarrow> settled m'" unfolding settled_def listed_rows_def assms(4-6,9,10) using assms(3) by blast
  ultimately show ?thesis
    using assms(1,4-) position_of_cong [OF assms(2)]
    unfolding mail_ok_def parts_ok_def open_listed_def listed_rows_def assms(2) by (auto split: option.splits)
qed

lemma change_list_shows:
  assumes "distinct (map item_identity (ml_items m))"
  shows "list_all2 shows_row (ml_items (change_list shown change m)) shown"
  using updated_lists [OF assms, of shown change "ml_next_object m"]
  by (cases change) (simp_all add: change_list_def case_prod_beta Let_def)

lemma change_list_rest [simp]:
  "ml_listed (change_list shown change m) = ml_listed m" "ml_open (change_list shown change m) = ml_open m"
  "ml_selected (change_list shown change m) = ml_selected m" "ml_mark_enabled (change_list shown change m) = ml_mark_enabled m"
  "ml_reader_shown (change_list shown change m) = ml_reader_shown m" "ml_unread_only (change_list shown change m) = ml_unread_only m"
  "ml_removed (change_list shown change m) = ml_removed m" "ml_pending_change (change_list shown change m) = ml_pending_change m"
  "ml_pending_read (change_list shown change m) = ml_pending_read m"
  by (cases change; simp add: change_list_def case_prod_beta Let_def)+

lemma close_reader_rest [simp]:
  "ml_listed (close_reader m) = ml_listed m" "ml_open (close_reader m) = None" "ml_items (close_reader m) = ml_items m"
  "ml_selected (close_reader m) = None" "ml_mark_enabled (close_reader m) = False" "ml_pending_read (close_reader m) = False"
  "ml_reader_shown (close_reader m) = False" "ml_unread_only (close_reader m) = ml_unread_only m"
  "ml_removed (close_reader m) = ml_removed m" "ml_pending_change (close_reader m) = ml_pending_change m"
  by (simp_all add: close_reader_def)

lemma close_reader_ok: "mail_ok m \<Longrightarrow> mail_ok (close_reader m)"
  by (auto simp: mail_ok_def parts_ok_def open_listed_def settled_def listed_rows_def)

lemma listing_rest [simp]:
  "ml_listed (listing animates wanted shown m) = ml_listed m" "ml_open (listing animates wanted shown m) = ml_open m"
  "ml_selected (listing animates wanted shown m) = ml_selected m" "ml_mark_enabled (listing animates wanted shown m) = ml_mark_enabled m"
  "ml_reader_shown (listing animates wanted shown m) = ml_reader_shown m" "ml_unread_only (listing animates wanted shown m) = ml_unread_only m"
  "ml_removed (listing animates wanted shown m) = ml_removed m" "ml_pending_read (listing animates wanted shown m) = ml_pending_read m"
  by (simp_all add: listing_def case_prod_beta Let_def split: list_change.split)

lemma listing_shows:
  assumes "distinct (map item_identity (ml_items m))" and "distinct (map row_identity shown)"
  shows "distinct (map item_identity (ml_items (listing animates wanted shown m))) \<and>
    (ml_pending_change (listing animates wanted shown m) \<or> list_all2 shows_row (ml_items (listing animates wanted shown m)) shown)"
proof -
  have changed: "list_all2 shows_row (ml_items (change_list shown change m')) shown"
    if "map item_identity (ml_items m') = map item_identity (ml_items m)" for change m'
    using change_list_shows [of m' shown change] assms(1) that by simp
  have distinct: "distinct (map item_identity items)" if "list_all2 shows_row items shown" for items
    using shows_identities [OF that] assms(2) by simp
  have animated: "map item_identity (fst (close_leaving_rows (ml_items m) shown)) = map item_identity (ml_items m)" by simp
  show ?thesis
    unfolding listing_def using changed distinct assms(1) animated
    by (auto simp: case_prod_beta Let_def split: list_change.split simp del: close_leaving_identities)
qed

lemma update_ok:
  assumes "parts_ok m"
  shows "mail_ok (update_shown animates wanted m)"
proof (cases "ml_listed m")
  case None
  then show ?thesis
    using assms by (auto simp: update_shown_def mail_ok_def parts_ok_def open_listed_def settled_def listed_rows_def shown_rows_def)
next
  case (Some listed)
  obtain folder read rows where listed: "ml_listed m = Some (folder, read, rows)" using Some by (cases listed) auto
  obtain shown where shown: "shown = shown_rows rows (ml_unread_only m) (ml_open m) (ml_removed m)" by simp
  let ?m1 = "listing animates wanted shown m"
  have rows: "listed_rows m = rows" by (simp add: listed_rows_def listed)
  have "distinct (map row_identity shown)" using assms shown_rows_distinct by (auto simp: parts_ok_def rows shown)
  note updated = listing_shows [OF _ this, of m animates wanted] 
  have base: "distinct (map item_identity (ml_items ?m1))" "ml_pending_change ?m1 \<or> list_all2 shows_row (ml_items ?m1) shown"
    using updated assms by (auto simp: parts_ok_def)
  have kept: "ml_pending_change m' \<or> settled m'" if "ml_items m' = ml_items ?m1" "ml_pending_change m' = ml_pending_change ?m1"
    "ml_listed m' = ml_listed m" "ml_unread_only m' = ml_unread_only m" "ml_removed m' = ml_removed m" "ml_open m' = ml_open m \<or> ml_open m' = None" for m'
    using base(2) that unfolding settled_def listed_rows_def listed shown by auto
  have run: "update_shown animates wanted m = (case ml_open m of
      None \<Rightarrow> ?m1
    | Some identity \<Rightarrow>
        (case (if identity \<in> row_identity ` set shown then position_of (ml_items ?m1) identity else None) of
          Some position \<Rightarrow> ?m1\<lparr>ml_selected := Some position, ml_envelope := Some (envelope_of (ml_items ?m1 ! position))\<rparr>
        | None \<Rightarrow> close_reader ?m1))"
    unfolding shown by (simp only: update_shown_def listed option.case prod.case Let_def)
  show ?thesis
  proof (cases "ml_open m")
    case None
    then have "update_shown animates wanted m = ?m1" by (simp add: run)
    then show ?thesis
      using assms base(1) kept [of ?m1] None by (auto simp: mail_ok_def parts_ok_def open_listed_def listed_rows_def listed)
  next
    case (Some identity)
    let ?position = "if identity \<in> row_identity ` set shown then position_of (ml_items ?m1) identity else None"
    show ?thesis
    proof (cases ?position)
      case None
      then have "update_shown animates wanted m = close_reader ?m1" unfolding run Some by simp
      then show ?thesis
        using assms base(1) kept [of "close_reader ?m1"] by (auto simp: mail_ok_def parts_ok_def open_listed_def listed_rows_def listed)
    next
      case position: (Some p)
      then have at: "position_of (ml_items ?m1) identity = Some p" by (simp split: if_splits)
      let ?m2 = "?m1\<lparr>ml_selected := Some p, ml_envelope := Some (envelope_of (ml_items ?m1 ! p))\<rparr>"
      have "update_shown animates wanted m = ?m2" using position unfolding run Some by simp
      moreover have "identity \<in> item_identity ` set (ml_items ?m1)" using at position_of_None [of "ml_items ?m1" identity] by auto
      ultimately show ?thesis
        using assms base(1) kept [of ?m2] Some at by (auto simp: mail_ok_def parts_ok_def open_listed_def listed_rows_def listed)
    qed
  qed
qed

lemma mail_parts: "mail_ok m \<Longrightarrow> parts_ok m"
  by (simp add: mail_ok_def)

lemma clear_ok: "mail_ok m \<Longrightarrow> mail_ok (clear m)"
  by (auto simp: clear_def mail_ok_def parts_ok_def open_listed_def settled_def listed_rows_def shown_rows_def)

lemma show_rows_ok:
  assumes "mail_ok m" and "distinct (map row_identity rows)"
  shows "mail_ok (show_rows animates folder read rows m)"
proof -
  have same: "mail_ok (update_shown animates change (m\<lparr>ml_listed := Some (folder, read, rows), ml_removed := removed\<rparr>))"
    if "ml_listed m \<noteq> None" for change removed
    by (rule update_ok) (use assms that in \<open>auto simp: mail_ok_def parts_ok_def listed_rows_def\<close>)
  have other: "mail_ok (update_shown animates change ((clear m)\<lparr>ml_listed := Some (folder, read, rows), ml_removed := removed\<rparr>))"
    for change removed
    by (rule update_ok) (use clear_ok [OF assms(1)] assms(2) in \<open>auto simp: mail_ok_def parts_ok_def listed_rows_def clear_def\<close>)
  have kept: "mail_ok (update_shown animates change (m\<lparr>ml_listed := Some (folder, read, rows)\<rparr>))" if "ml_listed m \<noteq> None" for change
    using same [OF that, of change "ml_removed m"] by simp
  show ?thesis
    using same kept other assms(1) by (auto simp: show_rows_def Let_def split: option.splits)
qed

lemma open_at_parts:
  assumes "mail_ok m"
  shows "parts_ok (open_at position bring m) \<and> (\<not> ml_unread_only m \<longrightarrow> mail_ok (open_at position bring m)) \<and>
    ml_unread_only (open_at position bring m) = ml_unread_only m"
proof (cases "position < length (ml_items m) \<and> item_shown (ml_items m ! position) \<and> ml_listed m \<noteq> None")
  case True
  then obtain folder rest where listed: "ml_listed m = Some (folder, rest)" by auto
  have at: "position_of (ml_items m) (item_identity (ml_items m ! position)) = Some position"
  proof (cases "position_of (ml_items m) (item_identity (ml_items m ! position))")
    case None
    then show ?thesis using True unfolding position_of_None by auto
  next
    case (Some p)
    note p = position_of_Some [OF Some]
    have "p = position"
      using nth_eq_iff_index_eq [of "map item_identity (ml_items m)" p position] assms p True by (simp add: mail_ok_def parts_ok_def)
    then show ?thesis using Some by simp
  qed
  have all: "shown_rows rows False kept removed = filter (\<lambda>row. row_identity row \<notin> removed) rows" for rows kept removed
    by (simp add: shown_rows_def)
  show ?thesis
    using assms True at
    by (auto simp: open_at_def listed all Let_def request_content_def calls_def mail_ok_def parts_ok_def open_listed_def settled_def listed_rows_def)
next
  case False
  then show ?thesis using assms mail_parts [OF assms] by (auto simp: open_at_def Let_def split: option.split)
qed

lemma activate_ok: "mail_ok m \<Longrightarrow> mail_ok (activate animates position m)"
  using open_at_parts [of m position True] update_ok by (auto simp: activate_def Let_def)

lemma calls_ok: "mail_ok m \<Longrightarrow> mail_ok (calls call m)"
  by (erule same_list_ok) (simp_all add: calls_def)

lemma remove_ok:
  assumes "mail_ok m"
  shows "mail_ok (remove_in_window animates identity m)"
proof -
  have parts: "parts_ok (m'\<lparr>ml_removed := removed\<rparr>)" if "parts_ok m'" for m' removed
    using that by (simp add: parts_ok_def listed_rows_def)
  have opened: "open_at p bring (m\<lparr>ml_removed := removed\<rparr>) = (open_at p bring m)\<lparr>ml_removed := removed\<rparr>" for p bring removed
    by (simp add: open_at_def Let_def request_content_def calls_def split: option.split)
  have closed: "parts_ok (close_reader m')" if "parts_ok m'" for m' using that by (auto simp: parts_ok_def listed_rows_def)
  show ?thesis
    unfolding remove_in_window_def Let_def
    using assms mail_parts [OF assms] parts [OF mail_parts [OF assms]] closed open_at_parts [OF assms]
    by (auto simp: opened split: option.split intro!: calls_ok update_ok parts)
qed

lemma flag_ok: "mail_ok m \<Longrightarrow> mail_ok (change_listed_flag identity flag wanted m)"
  by (auto simp: change_listed_flag_def calls_ok split: option.split)

lemma pending_read_ok: "mail_ok m \<Longrightarrow> mail_ok (m\<lparr>ml_pending_read := False\<rparr>)"
  by (erule same_list_ok) simp_all

lemma change_flag_ok: "mail_ok m \<Longrightarrow> mail_ok (change_flag flag wanted m)"
  by (auto simp: change_flag_def Let_def flag_ok pending_read_ok split: option.split)

lemma mail_step_ok: "mail_step m m' \<Longrightarrow> mail_ok m \<Longrightarrow> mail_ok m'"
proof (induction rule: mail_step.induct)
  case (filtered m animates unread_only)
  then show ?case
    unfolding set_unread_filter_def by (intro update_ok) (simp add: mail_ok_def parts_ok_def listed_rows_def)
next
  case (closed m animates)
  then have "parts_ok (m\<lparr>ml_pending_change := False\<rparr>)" by (simp add: mail_ok_def parts_ok_def listed_rows_def)
  then show ?case using closed update_ok by (simp add: after_closing_def)
next
  case (frames m)
  then show ?case
    unfolding frames_passed_def by (cases "ml_opening m") (auto elim!: same_list_ok)
next
  case (read m)
  then show ?case
    by (auto simp: read_after_opening_def Let_def change_flag_ok pending_read_ok split: option.split)
next
  case (pointed m position is_pointed)
  let ?items = "(ml_items m)[position := (ml_items m ! position)\<lparr>item_pointed := is_pointed\<rparr>]"
  have "map item_identity ?items = map item_identity (ml_items m)" if "position < length (ml_items m)"
    using that by (intro nth_equalityI) (auto simp: nth_list_update item_identity_def)
  moreover have "list_all2 shows_row ?items rows" if "position < length (ml_items m)" "list_all2 shows_row (ml_items m) rows" for rows
    using that by (auto simp: list_all2_conv_all_nth nth_list_update shows_row_def lists_same_message_def)
  ultimately show ?case
    using pointed unfolding point_row_def by (auto elim!: same_list_ok)
next
  case (starred m position)
  then show ?case by (simp add: toggle_row_star_def flag_ok)
next
  case (content m account identity answer)
  then show ?case
    by (auto simp: show_content_def close_reader_ok split: sum.split option.split elim!: same_list_ok)
next
  case (again m)
  then show ?case by (auto simp: read_open_content_again_def request_content_def calls_ok split: option.split)
qed (simp_all add: show_rows_ok activate_ok remove_ok change_flag_ok clear_ok)

lemma mail_reached_ok: "mail_reached m \<Longrightarrow> mail_ok m"
  by (induction rule: mail_reached.induct) (simp_all add: mail_ok_new mail_step_ok)

lemma demo_mail_reached: "mail_reached demo_mail"
proof -
  have rows: "distinct (map row_identity demo_rows)" by code_simp
  note shown = mail_reached.step [OF mail_reached.start mail_step.rows [OF rows, of new_mail_ui False demo_place 0]]
  show ?thesis
    unfolding demo_mail_def by (rule mail_reached.step [OF mail_reached.step [OF shown mail_step.activated] mail_step.filtered])
qed

section \<open>Claims\<close>

text \<open>
  C9: whatever the user does and whatever is read in the meantime, once no row is closing the list shows
  exactly the stored rows that it should: those not taken out, under the filter only the unread ones and
  the message open now or until now, in their order, each once with its read state and its star.
\<close>

theorem list_shows_rows:
  assumes "mail_reached m" and "ml_listed m = Some (folder, read, rows)" and "\<not> ml_pending_change m"
  shows "\<exists>kept. (ml_open m = kept \<or> ml_open m = None) \<and>
    list_all2 shows_row (ml_items m) (shown_rows rows (ml_unread_only m) kept (ml_removed m)) \<and>
    distinct (map item_identity (ml_items m))"
  using mail_reached_ok [OF assms(1)] assms(2,3) by (auto simp: mail_ok_def parts_ok_def settled_def listed_rows_def)

theorem list_shows_rows_witness:
  "map item_identity (ml_items demo_mail) = [''m1'', ''m2''] \<and> distinct (map item_identity (ml_items demo_mail))"
proof
  show "map item_identity (ml_items demo_mail) = [''m1'', ''m2'']" by code_simp
  have "ml_listed demo_mail = Some (demo_place, 0, demo_rows)" "\<not> ml_pending_change demo_mail" by code_simp+
  from list_shows_rows [OF demo_mail_reached this] show "distinct (map item_identity (ml_items demo_mail))" by blast
qed



end
