(* ===== verification/Goa_Claims.thy ===== *)
theory Goa_Claims
  imports Goa
begin

text \<open>
  What Online Accounts is asked for: a password or a token only for an account whose connection will be
  encrypted, and the account list again after every change it signals.
\<close>

section \<open>Access\<close>

lemma bind_sum_Inr: "bind_sum r k = Inr y \<longleftrightarrow> (\<exists>x. r = Inr x \<and> k x = Inr y)"
  by (cases r) (auto simp: bind_sum_def)

lemma setting_Inr [simp]: "setting found = Inr x \<longleftrightarrow> found = Some x"
  by (auto simp: setting_def split: option.splits)

text \<open>The object of an account, as the answer lists it.\<close>

definition object_of :: "managed_objects \<Rightarrow> account_id \<Rightarrow> string \<Rightarrow> (string \<times> properties) list \<Rightarrow> bool" where
  "object_of objects account path interfaces \<longleftrightarrow> (path, interfaces) \<in> set objects \<and>
     (\<exists>props. map_of interfaces account_interface = Some props \<and> map_of props ''Id'' = Some (VariantText (as_str account)))"

lemma read_text_Some: "read_text_property props name = Some t \<longleftrightarrow> map_of props name = Some (VariantText t)"
  by (auto simp: read_text_property_def split: option.splits variant.splits)

lemma read_flag_Some: "read_flag_property props name = Some b \<longleftrightarrow> map_of props name = Some (VariantFlag b)"
  by (auto simp: read_flag_property_def split: option.splits variant.splits)

lemma found_object: "find_account_object objects account = Inr (path, interfaces) \<Longrightarrow> object_of objects account path interfaces"
  by (auto simp: find_account_object_def object_of_def read_text_Some split: option.splits dest!: find_Some_mem)

text \<open>What the settings of an account say when its credential may be asked for.\<close>

definition settings_secured :: "managed_objects \<Rightarrow> account_id \<Rightarrow> string \<Rightarrow> imap_encryption \<Rightarrow> bool" where
  "settings_secured objects account path encryption \<longleftrightarrow>
     (\<exists>interfaces mail. object_of objects account path interfaces \<and> map_of interfaces mail_interface = Some mail \<and>
       (case encryption of
         GoaImplicitTls \<Rightarrow> map_of mail ''ImapUseSsl'' = Some (VariantFlag True)
       | GoaStartTls \<Rightarrow> map_of mail ''ImapUseSsl'' = Some (VariantFlag False) \<and> map_of mail ''ImapUseTls'' = Some (VariantFlag True)))"

lemma found_settings:
  assumes "find_imap_settings objects account = Inr settings"
  shows "settings_secured objects account (is_object_path settings) (is_encryption settings)"
  using assms unfolding find_imap_settings_def settings_secured_def
  by (auto simp: bind_sum_Inr read_flag_Some dest!: found_object split: if_splits prod.splits)

lemma objects_read:
  "bind_sum (map_sum f (\<lambda>objects. objects) reply) k = Inr x \<longleftrightarrow> (\<exists>objects. reply = Inr objects \<and> k objects = Inr x)"
  by (cases reply) (auto simp: bind_sum_def)

definition demo_object :: "string \<times> (string \<times> properties) list" where
  "demo_object = (''/goa/1'',
     [(account_interface, [(''Id'', VariantText ''a1''), (''ProviderType'', VariantText ''imap_smtp''),
        (''MailDisabled'', VariantFlag False), (''AttentionNeeded'', VariantFlag False)]),
      (mail_interface, [(''ImapUseSsl'', VariantFlag False), (''ImapUseTls'', VariantFlag True),
        (''ImapHost'', VariantText ''mail.example''), (''ImapUserName'', VariantText ''ann'')]),
      (password_based_interface, [])])"

definition demo_bus :: goa_bus where
  "demo_bus = \<lparr>gb_objects = Inr [demo_object], gb_credential = (\<lambda>_. Inr ''secret'')\<rparr>"

section \<open>The observer\<close>

text \<open>
  Everything that happens to an observer, with what a reader of the trace counts: the requests to read the
  accounts (the start, a change that is signalled, a refresh), how many there were when the latest
  read started, and how many there were when the read whose result is known started.
\<close>

inductive observed :: "account_observer \<Rightarrow> nat \<Rightarrow> nat \<Rightarrow> nat \<Rightarrow> bool" where
  started: "observed start_observer 1 1 0"
| signalled: "observed ob asked since known \<Longrightarrow> signal \<in> set account_change_signals \<Longrightarrow> ob_subscribed ob \<Longrightarrow>
    (case cs_accepted_path_prefix signal of None \<Rightarrow> True | Some accepted_prefix \<Rightarrow> starts_with accepted_prefix path) \<Longrightarrow>
    observed (change_signalled signal path ob) (Suc asked) (if ob_read ob = None then Suc asked else since) known"
| refreshed: "observed ob asked since known \<Longrightarrow>
    observed (refresh_accounts ob) (Suc asked) (if ob_read ob = None then Suc asked else since) known"
| connected: "observed ob asked since known \<Longrightarrow> ob_read ob = Some ConnectsToBus \<Longrightarrow> observed (bus_connected None ob) asked since known"
| unconnected: "observed ob asked since known \<Longrightarrow> ob_read ob = Some ConnectsToBus \<Longrightarrow>
    observed (bus_connected (Some error) ob) asked (if ob_refetch_needed ob then asked else since) since"
| answered: "observed ob asked since known \<Longrightarrow> ob_read ob = Some ReadsAccounts \<Longrightarrow>
    observed (accounts_answered reply ob) asked (if ob_refetch_needed ob then asked else since) since"
| stopped: "observed ob asked since known \<Longrightarrow> observed (stop_observer ob) asked since known"

definition observer_ok :: "account_observer \<Rightarrow> nat \<Rightarrow> nat \<Rightarrow> nat \<Rightarrow> bool" where
  "observer_ok ob asked since known \<longleftrightarrow>
     (if ob_stopped ob then ob_read ob = None \<and> \<not> ob_subscribed ob
      else (ob_read ob = None \<longrightarrow> known = asked \<and> \<not> ob_refetch_needed ob \<and> \<not> au_retry_pending (ob_update ob)) \<and>
        (ob_read ob \<noteq> None \<and> \<not> ob_refetch_needed ob \<longrightarrow> since = asked) \<and>
        (ob_read ob = Some ReadsAccounts \<or> au_last_check (ob_update ob) = CheckComplete \<longrightarrow> ob_subscribed ob) \<and>
        (ob_connected ob \<longrightarrow> ob_subscribed ob)) \<and>
     (if ob_published ob = [] then ob_update ob = default_update else last (ob_published ob) = ob_update ob)"

lemmas observer_defs = request_read_def publish_update_def finish_read_def refresh_accounts_def stop_observer_def
  bus_connected_def accounts_answered_def change_signalled_def start_observer_def new_observer_def Let_def

lemma finish_read_ok:
  assumes "observer_ok ob asked since known" and "\<not> ob_stopped ob" and "ob_read ob \<noteq> None" and "isl result \<or> ob_subscribed ob"
  shows "observer_ok (finish_read result ob) asked (if ob_refetch_needed ob then asked else since) since"
  using assms by (cases result) (auto simp: observer_ok_def finish_read_def publish_update_def request_read_def Let_def)

lemma refresh_ok:
  assumes "observer_ok ob asked since known"
  shows "observer_ok (refresh_accounts ob) (Suc asked) (if ob_read ob = None then Suc asked else since) known"
proof (cases "ob_stopped ob")
  case True
  then show ?thesis using assms by (simp add: refresh_accounts_def observer_ok_def)
next
  case False
  then show ?thesis
    using assms by (auto simp: observer_ok_def refresh_accounts_def publish_update_def request_read_def Let_def default_update_def
      split: if_splits)
qed

lemma request_ok:
  assumes "observer_ok ob asked since known" and "ob_subscribed ob"
  shows "observer_ok (request_read ob) (Suc asked) (if ob_read ob = None then Suc asked else since) known"
  using assms by (auto simp: observer_ok_def request_read_def split: if_splits)

lemma connect_ok:
  assumes "observer_ok ob asked since known" and "ob_read ob = Some ConnectsToBus"
  shows "observer_ok (bus_connected None ob) asked since known"
  using assms by (auto simp: observer_ok_def bus_connected_def split: if_splits)

lemma no_bus_ok:
  assumes "observer_ok ob asked since known" and "ob_read ob = Some ConnectsToBus"
  shows "observer_ok (bus_connected (Some error) ob) asked (if ob_refetch_needed ob then asked else since) since"
proof -
  have running: "\<not> ob_stopped ob" using assms by (auto simp: observer_ok_def)
  show ?thesis using finish_read_ok [OF assms(1) running] running assms(2) by (simp add: bus_connected_def)
qed

lemma answer_ok:
  assumes "observer_ok ob asked since known" and "ob_read ob = Some ReadsAccounts"
  shows "observer_ok (accounts_answered reply ob) asked (if ob_refetch_needed ob then asked else since) since"
proof -
  have running: "\<not> ob_stopped ob" "ob_subscribed ob" using assms by (auto simp: observer_ok_def split: if_splits)
  show ?thesis using finish_read_ok [OF assms(1) running(1)] running assms(2) by (simp add: accounts_answered_def)
qed

lemma stop_ok: "observer_ok ob asked since known \<Longrightarrow> observer_ok (stop_observer ob) asked since known"
  by (simp add: observer_ok_def stop_observer_def split: if_splits)

lemma observer_start_ok: "observer_ok start_observer 1 1 0"
  by (simp add: observer_ok_def start_observer_def request_read_def new_observer_def default_update_def)

lemma observed_ok: "observed ob asked since known \<Longrightarrow> observer_ok ob asked since known"
  by (induction rule: observed.induct)
     (simp_all only: observer_start_ok refresh_ok connect_ok no_bus_ok answer_ok stop_ok change_signalled_def request_ok simp_thms if_True)

text \<open>What the types of the code say of an update: a map, in the order of its keys, and no empty account ID.\<close>

definition well_formed_update :: "account_update \<Rightarrow> bool" where
  "well_formed_update update \<longleftrightarrow> sorted_wrt (<) (map fst (au_accounts update)) \<and>
     list_all (\<lambda>(account, _). as_str account \<noteq> []) (au_accounts update)"

lemma parsed_account_named: "parse_account interfaces = Inr (Some (account, details)) \<Longrightarrow> as_str account \<noteq> []"
  by (auto simp: parse_account_def bind_sum_Inr account_id_try_from_def as_str_def split: option.splits sum.splits if_splits)

lemma parsed_objects_well_formed:
  assumes "parse_objects objects accounts = Inr accounts'" and "sorted_wrt (<) (map fst accounts)"
    and "\<forall>account \<in> set (map fst accounts). as_str account \<noteq> []"
  shows "sorted_wrt (<) (map fst accounts') \<and> (\<forall>account \<in> set (map fst accounts'). as_str account \<noteq> [])"
  using assms
proof (induction objects accounts rule: parse_objects.induct)
  case (2 path interfaces objects accounts)
  then obtain found where found: "parse_account interfaces = Inr found"
    and rest: "parse_objects objects (case found of Some (account, details) \<Rightarrow> ordered_update account (\<lambda>_. details) accounts
      | None \<Rightarrow> accounts) = Inr accounts'"
    by (auto simp: bind_sum_Inr)
  show ?case
  proof (cases found)
    case (Some entry)
    obtain account details where entry: "entry = (account, details)" by (cases entry)
    have "as_str account \<noteq> []" using parsed_account_named found Some entry by simp
    moreover have "parse_objects objects (ordered_update account (\<lambda>_. details) accounts) = Inr accounts'"
      using rest Some entry by simp
    moreover have "sorted_wrt (<) (map fst (ordered_update account (\<lambda>_. details) accounts))"
      by (rule ordered_update_sorted [OF 2(3)])
    moreover have "\<forall>a \<in> set (map fst (ordered_update account (\<lambda>_. details) accounts)). as_str a \<noteq> []"
      using 2(4) calculation(1) unfolding ordered_update_keys by blast
    ultimately show ?thesis
      using 2(1) [of "Some (account, details)", unfolded option.case prod.case] by blast
  next
    case None
    then show ?thesis using 2(1) [of None, unfolded option.case] 2(3,4) rest unfolding None option.case by blast
  qed
qed simp

lemma parsed_well_formed:
  assumes "parse_accounts reply = Inr accounts"
  shows "sorted_wrt (<) (map fst accounts) \<and> list_all (\<lambda>(account, _). as_str account \<noteq> []) accounts"
proof -
  obtain objects where "parse_objects objects [] = Inr accounts" using assms by (auto simp: parse_accounts_def bind_sum_Inr)
  from parsed_objects_well_formed [OF this] show ?thesis by (auto simp: list_all_iff)
qed

abbreviation well_formed_observer :: "account_observer \<Rightarrow> bool" where
  "well_formed_observer ob \<equiv> well_formed_update (ob_update ob) \<and> list_all well_formed_update (ob_published ob)"

lemma finish_read_well_formed:
  assumes "well_formed_observer ob"
    and "\<And>accounts. result = Inr accounts \<Longrightarrow> sorted_wrt (<) (map fst accounts) \<and> list_all (\<lambda>(account, _). as_str account \<noteq> []) accounts"
  shows "well_formed_observer (finish_read result ob)"
  using assms by (cases result) (auto simp: finish_read_def publish_update_def request_read_def well_formed_update_def Let_def)

lemma request_well_formed: "well_formed_observer ob \<Longrightarrow> well_formed_observer (request_read ob)"
  by (simp add: request_read_def)

lemma refresh_well_formed: "well_formed_observer ob \<Longrightarrow> well_formed_observer (refresh_accounts ob)"
  by (simp add: refresh_accounts_def publish_update_def request_read_def well_formed_update_def Let_def)

lemma answered_well_formed:
  assumes "well_formed_observer ob"
  shows "well_formed_observer (accounts_answered reply ob)"
proof (cases "ob_stopped ob \<or> ob_read ob \<noteq> Some ReadsAccounts")
  case False
  have "sorted_wrt (<) (map fst accounts) \<and> list_all (\<lambda>(account, _). as_str account \<noteq> []) accounts"
    if "bind_sum (map_sum (map_glib_error ''read accounts'') (\<lambda>objects. objects) reply) parse_accounts = Inr accounts" for accounts
    using that parsed_well_formed by (auto simp: bind_sum_Inr)
  then show ?thesis using False finish_read_well_formed [OF assms] by (simp add: accounts_answered_def)
qed (use assms in \<open>simp add: accounts_answered_def\<close>)

lemma connected_well_formed: "well_formed_observer ob \<Longrightarrow> well_formed_observer (bus_connected failed ob)"
  by (cases failed) (auto simp: bus_connected_def intro: finish_read_well_formed [THEN conjunct1] finish_read_well_formed [THEN conjunct2])

lemma start_well_formed: "well_formed_observer start_observer"
  by (simp add: start_observer_def request_read_def new_observer_def default_update_def well_formed_update_def)

lemma stop_well_formed: "well_formed_observer ob \<Longrightarrow> well_formed_observer (stop_observer ob)"
  by (simp add: stop_observer_def)

lemma observed_well_formed: "observed ob asked since known \<Longrightarrow> well_formed_observer ob"
  by (induction rule: observed.induct)
     (simp_all only: start_well_formed stop_well_formed answered_well_formed connected_well_formed refresh_well_formed
       request_well_formed change_signalled_def simp_thms if_True)

text \<open>A change that is signalled while the first reading runs.\<close>

definition demo_signal :: change_signal where
  "demo_signal = account_change_signals ! 3"

definition demo_observer :: account_observer where
  "demo_observer = accounts_answered (Inr (Some [demo_object])) (accounts_answered (Inr None)
     (change_signalled demo_signal ''/org/gnome/OnlineAccounts/Accounts/1'' (bus_connected None start_observer)))"

lemma demo_observed: "observed demo_observer 2 2 2"
proof -
  obtain ob where ob: "ob = change_signalled demo_signal ''/org/gnome/OnlineAccounts/Accounts/1'' (bus_connected None start_observer)"
    by simp
  have "observed (bus_connected None start_observer) 1 1 0"
    by (rule observed.connected [OF observed.started]) code_simp
  then have "observed ob (Suc 1) (if ob_read (bus_connected None start_observer) = None then Suc 1 else 1) 0"
    unfolding ob by (rule observed.signalled) code_simp+
  moreover have "ob_read (bus_connected None start_observer) \<noteq> None" by code_simp
  ultimately have signalled: "observed ob 2 1 0" by (simp add: numeral_2_eq_2)
  have "ob_read ob = Some ReadsAccounts" "ob_refetch_needed ob" unfolding ob by code_simp+
  then have failed: "observed (accounts_answered (Inr None) ob) 2 2 1"
    using observed.answered [OF signalled, of "Inr None"] by simp
  have "ob_read (accounts_answered (Inr None) ob) = Some ReadsAccounts" "\<not> ob_refetch_needed (accounts_answered (Inr None) ob)"
    unfolding ob by code_simp+
  then show ?thesis
    using observed.answered [OF failed, of "Inr (Some [demo_object])"] unfolding demo_observer_def ob [symmetric] by simp
qed

section \<open>Claims\<close>



text \<open>
  C15: no change of the accounts is missed: when no reading runs, the result that is known comes from a
  reading that started after the last signal and the last refresh, none is announced as pending, and
  what the application heard last is what the observer knows. A complete result exists only once the
  signals are subscribed to.
\<close>

theorem observer_current:
  assumes "observed ob asked since known" and "\<not> ob_stopped ob"
  shows "(ob_read ob = None \<longrightarrow> known = asked \<and> \<not> au_retry_pending (ob_update ob)) \<and>
    ob_update ob = last (default_update # ob_published ob) \<and>
    (au_last_check (ob_update ob) = CheckComplete \<longrightarrow> ob_subscribed ob)"
  using observed_ok [OF assms(1)] assms(2) by (auto simp: observer_ok_def split: if_splits)

theorem observer_current_witness:
  "ob_read demo_observer = None \<and> \<not> au_retry_pending (ob_update demo_observer) \<and> ob_subscribed demo_observer"
proof -
  have state: "ob_read demo_observer = None" "\<not> ob_stopped demo_observer" "au_last_check (ob_update demo_observer) = CheckComplete"
    by code_simp+
  show ?thesis using observer_current [OF demo_observed state(2)] state(1,3) by blast
qed



end
