(* ===== verification/Accounts.thy ===== *)
theory Accounts
  imports Goa
begin

text \<open>
  The accounts the sidebar shows (crate \<open>mailbag\<close>, \<open>accounts.rs\<close>): which accounts an update of Online
  Accounts shows, under which labels, what it hides with a notice, and what is selected. The lines of
  the record are not modelled. A label number is a natural number: counting up 64 bits by one per
  account shown takes longer than any run.
\<close>

section \<open>Rows\<close>

datatype mail_provider = GenericImap | GmailMail | Microsoft365Mail

definition mail_provider_of :: "account_provider \<Rightarrow> mail_provider option" where
  "mail_provider_of provider = (case provider of
     ImapSmtp \<Rightarrow> Some GenericImap
   | Google \<Rightarrow> Some GmailMail
   | Microsoft365 \<Rightarrow> Some Microsoft365Mail
   | OtherProvider \<Rightarrow> None)"

datatype account_problem = CheckUnconfirmed | ServiceMissing | AttentionNeeded

datatype exclusion_reason = MailDisabled | UnsupportedProvider | MailUnavailable

datatype account_page = LoadingAccounts | SettingsUnavailable | ReadFailed error_cause | NoAccounts | NoEligibleAccounts | AccountsShown

datatype selection = SelectedAccount account_id | SelectedMailbox folder_ref

definition selection_account :: "selection \<Rightarrow> account_id" where
  "selection_account s = (case s of SelectedAccount account \<Rightarrow> account | SelectedMailbox folder \<Rightarrow> ref_account folder)"

record account_row =
  acr_label :: string
  acr_provider :: mail_provider
  acr_icon :: string
  acr_problems :: "account_problem list"
  acr_base_label :: string
  acr_number :: nat

definition mark_check_unconfirmed :: "account_row \<Rightarrow> account_row" where
  "mark_check_unconfirmed row = (if CheckUnconfirmed \<in> set (acr_problems row) then row
     else row\<lparr>acr_problems := acr_problems row @ [CheckUnconfirmed]\<rparr>)"

definition generic_account_icon :: string where
  "generic_account_icon = ''mail-unread-symbolic''"

definition update_details :: "account_details \<Rightarrow> mail_provider \<Rightarrow> account_row \<Rightarrow> account_row" where
  "update_details details provider row = row\<lparr>
     acr_problems := (if ad_mail_service_available details then [] else [ServiceMissing]) @
       (if ad_needs_attention details then [AttentionNeeded] else []),
     acr_base_label := (case ad_display_name details of
         Some name \<Rightarrow> name
       | None \<Rightarrow> (case ad_email_address details of Some address \<Rightarrow> address | None \<Rightarrow> ''Mail account'')),
     acr_provider := provider,
     acr_icon := (case provider of
         GmailMail \<Rightarrow> ''mailbag-account-google-symbolic''
       | Microsoft365Mail \<Rightarrow> ''mailbag-account-ms365-symbolic''
       | GenericImap \<Rightarrow> generic_account_icon)\<rparr>"

section \<open>The list\<close>

record account_list =
  al_visible :: "(account_id \<times> account_row) list"
  al_selection :: "selection option"
  al_last_check :: account_check_result
  al_retry_pending :: bool
  al_excluded :: "exclusion_reason set"
  al_next_number :: nat

definition new_account_list :: account_list where
  "new_account_list = \<lparr>al_visible = [], al_selection = None, al_last_check = NotChecked, al_retry_pending = False,
     al_excluded = {}, al_next_number = 1\<rparr>"

definition is_visible :: "account_list \<Rightarrow> account_id \<Rightarrow> bool" where
  "is_visible al account \<longleftrightarrow> map_of (al_visible al) account \<noteq> None"

definition select :: "selection \<Rightarrow> account_list \<Rightarrow> account_list" where
  "select s al = (if is_visible al (selection_account s) then al\<lparr>al_selection := Some s\<rparr> else al)"

definition clear_selection :: "account_list \<Rightarrow> account_list" where
  "clear_selection al = al\<lparr>al_selection := None\<rparr>"

definition page :: "account_list \<Rightarrow> account_page" where
  "page al = (case check_error (al_last_check al) of
     Some error \<Rightarrow> ReadFailed (ce_cause error)
   | None \<Rightarrow> if al_visible al \<noteq> [] then AccountsShown
       else if al_last_check al = NotChecked then LoadingAccounts
       else if MailUnavailable \<in> al_excluded al then SettingsUnavailable
       else if al_excluded al = {} then NoAccounts
       else NoEligibleAccounts)"

section \<open>An update\<close>

definition hidden_by :: "(account_id \<times> account_details) list \<Rightarrow> account_id \<Rightarrow> bool" where
  "hidden_by accounts account = (case map_of accounts account of None \<Rightarrow> True | Some details \<Rightarrow> \<not> ad_mail_enabled details)"

text \<open>The notices are the labels of the rows that go.\<close>

definition hide_removed_or_disabled_accounts :: "(account_id \<times> account_details) list \<Rightarrow> account_list \<Rightarrow> string list \<times> account_list" where
  "hide_removed_or_disabled_accounts accounts al =
     (map (\<lambda>entry. acr_label (snd entry)) (filter (\<lambda>(account, _). hidden_by accounts account) (al_visible al)),
      al\<lparr>al_visible := filter (\<lambda>(account, _). \<not> hidden_by accounts account) (al_visible al)\<rparr>)"

definition new_row :: "mail_provider \<Rightarrow> nat \<Rightarrow> account_row" where
  "new_row provider number = \<lparr>acr_label = [], acr_provider = provider, acr_icon = generic_account_icon, acr_problems = [],
     acr_base_label = [], acr_number = number\<rparr>"

definition update_account :: "account_id \<times> account_details \<Rightarrow> account_list \<Rightarrow> account_list" where
  "update_account entry al = (case entry of (account, details) \<Rightarrow>
     (case mail_provider_of (ad_provider details) of
       None \<Rightarrow> al\<lparr>al_visible := filter (\<lambda>(other, _). other \<noteq> account) (al_visible al),
                 al_excluded := insert UnsupportedProvider (al_excluded al)\<rparr>
     | Some provider \<Rightarrow>
         if \<not> ad_mail_enabled details then al\<lparr>al_excluded := insert MailDisabled (al_excluded al)\<rparr>
         else (case map_of (al_visible al) account of
           Some row \<Rightarrow> al\<lparr>al_visible := ordered_update account (\<lambda>_. update_details details provider row) (al_visible al)\<rparr>
         | None \<Rightarrow>
             if ad_mail_service_available details
             then al\<lparr>al_visible := ordered_update account
                       (\<lambda>_. update_details details provider (new_row provider (al_next_number al))) (al_visible al),
                     al_next_number := al_next_number al + 1\<rparr>
             else al\<lparr>al_excluded := insert MailUnavailable (al_excluded al)\<rparr>)))"

definition update_visible_accounts :: "(account_id \<times> account_details) list \<Rightarrow> account_list \<Rightarrow> account_list" where
  "update_visible_accounts accounts al = foldl (\<lambda>al entry. update_account entry al) al accounts"

section \<open>Labels\<close>

definition numbered :: "string \<Rightarrow> nat \<Rightarrow> string" where
  "numbered label number = label @ '' ('' @ decimal number @ '')''"

text \<open>
  The loop of \<open>assign_display_labels\<close> adds the number until the label is not used: each turn makes it
  longer, so it ends at the longest label used.
\<close>

function free_label :: "string list \<Rightarrow> nat \<Rightarrow> string \<Rightarrow> string" where
  "free_label used number label =
     (let longer = numbered label number in
      if longer \<in> set used then free_label used number longer else longer)"
  by pat_completeness auto

termination
proof (relation "measure (\<lambda>(used, number, label). length (filter (\<lambda>u. length label < length u) used))")
  fix used number label longer
  assume longer: "longer = numbered label number" and "longer \<in> set used"
  have grows: "length label < length longer" unfolding longer numbered_def by simp
  have "longer \<in> {u \<in> set used. length label < length u}" using grows \<open>longer \<in> set used\<close> by simp
  have "length (filter (\<lambda>u. length longer < length u) us) < length (filter (\<lambda>u. length label < length u) us)"
    if "longer \<in> set us" for us
    using that
  proof (induction us)
    case (Cons u us)
    have "length (filter (\<lambda>u. length longer < length u) us) \<le> length (filter (\<lambda>u. length label < length u) us)"
      using grows by (induction us) auto
    then show ?case using Cons grows by auto
  qed simp
  then show "((used, number, longer), (used, number, label)) \<in> measure (\<lambda>(used, number, label). length (filter (\<lambda>u. length label < length u) used))"
    using \<open>longer \<in> set used\<close> by simp
qed simp

declare free_label.simps [simp del]

fun label_rows :: "string list \<Rightarrow> string list \<Rightarrow> (account_id \<times> account_row) list \<Rightarrow> (account_id \<times> account_row) list" where
  "label_rows bases used [] = []"
| "label_rows bases used ((account, row) # rows) =
     (if count_list bases (acr_base_label row) > 1
      then (let label = free_label used (acr_number row) (acr_base_label row)
            in (account, row\<lparr>acr_label := label\<rparr>) # label_rows bases (label # used) rows)
      else (account, row\<lparr>acr_label := acr_base_label row\<rparr>) # label_rows bases used rows)"

definition assign_display_labels :: "account_list \<Rightarrow> account_list" where
  "assign_display_labels al =
     (let bases = map (\<lambda>entry. acr_base_label (snd entry)) (al_visible al)
      in al\<lparr>al_visible := label_rows bases bases (al_visible al)\<rparr>)"

text \<open>The labels of the rows that were hidden, and the list the window shows.\<close>

definition apply_update :: "account_update \<Rightarrow> account_list \<Rightarrow> string list \<times> account_list" where
  "apply_update update al =
     (let al1 = al\<lparr>al_last_check := au_last_check update, al_retry_pending := au_retry_pending update\<rparr>
      in if \<not> is_complete (au_last_check update)
         then ([], al1\<lparr>al_visible := map (\<lambda>(account, row). (account, mark_check_unconfirmed row)) (al_visible al1)\<rparr>)
         else (let (notices, al2) = hide_removed_or_disabled_accounts (au_accounts update) (al1\<lparr>al_excluded := {}\<rparr>);
                   al3 = update_visible_accounts (au_accounts update) al2;
                   al4 = (case al_selection al3 of
                       Some s \<Rightarrow> if is_visible al3 (selection_account s) then al3 else al3\<lparr>al_selection := None\<rparr>
                     | None \<Rightarrow> al3)
               in (notices, assign_display_labels al4)))"

end
