(* ===== verification/Accounts_Claims.thy ===== *)
theory Accounts_Claims
  imports Accounts
begin

text \<open>
  What the list of accounts promises: labels that tell the rows apart, a selection that is shown, and
  rows that leave only when a complete answer of Online Accounts says so.
\<close>

section \<open>Labels\<close>

lemma free_label_unused: "free_label used number label \<notin> set used"
  by (induction used number label rule: free_label.induct) (subst free_label.simps, auto simp: Let_def)

abbreviation row_labels :: "(account_id \<times> account_row) list \<Rightarrow> string list" where
  "row_labels rows \<equiv> map (\<lambda>entry. acr_label (snd entry)) rows"

abbreviation row_bases :: "(account_id \<times> account_row) list \<Rightarrow> string list" where
  "row_bases rows \<equiv> map (\<lambda>entry. acr_base_label (snd entry)) rows"

lemma label_rows_labels:
  assumes "set bases \<subseteq> set used" and "\<And>base. count_list (row_bases rows) base \<le> count_list bases base"
  shows "distinct (row_labels (label_rows bases used rows)) \<and>
    (\<forall>label \<in> set (row_labels (label_rows bases used rows)). label \<notin> set used \<or> count_list bases label \<le> 1 \<and> label \<in> set (row_bases rows))"
  using assms
proof (induction bases used rows rule: label_rows.induct)
  case (2 bases used account row rows)
  let ?base = "acr_base_label row"
  have fewer: "count_list (row_bases rows) base \<le> count_list bases base" for base
    using 2(4) [of base] by (auto split: if_splits)
  have base_used: "b \<in> set used" if "b \<in> set (row_bases rows)" for b
  proof -
    have "count_list (row_bases rows) b \<noteq> 0" using that by (simp add: count_list_0_iff)
    then have "count_list bases b \<noteq> 0" using fewer [of b] by simp
    then show ?thesis using 2(3) by (auto simp: count_list_0_iff)
  qed
  show ?case
  proof (cases "count_list bases ?base > 1")
    case True
    obtain label where label: "label = free_label used (acr_number row) ?base" by simp
    have unused: "label \<notin> set used" unfolding label by (rule free_label_unused)
    have rest: "distinct (row_labels (label_rows bases (label # used) rows))"
      "\<And>l. l \<in> set (row_labels (label_rows bases (label # used) rows)) \<Longrightarrow>
         l \<notin> set (label # used) \<or> count_list bases l \<le> 1 \<and> l \<in> set (row_bases rows)"
      using 2(1) [OF True label _ fewer] 2(3) by auto
    have "label \<notin> set (row_labels (label_rows bases (label # used) rows))"
      using rest(2) [of label] base_used [of label] unused by auto
    then show ?thesis using True rest unused by (auto simp: Let_def label [symmetric])
  next
    case False
    have rest: "distinct (row_labels (label_rows bases used rows))"
      "\<And>l. l \<in> set (row_labels (label_rows bases used rows)) \<Longrightarrow> l \<notin> set used \<or> count_list bases l \<le> 1 \<and> l \<in> set (row_bases rows)"
      using 2(2) [OF False 2(3) fewer] by auto
    have "count_list bases ?base \<noteq> 0" using 2(4) [of ?base] by simp
    then have used: "?base \<in> set used" using 2(3) by (auto simp: count_list_0_iff)
    have "?base \<notin> set (row_labels (label_rows bases used rows))"
    proof
      assume "?base \<in> set (row_labels (label_rows bases used rows))"
      then have "?base \<in> set (row_bases rows)" using rest(2) used by blast
      then have "count_list (row_bases rows) ?base \<noteq> 0" by (simp add: count_list_0_iff)
      then show False using 2(4) [of ?base] False by simp
    qed
    then show ?thesis using False rest by auto
  qed
qed simp

lemma assigned_distinct: "distinct (row_labels (al_visible (assign_display_labels al)))"
  using label_rows_labels [of "row_bases (al_visible al)" "row_bases (al_visible al)" "al_visible al"]
  by (simp add: assign_display_labels_def Let_def)

lemma label_rows_keys [simp]: "map fst (label_rows bases used rows) = map fst rows"
  by (induction bases used rows rule: label_rows.induct) (auto simp: Let_def)

lemma label_rows_numbers [simp]: "map (\<lambda>entry. acr_number (snd entry)) (label_rows bases used rows) = map (\<lambda>entry. acr_number (snd entry)) rows"
  by (induction bases used rows rule: label_rows.induct) (auto simp: Let_def)

lemma label_rows_lookup:
  "\<exists>label. map_of (label_rows bases used rows) account = map_option (\<lambda>row. row\<lparr>acr_label := label\<rparr>) (map_of rows account)"
  by (induction bases used rows rule: label_rows.induct) (auto simp: Let_def)

section \<open>The rows of an update\<close>

definition updated_row :: "account_details \<Rightarrow> account_row option \<Rightarrow> nat \<Rightarrow> account_row option" where
  "updated_row details before number = (case mail_provider_of (ad_provider details) of
     None \<Rightarrow> None
   | Some provider \<Rightarrow>
       if \<not> ad_mail_enabled details then before
       else (case before of
         Some row \<Rightarrow> Some (update_details details provider row)
       | None \<Rightarrow> if ad_mail_service_available details then Some (update_details details provider (new_row provider number)) else None))"

abbreviation keys_sorted :: "account_list \<Rightarrow> bool" where
  "keys_sorted al \<equiv> sorted_wrt (<) (map fst (al_visible al))"

lemma map_of_filter_key: "map_of (filter (\<lambda>(k, _). P k) m) j = (if P j then map_of m j else None)"
  by (induction m) auto

lemma sorted_filter: "sorted_wrt (<) (map fst m) \<Longrightarrow> sorted_wrt (<) (map fst (filter P m))"
  by (induction m) auto

lemma update_account_sorted: "keys_sorted al \<Longrightarrow> keys_sorted (update_account entry al)"
  by (auto simp: update_account_def ordered_update_sorted sorted_filter split: prod.split option.split)

lemma update_account_lookup:
  assumes "keys_sorted al"
  shows "map_of (al_visible (update_account (account, details) al)) other =
    (if other = account then updated_row details (map_of (al_visible al) account) (al_next_number al) else map_of (al_visible al) other)"
  using assms by (auto simp: update_account_def updated_row_def ordered_update_lookup map_of_filter_key split: option.split)

lemma update_visible_sorted: "keys_sorted al \<Longrightarrow> keys_sorted (update_visible_accounts accounts al)"
  unfolding update_visible_accounts_def by (induction accounts arbitrary: al) (auto simp: update_account_sorted)

lemma update_visible_lookup:
  assumes "keys_sorted al" and "distinct (map fst accounts)"
  shows "\<exists>number. map_of (al_visible (update_visible_accounts accounts al)) other =
    (case map_of accounts other of
      None \<Rightarrow> map_of (al_visible al) other
    | Some details \<Rightarrow> updated_row details (map_of (al_visible al) other) number)"
  using assms unfolding update_visible_accounts_def
proof (induction accounts arbitrary: al)
  case (Cons entry accounts)
  obtain account details where entry: "entry = (account, details)" by (cases entry)
  note rest = Cons.IH [OF update_account_sorted [OF Cons.prems(1), of entry]]
  have "map_of accounts account = None" using Cons.prems(2) by (auto simp: entry map_of_eq_None_iff)
  then show ?case
    using rest Cons.prems by (auto simp: entry update_account_lookup split: option.splits)
qed simp

section \<open>The invariant\<close>

abbreviation row_numbers :: "(account_id \<times> account_row) list \<Rightarrow> nat list" where
  "row_numbers rows \<equiv> map (\<lambda>entry. acr_number (snd entry)) rows"

text \<open>A new row's number is larger than every number given before.\<close>

definition numbers_ok :: "account_list \<Rightarrow> bool" where
  "numbers_ok al \<longleftrightarrow> distinct (row_numbers (al_visible al)) \<and> (\<forall>number \<in> set (row_numbers (al_visible al)). number < al_next_number al)"

definition selection_ok :: "account_list \<Rightarrow> bool" where
  "selection_ok al \<longleftrightarrow> (case al_selection al of Some s \<Rightarrow> is_visible al (selection_account s) | None \<Rightarrow> True)"

definition accounts_ok :: "account_list \<Rightarrow> bool" where
  "accounts_ok al \<longleftrightarrow> keys_sorted al \<and> distinct (row_labels (al_visible al)) \<and> numbers_ok al \<and> selection_ok al"

inductive accounts_reached :: "account_list \<Rightarrow> bool" where
  start: "accounts_reached new_account_list"
| selected: "accounts_reached al \<Longrightarrow> accounts_reached (select s al)"
| cleared: "accounts_reached al \<Longrightarrow> accounts_reached (clear_selection al)"
| updated: "accounts_reached al \<Longrightarrow> accounts_reached (snd (apply_update update al))"

lemma ordered_update_mem: "x \<in> set (ordered_update k f m) \<Longrightarrow> x \<in> set m \<or> (\<exists>v. x = (k, v))"
  by (induction k f m rule: ordered_update.induct) (auto split: if_splits)

lemma ordered_update_replace:
  assumes "sorted_wrt (<) (map fst m)" and "map_of m k = Some v" and "g (f (Some v)) = g v"
  shows "map (\<lambda>entry. g (snd entry)) (ordered_update k f m) = map (\<lambda>entry. g (snd entry)) m"
  using assms
proof (induction k f m rule: ordered_update.induct)
  case (2 k f j w m)
  have "\<not> k < j"
  proof
    assume less: "k < j"
    then have "k \<in> set (map fst m)" using 2(3) by (auto split: if_splits dest: map_of_SomeD intro: rev_image_eqI)
    then show False using 2(2) less by fastforce
  qed
  then show ?case using 2 by auto
qed simp

lemma ordered_update_insert:
  assumes "map_of m k = None" and "distinct (map (\<lambda>entry. g (snd entry)) m)" and "g (f None) \<notin> (\<lambda>entry. g (snd entry)) ` set m"
  shows "distinct (map (\<lambda>entry. g (snd entry)) (ordered_update k f m)) \<and> set (map (\<lambda>entry. g (snd entry)) (ordered_update k f m)) = insert (g (f None)) ((\<lambda>entry. g (snd entry)) ` set m)"
  using assms
proof (induction k f m rule: ordered_update.induct)
  case (2 k f j w m)
  then show ?case by (auto simp: image_image split: if_splits)
qed simp

lemma update_details_number [simp]: "acr_number (update_details details provider row) = acr_number row"
  by (simp add: update_details_def)

lemma numbers_sub:
  assumes "numbers_ok al" and "distinct (row_numbers rows)" and "set (row_numbers rows) \<subseteq> set (row_numbers (al_visible al))"
  shows "numbers_ok (al\<lparr>al_visible := rows\<rparr>)"
  using assms subsetD [OF assms(3)] by (simp add: numbers_ok_def del: set_map)

lemma update_account_numbers:
  assumes "keys_sorted al" and "numbers_ok al"
  shows "numbers_ok (update_account (account, details) al)"
proof (cases "mail_provider_of (ad_provider details)")
  case None
  have "numbers_ok (al\<lparr>al_visible := filter (\<lambda>(other, _). other \<noteq> account) (al_visible al)\<rparr>)"
    using assms(2) by (intro numbers_sub) (auto simp: numbers_ok_def distinct_map_filter)
  then show ?thesis using None by (simp add: update_account_def numbers_ok_def)
next
  case (Some provider)
  show ?thesis
  proof (cases "map_of (al_visible al) account")
    case None
    let ?row = "update_details details provider (new_row provider (al_next_number al))"
    have "acr_number ?row \<notin> (\<lambda>entry. acr_number (snd entry)) ` set (al_visible al)"
      using assms(2) by (auto simp: numbers_ok_def new_row_def)
    note inserted = ordered_update_insert [OF None, of acr_number "\<lambda>_. ?row", OF _ this]
    then have "distinct (row_numbers (ordered_update account (\<lambda>_. ?row) (al_visible al)))"
      "set (row_numbers (ordered_update account (\<lambda>_. ?row) (al_visible al))) = insert (al_next_number al) (set (row_numbers (al_visible al)))"
      using assms(2) by (auto simp: numbers_ok_def new_row_def)
    moreover have "update_account (account, details) al =
        (if \<not> ad_mail_enabled details then al\<lparr>al_excluded := insert MailDisabled (al_excluded al)\<rparr>
         else if ad_mail_service_available details
         then al\<lparr>al_visible := ordered_update account (\<lambda>_. ?row) (al_visible al), al_next_number := al_next_number al + 1\<rparr>
         else al\<lparr>al_excluded := insert MailUnavailable (al_excluded al)\<rparr>)"
      using Some None by (simp add: update_account_def)
    moreover have "number < al_next_number al + 1" if "number \<in> insert (al_next_number al) (set (row_numbers (al_visible al)))" for number
      using that assms(2) by (auto simp: numbers_ok_def)
    ultimately show ?thesis using assms(2) by (simp add: numbers_ok_def del: set_map)
  next
    case row: (Some row)
    have "row_numbers (ordered_update account (\<lambda>_. update_details details provider row) (al_visible al)) = row_numbers (al_visible al)"
      by (rule ordered_update_replace [OF assms(1) row]) simp
    then show ?thesis using assms(2) Some row by (auto simp: update_account_def numbers_ok_def simp del: set_map)
  qed
qed

lemma update_visible_numbers: "keys_sorted al \<Longrightarrow> numbers_ok al \<Longrightarrow> numbers_ok (update_visible_accounts accounts al)"
  unfolding update_visible_accounts_def
  by (induction accounts arbitrary: al) (auto simp: update_account_numbers update_account_sorted)

lemma update_account_rest [simp]:
  "al_selection (update_account entry al) = al_selection al" "al_last_check (update_account entry al) = al_last_check al"
  by (auto simp: update_account_def split: prod.split option.split)

lemma update_visible_rest [simp]:
  "al_selection (update_visible_accounts accounts al) = al_selection al"
  "al_last_check (update_visible_accounts accounts al) = al_last_check al"
  unfolding update_visible_accounts_def by (induction accounts arbitrary: al) auto

lemma map_of_same_keys: "map fst m = map fst m' \<Longrightarrow> map_of m k = None \<longleftrightarrow> map_of m' k = None"
  by (simp add: map_of_eq_None_iff) (metis set_map)

lemma assigned_ok:
  assumes "keys_sorted al" and "numbers_ok al" and "selection_ok al"
  shows "accounts_ok (assign_display_labels al)"
proof -
  have visible: "is_visible (assign_display_labels al) account = is_visible al account" for account
    unfolding is_visible_def assign_display_labels_def Let_def by (simp add: map_of_same_keys [OF label_rows_keys])
  have "al_selection (assign_display_labels al) = al_selection al" by (simp add: assign_display_labels_def Let_def)
  then have "selection_ok (assign_display_labels al)" using assms(3) visible
    by (cases "al_selection al") (simp_all add: selection_ok_def)
  moreover have "keys_sorted (assign_display_labels al)" "numbers_ok (assign_display_labels al)"
    using assms(1,2) by (simp_all add: assign_display_labels_def Let_def numbers_ok_def del: set_map)
  ultimately show ?thesis using assigned_distinct by (simp add: accounts_ok_def)
qed

abbreviation confirmed_list :: "account_update \<Rightarrow> account_list \<Rightarrow> account_list" where
  "confirmed_list update al \<equiv> update_visible_accounts (au_accounts update) (snd (hide_removed_or_disabled_accounts (au_accounts update)
     (al\<lparr>al_last_check := au_last_check update, al_retry_pending := au_retry_pending update, al_excluded := {}\<rparr>)))"

lemma confirmed_parts:
  assumes "accounts_ok al"
  shows "keys_sorted (confirmed_list update al)" and "numbers_ok (confirmed_list update al)"
proof -
  let ?hidden = "snd (hide_removed_or_disabled_accounts (au_accounts update)
     (al\<lparr>al_last_check := au_last_check update, al_retry_pending := au_retry_pending update, al_excluded := {}\<rparr>))"
  have "keys_sorted ?hidden" using assms by (simp add: hide_removed_or_disabled_accounts_def accounts_ok_def sorted_filter)
  moreover have "numbers_ok ?hidden"
    using assms by (auto simp: hide_removed_or_disabled_accounts_def accounts_ok_def numbers_ok_def distinct_map_filter)
  ultimately show "keys_sorted (confirmed_list update al)" "numbers_ok (confirmed_list update al)"
    by (auto simp: update_visible_sorted update_visible_numbers)
qed

lemma unconfirmed_same [simp]:
  "acr_label (mark_check_unconfirmed row) = acr_label row" "acr_number (mark_check_unconfirmed row) = acr_number row"
  by (simp_all add: mark_check_unconfirmed_def)

lemma unconfirmed_maps [simp]:
  "map fst (map (\<lambda>(account, row). (account, mark_check_unconfirmed row)) rows) = map fst rows"
  "row_labels (map (\<lambda>(account, row). (account, mark_check_unconfirmed row)) rows) = row_labels rows"
  "row_numbers (map (\<lambda>(account, row). (account, mark_check_unconfirmed row)) rows) = row_numbers rows"
  by (simp_all add: case_prod_beta)

lemma apply_update_ok:
  assumes "accounts_ok al"
  shows "accounts_ok (snd (apply_update update al))"
proof (cases "is_complete (au_last_check update)")
  case False
  let ?rows = "map (\<lambda>(account, row). (account, mark_check_unconfirmed row)) (al_visible al)"
  have "map_of ?rows account = None \<longleftrightarrow> map_of (al_visible al) account = None" for account
    by (rule map_of_same_keys) (rule unconfirmed_maps)
  then show ?thesis
    using assms False
    by (simp add: apply_update_def accounts_ok_def selection_ok_def is_visible_def numbers_ok_def del: set_map map_map split: option.splits)
next
  case True
  let ?al = "confirmed_list update al"
  let ?al' = "case al_selection ?al of Some s \<Rightarrow> if is_visible ?al (selection_account s) then ?al else ?al\<lparr>al_selection := None\<rparr> | None \<Rightarrow> ?al"
  have "keys_sorted ?al'" "numbers_ok ?al'" "selection_ok ?al'"
    using confirmed_parts [OF assms, of update] by (auto simp: selection_ok_def numbers_ok_def split: option.split)
  note ok = assigned_ok [OF this]
  have "snd (apply_update update al) = assign_display_labels ?al'"
    using True by (simp add: apply_update_def Let_def case_prod_beta)
  then show ?thesis using ok by simp
qed

lemma accounts_start_ok: "accounts_ok new_account_list"
  by (simp add: new_account_list_def accounts_ok_def selection_ok_def numbers_ok_def)

lemma accounts_reached_ok: "accounts_reached al \<Longrightarrow> accounts_ok al"
proof (induction rule: accounts_reached.induct)
  case (selected al s)
  then show ?case by (auto simp: select_def accounts_ok_def selection_ok_def numbers_ok_def is_visible_def)
next
  case (cleared al)
  then show ?case by (simp add: clear_selection_def accounts_ok_def selection_ok_def numbers_ok_def)
qed (simp_all only: apply_update_ok accounts_start_ok)

section \<open>What an update does\<close>

lemma confirmed_lookup:
  assumes "accounts_ok al" and "distinct (map fst (au_accounts update))"
  shows "\<exists>number. map_of (al_visible (confirmed_list update al)) account =
    (case map_of (au_accounts update) account of
      None \<Rightarrow> None
    | Some details \<Rightarrow> if ad_mail_enabled details then updated_row details (map_of (al_visible al) account) number else None)"
proof -
  let ?hidden = "snd (hide_removed_or_disabled_accounts (au_accounts update)
     (al\<lparr>al_last_check := au_last_check update, al_retry_pending := au_retry_pending update, al_excluded := {}\<rparr>))"
  have sorted: "keys_sorted ?hidden" using assms(1) by (simp add: hide_removed_or_disabled_accounts_def accounts_ok_def sorted_filter)
  have kept: "map_of (al_visible ?hidden) account =
      (if hidden_by (au_accounts update) account then None else map_of (al_visible al) account)"
    by (simp add: hide_removed_or_disabled_accounts_def map_of_filter_key)
  obtain number where "map_of (al_visible (confirmed_list update al)) account =
    (case map_of (au_accounts update) account of
      None \<Rightarrow> map_of (al_visible ?hidden) account
    | Some details \<Rightarrow> updated_row details (map_of (al_visible ?hidden) account) number)"
    using update_visible_lookup [OF sorted assms(2), of account] by blast
  then show ?thesis
    unfolding kept by (intro exI [of _ number]) (auto simp: hidden_by_def updated_row_def split: option.split)
qed

lemma complete_visible:
  assumes "is_complete (au_last_check update)"
  shows "fst (apply_update update al) = row_labels (filter (\<lambda>(account, _). hidden_by (au_accounts update) account) (al_visible al))"
    and "\<exists>label. map_of (al_visible (snd (apply_update update al))) account =
      map_option (\<lambda>row. row\<lparr>acr_label := label\<rparr>) (map_of (al_visible (confirmed_list update al)) account)"
proof -
  let ?al = "confirmed_list update al"
  let ?al' = "case al_selection ?al of Some s \<Rightarrow> if is_visible ?al (selection_account s) then ?al else ?al\<lparr>al_selection := None\<rparr> | None \<Rightarrow> ?al"
  have run: "apply_update update al = (fst (hide_removed_or_disabled_accounts (au_accounts update)
     (al\<lparr>al_last_check := au_last_check update, al_retry_pending := au_retry_pending update, al_excluded := {}\<rparr>)), assign_display_labels ?al')"
    using assms by (simp add: apply_update_def Let_def case_prod_beta)
  show "fst (apply_update update al) = row_labels (filter (\<lambda>(account, _). hidden_by (au_accounts update) account) (al_visible al))"
    unfolding run by (simp add: hide_removed_or_disabled_accounts_def)
  have same: "al_visible ?al' = al_visible ?al" by (simp split: option.split)
  show "\<exists>label. map_of (al_visible (snd (apply_update update al))) account =
      map_option (\<lambda>row. row\<lparr>acr_label := label\<rparr>) (map_of (al_visible (confirmed_list update al)) account)"
    unfolding run snd_conv assign_display_labels_def Let_def same
    using label_rows_lookup [of "row_bases (al_visible ?al)" "row_bases (al_visible ?al)" "al_visible ?al" account] by simp
qed

lemma applied_lookup:
  assumes "accounts_ok al" and "distinct (map fst (au_accounts update))" and "is_complete (au_last_check update)"
    and "apply_update update al = (notices, al')"
  shows "\<exists>label number. map_of (al_visible al') account = map_option (\<lambda>row. row\<lparr>acr_label := label\<rparr>)
      (case map_of (au_accounts update) account of
        None \<Rightarrow> None
      | Some details \<Rightarrow> if ad_mail_enabled details then updated_row details (map_of (al_visible al) account) number else None)"
proof -
  obtain number where number: "map_of (al_visible (confirmed_list update al)) account = (case map_of (au_accounts update) account of
      None \<Rightarrow> None
    | Some details \<Rightarrow> if ad_mail_enabled details then updated_row details (map_of (al_visible al) account) number else None)"
    using confirmed_lookup [OF assms(1,2), of account] by blast
  obtain label where "map_of (al_visible al') account =
      map_option (\<lambda>row. row\<lparr>acr_label := label\<rparr>) (map_of (al_visible (confirmed_list update al)) account)"
    using complete_visible(2) [OF assms(3), of al account] assms(4) by auto
  then show ?thesis unfolding number by blast
qed

lemma applied_visible:
  assumes "accounts_ok al" and "distinct (map fst (au_accounts update))" and "is_complete (au_last_check update)"
    and "apply_update update al = (notices, al')"
  shows "is_visible al' account \<longleftrightarrow> (\<exists>details. map_of (au_accounts update) account = Some details \<and>
      mail_provider_of (ad_provider details) \<noteq> None \<and> ad_mail_enabled details \<and>
      (is_visible al account \<or> ad_mail_service_available details))"
proof (cases "map_of (au_accounts update) account")
  case None
  then show ?thesis using applied_lookup [OF assms, of account] by (auto simp: is_visible_def)
next
  case (Some details)
  then show ?thesis
    using applied_lookup [OF assms, of account]
    by (cases "mail_provider_of (ad_provider details)"; cases "map_of (al_visible al) account"; cases "ad_mail_enabled details";
      cases "ad_mail_service_available details") (auto simp: is_visible_def updated_row_def split: if_splits)
qed

text \<open>Two accounts of the same name, and one whose name is what the second would be called.\<close>

definition demo_details :: "account_provider \<Rightarrow> string \<Rightarrow> account_details" where
  "demo_details provider name = \<lparr>ad_provider = provider, ad_mail_enabled = True, ad_needs_attention = False,
     ad_mail_service_available = True, ad_display_name = Some name, ad_email_address = None\<rparr>"

definition demo_update :: "(account_id \<times> account_details) list \<Rightarrow> account_update" where
  "demo_update accounts = \<lparr>au_accounts = accounts, au_last_check = CheckComplete, au_retry_pending = False\<rparr>"

definition demo_accounts :: "(account_id \<times> account_details) list" where
  "demo_accounts = [(AccountId ''a'', demo_details ImapSmtp ''Work''), (AccountId ''b'', demo_details Google ''Work''),
     (AccountId ''c'', demo_details Microsoft365 ''Work (2)'')]"

definition demo_list :: account_list where
  "demo_list = snd (apply_update (demo_update demo_accounts) new_account_list)"

lemma demo_reached: "accounts_reached demo_list"
  unfolding demo_list_def by (rule accounts_reached.updated [OF accounts_reached.start])

section \<open>Claims\<close>

text \<open>
  C20: whatever Online Accounts answers and the user selects, no two accounts are shown under the same
  label, also when one account is named what another would be called, and what is selected belongs to a
  shown account.
\<close>

theorem labels_tell_apart:
  assumes "accounts_reached al"
  shows "distinct (map (\<lambda>entry. acr_label (snd entry)) (al_visible al)) \<and>
    (case al_selection al of Some s \<Rightarrow> is_visible al (selection_account s) | None \<Rightarrow> True)"
  using accounts_reached_ok [OF assms] by (simp add: accounts_ok_def selection_ok_def)

theorem labels_tell_apart_witness:
  "row_labels (al_visible demo_list) = [''Work (1)'', ''Work (2) (2)'', ''Work (2)''] \<and> distinct (row_labels (al_visible demo_list))"
proof
  show "row_labels (al_visible demo_list) = [''Work (1)'', ''Work (2) (2)'', ''Work (2)'']" by code_simp
  show "distinct (row_labels (al_visible demo_list))" using labels_tell_apart [OF demo_reached] by simp
qed

text \<open>
  C27: a complete answer shows exactly the accounts with Mail on that Mailbag can load and whose mail service
  is there or that were shown before, each with what the answer says of it and with the number it had;
  one that goes is named in a notice unless Mailbag cannot load it any more. Any other answer hides
  nothing and marks every row as unconfirmed.
\<close>

theorem update_applied:
  assumes "accounts_reached al" and "distinct (map fst (au_accounts update))" and "apply_update update al = (notices, al')"
  shows "if is_complete (au_last_check update)
    then (\<forall>account. is_visible al' account \<longleftrightarrow> (\<exists>details. map_of (au_accounts update) account = Some details \<and>
          mail_provider_of (ad_provider details) \<noteq> None \<and> ad_mail_enabled details \<and>
          (is_visible al account \<or> ad_mail_service_available details))) \<and>
      (\<forall>account row. map_of (al_visible al') account = Some row \<longrightarrow>
        (\<exists>details provider before. map_of (au_accounts update) account = Some details \<and> mail_provider_of (ad_provider details) = Some provider \<and>
          row = (update_details details provider before)\<lparr>acr_label := acr_label row\<rparr> \<and>
          (\<forall>shown. map_of (al_visible al) account = Some shown \<longrightarrow> acr_number row = acr_number shown))) \<and>
      (\<forall>account row. map_of (al_visible al) account = Some row \<longrightarrow> \<not> is_visible al' account \<longrightarrow> acr_label row \<in> set notices \<or>
        (\<exists>details. map_of (au_accounts update) account = Some details \<and> mail_provider_of (ad_provider details) = None))
    else notices = [] \<and> map fst (al_visible al') = map fst (al_visible al) \<and> row_labels (al_visible al') = row_labels (al_visible al) \<and>
      (\<forall>(_, row) \<in> set (al_visible al'). CheckUnconfirmed \<in> set (acr_problems row))"
proof (cases "is_complete (au_last_check update)")
  case False
  then show ?thesis
    using assms(3) by (auto simp: apply_update_def case_prod_beta mark_check_unconfirmed_def)
next
  case True
  note ok = accounts_reached_ok [OF assms(1)]
  note lookup = applied_lookup [OF ok assms(2) True assms(3)]
  note visible = applied_visible [OF ok assms(2) True assms(3)]
  have row: "\<exists>details provider before. map_of (au_accounts update) account = Some details \<and> mail_provider_of (ad_provider details) = Some provider \<and>
      row = (update_details details provider before)\<lparr>acr_label := acr_label row\<rparr> \<and>
      (\<forall>shown. map_of (al_visible al) account = Some shown \<longrightarrow> acr_number row = acr_number shown)"
    if "map_of (al_visible al') account = Some row" for account row
  proof (cases "map_of (au_accounts update) account")
    case None
    then show ?thesis using lookup [of account] that by auto
  next
    case (Some details)
    then show ?thesis
      using lookup [of account] that
      by (cases "mail_provider_of (ad_provider details)"; cases "map_of (al_visible al) account"; cases "ad_mail_enabled details")
        (auto simp: updated_row_def split: if_splits)
  qed
  have gone: "acr_label row \<in> set notices \<or>
      (\<exists>details. map_of (au_accounts update) account = Some details \<and> mail_provider_of (ad_provider details) = None)"
    if row: "map_of (al_visible al) account = Some row" and "\<not> is_visible al' account" for account row
  proof (cases "hidden_by (au_accounts update) account")
    case True
    have "(account, row) \<in> set (al_visible al)" using row by (rule map_of_SomeD)
    then have "acr_label row \<in> set (row_labels (filter (\<lambda>(account, _). hidden_by (au_accounts update) account) (al_visible al)))"
      using True by force
    then show ?thesis using complete_visible(1) [OF \<open>is_complete (au_last_check update)\<close>, of al] assms(3) by simp
  next
    case False
    then show ?thesis using that visible [of account] by (auto simp: hidden_by_def is_visible_def split: option.splits)
  qed
  show ?thesis using True visible row gone by simp
qed

theorem update_applied_witness:
  "is_visible (snd (apply_update (demo_update (tl demo_accounts)) demo_list)) (AccountId ''b'') \<and>
   \<not> is_visible (snd (apply_update (demo_update (tl demo_accounts)) demo_list)) (AccountId ''a'') \<and>
   fst (apply_update (demo_update (tl demo_accounts)) demo_list) = [''Work (1)'']"
proof -
  let ?update = "demo_update (tl demo_accounts)"
  have known: "distinct (map fst (au_accounts ?update))" "is_complete (au_last_check ?update)" by code_simp+
  obtain notices al' where run: "apply_update ?update demo_list = (notices, al')" by (cases "apply_update ?update demo_list")
  note applied = update_applied [OF demo_reached known(1) run]
  have listed: "map_of (au_accounts ?update) (AccountId ''a'') = None" "map_of (au_accounts ?update) (AccountId ''b'') = Some (demo_details Google ''Work'')"
    by code_simp+
  have b: "mail_provider_of (ad_provider (demo_details Google ''Work'')) \<noteq> None" "ad_mail_enabled (demo_details Google ''Work'')"
    "ad_mail_service_available (demo_details Google ''Work'')" by code_simp+
  have "is_visible al' account \<longleftrightarrow> (\<exists>details. map_of (au_accounts ?update) account = Some details \<and>
          mail_provider_of (ad_provider details) \<noteq> None \<and> ad_mail_enabled details \<and>
          (is_visible demo_list account \<or> ad_mail_service_available details))" for account
    using applied known(2) by simp
  then have "is_visible al' (AccountId ''b'')" "\<not> is_visible al' (AccountId ''a'')" using listed b by auto
  moreover have "fst (apply_update ?update demo_list) = [''Work (1)'']" by code_simp
  ultimately show ?thesis using run by simp
qed

end
