(* ===== verification/Sidebar.thy ===== *)
theory Sidebar
  imports Accounts "HOL-Library.Product_Lexorder"
begin

text \<open>
  The sidebar (crate \<open>mailbag\<close>, \<open>sidebar_ui.rs\<close>): the tree of accounts and folders, what is selected in
  it, the texts of the account page, and the launch of the settings panel (\<open>settings.rs\<close>).

  GTK is not modelled: a row is what it shows, and \<open>sb_collapsed\<close> are the rows the user collapsed, which
  GTK keeps; a row it makes anew is expanded. Keyboard focus and popovers are left out. The locale's
  collation key of a name is a parameter.
\<close>

section \<open>Texts\<close>

datatype page_action = RetryCheck | ShowOnlineAccounts

definition problem_text :: "account_problem \<Rightarrow> string" where
  "problem_text problem = (case problem of
     CheckUnconfirmed \<Rightarrow> ''This account could not be checked. Try checking again.''
   | ServiceMissing \<Rightarrow> ''Unable to get this account's mail settings. Try checking again.''
   | AttentionNeeded \<Rightarrow> ''Open Online Accounts to resolve a problem with this account.'')"

definition check_error_text :: "error_cause \<Rightarrow> string" where
  "check_error_text cause = (case cause of
     CauseUnavailable \<Rightarrow> ''Online Accounts is unavailable. Try checking again.''
   | CauseAccessDenied \<Rightarrow> ''Access to Online Accounts was denied.''
   | CauseTimeout \<Rightarrow> ''Online Accounts did not respond in time. Try checking again.''
   | CauseInvalidReply \<Rightarrow> ''Online Accounts returned an incomplete or invalid account list. Try checking again.'')"

definition page_text :: "account_list \<Rightarrow> string \<times> string" where
  "page_text al = (case page al of
     LoadingAccounts \<Rightarrow> (''Loading accounts'', [])
   | SettingsUnavailable \<Rightarrow> (''Mail settings unavailable'', ''Unable to get mail settings from Online Accounts. Try checking again.'')
   | ReadFailed cause \<Rightarrow> (''Unable to get accounts'', check_error_text cause)
   | AccountsShown \<Rightarrow> ([], [])
   | _ \<Rightarrow> (''No mail accounts'',
       if MailDisabled \<in> al_excluded al \<and> UnsupportedProvider \<notin> al_excluded al
       then ''Enable Mail for your account in Online Accounts.''
       else ''Add a mail account or enable Mail in Online Accounts.''))"

definition page_action_of :: "account_list \<Rightarrow> page_action option" where
  "page_action_of al = (case page al of
     ReadFailed _ \<Rightarrow> Some RetryCheck
   | SettingsUnavailable \<Rightarrow> Some RetryCheck
   | NoAccounts \<Rightarrow> Some ShowOnlineAccounts
   | NoEligibleAccounts \<Rightarrow> Some ShowOnlineAccounts
   | LoadingAccounts \<Rightarrow> None
   | AccountsShown \<Rightarrow> None)"

text \<open>The label of a Retry Check button; it is sensitive unless a check runs.\<close>

definition check_progress :: "bool \<Rightarrow> string" where
  "check_progress pending = (if pending then ''Checking'' @ [CHR 0xE2, CHR 0x80, CHR 0xA6] else ''Retry Check'')"

definition folder_title :: "folder \<Rightarrow> string" where
  "folder_title f = (if eq_ignore_ascii_case (folder_identity f) ''INBOX'' then ''Inbox'' else folder_name f)"

definition folder_icon :: "folder_role option \<Rightarrow> string" where
  "folder_icon role = (case role of
     Some Inbox \<Rightarrow> ''mailbag-folder-inbox-symbolic''
   | Some Starred \<Rightarrow> ''mailbag-folder-starred-symbolic''
   | Some Important \<Rightarrow> ''mailbag-folder-important-symbolic''
   | Some Junk \<Rightarrow> ''mail-mark-junk-symbolic''
   | Some Trash \<Rightarrow> ''user-trash-symbolic''
   | Some Archive \<Rightarrow> ''mailbag-folder-archive-symbolic''
   | Some Drafts \<Rightarrow> ''document-edit-symbolic''
   | Some Sent \<Rightarrow> ''mailbag-folder-sent-symbolic''
   | _ \<Rightarrow> ''folder-symbolic'')"

section \<open>Folder rows\<close>

datatype folder_node =
  FolderNode (node_ref: folder_ref) (node_title: string) (node_icon: string) (node_selectable: bool) (node_children: "folder_node list")

definition role_rank :: "folder \<Rightarrow> nat" where
  "role_rank f = (case folder_role f of
     Some role \<Rightarrow> length (takeWhile (\<lambda>ordered. ordered \<noteq> role) role_order)
   | None \<Rightarrow> length role_order)"

definition siblings_of :: "(string \<Rightarrow> string) \<Rightarrow> folder list \<Rightarrow> string option \<Rightarrow> folder list" where
  "siblings_of collation folders parent =
     sort_key (\<lambda>f. (role_rank f, collation (folder_name f))) (filter (\<lambda>f. folder_parent f = parent) folders)"

fun collect :: "'a option list \<Rightarrow> 'a list option" where
  "collect [] = Some []"
| "collect (x # xs) = (case x of None \<Rightarrow> None | Some y \<Rightarrow> map_option (\<lambda>ys. y # ys) (collect xs))"

text \<open>
  The recursion descends from a folder to the folders that name it as their parent. It has no bound of its
  own: \<open>fuel\<close> is the depth it may reach, and \<open>None\<close> means that it went deeper.
\<close>

fun fill_folders :: "nat \<Rightarrow> (string \<Rightarrow> string) \<Rightarrow> account_id \<Rightarrow> string option \<Rightarrow> folder list \<Rightarrow> folder_node list option" where
  "fill_folders 0 collation account parent folders = None"
| "fill_folders (Suc fuel) collation account parent folders =
     collect (map (\<lambda>f. map_option
         (FolderNode \<lparr>ref_account = account, ref_identity = folder_identity f\<rparr> (folder_title f) (folder_icon (folder_role f)) (folder_selectable f))
         (fill_folders fuel collation account (Some (folder_identity f)) folders))
       (siblings_of collation folders parent))"

section \<open>The tree\<close>

record account_node =
  an_title :: string
  an_icon :: string
  an_explanation :: string
  an_settings_shown :: bool
  an_retry_shown :: bool
  an_retry_label :: string
  an_selectable :: bool
  an_hide_expander :: bool
  an_folders :: "folder list"
  an_children :: "folder_node list"

definition new_account_node :: account_node where
  "new_account_node = \<lparr>an_title = [], an_icon = [], an_explanation = [], an_settings_shown = False, an_retry_shown = False,
     an_retry_label = [], an_selectable = True, an_hide_expander = True, an_folders = [], an_children = []\<rparr>"

definition show_account :: "account_row \<Rightarrow> bool \<Rightarrow> account_node \<Rightarrow> account_node" where
  "show_account row retry_pending node = node\<lparr>
     an_title := acr_label row,
     an_icon := acr_icon row,
     an_explanation := join [newline] (map problem_text (acr_problems row)),
     an_settings_shown := (AttentionNeeded \<in> set (acr_problems row)),
     an_retry_shown := (\<exists>problem \<in> set (acr_problems row). problem \<noteq> AttentionNeeded),
     an_retry_label := check_progress retry_pending\<rparr>"

record sidebar =
  sb_accounts :: account_list
  sb_nodes :: "(account_id \<times> account_node) list"
  sb_collapsed :: "selection list"
  sb_marked :: "selection option"
  sb_toasts :: "string list"
  sb_show_content :: bool
  sb_narrow :: bool
  sb_show_sidebar :: bool

definition new_sidebar :: sidebar where
  "new_sidebar = \<lparr>sb_accounts = new_account_list, sb_nodes = [], sb_collapsed = [], sb_marked = None, sb_toasts = [],
     sb_show_content = False, sb_narrow = False, sb_show_sidebar = True\<rparr>"

text \<open>The rows the tree shows: what each selects, whether it can be selected, and its title.\<close>

type_synonym tree_row = "selection \<times> bool \<times> string"

fun folder_rows :: "selection list \<Rightarrow> folder_node \<Rightarrow> tree_row list" where
  "folder_rows collapsed (FolderNode ref title icon selectable children) =
     (SelectedMailbox ref, selectable, title) #
     (if SelectedMailbox ref \<in> set collapsed then [] else concat (map (folder_rows collapsed) children))"

definition account_rows :: "selection list \<Rightarrow> account_id \<times> account_node \<Rightarrow> tree_row list" where
  "account_rows collapsed entry = (case entry of (account, node) \<Rightarrow>
     (SelectedAccount account, an_selectable node, an_title node) #
     (if SelectedAccount account \<in> set collapsed then [] else concat (map (folder_rows collapsed) (an_children node))))"

definition tree_rows :: "sidebar \<Rightarrow> tree_row list" where
  "tree_rows sb = concat (map (account_rows (sb_collapsed sb)) (sb_nodes sb))"

text \<open>The first row of a key, as \<open>position_of\<close> and \<open>node_at\<close> find it.\<close>

definition tree_row_of :: "sidebar \<Rightarrow> selection \<Rightarrow> tree_row option" where
  "tree_row_of sb key = find (\<lambda>row. fst row = key) (tree_rows sb)"

definition shows_selectable :: "sidebar \<Rightarrow> selection \<Rightarrow> bool" where
  "shows_selectable sb s = (case tree_row_of sb s of Some (_, selectable, _) \<Rightarrow> selectable | None \<Rightarrow> False)"

definition show_selection :: "sidebar \<Rightarrow> sidebar" where
  "show_selection sb = sb\<lparr>sb_marked := (case al_selection (sb_accounts sb) of
     Some s \<Rightarrow> if tree_row_of sb s \<noteq> None then Some s else None
   | None \<Rightarrow> None)\<rparr>"

definition sidebar_selection :: "sidebar \<Rightarrow> selection option" where
  "sidebar_selection sb = al_selection (sb_accounts sb)"

definition selected_provider :: "sidebar \<Rightarrow> mail_provider option" where
  "selected_provider sb = (case sidebar_selection sb of
     Some s \<Rightarrow> map_option acr_provider (map_of (al_visible (sb_accounts sb)) (selection_account s))
   | None \<Rightarrow> None)"

definition shown_accounts :: "sidebar \<Rightarrow> account_id list" where
  "shown_accounts sb = map fst (al_visible (sb_accounts sb))"

definition label_of :: "sidebar \<Rightarrow> account_id \<Rightarrow> string option" where
  "label_of sb account = map_option acr_label (map_of (al_visible (sb_accounts sb)) account)"

definition folder_name_of :: "sidebar \<Rightarrow> folder_ref \<Rightarrow> string option" where
  "folder_name_of sb folder = map_option (\<lambda>(_, _, title). title) (tree_row_of sb (SelectedMailbox folder))"

definition shows_account :: "sidebar \<Rightarrow> account_id \<Rightarrow> bool" where
  "shows_account sb account = is_visible (sb_accounts sb) account"

definition show_toast :: "string \<Rightarrow> sidebar \<Rightarrow> sidebar" where
  "show_toast title sb = sb\<lparr>sb_toasts := sb_toasts sb @ [title]\<rparr>"

section \<open>Updates\<close>

text \<open>
  The account rows follow the list of accounts: a row for each visible account, in its order, the row it
  had or a new one.
\<close>

definition follow_accounts :: "sidebar \<Rightarrow> sidebar" where
  "follow_accounts sb =
     (let visible = al_visible (sb_accounts sb)
      in sb\<lparr>sb_nodes := map (\<lambda>(account, row). (account, show_account row (al_retry_pending (sb_accounts sb))
           (case map_of (sb_nodes sb) account of Some node \<Rightarrow> node | None \<Rightarrow> new_account_node))) visible,
         sb_collapsed := filter (\<lambda>key. map_of visible (selection_account key) \<noteq> None) (sb_collapsed sb)\<rparr>)"

definition hidden_notice :: "string \<Rightarrow> string" where
  "hidden_notice label = label @ '' was removed or Mail was turned off in Online Accounts.''"

definition sidebar_update :: "account_update \<Rightarrow> sidebar \<Rightarrow> sidebar" where
  "sidebar_update update sb =
     (let (notices, accounts) = apply_update update (sb_accounts sb);
          sb1 = show_selection (follow_accounts (sb\<lparr>sb_accounts := accounts\<rparr>))
      in foldl (\<lambda>sb notice. show_toast (hidden_notice notice) sb) sb1 notices)"

definition replace_node :: "account_id \<Rightarrow> account_node \<Rightarrow> (account_id \<times> account_node) list \<Rightarrow> (account_id \<times> account_node) list" where
  "replace_node account node nodes = map (\<lambda>(other, old). (other, if other = account then node else old)) nodes"

text \<open>\<open>show_folders\<close> says whether the selection was cleared; \<open>None\<close> when the recursion has no end.\<close>

definition show_folders :: "(string \<Rightarrow> string) \<Rightarrow> account_id \<Rightarrow> folder list \<Rightarrow> sidebar \<Rightarrow> (bool \<times> sidebar) option" where
  "show_folders collation account listed sb = (case map_of (sb_nodes sb) account of
     None \<Rightarrow> Some (False, sb)
   | Some node \<Rightarrow>
       (let folders = sort_key folder_identity listed
        in if an_folders node = folders then Some (False, sb)
           else (case fill_folders (Suc (length folders)) collation account None folders of
             None \<Rightarrow> None
           | Some children \<Rightarrow>
               (let node' = node\<lparr>an_children := children, an_selectable := (\<not> (\<exists>f \<in> set folders. folder_selectable f)),
                      an_hide_expander := (children = []), an_folders := folders\<rparr>;
                    sb1 = sb\<lparr>sb_nodes := replace_node account node' (sb_nodes sb),
                      sb_collapsed := filter (\<lambda>key. case key of SelectedMailbox folder \<Rightarrow> ref_account folder \<noteq> account | _ \<Rightarrow> True) (sb_collapsed sb)\<rparr>;
                    gone = (case sidebar_selection sb1 of
                      Some s \<Rightarrow> selection_account s = account \<and> \<not> shows_selectable sb1 s
                    | None \<Rightarrow> False);
                    sb2 = (if gone then sb1\<lparr>sb_accounts := clear_selection (sb_accounts sb1)\<rparr> else sb1)
                in Some (gone, show_selection sb2)))))"

section \<open>What the user does\<close>

text \<open>Each says whether the window is told of a changed selection.\<close>

definition select_row :: "selection \<Rightarrow> sidebar \<Rightarrow> bool \<times> sidebar" where
  "select_row key sb =
     (if tree_row_of sb key = None then (False, sb)
      else if sidebar_selection sb = Some key then (False, sb)
      else (True, sb\<lparr>sb_accounts := select key (sb_accounts sb), sb_marked := Some key, sb_show_content := False\<rparr>))"

definition show_list_on_narrow_window :: "sidebar \<Rightarrow> sidebar" where
  "show_list_on_narrow_window sb = (if sb_narrow sb then sb\<lparr>sb_show_sidebar := False\<rparr> else sb)"

definition clear_hidden_selection :: "sidebar \<Rightarrow> bool \<times> sidebar" where
  "clear_hidden_selection sb =
     (let hidden = (case sidebar_selection sb of Some s \<Rightarrow> tree_row_of sb s = None | None \<Rightarrow> False)
      in (hidden, if hidden then sb\<lparr>sb_accounts := clear_selection (sb_accounts sb), sb_marked := None\<rparr> else sb))"

definition collapse_rows :: "selection list \<Rightarrow> sidebar \<Rightarrow> bool \<times> sidebar" where
  "collapse_rows collapsed sb = clear_hidden_selection (sb\<lparr>sb_collapsed := collapsed\<rparr>)"

section \<open>The settings panel\<close>

datatype launch_error = LaunchUnavailable | LaunchAccessDenied

definition launch_message :: "launch_error \<Rightarrow> string" where
  "launch_message error = (case error of
     LaunchUnavailable \<Rightarrow> ''Could not open Online Accounts. Open Settings and choose Online Accounts, or try again.''
   | LaunchAccessDenied \<Rightarrow> ''Access to Settings was denied. Open Online Accounts from Settings.'')"

definition launch_error_of :: "glib_error \<Rightarrow> launch_error" where
  "launch_error_of error = (if error = BusAccessDenied \<or> error = IoPermissionDenied then LaunchAccessDenied else LaunchUnavailable)"

definition show_settings_error :: "launch_error \<Rightarrow> sidebar \<Rightarrow> sidebar" where
  "show_settings_error error sb = show_toast (launch_message error) sb"

end
