(* ===== verification/Sidebar_Claims.thy ===== *)
theory Sidebar_Claims
  imports Sidebar Accounts_Claims
begin

text \<open>
  What the sidebar promises: the tree holds every folder whose parents are listed exactly once, building
  it ends, and what is selected is a row of the tree that can be selected.
\<close>

section \<open>Folders under a parent\<close>

text \<open>\<open>f\<close> is \<open>n\<close> levels below the rows whose parent is \<open>parent\<close>.\<close>

inductive nested :: "folder list \<Rightarrow> string option \<Rightarrow> nat \<Rightarrow> folder \<Rightarrow> bool" for folders and parent where
  child: "f \<in> set folders \<Longrightarrow> folder_parent f = parent \<Longrightarrow> nested folders parent 0 f"
| deeper: "nested folders parent n g \<Longrightarrow> f \<in> set folders \<Longrightarrow> folder_parent f = Some (folder_identity g) \<Longrightarrow> nested folders parent (Suc n) f"

inductive_cases nested_0: "nested folders parent 0 f"
inductive_cases nested_Suc: "nested folders parent (Suc n) f"

lemma nested_listed: "nested folders parent n f \<Longrightarrow> f \<in> set folders"
  by (induction rule: nested.induct)

lemma same_folder: "distinct (map folder_identity folders) \<Longrightarrow> f \<in> set folders \<Longrightarrow> g \<in> set folders \<Longrightarrow>
    folder_identity f = folder_identity g \<Longrightarrow> f = g"
  by (rule distinct_map_unique)

lemma nested_under:
  "nested folders (Some (folder_identity s)) m f \<Longrightarrow> nested folders parent d s \<Longrightarrow> nested folders parent (Suc d + m) f"
  by (induction rule: nested.induct) (auto intro: nested.intros)

lemma depth_unique:
  assumes "distinct (map folder_identity folders)" and "nested folders None n f" and "nested folders None m f"
  shows "n = m"
  using assms(2,3)
proof (induction arbitrary: m rule: nested.induct)
  case (child f)
  then show ?case by (cases m) (auto elim: nested_Suc)
next
  case (deeper n g f)
  then obtain m' g' where m': "m = Suc m'" "nested folders None m' g'" "folder_parent f = Some (folder_identity g')"
    by (cases m) (auto elim: nested_0 nested_Suc)
  then have "g' = g" using deeper same_folder [OF assms(1)] nested_listed by (metis option.inject)
  then show ?case using deeper.IH m' by simp
qed

lemma ancestor_unique:
  assumes "distinct (map folder_identity folders)"
  shows "nested folders (Some a) m f \<Longrightarrow> nested folders (Some b) m f \<Longrightarrow> a = b"
proof (induction arbitrary: rule: nested.induct)
  case (child f)
  then show ?case by (auto elim: nested_0)
next
  case (deeper n g f)
  from deeper.prems obtain g' where g': "nested folders (Some b) n g'" "folder_parent f = Some (folder_identity g')"
    by (rule nested_Suc)
  then have "g' = g" using deeper same_folder [OF assms] nested_listed by (metis option.inject)
  then show ?case using deeper.IH g' by simp
qed

lemma shallower: "nested folders parent n f \<Longrightarrow> m \<le> n \<Longrightarrow> \<exists>g. nested folders parent m g"
  by (induction arbitrary: m rule: nested.induct) (auto intro: nested.intros simp: le_Suc_eq)

lemma depth_bound:
  assumes "distinct (map folder_identity folders)" and "nested folders None n f"
  shows "n < length folders"
proof -
  have "\<forall>m \<in> {..n}. \<exists>g. nested folders None m g" using shallower [OF assms(2)] by simp
  then obtain g where g: "\<forall>m \<in> {..n}. nested folders None m (g m)" by (auto dest: bchoice)
  have "inj_on g {..n}" using g depth_unique [OF assms(1)] unfolding inj_on_def by metis
  moreover have "g ` {..n} \<subseteq> set folders" using g nested_listed by blast
  ultimately have "card {..n} \<le> card (set folders)" by (meson card_inj_on_le finite_set)
  then show ?thesis using card_length [of folders] by simp
qed

lemma nested_step:
  "nested folders parent (Suc n) f \<longleftrightarrow> (\<exists>s \<in> set folders. folder_parent s = parent \<and> nested folders (Some (folder_identity s)) n f)"
proof
  show "nested folders parent (Suc n) f \<Longrightarrow> \<exists>s \<in> set folders. folder_parent s = parent \<and> nested folders (Some (folder_identity s)) n f"
  proof (induction n arbitrary: f)
    case 0
    then show ?case by (auto elim!: nested_Suc nested_0 intro: nested.child)
  next
    case (Suc n)
    from Suc.prems obtain g where "nested folders parent (Suc n) g" "f \<in> set folders" "folder_parent f = Some (folder_identity g)"
      by (rule nested_Suc)
    with Suc.IH show ?case by (meson nested.deeper)
  qed
qed (metis nested.child nested_under add_0 add_Suc)

section \<open>Building the tree\<close>

lemma collect_Some: "(\<And>x. x \<in> set xs \<Longrightarrow> g x \<noteq> None) \<Longrightarrow> collect (map g xs) = Some (map (the \<circ> g) xs)"
  by (induction xs) (auto split: option.split)

lemma collect_map: "collect (map g xs) = Some ys \<Longrightarrow> list_all2 (\<lambda>x y. g x = Some y) xs ys"
  by (induction xs arbitrary: ys) (auto split: option.splits)

lemma siblings_mem [simp]: "f \<in> set (siblings_of collation folders parent) \<longleftrightarrow> f \<in> set folders \<and> folder_parent f = parent"
  by (auto simp: siblings_of_def)

lemma siblings_distinct: "distinct (map folder_identity folders) \<Longrightarrow> distinct (map folder_identity (siblings_of collation folders parent))"
  unfolding siblings_of_def
  by (metis (no_types, lifting) distinct_map distinct_sort inj_on_subset set_sort distinct_map_filter)

text \<open>The rows whose parent is \<open>parent\<close> are \<open>d\<close> levels down.\<close>

definition at_level :: "folder list \<Rightarrow> string option \<Rightarrow> nat \<Rightarrow> bool" where
  "at_level folders parent d \<longleftrightarrow> (case parent of
     None \<Rightarrow> d = 0
   | Some identity \<Rightarrow> (\<exists>g n. d = Suc n \<and> identity = folder_identity g \<and> nested folders None n g))"

lemma level_nested: "at_level folders parent d \<Longrightarrow> f \<in> set folders \<Longrightarrow> folder_parent f = parent \<Longrightarrow> nested folders None d f"
  by (auto simp: at_level_def intro: nested.intros split: option.splits)

lemma level_below: "at_level folders parent d \<Longrightarrow> f \<in> set folders \<Longrightarrow> folder_parent f = parent \<Longrightarrow>
    at_level folders (Some (folder_identity f)) (Suc d)"
  using level_nested by (fastforce simp: at_level_def)

lemma fill_ends:
  assumes "distinct (map folder_identity folders)"
  shows "at_level folders parent d \<Longrightarrow> length folders < d + fuel \<Longrightarrow> fill_folders fuel collation account parent folders \<noteq> None"
proof (induction fuel arbitrary: parent d)
  case 0
  then have "d \<le> length folders"
    by (cases parent) (auto simp: at_level_def Suc_le_eq dest!: depth_bound [OF assms])
  then show ?case using 0 by simp
next
  case (Suc fuel)
  let ?node = "\<lambda>f. map_option
     (FolderNode \<lparr>ref_account = account, ref_identity = folder_identity f\<rparr> (folder_title f) (folder_icon (folder_role f)) (folder_selectable f))
     (fill_folders fuel collation account (Some (folder_identity f)) folders)"
  have "?node f \<noteq> None" if "f \<in> set (siblings_of collation folders parent)" for f
    using Suc.IH [OF level_below [OF Suc.prems(1)]] Suc.prems(2) that by fastforce
  from collect_Some [of "siblings_of collation folders parent" ?node, OF this] show ?case by simp
qed

fun node_refs :: "folder_node \<Rightarrow> folder_ref list" where
  "node_refs (FolderNode ref title icon selectable children) = ref # concat (map node_refs children)"

abbreviation all_refs :: "folder_node list \<Rightarrow> folder_ref list" where
  "all_refs nodes \<equiv> concat (map node_refs nodes)"

definition ref_of :: "account_id \<Rightarrow> folder \<Rightarrow> folder_ref" where
  "ref_of account f = \<lparr>ref_account = account, ref_identity = folder_identity f\<rparr>"

lemma ref_of_eq [simp]: "ref_of account f = ref_of account g \<longleftrightarrow> folder_identity f = folder_identity g"
  by (simp add: ref_of_def)

lemma filled_refs:
  assumes "fill_folders (Suc fuel) collation account parent folders = Some nodes"
  shows "\<exists>kids. (\<forall>f \<in> set (siblings_of collation folders parent). fill_folders fuel collation account (Some (folder_identity f)) folders = Some (kids f)) \<and>
    all_refs nodes = concat (map (\<lambda>f. ref_of account f # all_refs (kids f)) (siblings_of collation folders parent))"
proof -
  let ?node = "\<lambda>f. map_option
     (FolderNode \<lparr>ref_account = account, ref_identity = folder_identity f\<rparr> (folder_title f) (folder_icon (folder_role f)) (folder_selectable f))
     (fill_folders fuel collation account (Some (folder_identity f)) folders)"
  have all: "list_all2 (\<lambda>f node. ?node f = Some node) (siblings_of collation folders parent) nodes"
    using assms by (intro collect_map) simp
  let ?kids = "\<lambda>f. the (fill_folders fuel collation account (Some (folder_identity f)) folders)"
  have "(\<forall>f \<in> set fs. fill_folders fuel collation account (Some (folder_identity f)) folders = Some (?kids f)) \<and>
      all_refs ns = concat (map (\<lambda>f. ref_of account f # all_refs (?kids f)) fs)"
    if "list_all2 (\<lambda>f node. ?node f = Some node) fs ns" for fs ns
    using that by (induction rule: list_all2_induct) (auto simp: ref_of_def)
  from this [OF all] show ?thesis by (rule exI [where x = ?kids])
qed

lemma filled_set:
  "fill_folders fuel collation account parent folders = Some nodes \<Longrightarrow>
    set (all_refs nodes) = {ref_of account f | f n. nested folders parent n f}"
proof (induction fuel arbitrary: parent nodes)
  case (Suc fuel)
  obtain kids where kids: "\<And>f. f \<in> set folders \<Longrightarrow> folder_parent f = parent \<Longrightarrow>
      fill_folders fuel collation account (Some (folder_identity f)) folders = Some (kids f)"
    and refs: "all_refs nodes = concat (map (\<lambda>f. ref_of account f # all_refs (kids f)) (siblings_of collation folders parent))"
    using filled_refs [OF Suc.prems] by auto
  have below: "set (all_refs (kids s)) = {ref_of account f | f n. nested folders (Some (folder_identity s)) n f}"
    if "s \<in> set folders" "folder_parent s = parent" for s
    using Suc.IH [OF kids [OF that]] .
  have nested: "(\<exists>n. nested folders parent n f) \<longleftrightarrow> (f \<in> set folders \<and> folder_parent f = parent) \<or>
      (\<exists>s \<in> set folders. folder_parent s = parent \<and> (\<exists>n. nested folders (Some (folder_identity s)) n f))" for f
  proof
    assume "\<exists>n. nested folders parent n f"
    then obtain n where n: "nested folders parent n f" ..
    then show "(f \<in> set folders \<and> folder_parent f = parent) \<or>
      (\<exists>s \<in> set folders. folder_parent s = parent \<and> (\<exists>n. nested folders (Some (folder_identity s)) n f))"
      by (cases n) (auto simp: nested_step elim: nested_0)
  next
    assume "(f \<in> set folders \<and> folder_parent f = parent) \<or>
      (\<exists>s \<in> set folders. folder_parent s = parent \<and> (\<exists>n. nested folders (Some (folder_identity s)) n f))"
    then show "\<exists>n. nested folders parent n f" using nested.child nested_step by blast
  qed
  let ?top = "{s \<in> set folders. folder_parent s = parent}"
  let ?below = "\<lambda>s. {f. \<exists>n. nested folders (Some (folder_identity s)) n f}"
  have "set (all_refs nodes) = (\<Union>s \<in> ?top. insert (ref_of account s) (set (all_refs (kids s))))"
    unfolding refs by auto
  also have "\<dots> = (\<Union>s \<in> ?top. insert (ref_of account s) (ref_of account ` ?below s))"
    by (intro SUP_cong refl) (use below in auto)
  also have "\<dots> = ref_of account ` (?top \<union> (\<Union>s \<in> ?top. ?below s))" by blast
  also have "?top \<union> (\<Union>s \<in> ?top. ?below s) = {f. \<exists>n. nested folders parent n f}" using nested by blast
  finally show ?case by auto
qed simp

lemma filled_distinct:
  assumes "distinct (map folder_identity folders)"
  shows "fill_folders fuel collation account parent folders = Some nodes \<Longrightarrow> at_level folders parent d \<Longrightarrow> distinct (all_refs nodes)"
proof (induction fuel arbitrary: parent nodes d)
  case (Suc fuel)
  obtain kids where kids: "\<And>f. f \<in> set folders \<Longrightarrow> folder_parent f = parent \<Longrightarrow>
      fill_folders fuel collation account (Some (folder_identity f)) folders = Some (kids f)"
    and refs: "all_refs nodes = concat (map (\<lambda>f. ref_of account f # all_refs (kids f)) (siblings_of collation folders parent))"
    using filled_refs [OF Suc.prems(1)] by auto
  let ?refs = "\<lambda>f. ref_of account f # all_refs (kids f)"
  have level: "nested folders None d f" if "f \<in> set folders" "folder_parent f = parent" for f
    using level_nested [OF Suc.prems(2) that] .
  have below: "\<exists>g n. r = ref_of account g \<and> nested folders (Some (folder_identity s)) n g" if "r \<in> set (all_refs (kids s))"
    "s \<in> set folders" "folder_parent s = parent" for r s
    using filled_set [OF kids [OF that(2,3)]] that(1) by auto
  have deeper: "nested folders None (Suc d + n) g" if "nested folders (Some (folder_identity s)) n g" "s \<in> set folders" "folder_parent s = parent"
    for n g s using nested_under [OF that(1) level [OF that(2,3)]] .
  have same: "g = g'" if "folder_identity g = folder_identity g'" "nested folders None n g" "nested folders None m g'" for g g' n m
    using same_folder [OF assms] nested_listed that by metis
  have one: "distinct (?refs s)" if s: "s \<in> set folders" "folder_parent s = parent" for s
  proof -
    have "ref_of account s \<notin> set (all_refs (kids s))"
    proof
      assume "ref_of account s \<in> set (all_refs (kids s))"
      from below [OF this s] obtain g n where g: "folder_identity s = folder_identity g" "nested folders (Some (folder_identity s)) n g"
        by auto
      have "g = s" using same [OF g(1) [symmetric] deeper [OF g(2) s] level [OF s]] .
      then show False using depth_unique [OF assms deeper [OF g(2) s], of d] level [OF s] by simp
    qed
    then show ?thesis using Suc.IH [OF kids [OF s] level_below [OF Suc.prems(2) s]] by simp
  qed
  have apart: "set (?refs s) \<inter> set (?refs t) = {}" if s: "s \<in> set folders" "folder_parent s = parent"
    and t: "t \<in> set folders" "folder_parent t = parent" and "folder_identity s \<noteq> folder_identity t" for s t
  proof -
    have own: "ref_of account s \<notin> set (all_refs (kids t))" if s: "s \<in> set folders" "folder_parent s = parent"
      and t: "t \<in> set folders" "folder_parent t = parent" for s t
    proof
      assume "ref_of account s \<in> set (all_refs (kids t))"
      from below [OF this t] obtain g n where g: "folder_identity s = folder_identity g" "nested folders (Some (folder_identity t)) n g"
        by auto
      have "g = s" using same [OF g(1) [symmetric] deeper [OF g(2) t] level [OF s]] .
      then show False using depth_unique [OF assms deeper [OF g(2) t], of d] level [OF s] by simp
    qed
    have "set (all_refs (kids s)) \<inter> set (all_refs (kids t)) = {}"
    proof (rule equals0I)
      fix r assume r: "r \<in> set (all_refs (kids s)) \<inter> set (all_refs (kids t))"
      from below [OF IntD1 [OF r] s] obtain g n where g: "r = ref_of account g" "nested folders (Some (folder_identity s)) n g" by auto
      from below [OF IntD2 [OF r] t] obtain g' m where g': "r = ref_of account g'" "nested folders (Some (folder_identity t)) m g'" by auto
      have "g' = g" using same [OF _ deeper [OF g'(2) t] deeper [OF g(2) s]] g(1) g'(1) by simp
      then have "n = m" using depth_unique [OF assms deeper [OF g(2) s] deeper [OF g'(2) [unfolded \<open>g' = g\<close>] t]] by simp
      then have "folder_identity s = folder_identity t" using ancestor_unique [OF assms g(2)] g'(2) \<open>g' = g\<close> by simp
      then show False using that by simp
    qed
    then show ?thesis using own [OF s t] own [OF t s] that by auto
  qed
  have "distinct (concat (map ?refs ss))" if "distinct (map folder_identity ss)" "\<forall>s \<in> set ss. s \<in> set folders \<and> folder_parent s = parent" for ss
    using that
  proof (induction ss)
    case (Cons s ss)
    have "set (?refs s) \<inter> set (?refs t) = {}" if "t \<in> set ss" for t
      using Cons.prems that by (intro apart) (auto simp: image_iff)
    then have "set (?refs s) \<inter> set (concat (map ?refs ss)) = {}" by (simp only: set_concat set_map) blast
    then show ?case using Cons one [of s] by (simp only: list.map concat.simps distinct_append list.set distinct.simps) simp
  qed simp
  then show ?case unfolding refs using siblings_distinct [OF assms] by simp
qed simp

section \<open>The rows\<close>

lemma folder_rows_cong:
  "(\<And>ref. ref \<in> set (node_refs node) \<Longrightarrow> SelectedMailbox ref \<in> set c \<longleftrightarrow> SelectedMailbox ref \<in> set c') \<Longrightarrow>
    folder_rows c node = folder_rows c' node"
proof (induction node)
  case (FolderNode ref title icon selectable children)
  have "map (folder_rows c) children = map (folder_rows c') children"
    using FolderNode by (intro map_cong refl) auto
  moreover have "SelectedMailbox ref \<in> set c \<longleftrightarrow> SelectedMailbox ref \<in> set c'" using FolderNode.prems by simp
  ultimately show ?case by (simp only: folder_rows.simps)
qed

lemma folder_rows_keys: "row \<in> set (folder_rows c node) \<Longrightarrow> \<exists>ref \<in> set (node_refs node). fst row = SelectedMailbox ref"
proof (induction node)
  case (FolderNode ref title icon selectable children)
  then show ?case by (auto split: if_splits)
qed

lemma folder_rows_all: "row \<in> set (folder_rows c node) \<Longrightarrow> row \<in> set (folder_rows [] node)"
proof (induction node)
  case (FolderNode ref title icon selectable children)
  then show ?case by (auto split: if_splits)
qed

lemma expanded_keys: "map fst (folder_rows [] node) = map SelectedMailbox (node_refs node)"
proof (induction node)
  case (FolderNode ref title icon selectable children)
  then have "map (map fst \<circ> folder_rows []) children = map (map SelectedMailbox \<circ> node_refs) children" by simp
  then show ?case by (simp only: folder_rows.simps node_refs.simps map_concat list.map fst_conv list.set empty_iff if_False map_map)
qed

definition node_ok :: "account_id \<Rightarrow> account_node \<Rightarrow> bool" where
  "node_ok account node \<longleftrightarrow> distinct (map folder_identity (an_folders node)) \<and> distinct (all_refs (an_children node)) \<and>
     set (all_refs (an_children node)) = {ref_of account f | f n. nested (an_folders node) None n f}"

lemma node_accounts:
  assumes "node_ok account node" and "child \<in> set (an_children node)" and "ref \<in> set (node_refs child)"
  shows "ref_account ref = account"
proof -
  have "ref \<in> set (all_refs (an_children node))" using assms(2,3) by auto
  also have "\<dots> = {ref_of account f | f n. nested (an_folders node) None n f}" using assms(1) by (simp only: node_ok_def)
  finally show ?thesis by (auto simp: ref_of_def)
qed

lemma account_rows_key:
  assumes "row \<in> set (account_rows c (account, node))" and "node_ok account node"
  shows "selection_account (fst row) = account"
  using assms by (auto simp: account_rows_def selection_account_def split: if_splits dest!: folder_rows_keys dest: node_accounts [OF assms(2)])

lemma account_rows_cong:
  assumes "node_ok account node" and "\<And>key. selection_account key = account \<Longrightarrow> key \<in> set c \<longleftrightarrow> key \<in> set c'"
  shows "account_rows c (account, node) = account_rows c' (account, node)"
proof -
  have "map (folder_rows c) (an_children node) = map (folder_rows c') (an_children node)"
    using node_accounts [OF assms(1)] assms(2) [of "SelectedMailbox _"]
    by (intro map_cong refl folder_rows_cong) (simp add: selection_account_def)
  moreover have "SelectedAccount account \<in> set c \<longleftrightarrow> SelectedAccount account \<in> set c'"
    using assms(2) [of "SelectedAccount account"] by (simp add: selection_account_def)
  ultimately show ?thesis by (simp only: account_rows_def prod.case)
qed

lemma account_rows_all: "row \<in> set (account_rows c entry) \<Longrightarrow> row \<in> set (account_rows [] entry)"
  by (auto simp: account_rows_def split: prod.splits if_splits dest: folder_rows_all)

lemma expanded_account_keys:
  "map fst (account_rows [] (account, node)) = SelectedAccount account # map SelectedMailbox (all_refs (an_children node))"
proof -
  have "map (map fst \<circ> folder_rows []) nodes = map (map SelectedMailbox \<circ> node_refs) nodes" for nodes
    by (simp add: expanded_keys)
  then show ?thesis
    by (simp only: account_rows_def prod.case map_concat list.map fst_conv list.set empty_iff if_False map_map)
qed

definition nodes_ok :: "(account_id \<times> account_node) list \<Rightarrow> bool" where
  "nodes_ok nodes \<longleftrightarrow> distinct (map fst nodes) \<and> (\<forall>(account, node) \<in> set nodes. node_ok account node)"

lemma expanded_distinct: "nodes_ok nodes \<Longrightarrow> distinct (map fst (concat (map (account_rows []) nodes)))"
proof (induction nodes)
  case (Cons entry nodes)
  obtain account node where entry: "entry = (account, node)" by (cases entry)
  have ok: "node_ok account node" "nodes_ok nodes" "account \<notin> fst ` set nodes" using Cons.prems by (auto simp: nodes_ok_def entry)
  have "distinct (map fst (account_rows [] entry))"
    using ok(1) by (auto simp: entry expanded_account_keys node_ok_def distinct_map inj_on_def)
  moreover have "fst row \<noteq> fst row'" if own: "row \<in> set (account_rows [] entry)" and others: "row' \<in> set (concat (map (account_rows []) nodes))" for row row'
  proof -
    obtain other node' where other: "(other, node') \<in> set nodes" "row' \<in> set (account_rows [] (other, node'))" using others by auto
    have "selection_account (fst row') = other" using account_rows_key [OF other(2)] ok(2) other(1) by (auto simp: nodes_ok_def)
    moreover have "selection_account (fst row) = account" using account_rows_key own ok(1) by (simp add: entry)
    moreover have "other \<noteq> account" using ok(3) other(1) by force
    ultimately show ?thesis by auto
  qed
  ultimately show ?case using Cons.IH [OF ok(2)] by fastforce
qed simp

lemma row_unique:
  assumes "nodes_ok (sb_nodes sb)" and "row \<in> set (concat (map (account_rows c) (sb_nodes sb)))"
    and "row' \<in> set (concat (map (account_rows c') (sb_nodes sb)))" and "fst row = fst row'"
  shows "row = row'"
proof (rule distinct_map_unique [OF expanded_distinct [OF assms(1)] _ _ assms(4)])
  show "row \<in> set (concat (map (account_rows []) (sb_nodes sb)))" using assms(2) account_rows_all by fastforce
  show "row' \<in> set (concat (map (account_rows []) (sb_nodes sb)))" using assms(3) account_rows_all by fastforce
qed

lemma tree_rows_in: "entry \<in> set (sb_nodes sb) \<Longrightarrow> row \<in> set (account_rows (sb_collapsed sb) entry) \<Longrightarrow> row \<in> set (tree_rows sb)"
  by (auto simp: tree_rows_def)

lemma tree_row_of_Some: "tree_row_of sb key = Some row \<Longrightarrow> row \<in> set (tree_rows sb) \<and> fst row = key"
  unfolding tree_row_of_def by (drule find_Some_mem) simp

lemma tree_row_of_listed: "row \<in> set (tree_rows sb) \<Longrightarrow> tree_row_of sb (fst row) \<noteq> None"
  unfolding tree_row_of_def by (auto simp: find_None_iff')

section \<open>The invariant\<close>

definition selection_listed :: "sidebar \<Rightarrow> bool" where
  "selection_listed sb \<longleftrightarrow> (\<forall>s. sidebar_selection sb = Some s \<longrightarrow> (\<exists>title. (s, True, title) \<in> set (tree_rows sb)))"

definition sidebar_ok :: "sidebar \<Rightarrow> bool" where
  "sidebar_ok sb \<longleftrightarrow> accounts_ok (sb_accounts sb) \<and> map fst (sb_nodes sb) = map fst (al_visible (sb_accounts sb)) \<and>
     nodes_ok (sb_nodes sb) \<and> selection_listed sb \<and> sb_marked sb = sidebar_selection sb"

inductive sidebar_reached :: "(string \<Rightarrow> string) \<Rightarrow> sidebar \<Rightarrow> bool" for collation where
  start: "sidebar_reached collation new_sidebar"
| updated: "sidebar_reached collation sb \<Longrightarrow> sidebar_reached collation (sidebar_update update sb)"
| folders: "sidebar_reached collation sb \<Longrightarrow> distinct (map folder_identity listed) \<Longrightarrow>
    show_folders collation account listed sb = Some (gone, sb') \<Longrightarrow> sidebar_reached collation sb'"
| selected: "sidebar_reached collation sb \<Longrightarrow> (key, True, title) \<in> set (tree_rows sb) \<Longrightarrow> sidebar_reached collation (snd (select_row key sb))"
| collapsed: "sidebar_reached collation sb \<Longrightarrow> sidebar_reached collation (snd (collapse_rows rows sb))"
| activated: "sidebar_reached collation sb \<Longrightarrow> sidebar_reached collation (show_list_on_narrow_window sb)"
| told: "sidebar_reached collation sb \<Longrightarrow> sidebar_reached collation (show_toast title sb)"

lemma marked_shown: "selection_listed sb \<Longrightarrow> sb_marked (show_selection sb) = sidebar_selection sb"
  using tree_row_of_listed by (fastforce simp: show_selection_def sidebar_selection_def selection_listed_def split: option.split)

lemma show_selection_same [simp]:
  "sb_accounts (show_selection sb) = sb_accounts sb" "sb_nodes (show_selection sb) = sb_nodes sb"
  "sb_collapsed (show_selection sb) = sb_collapsed sb" "tree_rows (show_selection sb) = tree_rows sb"
  "sidebar_selection (show_selection sb) = sidebar_selection sb" "selection_listed (show_selection sb) = selection_listed sb"
  by (simp_all add: show_selection_def tree_rows_def sidebar_selection_def selection_listed_def)

lemma toast_ok: "sidebar_ok (show_toast title sb) \<longleftrightarrow> sidebar_ok sb"
  by (simp add: sidebar_ok_def show_toast_def selection_listed_def tree_rows_def sidebar_selection_def)

lemma toasts_ok: "sidebar_ok (foldl (\<lambda>sb notice. show_toast (f notice) sb) sb notices) \<longleftrightarrow> sidebar_ok sb"
  by (induction notices arbitrary: sb) (simp_all add: toast_ok)

lemma shown_ok: "accounts_ok (sb_accounts sb) \<Longrightarrow> map fst (sb_nodes sb) = map fst (al_visible (sb_accounts sb)) \<Longrightarrow>
    nodes_ok (sb_nodes sb) \<Longrightarrow> selection_listed sb \<Longrightarrow> sidebar_ok (show_selection sb)"
  by (simp add: sidebar_ok_def marked_shown)

lemma update_selection: "al_selection (snd (apply_update update al)) = None \<or> al_selection (snd (apply_update update al)) = al_selection al"
proof -
  have assigned: "al_selection (assign_display_labels al') = al_selection al'" for al' by (simp add: assign_display_labels_def Let_def)
  show ?thesis
    by (simp add: apply_update_def Let_def case_prod_beta assigned hide_removed_or_disabled_accounts_def split: option.split)
qed

lemma new_node_ok: "node_ok account new_account_node"
  by (auto simp: node_ok_def new_account_node_def dest: nested_listed)

lemma shown_node [simp]: "node_ok account (show_account row pending node) = node_ok account node"
  "an_selectable (show_account row pending node) = an_selectable node" "an_children (show_account row pending node) = an_children node"
  by (simp_all add: show_account_def node_ok_def)

lemma follow_nodes: "map fst (sb_nodes (follow_accounts sb)) = map fst (al_visible (sb_accounts sb))"
  by (simp add: follow_accounts_def Let_def case_prod_beta)

lemma follow_same [simp]: "sb_accounts (follow_accounts sb) = sb_accounts sb" "sidebar_selection (follow_accounts sb) = sidebar_selection sb"
  by (simp_all add: follow_accounts_def Let_def sidebar_selection_def)

lemma follow_ok:
  assumes "nodes_ok (sb_nodes sb)" and "accounts_ok (sb_accounts sb)"
  shows "nodes_ok (sb_nodes (follow_accounts sb))"
proof -
  have "distinct (map fst (sb_nodes (follow_accounts sb)))"
    using assms(2) unfolding follow_nodes by (simp add: accounts_ok_def strict_sorted_iff)
  moreover have "node_ok account node" if "map_of (sb_nodes sb) account = Some node" for account node
    using assms(1) map_of_SomeD [OF that] by (auto simp: nodes_ok_def)
  ultimately show ?thesis
    by (auto simp: nodes_ok_def follow_accounts_def Let_def new_node_ok split: option.split)
qed

lemma follow_listed:
  assumes "nodes_ok (sb_nodes sb)" and "accounts_ok (sb_accounts sb)" and listed: "(s, True, title) \<in> set (tree_rows sb)"
    and visible: "is_visible (sb_accounts sb) (selection_account s)"
  shows "\<exists>title. (s, True, title) \<in> set (tree_rows (follow_accounts sb))"
proof -
  obtain account node where node: "(account, node) \<in> set (sb_nodes sb)" "(s, True, title) \<in> set (account_rows (sb_collapsed sb) (account, node))"
    using listed by (auto simp: tree_rows_def)
  have ok: "node_ok account node" "map_of (sb_nodes sb) account = Some node" using assms(1) node(1) by (auto simp: nodes_ok_def)
  have account: "selection_account s = account" using account_rows_key [OF node(2) ok(1)] by simp
  then obtain row where row: "map_of (al_visible (sb_accounts sb)) account = Some row" using visible by (auto simp: is_visible_def)
  let ?node = "show_account row (al_retry_pending (sb_accounts sb)) node"
  have "(account, ?node) \<in> set (sb_nodes (follow_accounts sb))"
    using map_of_SomeD [OF row] ok(2) by (force simp: follow_accounts_def Let_def)
  moreover have "account_rows (sb_collapsed (follow_accounts sb)) (account, node) = account_rows (sb_collapsed sb) (account, node)"
    by (rule account_rows_cong [OF ok(1)]) (auto simp: follow_accounts_def Let_def row)
  moreover have "\<exists>title. (s, True, title) \<in> set (account_rows c (account, ?node))" if "(s, True, title) \<in> set (account_rows c (account, node))" for c
  proof (cases "s = SelectedAccount account \<and> an_selectable node")
    case False
    then have "SelectedAccount account \<notin> set c" "\<exists>child \<in> set (an_children node). (s, True, title) \<in> set (folder_rows c child)"
      using that by (auto simp: account_rows_def split: if_splits)
    then show ?thesis by (auto simp: account_rows_def)
  qed (auto simp: account_rows_def)
  ultimately show ?thesis using node(2) tree_rows_in [of "(account, ?node)" "follow_accounts sb"] by metis
qed

lemma sidebar_update_ok:
  assumes "sidebar_ok sb"
  shows "sidebar_ok (sidebar_update update sb)"
proof -
  obtain notices accounts where run: "apply_update update (sb_accounts sb) = (notices, accounts)" by (cases "apply_update update (sb_accounts sb)")
  have ok: "accounts_ok accounts" using apply_update_ok [of "sb_accounts sb" update] assms run by (simp add: sidebar_ok_def)
  let ?sb = "sb\<lparr>sb_accounts := accounts\<rparr>"
  have nodes: "nodes_ok (sb_nodes ?sb)" "accounts_ok (sb_accounts ?sb)" using assms ok by (simp_all add: sidebar_ok_def)
  have "selection_listed (follow_accounts ?sb)"
    unfolding selection_listed_def
  proof (intro allI impI)
    fix s assume "sidebar_selection (follow_accounts ?sb) = Some s"
    then have s: "al_selection accounts = Some s" by (simp add: sidebar_selection_def)
    then have "sidebar_selection sb = Some s"
      using update_selection [of update "sb_accounts sb"] run by (auto simp: sidebar_selection_def)
    then obtain title where "(s, True, title) \<in> set (tree_rows ?sb)"
      using assms by (auto simp: sidebar_ok_def selection_listed_def tree_rows_def)
    moreover have "is_visible (sb_accounts ?sb) (selection_account s)" using ok s by (simp add: accounts_ok_def selection_ok_def)
    ultimately show "\<exists>title. (s, True, title) \<in> set (tree_rows (follow_accounts ?sb))" using follow_listed [OF nodes] by blast
  qed
  then have "sidebar_ok (show_selection (follow_accounts ?sb))"
    using follow_nodes [of ?sb] follow_ok [OF nodes] ok by (intro shown_ok) simp_all
  then show ?thesis by (simp add: sidebar_update_def run Let_def toasts_ok)
qed

lemma folders_sorted: "distinct (map folder_identity listed) \<Longrightarrow> distinct (map folder_identity (sort_key folder_identity listed))"
  by (simp add: distinct_map)

lemma built_node_ok:
  assumes "distinct (map folder_identity folders)" and "fill_folders fuel collation account None folders = Some children"
  shows "node_ok account (node\<lparr>an_children := children, an_selectable := selectable, an_hide_expander := hide, an_folders := folders\<rparr>)"
  using filled_distinct [OF assms, of 0] filled_set [OF assms(2)] assms(1) by (simp add: node_ok_def at_level_def)

lemma replaced_nodes [simp]: "map fst (replace_node account node nodes) = map fst nodes"
  by (induction nodes) (auto simp: replace_node_def)

lemma clear_accounts_ok: "accounts_ok al \<Longrightarrow> accounts_ok (clear_selection al)"
  by (simp add: clear_selection_def accounts_ok_def selection_ok_def numbers_ok_def)

lemma show_folders_ok:
  assumes "sidebar_ok sb" and "distinct (map folder_identity listed)" and "show_folders collation account listed sb = Some (gone, sb')"
  shows "sidebar_ok sb'"
proof (cases "map_of (sb_nodes sb) account")
  case None
  then show ?thesis using assms by (simp add: show_folders_def)
next
  case (Some node)
  let ?folders = "sort_key folder_identity listed"
  show ?thesis
  proof (cases "an_folders node = ?folders")
    case True
    then show ?thesis using assms Some by (simp add: show_folders_def Let_def)
  next
    case False
    obtain children where children: "fill_folders (Suc (length ?folders)) collation account None ?folders = Some children"
      using assms(3) Some False by (auto simp: show_folders_def Let_def split: option.splits)
    let ?node = "node\<lparr>an_children := children, an_selectable := (\<not> (\<exists>f \<in> set ?folders. folder_selectable f)),
                      an_hide_expander := (children = []), an_folders := ?folders\<rparr>"
    let ?keep = "\<lambda>key. case key of SelectedMailbox folder \<Rightarrow> ref_account folder \<noteq> account | _ \<Rightarrow> True"
    obtain sb1 where sb1: "sb1 = sb\<lparr>sb_nodes := replace_node account ?node (sb_nodes sb), sb_collapsed := filter ?keep (sb_collapsed sb)\<rparr>"
      by simp
    have gone: "gone = (case sidebar_selection sb1 of Some s \<Rightarrow> selection_account s = account \<and> \<not> shows_selectable sb1 s | None \<Rightarrow> False)"
      and sb': "sb' = show_selection (if gone then sb1\<lparr>sb_accounts := clear_selection (sb_accounts sb1)\<rparr> else sb1)"
    proof -
      have "Some (case sidebar_selection sb1 of Some s \<Rightarrow> selection_account s = account \<and> \<not> shows_selectable sb1 s | None \<Rightarrow> False,
          show_selection (if case sidebar_selection sb1 of Some s \<Rightarrow> selection_account s = account \<and> \<not> shows_selectable sb1 s | None \<Rightarrow> False
            then sb1\<lparr>sb_accounts := clear_selection (sb_accounts sb1)\<rparr> else sb1)) = Some (gone, sb')"
        using assms(3) False by (simp only: show_folders_def Some option.case Let_def children if_False sb1)
      then show "gone = (case sidebar_selection sb1 of Some s \<Rightarrow> selection_account s = account \<and> \<not> shows_selectable sb1 s | None \<Rightarrow> False)"
        and "sb' = show_selection (if gone then sb1\<lparr>sb_accounts := clear_selection (sb_accounts sb1)\<rparr> else sb1)"
        by auto
    qed
    have built: "node_ok account ?node" by (rule built_node_ok [OF folders_sorted [OF assms(2)] children])
    have nodes: "nodes_ok (sb_nodes sb1)"
      using assms(1) built by (auto simp: sidebar_ok_def nodes_ok_def sb1) (auto simp: replace_node_def)
    have listed: "selection_listed sb1" if "\<not> gone"
      unfolding selection_listed_def
    proof (intro allI impI)
      fix s assume s: "sidebar_selection sb1 = Some s"
      show "\<exists>title. (s, True, title) \<in> set (tree_rows sb1)"
      proof (cases "selection_account s = account")
        case True
        then have "shows_selectable sb1 s" using gone that s by simp
        then show ?thesis using tree_row_of_Some [of sb1 s] by (auto simp: shows_selectable_def split: option.splits)
      next
        case False
        have "sidebar_selection sb = Some s" using s by (simp add: sb1 sidebar_selection_def)
        then obtain title other old where old: "(other, old) \<in> set (sb_nodes sb)" "(s, True, title) \<in> set (account_rows (sb_collapsed sb) (other, old))"
          using assms(1) by (auto simp: sidebar_ok_def selection_listed_def tree_rows_def)
        have ok: "node_ok other old" using assms(1) old(1) by (auto simp: sidebar_ok_def nodes_ok_def)
        have other: "other \<noteq> account" using account_rows_key [OF old(2) ok] False by simp
        have "account_rows (sb_collapsed sb1) (other, old) = account_rows (sb_collapsed sb) (other, old)"
          using other by (intro account_rows_cong [OF ok]) (auto simp: sb1 selection_account_def split: selection.splits)
        moreover have "(other, old) \<in> set (sb_nodes sb1)" using old(1) other by (force simp: sb1 replace_node_def)
        ultimately show ?thesis using old(2) tree_rows_in [of "(other, old)" sb1] by auto
      qed
    qed
    have cleared: "selection_listed (sb1\<lparr>sb_accounts := clear_selection (sb_accounts sb1)\<rparr>)"
      by (simp add: selection_listed_def sidebar_selection_def clear_selection_def)
    show ?thesis
      unfolding sb' using assms(1) nodes listed cleared
      by (intro shown_ok) (auto simp: sidebar_ok_def sb1 clear_accounts_ok, simp_all add: clear_selection_def)
  qed
qed

lemma select_row_ok:
  assumes "sidebar_ok sb" and "(key, True, title) \<in> set (tree_rows sb)"
  shows "sidebar_ok (snd (select_row key sb))"
proof -
  obtain account node where node: "(account, node) \<in> set (sb_nodes sb)" "(key, True, title) \<in> set (account_rows (sb_collapsed sb) (account, node))"
    using assms(2) by (auto simp: tree_rows_def)
  have "node_ok account node" using assms(1) node(1) by (auto simp: sidebar_ok_def nodes_ok_def)
  then have "selection_account key = account" using account_rows_key [OF node(2)] by simp
  moreover have "account \<in> set (map fst (al_visible (sb_accounts sb)))"
  proof -
    have "account \<in> set (map fst (sb_nodes sb))" using node(1) by force
    then show ?thesis using assms(1) by (simp only: sidebar_ok_def)
  qed
  ultimately have visible: "is_visible (sb_accounts sb) (selection_account key)"
    by (simp add: is_visible_def map_of_eq_None_iff)
  have selected: "accounts_ok (select key (sb_accounts sb))" "al_selection (select key (sb_accounts sb)) = Some key"
    "al_visible (select key (sb_accounts sb)) = al_visible (sb_accounts sb)"
    using assms(1) visible by (auto simp: select_def sidebar_ok_def accounts_ok_def selection_ok_def numbers_ok_def is_visible_def)
  show ?thesis
    using assms selected by (auto simp: select_row_def sidebar_ok_def selection_listed_def sidebar_selection_def tree_rows_def)
qed

lemma collapse_ok:
  assumes "sidebar_ok sb"
  shows "sidebar_ok (snd (collapse_rows rows sb))"
proof -
  let ?sb = "sb\<lparr>sb_collapsed := rows\<rparr>"
  have listed: "selection_listed ?sb" if shown: "\<And>s. sidebar_selection ?sb = Some s \<Longrightarrow> tree_row_of ?sb s \<noteq> None"
    unfolding selection_listed_def
  proof (intro allI impI)
    fix s assume s: "sidebar_selection ?sb = Some s"
    then obtain row where row: "row \<in> set (tree_rows ?sb)" "fst row = s" using shown [OF s] tree_row_of_Some [of ?sb s] by blast
    obtain title where title: "(s, True, title) \<in> set (tree_rows sb)"
      using assms s by (auto simp: sidebar_ok_def selection_listed_def sidebar_selection_def)
    have "row = (s, True, title)"
      by (rule row_unique [of sb _ rows _ "sb_collapsed sb"]) (use assms row title in \<open>auto simp: sidebar_ok_def tree_rows_def\<close>)
    then show "\<exists>title. (s, True, title) \<in> set (tree_rows ?sb)" using row(1) by blast
  qed
  show ?thesis
  proof (cases "case sidebar_selection ?sb of Some s \<Rightarrow> tree_row_of ?sb s = None | None \<Rightarrow> False")
    case True
    then show ?thesis
      using assms clear_accounts_ok [of "sb_accounts sb"]
      by (simp add: collapse_rows_def clear_hidden_selection_def sidebar_ok_def selection_listed_def sidebar_selection_def clear_selection_def)
  next
    case False
    then have "selection_listed ?sb" by (intro listed) (auto split: option.splits)
    then show ?thesis
      using assms False by (simp add: collapse_rows_def clear_hidden_selection_def sidebar_ok_def sidebar_selection_def)
  qed
qed

lemma sidebar_reached_ok: "sidebar_reached collation sb \<Longrightarrow> sidebar_ok sb"
proof (induction rule: sidebar_reached.induct)
  case start
  show ?case
    using accounts_start_ok by (simp add: sidebar_ok_def new_sidebar_def nodes_ok_def selection_listed_def sidebar_selection_def new_account_list_def)
next
  case (activated sb)
  then show ?case
    by (auto simp: show_list_on_narrow_window_def sidebar_ok_def selection_listed_def sidebar_selection_def tree_rows_def)
qed (auto simp: sidebar_update_ok show_folders_ok select_row_ok collapse_ok toast_ok)

lemma nested_same_set: "nested folders parent n f \<Longrightarrow> set folders = set listed \<Longrightarrow> nested listed parent n f"
  by (induction rule: nested.induct) (auto intro: nested.intros)

lemma show_folders_total:
  assumes "distinct (map folder_identity listed)" and "map_of (sb_nodes sb) account = Some node"
  obtains gone sb' where "show_folders collation account listed sb = Some (gone, sb')"
    and "\<exists>node'. map_of (sb_nodes sb') account = Some node' \<and> an_folders node' = sort_key folder_identity listed"
proof -
  let ?folders = "sort_key folder_identity listed"
  have "fill_folders (Suc (length ?folders)) collation account None ?folders \<noteq> None"
    by (rule fill_ends [OF folders_sorted [OF assms(1)], where d = 0]) (simp_all add: at_level_def)
  then obtain children where children: "fill_folders (Suc (length ?folders)) collation account None ?folders = Some children" by blast
  have replaced: "map_of (replace_node account node' nodes) account = Some node'" if "map_of nodes account = Some node" for node' nodes
    using that by (induction nodes) (auto simp: replace_node_def)
  show thesis
  proof (cases "an_folders node = ?folders")
    case True
    then show thesis using assms(2) by (intro that [of False sb]) (simp_all add: show_folders_def Let_def)
  next
    case False
    then show thesis
      using assms(2) children replaced [OF assms(2)]
      by (cases "show_folders collation account listed sb")
        (auto intro!: that simp: show_folders_def Let_def simp del: fill_folders.simps)
  qed
qed

text \<open>An account whose folders are a tree; a folder of another branch names a parent that is not listed.\<close>

definition demo_folder :: "string \<Rightarrow> string option \<Rightarrow> folder" where
  "demo_folder identity parent = \<lparr>folder_identity = identity, folder_name = identity, folder_parent = parent, folder_role = None, folder_selectable = True\<rparr>"

definition demo_tree_folders :: "folder list" where
  "demo_tree_folders = [demo_folder ''a/x'' (Some ''a''), demo_folder ''INBOX'' None, demo_folder ''a'' None, demo_folder ''lost'' (Some ''gone'')]"

definition demo_sidebar :: sidebar where
  "demo_sidebar = sidebar_update (demo_update demo_accounts) new_sidebar"

definition demo_filled :: sidebar where
  "demo_filled = snd (the (show_folders id (AccountId ''a'') demo_tree_folders demo_sidebar))"

definition demo_selected :: sidebar where
  "demo_selected = snd (select_row (SelectedMailbox \<lparr>ref_account = AccountId ''a'', ref_identity = ''a/x''\<rparr>) demo_filled)"

lemma demo_sidebar_reached: "sidebar_reached id demo_sidebar"
  unfolding demo_sidebar_def by (rule sidebar_reached.updated [OF sidebar_reached.start])

lemma demo_selected_reached: "sidebar_reached id demo_selected"
proof -
  have folders: "distinct (map folder_identity demo_tree_folders)" by code_simp
  have "show_folders id (AccountId ''a'') demo_tree_folders demo_sidebar = Some (False, demo_filled)"
    unfolding demo_filled_def by code_simp
  from sidebar_reached.folders [OF demo_sidebar_reached folders this] have "sidebar_reached id demo_filled" .
  moreover have "(SelectedMailbox \<lparr>ref_account = AccountId ''a'', ref_identity = ''a/x''\<rparr>, True, ''a/x'') \<in> set (tree_rows demo_filled)"
    by code_simp
  ultimately show ?thesis unfolding demo_selected_def by (rule sidebar_reached.selected)
qed

section \<open>Claims\<close>

text \<open>
  C23: a stored folder list always becomes a tree, and the account's rows then hold exactly the folders
  whose parents are all listed, each once, however deep they nest and whatever names them.
\<close>

theorem folders_shown_once:
  assumes "sidebar_reached collation sb" and "distinct (map folder_identity listed)" and "map_of (sb_nodes sb) account = Some node"
  shows "\<exists>gone sb' node'. show_folders collation account listed sb = Some (gone, sb') \<and> map_of (sb_nodes sb') account = Some node' \<and>
    distinct (all_refs (an_children node')) \<and>
    set (all_refs (an_children node')) = {\<lparr>ref_account = account, ref_identity = folder_identity f\<rparr> | f n. nested listed None n f}"
proof -
  obtain gone sb' node' where run: "show_folders collation account listed sb = Some (gone, sb')"
    and node': "map_of (sb_nodes sb') account = Some node'" "an_folders node' = sort_key folder_identity listed"
    using show_folders_total [OF assms(2,3)] by metis
  have "node_ok account node'"
    using sidebar_reached_ok [OF sidebar_reached.folders [OF assms(1,2) run]] map_of_SomeD [OF node'(1)]
    by (auto simp: sidebar_ok_def nodes_ok_def)
  moreover have "nested (an_folders node') None n f = nested listed None n f" for n f
    using nested_same_set [of "an_folders node'" None n f listed] nested_same_set [of listed None n f "an_folders node'"] by (auto simp: node'(2))
  ultimately show ?thesis using run node'(1) by (auto simp: node_ok_def ref_of_def)
qed

theorem folders_shown_once_witness:
  "\<exists>gone sb' node'. show_folders id (AccountId ''a'') demo_tree_folders demo_sidebar = Some (gone, sb') \<and>
     map_of (sb_nodes sb') (AccountId ''a'') = Some node' \<and> distinct (all_refs (an_children node'))"
proof -
  have folders: "distinct (map folder_identity demo_tree_folders)" by code_simp
  have "map_of (sb_nodes demo_sidebar) (AccountId ''a'') \<noteq> None" by code_simp
  then obtain node where node: "map_of (sb_nodes demo_sidebar) (AccountId ''a'') = Some node" by blast
  show ?thesis using folders_shown_once [OF demo_sidebar_reached folders node] by blast
qed

text \<open>
  C19: what is selected is always a row of the tree that can be selected, the one that is marked there; no
  two rows stand for the same account or folder, and the accounts are the shown ones in their order.
\<close>

theorem selection_is_a_row:
  assumes "sidebar_reached collation sb"
  shows "(case sidebar_selection sb of Some s \<Rightarrow> \<exists>title. (s, True, title) \<in> set (tree_rows sb) | None \<Rightarrow> True) \<and>
    sb_marked sb = sidebar_selection sb \<and> inj_on fst (set (tree_rows sb)) \<and> map fst (sb_nodes sb) = shown_accounts sb"
proof -
  note ok = sidebar_reached_ok [OF assms]
  have "inj_on fst (set (tree_rows sb))"
    using ok row_unique [of sb _ "sb_collapsed sb" _ "sb_collapsed sb"] unfolding inj_on_def sidebar_ok_def tree_rows_def by blast
  then show ?thesis using ok by (auto simp: sidebar_ok_def selection_listed_def shown_accounts_def split: option.split)
qed

theorem selection_is_a_row_witness:
  "sidebar_selection demo_selected = Some (SelectedMailbox \<lparr>ref_account = AccountId ''a'', ref_identity = ''a/x''\<rparr>) \<and>
   sb_marked demo_selected = sidebar_selection demo_selected"
proof
  show "sidebar_selection demo_selected = Some (SelectedMailbox \<lparr>ref_account = AccountId ''a'', ref_identity = ''a/x''\<rparr>)" by code_simp
  show "sb_marked demo_selected = sidebar_selection demo_selected" using selection_is_a_row [OF demo_selected_reached] by simp
qed

end
