(* ===== verification/Refreshes.thy ===== *)
theory Refreshes
  imports Load_Failures
begin

text \<open>
  How each account's latest refresh ended, and the one load that may run (crate \<open>mailbag\<close>,
  \<open>refreshes.rs\<close>). What cancels a load is modelled by whether it is still held.
\<close>

datatype refresh_outcome = OutcomeStored "incomplete_list option" | OutcomeFailed failure

record running_load =
  rl_account :: account_id
  rl_target :: load_target
  rl_cancellable :: bool

record refreshes =
  rf_outcomes :: "(account_id \<times> load_target \<times> refresh_outcome) list"
  rf_running :: "running_load option"

definition no_refreshes :: refreshes where
  "no_refreshes = \<lparr>rf_outcomes = [], rf_running = None\<rparr>"

definition outcome_of :: "refreshes \<Rightarrow> account_id \<Rightarrow> (load_target \<times> refresh_outcome) option" where
  "outcome_of rf account = map_of (rf_outcomes rf) account"

definition is_loading :: "refreshes \<Rightarrow> bool" where
  "is_loading rf \<longleftrightarrow> rf_running rf \<noteq> None"

definition loading_target :: "refreshes \<Rightarrow> account_id \<Rightarrow> load_target option" where
  "loading_target rf account = (case rf_running rf of
     Some running \<Rightarrow> if rl_account running = account then Some (rl_target running) else None
   | None \<Rightarrow> None)"

definition begin_load :: "account_id \<Rightarrow> load_target \<Rightarrow> refreshes \<Rightarrow> refreshes" where
  "begin_load account target rf = rf\<lparr>rf_running := Some \<lparr>rl_account = account, rl_target = target, rl_cancellable = True\<rparr>\<rparr>"

definition outcome_recorded :: "load_result \<Rightarrow> refresh_outcome option" where
  "outcome_recorded result = (case result of
     ResultCancelled \<Rightarrow> None
   | ResultStored incomplete \<Rightarrow> Some (OutcomeStored incomplete)
   | ResultFailed f \<Rightarrow> Some (OutcomeFailed f))"

definition end_load :: "account_id \<Rightarrow> load_result \<Rightarrow> refreshes \<Rightarrow> refreshes" where
  "end_load account result rf = (case rf_running rf of
     None \<Rightarrow> rf
   | Some running \<Rightarrow>
       if rl_account running \<noteq> account then rf
       else (let rf' = rf\<lparr>rf_running := None\<rparr>
             in if \<not> rl_cancellable running then rf'
                else case outcome_recorded result of
                  None \<Rightarrow> rf'
                | Some outcome \<Rightarrow> rf'\<lparr>rf_outcomes := ordered_update account (\<lambda>_. (rl_target running, outcome)) (rf_outcomes rf)\<rparr>))"

definition discard_excluded :: "(account_id \<Rightarrow> bool) \<Rightarrow> refreshes \<Rightarrow> refreshes" where
  "discard_excluded visible rf = rf\<lparr>
     rf_outcomes := filter (\<lambda>(account, _). visible account) (rf_outcomes rf),
     rf_running := map_option (\<lambda>running. if visible (rl_account running) then running else running\<lparr>rl_cancellable := False\<rparr>) (rf_running rf)\<rparr>"

definition cancel_load :: "refreshes \<Rightarrow> refreshes" where
  "cancel_load rf = rf\<lparr>rf_running := None\<rparr>"

end
