(* ===== verification/Window.thy ===== *)
theory Window
  imports Sidebar Refreshes Mail_List
begin

text \<open>
  The window (crate \<open>mailbag\<close>, \<open>window_ui.rs\<close>): what it reads of the store and when, what it shows, and
  the loads and the changes of flags it starts.

  GTK is not modelled: \<open>wi_screen\<close> is what \<open>render\<close> wrote last. The work the window gives to GIO's thread
  pool is in \<open>wi_pool\<close> until it answers; its answers are arguments of the functions that take them. The
  loads it starts are in \<open>wi_loads\<close>, their events come in the same way. A record of surroundings holds
  what a run cannot change: the locale's collation and GLib's escaping of markup.
\<close>

record surroundings =
  su_collation :: "string \<Rightarrow> string"
  su_escape :: "string \<Rightarrow> string"

section \<open>State\<close>

record flag_write =
  fw_account :: account_id
  fw_identity :: string
  fw_flag :: message_flag
  fw_wanted :: bool

record folder_lists_read =
  fl_latest :: nat
  fl_reading :: bool
  fl_failure :: "failure option"

text \<open>The rows a read found carry the number of that read, for the \<open>Rc\<close> that holds them.\<close>

datatype stored_mailbox =
    NotRead
  | Reading bool
  | StoredRead "(nat \<times> message_list_row list) option"
  | StoredReadFailed failure

record shown_mailbox =
  sm_folder :: "folder_ref option"
  sm_latest :: nat
  sm_stored :: stored_mailbox
  sm_rereading :: bool
  sm_read_due :: bool

datatype pool_work =
    ReadLists nat "account_id list"
  | ReadRows folder_ref nat
  | WriteFlag flag_write
  | ReadContent account_id string
  | DeleteOthers "account_id list"

type_synonym banner = "declared_failure \<times> retried_operation"

datatype shown_mail =
    ShownMessages folder_ref nat "message_list_row list" "banner option"
  | EmptyMailbox "banner option"
  | ShownFailed declared_failure retried_operation
  | ShownStatus string "string option"
  | ShownReading bool

text \<open>The widgets the window writes. The list's page is \<open>messages\<close>, \<open>empty\<close> or \<open>failed\<close>.\<close>

record screen =
  sc_title :: "string \<times> string"
  sc_page :: string
  sc_status :: "string \<times> string option"
  sc_retry_check :: "string option"
  sc_online_accounts :: bool
  sc_failure :: "string \<times> string"
  sc_failure_button :: "(string \<times> string) option"
  sc_banner :: "string option"
  sc_spinner :: bool
  sc_refresh_mailbox :: bool
  sc_refresh_account :: bool

record window =
  wi_sidebar :: sidebar
  wi_refreshes :: refreshes
  wi_lists :: folder_lists_read
  wi_shown :: shown_mailbox
  wi_mail :: mail_ui
  wi_flag_writes :: "flag_write list"
  wi_content_reads :: int
  wi_pool :: "pool_work list"
  wi_loads :: "(account_id \<times> mail_provider \<times> load_target) list"
  wi_screen :: screen

section \<open>Reads of the store\<close>

definition no_lists_read :: folder_lists_read where
  "no_lists_read = \<lparr>fl_latest = 0, fl_reading = False, fl_failure = None\<rparr>"

definition start_lists_read :: "folder_lists_read \<Rightarrow> nat \<times> folder_lists_read" where
  "start_lists_read fl = (fl_latest fl + 1, fl\<lparr>fl_latest := fl_latest fl + 1, fl_reading := True\<rparr>)"

definition finish_lists_read :: "nat \<Rightarrow> failure + 'a \<Rightarrow> folder_lists_read \<Rightarrow> bool \<times> folder_lists_read" where
  "finish_lists_read read answer fl =
     (if read \<noteq> fl_latest fl then (False, fl)
      else (True, fl\<lparr>fl_reading := False, fl_failure := (case answer of Inl f \<Rightarrow> Some f | Inr _ \<Rightarrow> None)\<rparr>))"

definition no_mailbox_shown :: shown_mailbox where
  "no_mailbox_shown = \<lparr>sm_folder = None, sm_latest = 0, sm_stored = NotRead, sm_rereading = False, sm_read_due = False\<rparr>"

definition holds :: "shown_mailbox \<Rightarrow> folder_ref \<Rightarrow> bool" where
  "holds sm folder \<longleftrightarrow> sm_folder sm = Some folder \<and> (case sm_stored sm of StoredRead _ \<Rightarrow> True | Reading _ \<Rightarrow> True | _ \<Rightarrow> False)"

definition is_reading :: "shown_mailbox \<Rightarrow> bool" where
  "is_reading sm \<longleftrightarrow> sm_rereading sm \<or> (case sm_stored sm of Reading _ \<Rightarrow> True | _ \<Rightarrow> False)"

definition start_read :: "folder_ref \<Rightarrow> shown_mailbox \<Rightarrow> nat \<times> shown_mailbox" where
  "start_read folder sm =
     (let again = (sm_folder sm = Some folder \<and> (case sm_stored sm of StoredRead (Some _) \<Rightarrow> True | Reading again \<Rightarrow> again | _ \<Rightarrow> False))
      in (sm_latest sm + 1,
          sm\<lparr>sm_latest := sm_latest sm + 1, sm_rereading := False, sm_read_due := False, sm_folder := Some folder, sm_stored := Reading again\<rparr>))"

definition start_reread :: "shown_mailbox \<Rightarrow> nat \<times> shown_mailbox" where
  "start_reread sm = (sm_latest sm + 1, sm\<lparr>sm_latest := sm_latest sm + 1, sm_rereading := True\<rparr>)"

definition finish_rows_read :: "nat \<Rightarrow> failure + message_list_row list option \<Rightarrow> shown_mailbox \<Rightarrow> bool \<times> shown_mailbox" where
  "finish_rows_read read answer sm =
     (if read \<noteq> sm_latest sm then (False, sm)
      else (True, sm\<lparr>sm_rereading := False, sm_stored := (case answer of
          Inr rows \<Rightarrow> StoredRead (map_option (\<lambda>rows. (read, rows)) rows)
        | Inl f \<Rightarrow> StoredReadFailed f)\<rparr>))"

definition forget :: "shown_mailbox \<Rightarrow> shown_mailbox" where
  "forget sm = sm\<lparr>sm_latest := sm_latest sm + 1, sm_folder := None, sm_stored := NotRead, sm_rereading := False, sm_read_due := False\<rparr>"

definition forget_excluded :: "(account_id \<Rightarrow> bool) \<Rightarrow> shown_mailbox \<Rightarrow> shown_mailbox" where
  "forget_excluded visible sm = (case sm_folder sm of
     Some folder \<Rightarrow> if visible (ref_account folder) then sm else forget sm
   | None \<Rightarrow> sm)"

definition forget_read_failure :: "shown_mailbox \<Rightarrow> shown_mailbox" where
  "forget_read_failure sm = (case sm_stored sm of StoredReadFailed _ \<Rightarrow> sm\<lparr>sm_stored := NotRead\<rparr> | _ \<Rightarrow> sm)"

text \<open>What the pool answers for a piece of work; a panic is the work's own failure.\<close>

definition pool_answer :: "failure_kind \<Rightarrow> string option + (failure + 'a) \<Rightarrow> failure + 'a" where
  "pool_answer panicked_as ended = (case ended of
     Inr answer \<Rightarrow> answer
   | Inl panic \<Rightarrow> Inl (from_panic panicked_as panic))"

section \<open>What the window shows\<close>

definition selected_mailbox :: "window \<Rightarrow> folder_ref option" where
  "selected_mailbox w = (case sidebar_selection (wi_sidebar w) of Some (SelectedMailbox folder) \<Rightarrow> Some folder | _ \<Rightarrow> None)"

definition selection_with_provider :: "window \<Rightarrow> (selection \<times> mail_provider) option" where
  "selection_with_provider w = (case (sidebar_selection (wi_sidebar w), selected_provider (wi_sidebar w)) of
     (Some s, Some provider) \<Rightarrow> Some (s, provider)
   | _ \<Rightarrow> None)"

definition retried_by :: "load_target \<Rightarrow> retried_operation" where
  "retried_by target = (case target of FolderList \<Rightarrow> RefreshAccount | Mailbox _ \<Rightarrow> RefreshMailbox)"

definition banner_of :: "refresh_outcome \<Rightarrow> retried_operation \<Rightarrow> banner option" where
  "banner_of outcome retried = (case outcome of
     OutcomeFailed f \<Rightarrow> Some (declare_failure f retried, retried)
   | OutcomeStored (Some incomplete) \<Rightarrow> Some (declare_short_list incomplete, retried)
   | OutcomeStored None \<Rightarrow> None)"

definition concerns_shown :: "folder_ref option \<Rightarrow> load_target \<Rightarrow> bool" where
  "concerns_shown shown_folder target = (case target of FolderList \<Rightarrow> True | Mailbox folder \<Rightarrow> shown_folder = Some folder)"

definition shown_outcome :: "window \<Rightarrow> selection \<Rightarrow> (load_target \<times> refresh_outcome) option" where
  "shown_outcome w s = (case outcome_of (wi_refreshes w) (selection_account s) of
     Some (target, outcome) \<Rightarrow> if concerns_shown (selected_mailbox w) target then Some (target, outcome) else None
   | None \<Rightarrow> None)"

definition shown_loading :: "window \<Rightarrow> selection \<Rightarrow> load_target option" where
  "shown_loading w s = (case loading_target (wi_refreshes w) (selection_account s) of
     Some target \<Rightarrow> if concerns_shown (selected_mailbox w) target then Some target else None
   | None \<Rightarrow> None)"

definition shown_stored :: "window \<Rightarrow> stored_mailbox" where
  "shown_stored w = (case selected_mailbox w of
     Some folder \<Rightarrow> if sm_folder (wi_shown w) = Some folder then sm_stored (wi_shown w) else NotRead
   | None \<Rightarrow> NotRead)"

text \<open>Rows are only read of a selected mailbox, so the first case has a folder.\<close>

definition shown_mail_of :: "window \<Rightarrow> shown_mail" where
  "shown_mail_of w = (case fl_failure (wi_lists w) of
     Some f \<Rightarrow> ShownFailed (declare_failure f ReadStoredMail) ReadStoredMail
   | None \<Rightarrow> (case sidebar_selection (wi_sidebar w) of
       None \<Rightarrow> ShownStatus ''Select a mailbox'' None
     | Some s \<Rightarrow>
         (let outcome = shown_outcome w s; loading = shown_loading w s;
              banner = (if loading \<noteq> None then None
                else case outcome of Some (target, ended) \<Rightarrow> banner_of ended (retried_by target) | None \<Rightarrow> None)
          in case shown_stored w of
            StoredRead (Some (read, row # rows)) \<Rightarrow> ShownMessages (the (selected_mailbox w)) read (row # rows) banner
          | Reading again \<Rightarrow> ShownReading again
          | stored \<Rightarrow>
              (case loading of
                Some target \<Rightarrow> ShownStatus (case target of FolderList \<Rightarrow> ''Loading mailbox list'' | _ \<Rightarrow> ''Loading mailbox'') None
              | None \<Rightarrow>
                  (case stored of
                    StoredReadFailed f \<Rightarrow> ShownFailed (declare_failure f ReadStoredMail) ReadStoredMail
                  | _ \<Rightarrow>
                      (case outcome of
                        Some (target, OutcomeFailed f) \<Rightarrow> ShownFailed (declare_failure f (retried_by target)) (retried_by target)
                      | _ \<Rightarrow>
                          (case stored of
                            StoredRead (Some _) \<Rightarrow> EmptyMailbox banner
                          | _ \<Rightarrow> ShownStatus ''No mail loaded'' (Some ''Choose Refresh Account or Refresh Mailbox in the main menu.''))))))))"

definition show_mail_status :: "string \<Rightarrow> string option \<Rightarrow> screen \<Rightarrow> screen" where
  "show_mail_status title description sc =
     sc\<lparr>sc_page := ''empty'', sc_status := (title, description), sc_retry_check := None, sc_online_accounts := False\<rparr>"

definition show_account_page :: "sidebar \<Rightarrow> screen \<Rightarrow> screen" where
  "show_account_page sb sc =
     (let (title, description) = page_text (sb_accounts sb)
      in sc\<lparr>sc_page := ''empty'', sc_status := (title, if description = [] then None else Some description),
           sc_retry_check := (if page_action_of (sb_accounts sb) = Some RetryCheck
             then Some (check_progress (al_retry_pending (sb_accounts sb))) else None),
           sc_online_accounts := (page_action_of (sb_accounts sb) = Some ShowOnlineAccounts)\<rparr>)"

definition show_banner :: "banner option \<Rightarrow> screen \<Rightarrow> screen" where
  "show_banner banner sc = (case banner of Some (b, _) \<Rightarrow> sc\<lparr>sc_banner := Some (df_title b)\<rparr> | None \<Rightarrow> sc)"

definition show_failure :: "surroundings \<Rightarrow> declared_failure \<Rightarrow> retried_operation \<Rightarrow> screen \<Rightarrow> screen" where
  "show_failure su f retried sc = sc\<lparr>sc_page := ''failed'', sc_failure := (df_title f, status_description (su_escape su) f),
     sc_failure_button := action_button (df_action f) retried\<rparr>"

definition window_title :: "sidebar \<Rightarrow> string \<times> string" where
  "window_title sb = (case sidebar_selection sb of
     Some (SelectedMailbox folder) \<Rightarrow> title_of (folder_name_of sb folder) (label_of sb (ref_account folder))
   | Some (SelectedAccount account) \<Rightarrow> title_of None (label_of sb account)
   | None \<Rightarrow> title_of None None)"

definition show_mail :: "surroundings \<Rightarrow> mail_ui \<Rightarrow> shown_mail \<Rightarrow> screen \<Rightarrow> screen" where
  "show_mail su m shown sc = (case shown of
     ShownMessages _ _ _ banner \<Rightarrow>
       if shows_no_row m
       then show_banner banner (if ml_unread_only m
         then show_mail_status ''No unread messages'' (Some ''Every message in this folder is read.'') sc
         else show_mail_status ''Mailbox is empty'' None sc)
       else show_banner banner (sc\<lparr>sc_page := ''messages''\<rparr>)
   | EmptyMailbox banner \<Rightarrow> show_banner banner (show_mail_status ''Mailbox is empty'' None sc)
   | ShownFailed f retried \<Rightarrow> show_failure su f retried sc
   | ShownStatus title description \<Rightarrow> show_mail_status title description sc
   | ShownReading _ \<Rightarrow> sc\<lparr>sc_page := ''messages''\<rparr>)"

text \<open>\<open>animates\<close>: see the list of messages.\<close>

definition render :: "surroundings \<Rightarrow> bool \<Rightarrow> window \<Rightarrow> window" where
  "render su animates w =
     (let shown = shown_mail_of w;
          m = (case shown of
            ShownMessages folder read rows _ \<Rightarrow> show_rows animates folder read rows (wi_mail w)
          | ShownReading True \<Rightarrow> wi_mail w
          | _ \<Rightarrow> clear (wi_mail w));
          sb = wi_sidebar w;
          sc = (wi_screen w)\<lparr>sc_title := window_title sb, sc_banner := None\<rparr>;
          sc1 = (if page (sb_accounts sb) \<noteq> AccountsShown then show_account_page sb sc else show_mail su m shown sc);
          can_load = (\<not> is_loading (wi_refreshes w) \<and> selected_provider sb \<noteq> None)
      in w\<lparr>wi_mail := m, wi_screen := sc1\<lparr>sc_spinner := is_loading (wi_refreshes w),
           sc_refresh_mailbox := (can_load \<and> selected_mailbox w \<noteq> None), sc_refresh_account := can_load\<rparr>\<rparr>)"

definition failure_dialog_of :: "window \<Rightarrow> banner option" where
  "failure_dialog_of w = (case shown_mail_of w of
     ShownFailed f retried \<Rightarrow> Some (f, retried)
   | ShownMessages _ _ _ banner \<Rightarrow> banner
   | EmptyMailbox banner \<Rightarrow> banner
   | _ \<Rightarrow> None)"

end
