(* ===== verification/Window_Events.thy ===== *)
theory Window_Events
  imports Window
begin

text \<open>
  What the window does (crate \<open>mailbag\<close>, \<open>window_ui.rs\<close>): the loads it starts and what their events
  change, the reads of the store, and the changes of flags it writes one after the other.
\<close>

definition new_screen :: screen where
  "new_screen = \<lparr>sc_title = ([], []), sc_page = [], sc_status = ([], None), sc_retry_check = None, sc_online_accounts = False,
     sc_failure = ([], []), sc_failure_button = None, sc_banner = None, sc_spinner = False, sc_refresh_mailbox = True,
     sc_refresh_account = True\<rparr>"

definition new_window :: "surroundings \<Rightarrow> window" where
  "new_window su = render su False \<lparr>wi_sidebar = new_sidebar, wi_refreshes = no_refreshes, wi_lists = no_lists_read,
     wi_shown = no_mailbox_shown, wi_mail = new_mail_ui, wi_flag_writes = [], wi_content_reads = 0, wi_pool = [], wi_loads = [],
     wi_screen = new_screen\<rparr>"

definition spawn :: "pool_work \<Rightarrow> window \<Rightarrow> window" where
  "spawn work w = w\<lparr>wi_pool := wi_pool w @ [work]\<rparr>"

definition ended_work :: "pool_work \<Rightarrow> window \<Rightarrow> window" where
  "ended_work work w = w\<lparr>wi_pool := remove1 work (wi_pool w)\<rparr>"

section \<open>Reading the store\<close>

definition read_folder_lists :: "window \<Rightarrow> window" where
  "read_folder_lists w =
     (let (read, fl) = start_lists_read (wi_lists w)
      in spawn (ReadLists read (shown_accounts (wi_sidebar w))) (w\<lparr>wi_lists := fl\<rparr>))"

definition read_shown_mailbox :: "window \<Rightarrow> window" where
  "read_shown_mailbox w = (case selected_mailbox w of
     None \<Rightarrow> w
   | Some folder \<Rightarrow> (let (read, shown) = start_read folder (wi_shown w) in spawn (ReadRows folder read) (w\<lparr>wi_shown := shown\<rparr>)))"

definition read_shown_mailbox_again :: "window \<Rightarrow> window" where
  "read_shown_mailbox_again w = (case selected_mailbox w of
     None \<Rightarrow> w
   | Some folder \<Rightarrow>
       if \<not> holds (wi_shown w) folder then read_shown_mailbox w
       else if is_reading (wi_shown w) then w\<lparr>wi_shown := (wi_shown w)\<lparr>sm_read_due := True\<rparr>\<rparr>
       else (let (read, shown) = start_reread (wi_shown w) in spawn (ReadRows folder read) (w\<lparr>wi_shown := shown\<rparr>)))"

text \<open>The end of \<open>spawn_rows_read\<close>.\<close>

definition rows_read :: "surroundings \<Rightarrow> bool \<Rightarrow> folder_ref \<Rightarrow> nat \<Rightarrow> failure + message_list_row list option \<Rightarrow> window \<Rightarrow> window" where
  "rows_read su animates folder read answer w0 =
     (let w = ended_work (ReadRows folder read) w0; (latest, shown) = finish_rows_read read answer (wi_shown w); w1 = w\<lparr>wi_shown := shown\<rparr>
      in if \<not> latest then w1
         else (let w2 = w1\<lparr>wi_shown := (wi_shown w1)\<lparr>sm_read_due := False\<rparr>\<rparr>;
                   w3 = (if sm_read_due (wi_shown w1) then read_shown_mailbox_again w2 else w2)
               in render su animates w3))"

text \<open>\<open>None\<close>: the tree of a list that repeats an identity may have no end.\<close>

fun show_folder_lists :: "surroundings \<Rightarrow> (account_id \<times> folder list) list \<Rightarrow> window \<Rightarrow> window option" where
  "show_folder_lists su [] w = Some w"
| "show_folder_lists su ((account, folders) # found) w = (case show_folders (su_collation su) account folders (wi_sidebar w) of
     None \<Rightarrow> None
   | Some (gone, sb) \<Rightarrow>
       show_folder_lists su found (w\<lparr>wi_sidebar := sb, wi_shown := (if gone then forget (wi_shown w) else wi_shown w)\<rparr>))"

text \<open>The end of \<open>read_folder_lists\<close>.\<close>

definition lists_read :: "surroundings \<Rightarrow> bool \<Rightarrow> nat \<Rightarrow> account_id list \<Rightarrow> failure + (account_id \<times> folder list) list \<Rightarrow> window \<Rightarrow> window option" where
  "lists_read su animates read accounts answer w0 =
     (let w = ended_work (ReadLists read accounts) w0; (latest, fl) = finish_lists_read read answer (wi_lists w); w1 = w\<lparr>wi_lists := fl\<rparr>
      in if \<not> latest then Some w1
         else map_option (render su animates) (case answer of Inr found \<Rightarrow> show_folder_lists su found w1 | Inl _ \<Rightarrow> Some w1))"

section \<open>Flags\<close>

definition write_oldest_flag :: "window \<Rightarrow> window" where
  "write_oldest_flag w = (case wi_flag_writes w of [] \<Rightarrow> w | change # _ \<Rightarrow> spawn (WriteFlag change) w)"

definition write_flag :: "flag_write \<Rightarrow> window \<Rightarrow> window" where
  "write_flag change w =
     (let w1 = w\<lparr>wi_flag_writes := wi_flag_writes w @ [change]\<rparr>
      in if length (wi_flag_writes w1) = 1 then write_oldest_flag w1 else w1)"

text \<open>The end of \<open>write_oldest_flag\<close>.\<close>

definition flag_written :: "flag_write \<Rightarrow> failure + unit \<Rightarrow> window \<Rightarrow> window" where
  "flag_written change written w0 =
     (let w = ended_work (WriteFlag change) w0;
          w1 = (case written of
            Inr _ \<Rightarrow> read_shown_mailbox_again w
          | Inl f \<Rightarrow> w\<lparr>wi_sidebar := show_toast (message_not_changed (failure_kind f)) (wi_sidebar w)\<rparr>)
      in write_oldest_flag (w1\<lparr>wi_flag_writes := tl (wi_flag_writes w1)\<rparr>))"

section \<open>Contents\<close>

definition read_opened_content :: "account_id \<Rightarrow> string \<Rightarrow> window \<Rightarrow> window" where
  "read_opened_content account identity w =
     spawn (ReadContent account identity) (w\<lparr>wi_content_reads := wi_content_reads w + 1\<rparr>)"

definition content_read :: "account_id \<Rightarrow> string \<Rightarrow> failure + received_content option \<Rightarrow> window \<Rightarrow> window" where
  "content_read account identity answer w0 =
     (let w = ended_work (ReadContent account identity) w0
      in w\<lparr>wi_content_reads := wi_content_reads w - 1, wi_mail := show_content account identity answer (wi_mail w)\<rparr>)"

text \<open>What the window does with the calls of the list and the reader, as they come.\<close>

definition take_call :: "surroundings \<Rightarrow> bool \<Rightarrow> mail_call \<Rightarrow> window \<Rightarrow> window" where
  "take_call su animates call w = (case call of
     ContentRequest account identity \<Rightarrow> read_opened_content account identity w
   | FlagChange account identity flag wanted \<Rightarrow>
       write_flag \<lparr>fw_account = account, fw_identity = identity, fw_flag = flag, fw_wanted = wanted\<rparr> w
   | RowRemoved \<Rightarrow> render su animates w)"

definition mail_acts :: "surroundings \<Rightarrow> bool \<Rightarrow> (mail_ui \<Rightarrow> mail_ui) \<Rightarrow> window \<Rightarrow> window" where
  "mail_acts su animates act w =
     (let m = act ((wi_mail w)\<lparr>ml_calls := []\<rparr>)
      in foldl (\<lambda>w call. take_call su animates call w) (w\<lparr>wi_mail := m\<lparr>ml_calls := []\<rparr>\<rparr>) (ml_calls m))"

section \<open>Loads\<close>

definition start_window_load :: "surroundings \<Rightarrow> bool \<Rightarrow> account_id \<Rightarrow> mail_provider \<Rightarrow> load_target \<Rightarrow> window \<Rightarrow> window" where
  "start_window_load su animates account provider target w =
     (if is_loading (wi_refreshes w) then w
      else render su animates (w\<lparr>
        wi_shown := forget_read_failure (wi_shown w),
        wi_lists := (wi_lists w)\<lparr>fl_failure := None\<rparr>,
        wi_loads := wi_loads w @ [(account, provider, target)],
        wi_refreshes := begin_load account target (wi_refreshes w)\<rparr>))"

definition refresh_mailbox :: "surroundings \<Rightarrow> bool \<Rightarrow> window \<Rightarrow> window" where
  "refresh_mailbox su animates w = (case selection_with_provider w of
     Some (SelectedMailbox folder, provider) \<Rightarrow> start_window_load su animates (ref_account folder) provider (Mailbox folder) w
   | _ \<Rightarrow> w)"

definition refresh_account :: "surroundings \<Rightarrow> bool \<Rightarrow> window \<Rightarrow> window" where
  "refresh_account su animates w = (case selection_with_provider w of
     Some (s, provider) \<Rightarrow> start_window_load su animates (selection_account s) provider FolderList w
   | None \<Rightarrow> w)"

definition show_changed_store :: "account_id \<Rightarrow> window \<Rightarrow> window" where
  "show_changed_store account w = (case selected_mailbox w of
     Some folder \<Rightarrow> if ref_account folder = account then read_shown_mailbox_again w else w
   | None \<Rightarrow> w)"

definition finish_window_load :: "surroundings \<Rightarrow> bool \<Rightarrow> account_id \<Rightarrow> load_target \<Rightarrow> load_result \<Rightarrow> window \<Rightarrow> window" where
  "finish_window_load su animates account target result w =
     (let stored = (case result of ResultStored _ \<Rightarrow> True | _ \<Rightarrow> False);
          w1 = w\<lparr>wi_refreshes := end_load account result (wi_refreshes w)\<rparr>;
          w2 = (if \<not> stored then w1
            else case target of
              FolderList \<Rightarrow>
                (let w' = read_folder_lists w1
                 in case selected_mailbox w1 of
                   Some folder \<Rightarrow> if holds (wi_shown w') folder then w' else read_shown_mailbox w'
                 | None \<Rightarrow> w')
            | Mailbox folder \<Rightarrow>
                (case selected_mailbox w1 of
                  Some shown \<Rightarrow> if ref_account shown = ref_account folder then read_shown_mailbox_again w1 else w1
                | None \<Rightarrow> w1))
      in render su animates w2)"

section \<open>Selections and updates\<close>

definition show_window_selection :: "surroundings \<Rightarrow> bool \<Rightarrow> window \<Rightarrow> window" where
  "show_window_selection su animates w = render su animates (case selected_mailbox w of
     Some folder \<Rightarrow> if holds (wi_shown w) folder then w else read_shown_mailbox w
   | None \<Rightarrow> w\<lparr>wi_shown := forget (wi_shown w)\<rparr>)"

text \<open>The user selects a row, or collapses rows: the sidebar tells the window of a changed selection.\<close>

definition sidebar_acts :: "surroundings \<Rightarrow> bool \<Rightarrow> (sidebar \<Rightarrow> bool \<times> sidebar) \<Rightarrow> window \<Rightarrow> window" where
  "sidebar_acts su animates act w =
     (let (changed, sb) = act (wi_sidebar w); w1 = w\<lparr>wi_sidebar := sb\<rparr>
      in if changed then show_window_selection su animates w1 else w1)"

definition delete_removed_accounts :: "account_update \<Rightarrow> window \<Rightarrow> window" where
  "delete_removed_accounts update w =
     spawn (DeleteOthers (map fst (filter (\<lambda>(_, details). ad_mail_enabled details) (au_accounts update)))) w"

definition apply_account_update :: "surroundings \<Rightarrow> bool \<Rightarrow> account_update \<Rightarrow> window \<Rightarrow> window" where
  "apply_account_update su animates update w =
     (let sb = sidebar_update update (wi_sidebar w);
          w1 = w\<lparr>wi_sidebar := sb, wi_refreshes := discard_excluded (shows_account sb) (wi_refreshes w),
                wi_shown := forget_excluded (shows_account sb) (wi_shown w)\<rparr>;
          w2 = (if is_complete (au_last_check update) then read_folder_lists (delete_removed_accounts update w1) else w1)
      in render su animates w2)"

definition read_stored_mail :: "surroundings \<Rightarrow> bool \<Rightarrow> window \<Rightarrow> window" where
  "read_stored_mail su animates w =
     render su animates (mail_acts su animates read_open_content_again (read_shown_mailbox (read_folder_lists w)))"

definition unread_filter_toggled :: "surroundings \<Rightarrow> bool \<Rightarrow> bool \<Rightarrow> window \<Rightarrow> window" where
  "unread_filter_toggled su animates unread_only w =
     render su animates (mail_acts su animates (set_unread_filter animates unread_only) w)"

definition cancel_loads :: "window \<Rightarrow> window" where
  "cancel_loads w = w\<lparr>wi_refreshes := cancel_load (wi_refreshes w)\<rparr>"

end
