(* ===== verification/Window_Claims.thy ===== *)
theory Window_Claims
  imports Window_Events Sidebar_Claims
begin

text \<open>
  What the window promises: once everything it started has answered, it shows what the store holds; the
  user's changes are written one at a time in their order; and a refresh's outcome is kept only for an
  account that is shown.
\<close>

section \<open>Reads of rows\<close>

fun rows_jobs :: "pool_work list \<Rightarrow> (folder_ref \<times> nat) list" where
  "rows_jobs [] = []"
| "rows_jobs (work # pool) = (case work of ReadRows folder read \<Rightarrow> (folder, read) # rows_jobs pool | _ \<Rightarrow> rows_jobs pool)"

lemma rows_jobs_append [simp]: "rows_jobs (xs @ ys) = rows_jobs xs @ rows_jobs ys"
  by (induction xs) (auto split: pool_work.split)

lemma rows_jobs_mem: "(folder, read) \<in> set (rows_jobs pool) \<longleftrightarrow> ReadRows folder read \<in> set pool"
  by (induction pool) (auto split: pool_work.split)

lemma rows_jobs_remove: "rows_jobs (remove1 work pool) =
    (case work of ReadRows folder read \<Rightarrow> remove1 (folder, read) (rows_jobs pool) | _ \<Rightarrow> rows_jobs pool)"
  by (induction pool) (auto split: pool_work.split)

fun flag_jobs :: "pool_work list \<Rightarrow> flag_write list" where
  "flag_jobs [] = []"
| "flag_jobs (work # pool) = (case work of WriteFlag change \<Rightarrow> change # flag_jobs pool | _ \<Rightarrow> flag_jobs pool)"

lemma flag_jobs_append [simp]: "flag_jobs (xs @ ys) = flag_jobs xs @ flag_jobs ys"
  by (induction xs) (auto split: pool_work.split)

lemma flag_jobs_mem: "change \<in> set (flag_jobs pool) \<longleftrightarrow> WriteFlag change \<in> set pool"
  by (induction pool) (auto split: pool_work.split)

lemma flag_jobs_remove: "flag_jobs (remove1 work pool) =
    (case work of WriteFlag change \<Rightarrow> remove1 change (flag_jobs pool) | _ \<Rightarrow> flag_jobs pool)"
  by (induction pool) (auto split: pool_work.split)

text \<open>
  What happened in the store that the window has not heard of yet: a load's batch, whose event is on its
  way, or a change of a flag that is written and not yet answered.
\<close>

datatype store_news = Told account_id | Written flag_write

definition news_account :: "store_news \<Rightarrow> account_id" where
  "news_account news = (case news of Told account \<Rightarrow> account | Written change \<Rightarrow> fw_account change)"

definition news_of :: "store_news list \<Rightarrow> folder_ref \<Rightarrow> bool" where
  "news_of pending folder \<longleftrightarrow> ref_account folder \<in> news_account ` set pending"

text \<open>
  The invariant of the reads: \<open>sel\<close> is the selected mailbox, \<open>jobs\<close> are the reads of rows that run,
  \<open>content\<close> is what the store holds, \<open>got\<close> what a read that ran found.
\<close>

type_synonym store_content = "folder_ref \<Rightarrow> message_list_row list option"
type_synonym reads_found = "nat \<Rightarrow> (failure + message_list_row list option) option"

definition numbered_reads :: "shown_mailbox \<Rightarrow> (folder_ref \<times> nat) list \<Rightarrow> reads_found \<Rightarrow> bool" where
  "numbered_reads sm jobs got \<longleftrightarrow> (\<forall>n. got n \<noteq> None \<longrightarrow> n \<le> sm_latest sm) \<and> (\<forall>(_, n) \<in> set jobs. n \<le> sm_latest sm) \<and> distinct (map snd jobs)"

definition latest_job :: "shown_mailbox \<Rightarrow> (folder_ref \<times> nat) list \<Rightarrow> bool" where
  "latest_job sm jobs \<longleftrightarrow>
     (is_reading sm \<longrightarrow> (\<exists>folder. sm_folder sm = Some folder \<and> (folder, sm_latest sm) \<in> set jobs)) \<and>
     (\<forall>folder. (folder, sm_latest sm) \<in> set jobs \<longrightarrow> sm_folder sm = Some folder \<and> is_reading sm)"

definition up_to_date :: "shown_mailbox \<Rightarrow> store_content \<Rightarrow> store_news list \<Rightarrow> reads_found \<Rightarrow> bool" where
  "up_to_date sm content pending got \<longleftrightarrow> (\<forall>folder. sm_folder sm = Some folder \<longrightarrow> news_of pending folder \<or>
     (if is_reading sm then (\<forall>found. got (sm_latest sm) = Some (Inr found) \<longrightarrow> found = content folder \<or> sm_read_due sm)
      else (\<forall>found. sm_stored sm = StoredRead found \<longrightarrow> map_option snd found = content folder)))"

definition reads_ok :: "folder_ref option \<Rightarrow> shown_mailbox \<Rightarrow> (folder_ref \<times> nat) list \<Rightarrow> store_content \<Rightarrow> store_news list \<Rightarrow> reads_found \<Rightarrow> bool" where
  "reads_ok sel sm jobs content pending got \<longleftrightarrow> numbered_reads sm jobs got \<and> latest_job sm jobs \<and>
     (sm_folder sm = None \<or> sm_folder sm = sel) \<and> up_to_date sm content pending got"

lemma started_ok:
  assumes "numbered_reads sm jobs got" and "start_read folder sm = (read, sm')"
  shows "reads_ok (Some folder) sm' (jobs @ [(folder, read)]) content pending got"
proof -
  have new: "got (sm_latest sm + 1) = None" "sm_latest sm + 1 \<notin> set (map snd jobs)" "\<And>f. (f, Suc (sm_latest sm)) \<notin> set jobs"
    using assms(1) by (force simp: numbered_reads_def)+
  show ?thesis
    using assms new by (auto simp: reads_ok_def numbered_reads_def latest_job_def up_to_date_def start_read_def is_reading_def Let_def
        intro: le_SucI)
qed

lemma reread_ok:
  assumes "reads_ok sel sm jobs content pending got" and "holds sm folder" and "\<not> is_reading sm" and "start_reread sm = (read, sm')"
  shows "reads_ok sel sm' (jobs @ [(folder, read)]) content pending' got"
proof -
  have new: "got (sm_latest sm + 1) = None" "sm_latest sm + 1 \<notin> set (map snd jobs)" "\<And>f. (f, Suc (sm_latest sm)) \<notin> set jobs"
    using assms(1) by (force simp: reads_ok_def numbered_reads_def)+
  show ?thesis
    using assms new by (auto simp: reads_ok_def numbered_reads_def latest_job_def up_to_date_def start_reread_def is_reading_def holds_def
        intro: le_SucI)
qed

lemma due_ok:
  assumes "reads_ok sel sm jobs content pending got" and "is_reading sm"
  shows "reads_ok sel (sm\<lparr>sm_read_due := True\<rparr>) jobs content pending' got"
  using assms by (auto simp: reads_ok_def numbered_reads_def latest_job_def up_to_date_def is_reading_def)

lemma forget_ok:
  assumes "numbered_reads sm jobs got"
  shows "reads_ok sel (forget sm) jobs content pending got"
proof -
  have "\<And>f. (f, Suc (sm_latest sm)) \<notin> set jobs" using assms by (force simp: numbered_reads_def)
  then show ?thesis
    using assms by (auto simp: reads_ok_def numbered_reads_def latest_job_def up_to_date_def is_reading_def forget_def intro: le_SucI)
qed

lemma forget_failure_ok: "reads_ok sel sm jobs content pending got \<Longrightarrow> reads_ok sel (forget_read_failure sm) jobs content pending got"
proof (cases "sm_stored sm")
  case (StoredReadFailed f)
  assume ok: "reads_ok sel sm jobs content pending got"
  have same: "is_reading (sm\<lparr>sm_stored := NotRead\<rparr>) = is_reading sm" by (simp add: is_reading_def StoredReadFailed)
  have "up_to_date (sm\<lparr>sm_stored := NotRead\<rparr>) content pending got"
    using ok by (cases "is_reading sm") (simp_all add: reads_ok_def up_to_date_def same)
  moreover have "numbered_reads (sm\<lparr>sm_stored := NotRead\<rparr>) jobs got" "latest_job (sm\<lparr>sm_stored := NotRead\<rparr>) jobs"
    using ok by (simp_all add: reads_ok_def numbered_reads_def latest_job_def same)
  ultimately show ?thesis
    using ok by (simp add: forget_read_failure_def StoredReadFailed reads_ok_def)
qed (simp_all add: forget_read_failure_def)

lemma changed_ok:
  assumes "reads_ok sel sm jobs content pending got" and "\<And>folder. ref_account folder \<noteq> news_account news \<Longrightarrow> content' folder = content folder"
  shows "reads_ok sel sm jobs content' (pending @ [news]) got"
  using assms by (auto simp: reads_ok_def up_to_date_def news_of_def)

lemma found_ok:
  assumes "reads_ok sel sm jobs content pending got" and "(folder, n) \<in> set jobs" and "isl answer \<or> answer = Inr (content folder)"
  shows "reads_ok sel sm jobs content pending (got(n \<mapsto> answer))"
  using assms by (auto simp: reads_ok_def numbered_reads_def latest_job_def up_to_date_def isl_def split: if_splits)

lemma jobs_without:
  assumes "distinct (map snd jobs)" and "(folder, n) \<in> set jobs"
  shows "n \<notin> snd ` set (remove1 (folder, n) jobs)"
proof
  assume "n \<in> snd ` set (remove1 (folder, n) jobs)"
  then obtain other where other: "(other, n) \<in> set (remove1 (folder, n) jobs)" by auto
  have "distinct jobs" using assms(1) by (simp add: distinct_map)
  then have "(other, n) \<in> set jobs" "other \<noteq> folder" using other by auto
  moreover have "inj_on snd (set jobs)" using assms(1) by (simp add: distinct_map)
  ultimately show False using inj_onD [of snd "set jobs" "(other, n)" "(folder, n)"] assms(2) by simp
qed

lemma answered_ok:
  assumes ok: "reads_ok sel sm jobs content pending got" and job: "(folder, n) \<in> set jobs" and answer: "got n = Some answer"
    and ran: "finish_rows_read n answer sm = (latest, sm')"
  shows "reads_ok sel (if latest then sm'\<lparr>sm_read_due := False\<rparr> else sm') (remove1 (folder, n) jobs) content
    (if latest \<and> sm_read_due sm' then pending @ [Told (ref_account folder)] else pending) got"
proof -
  have distinct: "distinct (map snd jobs)" using ok by (simp add: reads_ok_def numbered_reads_def)
  then have left: "n \<notin> snd ` set (remove1 (folder, n) jobs)" "distinct (map snd (remove1 (folder, n) jobs))"
    using jobs_without [OF distinct job] by (simp_all add: distinct_map inj_on_def)
  have fewer: "set (remove1 (folder, n) jobs) \<subseteq> set jobs" by (rule set_remove1_subset)
  show ?thesis
  proof (cases "n = sm_latest sm")
    case False
    then have same: "latest = False" "sm' = sm" using ran by (auto simp: finish_rows_read_def)
    have stays: "job \<in> set (remove1 (folder, n) jobs)" if "job \<in> set jobs" "snd job \<noteq> n" for job
      using that by (metis in_set_remove1 snd_conv)
    have "latest_job sm (remove1 (folder, n) jobs)"
      using ok stays [of "(_, sm_latest sm)"] False fewer unfolding reads_ok_def latest_job_def by (metis snd_conv subsetD)
    moreover have "numbered_reads sm (remove1 (folder, n) jobs) got"
      using ok left(2) fewer unfolding reads_ok_def numbered_reads_def by blast
    ultimately show ?thesis using ok same by (simp add: reads_ok_def)
  next
    case True
    let ?sm = "sm'\<lparr>sm_read_due := False\<rparr>"
    have now: "latest" "sm_folder ?sm = sm_folder sm" "sm_latest ?sm = sm_latest sm" "\<not> is_reading ?sm" "sm_read_due sm' = sm_read_due sm"
      "sm_stored ?sm = (case answer of Inr rows \<Rightarrow> StoredRead (map_option (\<lambda>rows. (n, rows)) rows) | Inl f \<Rightarrow> StoredReadFailed f)"
      using ran True by (auto simp: finish_rows_read_def is_reading_def split: sum.splits)
    have reading: "sm_folder sm = Some folder" "is_reading sm" using ok job True by (auto simp: reads_ok_def latest_job_def)
    have "latest_job ?sm (remove1 (folder, n) jobs)"
      using left(1) True now unfolding latest_job_def by force
    moreover have "numbered_reads ?sm (remove1 (folder, n) jobs) got"
      using ok left(2) fewer now(3) unfolding reads_ok_def numbered_reads_def by auto
    moreover have "sm_folder ?sm = None \<or> sm_folder ?sm = sel" using ok now(2) by (simp add: reads_ok_def)
    moreover have "up_to_date ?sm content (if latest \<and> sm_read_due sm' then pending @ [Told (ref_account folder)] else pending) got"
    proof (cases "sm_read_due sm")
      case True
      then show ?thesis using now reading by (simp add: up_to_date_def news_of_def news_account_def)
    next
      case False
      have "news_of pending folder \<or> found = content folder" if "answer = Inr found" for found
        using ok reading answer True False that by (auto simp: reads_ok_def up_to_date_def)
      moreover have "map_option snd (map_option (\<lambda>rows. (n, rows)) found) = found" for found :: "message_list_row list option"
        by (cases found) simp_all
      ultimately show ?thesis using now reading False by (auto simp: up_to_date_def split: sum.splits)
    qed
    ultimately show ?thesis using now(1) by (simp add: reads_ok_def)
  qed
qed

section \<open>The handlers\<close>

lemma render_same [simp]:
  "wi_sidebar (render su animates w) = wi_sidebar w" "wi_refreshes (render su animates w) = wi_refreshes w"
  "wi_lists (render su animates w) = wi_lists w" "wi_shown (render su animates w) = wi_shown w"
  "wi_flag_writes (render su animates w) = wi_flag_writes w" "wi_pool (render su animates w) = wi_pool w"
  "wi_loads (render su animates w) = wi_loads w"
  by (simp_all add: render_def Let_def)

lemma spawn_same [simp]:
  "wi_sidebar (spawn work w) = wi_sidebar w" "wi_refreshes (spawn work w) = wi_refreshes w" "wi_lists (spawn work w) = wi_lists w"
  "wi_shown (spawn work w) = wi_shown w" "wi_flag_writes (spawn work w) = wi_flag_writes w" "wi_pool (spawn work w) = wi_pool w @ [work]"
  by (simp_all add: spawn_def)

lemma ended_same [simp]:
  "wi_sidebar (ended_work work w) = wi_sidebar w" "wi_refreshes (ended_work work w) = wi_refreshes w" "wi_lists (ended_work work w) = wi_lists w"
  "wi_shown (ended_work work w) = wi_shown w" "wi_flag_writes (ended_work work w) = wi_flag_writes w"
  "wi_pool (ended_work work w) = remove1 work (wi_pool w)"
  by (simp_all add: ended_work_def)

lemma selected_same: "wi_sidebar w' = wi_sidebar w \<Longrightarrow> selected_mailbox w' = selected_mailbox w"
  by (simp add: selected_mailbox_def)

lemma selected_parts [simp]:
  "selected_mailbox (w\<lparr>wi_shown := shown\<rparr>) = selected_mailbox w" "selected_mailbox (ended_work work w) = selected_mailbox w"
  "selected_mailbox (spawn work w) = selected_mailbox w" "selected_mailbox (render su animates w) = selected_mailbox w"
  by (simp_all add: selected_mailbox_def)

definition current :: "window \<Rightarrow> store_content \<Rightarrow> store_news list \<Rightarrow> reads_found \<Rightarrow> bool" where
  "current w content pending got \<longleftrightarrow> reads_ok (selected_mailbox w) (wi_shown w) (rows_jobs (wi_pool w)) content pending got"

lemma current_same:
  assumes "wi_sidebar w' = wi_sidebar w" and "wi_shown w' = wi_shown w" and "rows_jobs (wi_pool w') = rows_jobs (wi_pool w)"
  shows "current w' content pending got \<longleftrightarrow> current w content pending got"
  using assms by (simp add: current_def selected_mailbox_def)

lemma current_render: "current (render su animates w) content pending got = current w content pending got"
  by (simp add: current_def)

lemma current_numbered: "current w content pending got \<Longrightarrow> numbered_reads (wi_shown w) (rows_jobs (wi_pool w)) got"
  by (simp add: current_def reads_ok_def)

lemma read_mailbox_ok:
  assumes "numbered_reads (wi_shown w) (rows_jobs (wi_pool w)) got" and "selected_mailbox w = Some folder"
  shows "current (read_shown_mailbox w) content pending got"
proof -
  obtain read shown where start: "start_read folder (wi_shown w) = (read, shown)" by (cases "start_read folder (wi_shown w)")
  have "selected_mailbox (read_shown_mailbox w) = Some folder"
    using assms(2) by (simp add: read_shown_mailbox_def start selected_mailbox_def)
  then show ?thesis
    using started_ok [OF assms(1) start, of content pending] assms(2) by (simp add: current_def read_shown_mailbox_def start)
qed

text \<open>A new read hears all that happened before it.\<close>

lemma read_again_ok:
  assumes "current w content pending got"
  shows "current (read_shown_mailbox_again w) content pending' got"
proof (cases "selected_mailbox w")
  case None
  then show ?thesis
    using assms by (simp add: read_shown_mailbox_again_def current_def reads_ok_def up_to_date_def)
next
  case (Some folder)
  show ?thesis
  proof (cases "holds (wi_shown w) folder")
    case False
    then show ?thesis
      using read_mailbox_ok [OF current_numbered [OF assms] Some] Some by (simp add: read_shown_mailbox_again_def)
  next
    case True
    note held = True
    show ?thesis
    proof (cases "is_reading (wi_shown w)")
      case True
      then show ?thesis
        using due_ok [of _ "wi_shown w" _ _ pending _ pending'] assms held Some
        by (simp add: read_shown_mailbox_again_def current_def selected_mailbox_def)
    next
      case False
      obtain read shown where start: "start_reread (wi_shown w) = (read, shown)" by (cases "start_reread (wi_shown w)")
      have again: "read_shown_mailbox_again w = spawn (ReadRows folder read) (w\<lparr>wi_shown := shown\<rparr>)"
        using held False Some by (simp add: read_shown_mailbox_again_def start)
      show ?thesis
        using reread_ok [OF _ held False start, of "selected_mailbox w"] assms
        unfolding again by (simp add: current_def selected_mailbox_def)
    qed
  qed
qed

lemma read_again_sidebar [simp]:
  "wi_sidebar (read_shown_mailbox_again w) = wi_sidebar w" "wi_sidebar (read_shown_mailbox w) = wi_sidebar w"
  "wi_refreshes (read_shown_mailbox_again w) = wi_refreshes w" "wi_refreshes (read_shown_mailbox w) = wi_refreshes w"
  "wi_flag_writes (read_shown_mailbox_again w) = wi_flag_writes w" "wi_flag_writes (read_shown_mailbox w) = wi_flag_writes w"
  "flag_jobs (wi_pool (read_shown_mailbox_again w)) = flag_jobs (wi_pool w)" "flag_jobs (wi_pool (read_shown_mailbox w)) = flag_jobs (wi_pool w)"
  by (simp_all add: read_shown_mailbox_again_def read_shown_mailbox_def case_prod_beta Let_def split: option.split)

lemma read_lists_same [simp]:
  "wi_sidebar (read_folder_lists w) = wi_sidebar w" "wi_shown (read_folder_lists w) = wi_shown w" "wi_refreshes (read_folder_lists w) = wi_refreshes w"
  "wi_flag_writes (read_folder_lists w) = wi_flag_writes w" "rows_jobs (wi_pool (read_folder_lists w)) = rows_jobs (wi_pool w)"
  "flag_jobs (wi_pool (read_folder_lists w)) = flag_jobs (wi_pool w)"
  by (simp_all add: read_folder_lists_def case_prod_beta Let_def)

lemma rows_read_ok:
  assumes "current w content pending got" and "ReadRows folder n \<in> set (wi_pool w)" and "got n = Some answer"
  shows "current (rows_read su animates folder n answer w) content pending got"
proof -
  obtain latest shown where ran: "finish_rows_read n answer (wi_shown w) = (latest, shown)" by (cases "finish_rows_read n answer (wi_shown w)")
  let ?w1 = "(ended_work (ReadRows folder n) w)\<lparr>wi_shown := shown\<rparr>"
  let ?w2 = "?w1\<lparr>wi_shown := shown\<lparr>sm_read_due := False\<rparr>\<rparr>"
  have jobs: "rows_jobs (remove1 (ReadRows folder n) (wi_pool w)) = remove1 (folder, n) (rows_jobs (wi_pool w))" by (simp add: rows_jobs_remove)
  have sel: "selected_mailbox ?w1 = selected_mailbox w" "selected_mailbox ?w2 = selected_mailbox w" by (simp_all add: selected_mailbox_def)
  note ok = answered_ok [OF assms(1) [unfolded current_def] _ assms(3) ran, unfolded rows_jobs_mem, OF assms(2)]
  show ?thesis
  proof (cases latest)
    case False
    then have "current ?w1 content pending got" using ok by (simp add: current_def jobs sel)
    moreover have "rows_read su animates folder n answer w = ?w1" using False by (simp add: rows_read_def ran)
    ultimately show ?thesis by simp
  next
    case True
    then have w2: "current ?w2 content (if sm_read_due shown then pending @ [Told (ref_account folder)] else pending) got"
      using ok by (simp add: current_def jobs sel)
    have run: "rows_read su animates folder n answer w = render su animates (if sm_read_due shown then read_shown_mailbox_again ?w2 else ?w2)"
      using True by (simp add: rows_read_def ran)
    have "current (if sm_read_due shown then read_shown_mailbox_again ?w2 else ?w2) content pending got"
      using w2 read_again_ok by (cases "sm_read_due shown") auto
    then show ?thesis unfolding run by (subst current_same) simp_all
  qed
qed

lemma reads_selected:
  "reads_ok sel sm jobs content pending got \<Longrightarrow> sm_folder sm = None \<or> sm_folder sm = sel' \<Longrightarrow> reads_ok sel' sm jobs content pending got"
  by (simp add: reads_ok_def)

text \<open>The changes of flags: the oldest is being written.\<close>

definition flags_ok :: "window \<Rightarrow> bool" where
  "flags_ok w \<longleftrightarrow> flag_jobs (wi_pool w) = take 1 (wi_flag_writes w)"

lemma flags_same: "wi_flag_writes w' = wi_flag_writes w \<Longrightarrow> flag_jobs (wi_pool w') = flag_jobs (wi_pool w) \<Longrightarrow> flags_ok w' = flags_ok w"
  by (simp add: flags_ok_def)

lemma write_flag_ok: "flags_ok w \<Longrightarrow> flags_ok (write_flag change w)"
  by (cases "wi_flag_writes w") (auto simp: write_flag_def write_oldest_flag_def flags_ok_def spawn_def Let_def)

lemma write_flag_same [simp]:
  "wi_sidebar (write_flag change w) = wi_sidebar w" "wi_shown (write_flag change w) = wi_shown w"
  "wi_refreshes (write_flag change w) = wi_refreshes w" "rows_jobs (wi_pool (write_flag change w)) = rows_jobs (wi_pool w)"
  by (simp_all add: write_flag_def write_oldest_flag_def Let_def split: list.split)

lemma take_call_same [simp]:
  "wi_sidebar (take_call su animates call w) = wi_sidebar w" "wi_shown (take_call su animates call w) = wi_shown w"
  "wi_refreshes (take_call su animates call w) = wi_refreshes w" "rows_jobs (wi_pool (take_call su animates call w)) = rows_jobs (wi_pool w)"
  by (simp_all add: take_call_def read_opened_content_def split: mail_call.split)

lemma take_call_flags: "flags_ok w \<Longrightarrow> flags_ok (take_call su animates call w)"
proof -
  assume ok: "flags_ok w"
  then have "flags_ok (read_opened_content account identity w)" "flags_ok (render su animates w)" for account identity
    by (simp_all add: read_opened_content_def flags_ok_def)
  then show ?thesis using write_flag_ok [OF ok] by (simp add: take_call_def split: mail_call.split)
qed

lemma mail_acts_same [simp]:
  "wi_sidebar (mail_acts su animates act w) = wi_sidebar w" "wi_shown (mail_acts su animates act w) = wi_shown w"
  "wi_refreshes (mail_acts su animates act w) = wi_refreshes w" "rows_jobs (wi_pool (mail_acts su animates act w)) = rows_jobs (wi_pool w)"
proof -
  have "wi_sidebar (foldl (\<lambda>w call. take_call su animates call w) w made) = wi_sidebar w \<and>
    wi_shown (foldl (\<lambda>w call. take_call su animates call w) w made) = wi_shown w \<and>
    wi_refreshes (foldl (\<lambda>w call. take_call su animates call w) w made) = wi_refreshes w \<and>
    rows_jobs (wi_pool (foldl (\<lambda>w call. take_call su animates call w) w made)) = rows_jobs (wi_pool w)" for made w
    by (induction made arbitrary: w) simp_all
  then show "wi_sidebar (mail_acts su animates act w) = wi_sidebar w" "wi_shown (mail_acts su animates act w) = wi_shown w"
    "wi_refreshes (mail_acts su animates act w) = wi_refreshes w" "rows_jobs (wi_pool (mail_acts su animates act w)) = rows_jobs (wi_pool w)"
    by (simp_all add: mail_acts_def Let_def)
qed

lemma mail_acts_flags: "flags_ok w \<Longrightarrow> flags_ok (mail_acts su animates act w)"
proof -
  assume ok: "flags_ok w"
  have "flags_ok w \<Longrightarrow> flags_ok (foldl (\<lambda>w call. take_call su animates call w) w made)" for made w
    by (induction made arbitrary: w) (simp_all add: take_call_flags)
  then show ?thesis using ok by (simp add: mail_acts_def Let_def flags_ok_def)
qed

lemma flag_written_parts:
  "wi_refreshes (flag_written change written w) = wi_refreshes w"
  "rows_jobs (wi_pool (flag_written change written w)) =
    (if isl written then rows_jobs (wi_pool w) else rows_jobs (wi_pool (read_shown_mailbox_again (ended_work (WriteFlag change) w))))"
  by (cases written; simp add: flag_written_def write_oldest_flag_def rows_jobs_remove Let_def split: list.split)+

lemma flag_written_flags:
  assumes "flags_ok w" and "WriteFlag change \<in> set (wi_pool w)"
  shows "flags_ok (flag_written change written w)"
proof -
  have "change \<in> set (take 1 (wi_flag_writes w))" using assms by (simp add: flags_ok_def flag_jobs_mem [symmetric])
  then obtain rest where queue: "wi_flag_writes w = change # rest" by (cases "wi_flag_writes w") auto
  then have left: "flag_jobs (remove1 (WriteFlag change) (wi_pool w)) = []"
    using assms(1) by (simp add: flags_ok_def flag_jobs_remove)
  show ?thesis
    by (cases written; cases rest) (simp_all add: flag_written_def write_oldest_flag_def flags_ok_def left queue Let_def)
qed

lemma flag_written_ok:
  assumes "current w content pending got"
  shows "current (flag_written change (Inr u) w) content pending' got" and "current (flag_written change (Inl f) w) content pending got"
proof -
  have ended: "current (ended_work (WriteFlag change) w) content pending got"
    using assms by (subst current_same) (simp_all add: rows_jobs_remove)
  have oldest: "current (write_oldest_flag (w'\<lparr>wi_flag_writes := writes\<rparr>)) content news got = current w' content news got" for w' writes news
    by (subst current_same [of _ w']) (simp_all add: write_oldest_flag_def split: list.split)
  show "current (flag_written change (Inr u) w) content pending' got"
    using read_again_ok [OF ended] by (simp add: flag_written_def Let_def oldest)
  have "current ((ended_work (WriteFlag change) w)\<lparr>wi_sidebar := show_toast (message_not_changed (failure_kind f)) (wi_sidebar w)\<rparr>)
      content pending got = current (ended_work (WriteFlag change) w) content pending got"
    by (simp add: current_def selected_mailbox_def sidebar_selection_def show_toast_def)
  then show "current (flag_written change (Inl f) w) content pending got"
    using ended by (simp add: flag_written_def Let_def oldest)
qed

text \<open>The outcomes and the load that may record one belong to shown accounts.\<close>

definition outcomes_ok :: "window \<Rightarrow> bool" where
  "outcomes_ok w \<longleftrightarrow> (\<forall>(account, _) \<in> set (rf_outcomes (wi_refreshes w)). shows_account (wi_sidebar w) account) \<and>
     (\<forall>running. rf_running (wi_refreshes w) = Some running \<longrightarrow> rl_cancellable running \<longrightarrow> shows_account (wi_sidebar w) (rl_account running))"

lemma outcomes_same: "wi_refreshes w' = wi_refreshes w \<Longrightarrow> (\<And>account. shows_account (wi_sidebar w') account = shows_account (wi_sidebar w) account) \<Longrightarrow>
    outcomes_ok w' = outcomes_ok w"
  by (simp add: outcomes_ok_def)

lemma end_load_ok:
  assumes "outcomes_ok w"
  shows "outcomes_ok (w\<lparr>wi_refreshes := end_load account result (wi_refreshes w)\<rparr>)"
  using assms ordered_update_mem
  by (auto simp: outcomes_ok_def end_load_def Let_def split: option.splits dest!: ordered_update_mem)

lemma discard_ok: "outcomes_ok (w\<lparr>wi_sidebar := sb, wi_refreshes := discard_excluded (shows_account sb) rf, wi_shown := sm\<rparr>)"
  by (auto simp: outcomes_ok_def discard_excluded_def split: if_splits dest: arg_cong [of _ _ rl_cancellable])

lemma cancel_ok: "outcomes_ok w \<Longrightarrow> outcomes_ok (cancel_loads w)"
  by (simp add: outcomes_ok_def cancel_loads_def cancel_load_def)

section \<open>What changes the selection\<close>

lemma update_keeps_selection:
  assumes "al_selection al = Some s" and "is_visible (snd (apply_update update al)) (selection_account s)"
  shows "al_selection (snd (apply_update update al)) = Some s"
proof (cases "is_complete (au_last_check update)")
  case False
  then show ?thesis using assms(1) by (simp add: apply_update_def)
next
  case True
  have same: "is_visible (assign_display_labels al') account = is_visible al' account"
    "al_selection (assign_display_labels al') = al_selection al'" for al' account
    unfolding is_visible_def assign_display_labels_def Let_def by (simp_all add: map_of_same_keys [OF label_rows_keys])
  let ?al = "confirmed_list update al"
  let ?al' = "case al_selection ?al of Some s \<Rightarrow> if is_visible ?al (selection_account s) then ?al else ?al\<lparr>al_selection := None\<rparr> | None \<Rightarrow> ?al"
  have run: "snd (apply_update update al) = assign_display_labels ?al'"
    using True by (simp add: apply_update_def Let_def case_prod_beta)
  have "al_selection ?al = Some s" using assms(1) by (simp add: hide_removed_or_disabled_accounts_def)
  moreover have "is_visible ?al (selection_account s)"
    using assms(2) calculation unfolding run same(1) by (auto simp: is_visible_def split: if_splits)
  ultimately show ?thesis unfolding run same(2) by simp
qed

lemma toasts_parts [simp]:
  "sb_accounts (foldl (\<lambda>sb notice. show_toast (f notice) sb) sb notices) = sb_accounts sb"
  by (induction notices arbitrary: sb) (simp_all add: show_toast_def)

lemma updated_accounts: "sb_accounts (sidebar_update update sb) = snd (apply_update update (sb_accounts sb))"
  by (simp add: sidebar_update_def Let_def case_prod_beta)

lemma updated_selection:
  "sidebar_selection (sidebar_update update sb) = None \<or> sidebar_selection (sidebar_update update sb) = sidebar_selection sb"
  "sidebar_selection sb = Some s \<Longrightarrow> shows_account (sidebar_update update sb) (selection_account s) \<Longrightarrow>
    sidebar_selection (sidebar_update update sb) = Some s"
  using update_selection [of update "sb_accounts sb"] update_keeps_selection [of "sb_accounts sb" s update]
  by (simp_all add: sidebar_selection_def shows_account_def updated_accounts)

lemma folders_run:
  assumes "show_folders collation account listed sb = Some (gone, sb')"
  shows "gone = False \<and> sb' = sb \<or>
    (\<exists>sb1. sb_accounts sb1 = sb_accounts sb \<and> sb' = show_selection (if gone then sb1\<lparr>sb_accounts := clear_selection (sb_accounts sb1)\<rparr> else sb1))"
proof (cases "map_of (sb_nodes sb) account")
  case None
  then show ?thesis using assms by (simp add: show_folders_def)
next
  case node: (Some node)
  let ?folders = "sort_key folder_identity listed"
  show ?thesis
  proof (cases "an_folders node = ?folders")
    case True
    then show ?thesis using assms node by (simp add: show_folders_def Let_def)
  next
    case new: False
    show ?thesis
    proof (cases "fill_folders (Suc (length ?folders)) collation account None ?folders")
      case None
      then show ?thesis using assms new by (simp only: show_folders_def node option.case Let_def if_False) simp
    next
      case (Some children)
      let ?node = "node\<lparr>an_children := children, an_selectable := (\<not> (\<exists>f \<in> set ?folders. folder_selectable f)),
                      an_hide_expander := (children = []), an_folders := ?folders\<rparr>"
      let ?keep = "\<lambda>key. case key of SelectedMailbox folder \<Rightarrow> ref_account folder \<noteq> account | _ \<Rightarrow> True"
      obtain sb1 where sb1: "sb1 = sb\<lparr>sb_nodes := replace_node account ?node (sb_nodes sb), sb_collapsed := filter ?keep (sb_collapsed sb)\<rparr>"
        by simp
      obtain clears where clears: "clears = (case sidebar_selection sb1 of
          Some s \<Rightarrow> selection_account s = account \<and> \<not> shows_selectable sb1 s | None \<Rightarrow> False)" by simp
      have "Some (clears, show_selection (if clears then sb1\<lparr>sb_accounts := clear_selection (sb_accounts sb1)\<rparr> else sb1)) = Some (gone, sb')"
        using assms new by (simp only: show_folders_def node option.case Let_def Some if_False sb1 clears)
      then have "sb' = show_selection (if gone then sb1\<lparr>sb_accounts := clear_selection (sb_accounts sb1)\<rparr> else sb1)" by auto
      moreover have "sb_accounts sb1 = sb_accounts sb" by (simp add: sb1)
      ultimately show ?thesis by blast
    qed
  qed
qed

lemma folders_selection:
  assumes "show_folders collation account listed sb = Some (gone, sb')"
  shows "sidebar_selection sb' = (if gone then None else sidebar_selection sb)" and "shows_account sb' other = shows_account sb other"
  using folders_run [OF assms]
  by (cases gone; auto simp: sidebar_selection_def shows_account_def is_visible_def clear_selection_def)+

lemma acts_selection:
  "select_row key sb = (False, sb') \<Longrightarrow> sb' = sb"
  "collapse_rows rows sb = (False, sb'') \<Longrightarrow> sidebar_selection sb'' = sidebar_selection sb"
  by (auto simp: select_row_def collapse_rows_def clear_hidden_selection_def sidebar_selection_def Let_def split: if_splits)

lemma acts_accounts:
  "shows_account (snd (select_row key sb)) account = shows_account sb account"
  "shows_account (snd (collapse_rows rows sb)) account = shows_account sb account"
  by (auto simp: select_row_def collapse_rows_def clear_hidden_selection_def shows_account_def is_visible_def select_def clear_selection_def Let_def)

lemma window_selection_shown:
  assumes "numbered_reads (wi_shown w) (rows_jobs (wi_pool w)) got"
    and "\<And>folder. selected_mailbox w = Some folder \<Longrightarrow> sm_folder (wi_shown w) = Some folder \<Longrightarrow> current w content pending got"
  shows "current (show_window_selection su animates w) content pending got"
proof (cases "selected_mailbox w")
  case None
  have "current (w\<lparr>wi_shown := forget (wi_shown w)\<rparr>) content pending got"
    using forget_ok [OF assms(1)] by (simp add: current_def)
  then show ?thesis by (simp add: show_window_selection_def None current_def)
next
  case (Some folder)
  have "current (if holds (wi_shown w) folder then w else read_shown_mailbox w) content pending got"
    using assms(2) [OF Some] read_mailbox_ok [OF assms(1) Some] by (simp add: holds_def)
  then show ?thesis by (simp add: show_window_selection_def Some current_def split del: if_split)
qed

lemma sidebar_acts_current:
  assumes "current w content pending got" and "\<And>sb. act (wi_sidebar w) = (False, sb) \<Longrightarrow> sidebar_selection sb = sidebar_selection (wi_sidebar w)"
  shows "current (sidebar_acts su animates act w) content pending got"
proof -
  obtain changed sb where act: "act (wi_sidebar w) = (changed, sb)" by (cases "act (wi_sidebar w)")
  let ?w = "w\<lparr>wi_sidebar := sb\<rparr>"
  show ?thesis
  proof (cases changed)
    case False
    then have "selected_mailbox ?w = selected_mailbox w" using assms(2) act by (simp add: selected_mailbox_def)
    then show ?thesis using False assms(1) by (simp add: sidebar_acts_def act current_def)
  next
    case True
    have "current ?w content pending got" if "selected_mailbox ?w = Some folder" "sm_folder (wi_shown ?w) = Some folder" for folder
      using reads_selected [OF assms(1) [unfolded current_def]] that by (simp add: current_def)
    then have "current (show_window_selection su animates ?w) content pending got"
      using current_numbered [OF assms(1)] by (intro window_selection_shown) simp_all
    then show ?thesis using True by (simp add: sidebar_acts_def act)
  qed
qed

lemma show_selection_parts [simp]:
  "wi_sidebar (show_window_selection su animates w) = wi_sidebar w" "wi_refreshes (show_window_selection su animates w) = wi_refreshes w"
  "wi_flag_writes (show_window_selection su animates w) = wi_flag_writes w"
  "flag_jobs (wi_pool (show_window_selection su animates w)) = flag_jobs (wi_pool w)"
  by (simp_all add: show_window_selection_def split: option.split)

lemma sidebar_acts_parts [simp]:
  "wi_sidebar (sidebar_acts su animates act w) = snd (act (wi_sidebar w))" "wi_refreshes (sidebar_acts su animates act w) = wi_refreshes w"
  "wi_flag_writes (sidebar_acts su animates act w) = wi_flag_writes w"
  "flag_jobs (wi_pool (sidebar_acts su animates act w)) = flag_jobs (wi_pool w)"
  by (simp_all add: sidebar_acts_def case_prod_beta Let_def)

lemma update_current:
  assumes "current w content pending got"
  shows "current (apply_account_update su animates update w) content pending got"
proof -
  let ?sb = "sidebar_update update (wi_sidebar w)"
  let ?w1 = "w\<lparr>wi_sidebar := ?sb, wi_refreshes := discard_excluded (shows_account ?sb) (wi_refreshes w),
                wi_shown := forget_excluded (shows_account ?sb) (wi_shown w)\<rparr>"
  have "current ?w1 content pending got"
  proof (cases "sm_folder (wi_shown w)")
    case None
    then show ?thesis
      using reads_selected [OF assms [unfolded current_def], of "selected_mailbox ?w1"]
      by (simp add: current_def forget_excluded_def)
  next
    case (Some folder)
    then have selected: "selected_mailbox w = Some folder" using assms by (simp add: current_def reads_ok_def)
    show ?thesis
    proof (cases "shows_account ?sb (ref_account folder)")
      case True
      have "sidebar_selection (wi_sidebar w) = Some (SelectedMailbox folder)"
        using selected by (auto simp: selected_mailbox_def split: option.splits selection.splits)
      then have "sidebar_selection ?sb = Some (SelectedMailbox folder)"
        using updated_selection(2) True by (simp add: selection_account_def)
      then have "selected_mailbox ?w1 = Some folder" by (simp add: selected_mailbox_def)
      then show ?thesis
        using assms selected Some True by (simp add: current_def forget_excluded_def)
    next
      case False
      then show ?thesis
        using forget_ok [OF current_numbered [OF assms]] Some by (simp add: current_def forget_excluded_def)
    qed
  qed
  then show ?thesis
    by (subst current_same [of _ ?w1]) (simp_all add: apply_account_update_def delete_removed_accounts_def Let_def)
qed

lemma folder_lists_shown:
  assumes "current w content pending got" and "show_folder_lists su found w = Some w'"
  shows "current w' content pending got"
  using assms
proof (induction su found w rule: show_folder_lists.induct)
  case (2 su account folders found w)
  obtain gone sb where shown: "show_folders (su_collation su) account folders (wi_sidebar w) = Some (gone, sb)"
    using 2(3) by (auto split: option.splits)
  let ?w = "w\<lparr>wi_sidebar := sb, wi_shown := (if gone then forget (wi_shown w) else wi_shown w)\<rparr>"
  have "current ?w content pending got"
  proof (cases gone)
    case True
    then show ?thesis using forget_ok [OF current_numbered [OF 2(2)]] by (simp add: current_def)
  next
    case False
    then have "selected_mailbox ?w = selected_mailbox w" using folders_selection(1) [OF shown] by (simp add: selected_mailbox_def)
    then show ?thesis using 2(2) False by (simp add: current_def)
  qed
  then show ?case using 2(1) [OF shown refl] 2(3) shown by simp
qed simp

lemma folder_lists_parts:
  assumes "show_folder_lists su found w = Some w'" and "sidebar_ok (wi_sidebar w)"
    and "\<forall>(account, folders) \<in> set found. distinct (map folder_identity folders)"
  shows "sidebar_ok (wi_sidebar w') \<and> wi_refreshes w' = wi_refreshes w \<and> wi_flag_writes w' = wi_flag_writes w \<and>
    wi_pool w' = wi_pool w \<and> (\<forall>account. shows_account (wi_sidebar w') account = shows_account (wi_sidebar w) account)"
  using assms
proof (induction su found w rule: show_folder_lists.induct)
  case (2 su account folders found w)
  obtain gone sb where shown: "show_folders (su_collation su) account folders (wi_sidebar w) = Some (gone, sb)"
    using 2(2) by (auto split: option.splits)
  have "sidebar_ok sb" using show_folders_ok [OF 2(3) _ shown] 2(4) by simp
  then show ?case using 2(1) [OF shown refl] 2(2,4) shown folders_selection(2) [OF shown] by simp
qed simp

lemma finish_load_current:
  assumes "current w content pending got"
  shows "current (finish_window_load su animates account target result w) content pending got"
proof -
  let ?w1 = "w\<lparr>wi_refreshes := end_load account result (wi_refreshes w)\<rparr>"
  have w1: "current ?w1 content pending got" using assms by (subst current_same) simp_all
  have lists: "current (read_folder_lists ?w1) content pending got" using w1 by (subst current_same) simp_all
  have selected: "selected_mailbox (read_folder_lists ?w1) = selected_mailbox ?w1" by (simp add: selected_mailbox_def)
  have mailbox: "current (read_shown_mailbox (read_folder_lists ?w1)) content pending got" if "selected_mailbox ?w1 = Some folder" for folder
    using read_mailbox_ok [OF current_numbered [OF lists]] selected that by simp
  note again = read_again_ok [OF w1, of pending]
  show ?thesis
    using w1 lists mailbox again
    by (cases target; cases result) (auto simp: finish_window_load_def Let_def current_render split: option.split)
qed

section \<open>Runs\<close>

text \<open>
  All that can happen to a window, with what the store holds, what the window has not heard of it and what
  the reads that ran have found. A load writes the rows of its account and tells the window afterwards; a
  change of a flag writes those of its account and is then answered; accounts whose mail is deleted are not
  shown. \<open>act\<close> is anything the list of messages and the reader can do.
\<close>

inductive window_run :: "surroundings \<Rightarrow> window \<Rightarrow> store_content \<Rightarrow> store_news list \<Rightarrow> reads_found \<Rightarrow> bool" for su where
  start: "window_run su (new_window su) content [] Map.empty"
| load_wrote: "window_run su w content pending got \<Longrightarrow> (\<And>folder. ref_account folder \<noteq> account \<Longrightarrow> content' folder = content folder) \<Longrightarrow>
    window_run su w content' (pending @ [Told account]) got"
| told: "window_run su w content pending got \<Longrightarrow> window_run su (show_changed_store account w) content (remove1 (Told account) pending) got"
| load_ended: "window_run su w content pending got \<Longrightarrow> window_run su (finish_window_load su animates account target result w) content pending got"
| flag_wrote: "window_run su w content pending got \<Longrightarrow> WriteFlag change \<in> set (wi_pool w) \<Longrightarrow>
    (\<And>folder. ref_account folder \<noteq> fw_account change \<Longrightarrow> content' folder = content folder) \<Longrightarrow>
    window_run su w content' (pending @ [Written change]) got"
| flag_answered: "window_run su w content pending got \<Longrightarrow> WriteFlag change \<in> set (wi_pool w) \<Longrightarrow>
    window_run su (flag_written change (Inr ()) w) content (remove1 (Written change) pending) got"
| flag_failed: "window_run su w content pending got \<Longrightarrow> WriteFlag change \<in> set (wi_pool w) \<Longrightarrow>
    window_run su (flag_written change (Inl f) w) content pending got"
| rows_found: "window_run su w content pending got \<Longrightarrow> ReadRows folder n \<in> set (wi_pool w) \<Longrightarrow> isl answer \<or> answer = Inr (content folder) \<Longrightarrow>
    window_run su w content pending (got(n \<mapsto> answer))"
| rows_answered: "window_run su w content pending got \<Longrightarrow> ReadRows folder n \<in> set (wi_pool w) \<Longrightarrow> got n = Some answer \<Longrightarrow>
    window_run su (rows_read su animates folder n answer w) content pending got"
| lists_answered: "window_run su w content pending got \<Longrightarrow> (\<forall>found. answer = Inr found \<longrightarrow> (\<forall>(account, folders) \<in> set found. distinct (map folder_identity folders))) \<Longrightarrow>
    lists_read su animates n accounts answer w = Some w' \<Longrightarrow> window_run su w' content pending got"
| content_answered: "window_run su w content pending got \<Longrightarrow> window_run su (content_read account identity answer w) content pending got"
| deleted: "window_run su w content pending got \<Longrightarrow> (\<And>folder. shows_account (wi_sidebar w) (ref_account folder) \<Longrightarrow> content' folder = content folder) \<Longrightarrow>
    window_run su w content' pending got"
| accounts_updated: "window_run su w content pending got \<Longrightarrow> window_run su (apply_account_update su animates update w) content pending got"
| row_selected: "window_run su w content pending got \<Longrightarrow> (key, True, title) \<in> set (tree_rows (wi_sidebar w)) \<Longrightarrow>
    window_run su (sidebar_acts su animates (select_row key) w) content pending got"
| rows_collapsed: "window_run su w content pending got \<Longrightarrow> window_run su (sidebar_acts su animates (collapse_rows rows) w) content pending got"
| mailbox_refreshed: "window_run su w content pending got \<Longrightarrow> window_run su (refresh_mailbox su animates w) content pending got"
| account_refreshed: "window_run su w content pending got \<Longrightarrow> window_run su (refresh_account su animates w) content pending got"
| acted: "window_run su w content pending got \<Longrightarrow> window_run su (mail_acts su animates act w) content pending got"
| reread: "window_run su w content pending got \<Longrightarrow> window_run su (read_stored_mail su animates w) content pending got"
| filtered: "window_run su w content pending got \<Longrightarrow> window_run su (unread_filter_toggled su animates unread_only w) content pending got"
| quitting: "window_run su w content pending got \<Longrightarrow> window_run su (cancel_loads w) content pending got"

definition window_ok :: "window \<Rightarrow> store_content \<Rightarrow> store_news list \<Rightarrow> reads_found \<Rightarrow> bool" where
  "window_ok w content pending got \<longleftrightarrow> sidebar_ok (wi_sidebar w) \<and> current w content pending got \<and> flags_ok w \<and> outcomes_ok w"

lemma window_ok_same:
  assumes "window_ok w content pending got" and "wi_sidebar w' = wi_sidebar w" and "wi_shown w' = wi_shown w"
    and "rows_jobs (wi_pool w') = rows_jobs (wi_pool w)" and "flags_ok w'" and "wi_refreshes w' = wi_refreshes w"
  shows "window_ok w' content pending got"
  using assms current_same [of w' w] outcomes_same [of w' w] by (simp add: window_ok_def)

lemma new_window_ok: "window_ok (new_window su) content [] Map.empty"
  using sidebar_reached_ok [OF sidebar_reached.start]
  by (simp add: window_ok_def new_window_def current_def reads_ok_def numbered_reads_def latest_job_def up_to_date_def is_reading_def
      no_mailbox_shown_def flags_ok_def outcomes_ok_def no_refreshes_def)

lemma told_ok:
  assumes "window_ok w content pending got"
  shows "window_ok (show_changed_store account w) content (remove1 (Told account) pending) got"
proof (cases "\<exists>folder. selected_mailbox w = Some folder \<and> ref_account folder = account")
  case True
  then have "show_changed_store account w = read_shown_mailbox_again w" by (auto simp: show_changed_store_def)
  then show ?thesis
    using assms read_again_ok [of w content pending got "remove1 (Told account) pending"]
      flags_same [of "read_shown_mailbox_again w" w] outcomes_same [of "read_shown_mailbox_again w" w]
    by (simp add: window_ok_def)
next
  case False
  then have same: "show_changed_store account w = w" by (auto simp: show_changed_store_def split: option.split)
  have "news_of (remove1 (Told account) pending) folder = news_of pending folder" if "sm_folder (wi_shown w) = Some folder" for folder
  proof -
    have "selected_mailbox w = Some folder" using assms that by (simp add: window_ok_def current_def reads_ok_def)
    then have "ref_account folder \<noteq> account" using False by blast
    then have "(news \<in> set (remove1 (Told account) pending)) = (news \<in> set pending)" if "news_account news = ref_account folder" for news
      using that in_set_remove1 [of news "Told account" pending] by (cases "news = Told account") (auto simp: news_account_def)
    then show ?thesis by (auto simp: news_of_def image_iff) 
  qed
  then show ?thesis unfolding same using assms by (auto simp: window_ok_def current_def reads_ok_def up_to_date_def)
qed

lemma flag_written_window_ok:
  assumes "window_ok w content pending got" and "WriteFlag change \<in> set (wi_pool w)"
  shows "window_ok (flag_written change (Inr ()) w) content pending' got" and "window_ok (flag_written change (Inl f) w) content pending got"
proof -
  have current: "current w content pending got" and flags: "flags_ok w" using assms(1) by (simp_all add: window_ok_def)
  have sidebar: "wi_sidebar (flag_written change written w) =
      (case written of Inr _ \<Rightarrow> wi_sidebar w | Inl f \<Rightarrow> show_toast (message_not_changed (failure_kind f)) (wi_sidebar w))" for written
    by (simp add: flag_written_def write_oldest_flag_def Let_def split: sum.split list.split)
  have shown: "shows_account (show_toast title sb) account = shows_account sb account" for title sb account
    by (simp add: shows_account_def show_toast_def)
  have outcomes: "outcomes_ok (flag_written change written w)" for written
    using assms(1) outcomes_same [of "flag_written change written w" w]
    by (cases written) (simp_all add: window_ok_def flag_written_parts sidebar shown)
  show "window_ok (flag_written change (Inr ()) w) content pending' got"
    using flag_written_ok(1) [OF current] flag_written_flags [OF flags assms(2)] outcomes assms(1) by (simp add: window_ok_def sidebar)
  show "window_ok (flag_written change (Inl f) w) content pending got"
    using flag_written_ok(2) [OF current] flag_written_flags [OF flags assms(2)] outcomes assms(1) by (simp add: window_ok_def sidebar toast_ok)
qed

lemma rows_read_parts [simp]:
  "wi_sidebar (rows_read su animates folder n answer w) = wi_sidebar w" "wi_refreshes (rows_read su animates folder n answer w) = wi_refreshes w"
  "wi_flag_writes (rows_read su animates folder n answer w) = wi_flag_writes w"
  "flag_jobs (wi_pool (rows_read su animates folder n answer w)) = flag_jobs (wi_pool w)"
  by (simp_all add: rows_read_def case_prod_beta Let_def flag_jobs_remove)

lemma rows_read_window_ok:
  assumes "window_ok w content pending got" and "ReadRows folder n \<in> set (wi_pool w)" and "got n = Some answer"
  shows "window_ok (rows_read su animates folder n answer w) content pending got"
  using assms rows_read_ok [of w content pending got folder n answer su animates]
    flags_same [of "rows_read su animates folder n answer w" w] outcomes_same [of "rows_read su animates folder n answer w" w]
  by (simp add: window_ok_def)

lemma lists_read_window_ok:
  assumes "window_ok w content pending got"
    and "\<forall>found. answer = Inr found \<longrightarrow> (\<forall>(account, folders) \<in> set found. distinct (map folder_identity folders))"
    and run: "lists_read su animates n accounts answer w = Some w'"
  shows "window_ok w' content pending got"
proof -
  obtain latest fl where finish: "finish_lists_read n answer (wi_lists (ended_work (ReadLists n accounts) w)) = (latest, fl)"
    by (cases "finish_lists_read n answer (wi_lists (ended_work (ReadLists n accounts) w))")
  let ?w1 = "(ended_work (ReadLists n accounts) w)\<lparr>wi_lists := fl\<rparr>"
  have w1: "window_ok ?w1 content pending got"
    using assms(1) by (rule window_ok_same) (use assms(1) in \<open>simp_all add: window_ok_def flags_ok_def rows_jobs_remove flag_jobs_remove\<close>)
  show ?thesis
  proof (cases "latest \<and> \<not> isl answer")
    case False
    then have "w' = ?w1 \<or> w' = render su animates ?w1"
      using run finish by (cases answer) (auto simp: lists_read_def Let_def split: if_splits)
    moreover have "window_ok (render su animates ?w1) content pending got"
      by (rule window_ok_same [OF w1]) (use w1 in \<open>simp_all add: window_ok_def flags_ok_def\<close>)
    ultimately show ?thesis using w1 by blast
  next
    case True
    then obtain found w2 where found: "answer = Inr found" "show_folder_lists su found ?w1 = Some w2" "w' = render su animates w2"
      using run finish by (cases answer) (auto simp: lists_read_def Let_def split: if_splits)
    have w2: "current w2 content pending got" using folder_lists_shown [OF _ found(2)] w1 by (simp add: window_ok_def)
    have parts: "sidebar_ok (wi_sidebar w2) \<and> wi_refreshes w2 = wi_refreshes ?w1 \<and> wi_flag_writes w2 = wi_flag_writes ?w1 \<and>
        wi_pool w2 = wi_pool ?w1 \<and> (\<forall>account. shows_account (wi_sidebar w2) account = shows_account (wi_sidebar ?w1) account)"
      using folder_lists_parts [OF found(2)] w1 assms(2) found(1) by (simp add: window_ok_def)
    then have "flags_ok w2" "outcomes_ok w2"
      using w1 flags_same [of w2 ?w1] outcomes_same [of w2 ?w1] by (simp_all add: window_ok_def)
    then have "window_ok w2 content pending got" using w2 parts by (simp add: window_ok_def)
    then show ?thesis
      unfolding found(3) by (rule window_ok_same) (use \<open>flags_ok w2\<close> in \<open>simp_all add: flags_ok_def\<close>)
  qed
qed

lemma deleted_ok:
  assumes "window_ok w content pending got" and "\<And>folder. shows_account (wi_sidebar w) (ref_account folder) \<Longrightarrow> content' folder = content folder"
  shows "window_ok w content' pending got"
proof -
  have "content' folder = content folder" if "sm_folder (wi_shown w) = Some folder" for folder
  proof -
    have "selected_mailbox w = Some folder" using assms(1) that by (simp add: window_ok_def current_def reads_ok_def)
    then have "al_selection (sb_accounts (wi_sidebar w)) = Some (SelectedMailbox folder)"
      by (auto simp: selected_mailbox_def sidebar_selection_def split: option.splits selection.splits)
    moreover have "selection_ok (sb_accounts (wi_sidebar w))" using assms(1) by (simp add: window_ok_def sidebar_ok_def accounts_ok_def)
    ultimately have "shows_account (wi_sidebar w) (ref_account folder)"
      by (simp add: selection_ok_def shows_account_def selection_account_def)
    then show ?thesis by (rule assms(2))
  qed
  then show ?thesis using assms(1) by (auto simp: window_ok_def current_def reads_ok_def up_to_date_def)
qed

lemma update_window_ok:
  assumes "window_ok w content pending got"
  shows "window_ok (apply_account_update su animates update w) content pending got"
proof -
  let ?sb = "sidebar_update update (wi_sidebar w)"
  have sidebar: "wi_sidebar (apply_account_update su animates update w) = ?sb"
    and refreshes: "wi_refreshes (apply_account_update su animates update w) = discard_excluded (shows_account ?sb) (wi_refreshes w)"
    and flags: "wi_flag_writes (apply_account_update su animates update w) = wi_flag_writes w"
      "flag_jobs (wi_pool (apply_account_update su animates update w)) = flag_jobs (wi_pool w)"
    by (simp_all add: apply_account_update_def delete_removed_accounts_def Let_def)
  have "outcomes_ok (apply_account_update su animates update w)"
    using discard_ok [where w = w and sb = ?sb and rf = "wi_refreshes w" and sm = "wi_shown w"] by (simp add: outcomes_ok_def sidebar refreshes)
  then show ?thesis
    using assms sidebar_update_ok update_current [of w content pending got su animates update] flags
    by (simp add: window_ok_def sidebar flags_ok_def)
qed

lemma sidebar_acts_window_ok:
  assumes "window_ok w content pending got"
  shows "(key, True, title) \<in> set (tree_rows (wi_sidebar w)) \<Longrightarrow> window_ok (sidebar_acts su animates (select_row key) w) content pending got"
    and "window_ok (sidebar_acts su animates (collapse_rows rows) w) content pending got"
proof -
  have current: "current w content pending got" and ok: "sidebar_ok (wi_sidebar w)" "flags_ok w" "outcomes_ok w"
    using assms by (simp_all add: window_ok_def)
  have parts: "flags_ok (sidebar_acts su animates act w)" for act using ok(2) by (simp add: flags_ok_def)
  have outcomes: "outcomes_ok (sidebar_acts su animates (select_row key) w)" "outcomes_ok (sidebar_acts su animates (collapse_rows rows) w)" for key rows
    using ok(3) acts_accounts by (auto simp: outcomes_ok_def)
  show "window_ok (sidebar_acts su animates (select_row key) w) content pending got" if "(key, True, title) \<in> set (tree_rows (wi_sidebar w))"
  proof -
    have "current (sidebar_acts su animates (select_row key) w) content pending got"
      by (rule sidebar_acts_current [OF current]) (auto dest: acts_selection(1))
    then show ?thesis using select_row_ok [OF ok(1) that] parts outcomes by (simp add: window_ok_def)
  qed
  show "window_ok (sidebar_acts su animates (collapse_rows rows) w) content pending got"
  proof -
    have "current (sidebar_acts su animates (collapse_rows rows) w) content pending got"
      by (rule sidebar_acts_current [OF current]) (rule acts_selection(2))
    then show ?thesis using collapse_ok [OF ok(1)] parts outcomes by (simp add: window_ok_def)
  qed
qed

lemma start_load_window_ok:
  assumes "window_ok w content pending got" and "shows_account (wi_sidebar w) account"
  shows "window_ok (start_window_load su animates account provider target w) content pending got"
proof (cases "is_loading (wi_refreshes w)")
  case False
  have "current (start_window_load su animates account provider target w) content pending got"
    using assms(1) forget_failure_ok False by (simp add: window_ok_def start_window_load_def current_def selected_mailbox_def)
  then show ?thesis
    using assms False by (simp add: window_ok_def start_window_load_def flags_ok_def outcomes_ok_def begin_load_def)
qed (use assms(1) in \<open>simp add: start_window_load_def\<close>)

lemma selected_account_shown:
  assumes "sidebar_ok (wi_sidebar w)" and "selection_with_provider w = Some (s, provider)"
  shows "shows_account (wi_sidebar w) (selection_account s)"
  using assms by (auto simp: selection_with_provider_def sidebar_selection_def sidebar_ok_def accounts_ok_def selection_ok_def
      shows_account_def split: option.splits)

lemma refresh_window_ok:
  assumes "window_ok w content pending got"
  shows "window_ok (refresh_mailbox su animates w) content pending got" and "window_ok (refresh_account su animates w) content pending got"
proof -
  have shown: "shows_account (wi_sidebar w) (selection_account s)" if "selection_with_provider w = Some (s, provider)" for s provider
    using selected_account_shown that assms by (simp add: window_ok_def)
  show "window_ok (refresh_account su animates w) content pending got"
    using assms start_load_window_ok [OF assms] shown by (auto simp: refresh_account_def split: option.split)
  show "window_ok (refresh_mailbox su animates w) content pending got"
    using assms start_load_window_ok [OF assms] shown [of "SelectedMailbox _"]
    by (auto simp: refresh_mailbox_def selection_account_def split: option.split selection.split)
qed

lemma load_ended_window_ok:
  assumes "window_ok w content pending got"
  shows "window_ok (finish_window_load su animates account target result w) content pending got"
proof -
  let ?ended = "finish_window_load su animates account target result w"
  have parts: "wi_sidebar ?ended = wi_sidebar w" "wi_refreshes ?ended = end_load account result (wi_refreshes w)"
    "wi_flag_writes ?ended = wi_flag_writes w" "flag_jobs (wi_pool ?ended) = flag_jobs (wi_pool w)"
    by (cases result; cases target; cases "selected_mailbox (w\<lparr>wi_refreshes := end_load account result (wi_refreshes w)\<rparr>)";
        simp add: finish_window_load_def Let_def)+
  have "outcomes_ok ?ended"
    using end_load_ok [of w account result] assms outcomes_same [of ?ended "w\<lparr>wi_refreshes := end_load account result (wi_refreshes w)\<rparr>"]
    by (simp add: window_ok_def parts(1,2))
  then show ?thesis
    using assms finish_load_current [of w content pending got su animates account target result] flags_same [OF parts(3,4)]
    unfolding window_ok_def parts(1) by blast
qed

lemma window_run_ok: "window_run su w content pending got \<Longrightarrow> window_ok w content pending got"
proof (induction rule: window_run.induct)
  case (start content)
  show ?case by (rule new_window_ok)
next
  case (load_wrote w content pending got account content')
  then show ?case
    using changed_ok [of _ _ _ content pending got "Told account" content'] by (simp add: window_ok_def current_def news_account_def)
next
  case (flag_wrote w content pending got change content')
  then show ?case
    using changed_ok [of _ _ _ content pending got "Written change" content'] by (simp add: window_ok_def current_def news_account_def)
next
  case (rows_found w content pending got folder n answer)
  then show ?case
    using found_ok [of _ _ _ content pending got folder n answer]
    by (simp add: window_ok_def current_def rows_jobs_mem del: fun_upd_apply)
next
  case (content_answered w content pending got account identity answer)
  show ?case
    by (rule window_ok_same [OF content_answered.IH])
      (use content_answered.IH in \<open>simp_all add: content_read_def Let_def rows_jobs_remove flag_jobs_remove window_ok_def flags_ok_def\<close>)
next
  case (acted w content pending got animates act)
  show ?case
    by (rule window_ok_same [OF acted.IH]) (use acted.IH mail_acts_flags in \<open>simp_all add: window_ok_def\<close>)
next
  case (filtered w content pending got animates unread_only)
  have "flags_ok (mail_acts su animates (set_unread_filter animates unread_only) w)"
    using filtered.IH mail_acts_flags by (simp add: window_ok_def)
  then show ?case
    by (intro window_ok_same [OF filtered.IH]) (simp_all add: unread_filter_toggled_def flags_ok_def)
next
  case (reread w content pending got animates)
  let ?w1 = "read_shown_mailbox (read_folder_lists w)"
  have current: "current w content pending got" and ok: "sidebar_ok (wi_sidebar w)" "flags_ok w" "outcomes_ok w"
    using reread.IH by (simp_all add: window_ok_def)
  have "current (read_folder_lists w) content pending got" using current by (subst current_same) simp_all
  then have "current ?w1 content pending got"
  proof (cases "selected_mailbox (read_folder_lists w)")
    case None
    then show ?thesis using \<open>current (read_folder_lists w) content pending got\<close> by (simp add: read_shown_mailbox_def)
  next
    case (Some folder)
    then show ?thesis using read_mailbox_ok [OF current_numbered [OF \<open>current (read_folder_lists w) content pending got\<close>]] by blast
  qed
  then have w1: "window_ok ?w1 content pending got"
    using ok flags_same [of ?w1 w] outcomes_same [of ?w1 w] by (simp add: window_ok_def)
  then have "flags_ok (mail_acts su animates read_open_content_again ?w1)" using mail_acts_flags by (simp add: window_ok_def)
  then show ?case
    by (intro window_ok_same [OF w1]) (simp_all add: read_stored_mail_def flags_ok_def)
next
  case (quitting w content pending got)
  have "current (cancel_loads w) content pending got = current w content pending got"
    by (rule current_same) (simp_all add: cancel_loads_def)
  then show ?case
    using quitting.IH cancel_ok by (simp add: window_ok_def flags_ok_def) (simp add: cancel_loads_def)
qed (auto intro: told_ok load_ended_window_ok flag_written_window_ok rows_read_window_ok lists_read_window_ok deleted_ok
  update_window_ok sidebar_acts_window_ok refresh_window_ok)

lemma shown_mail_stored:
  "shown_mail_of w = ShownMessages shown read rows banner \<Longrightarrow> shown_stored w = StoredRead (Some (read, rows)) \<and> shown = the (selected_mailbox w)"
  "shown_mail_of w = EmptyMailbox banner \<Longrightarrow> \<exists>read. shown_stored w = StoredRead (Some (read, []))"
  "shown_mail_of w = ShownReading again \<Longrightarrow> shown_stored w = Reading again"
proof -
  have mail: "(shown_mail_of w = ShownMessages shown read rows banner \<longrightarrow> shown_stored w = StoredRead (Some (read, rows)) \<and> shown = the (selected_mailbox w)) \<and>
    (shown_mail_of w = EmptyMailbox banner \<longrightarrow> (\<exists>read. shown_stored w = StoredRead (Some (read, [])))) \<and>
    (shown_mail_of w = ShownReading again \<longrightarrow> shown_stored w = Reading again)"
  proof (cases "fl_failure (wi_lists w) = None \<and> sidebar_selection (wi_sidebar w) \<noteq> None")
    case False
    then show ?thesis
      by (cases "fl_failure (wi_lists w)"; cases "sidebar_selection (wi_sidebar w)") (simp_all add: shown_mail_of_def)
  next
    case True
    then obtain s where s: "fl_failure (wi_lists w) = None" "sidebar_selection (wi_sidebar w) = Some s" by blast
    obtain outcome loading where ends: "shown_outcome w s = outcome" "shown_loading w s = loading" by simp
    show ?thesis
    proof (cases "shown_stored w")
      case (StoredRead found)
      show ?thesis
      proof (cases found)
        case None
        then show ?thesis
          by (simp add: shown_mail_of_def s ends StoredRead split: option.split refresh_outcome.split)
      next
        case (Some answer)
        obtain n all where answer: "answer = (n, all)" by (cases answer)
        show ?thesis
          by (cases all) (simp_all add: shown_mail_of_def s ends StoredRead Some answer split: option.split refresh_outcome.split)
      qed
    qed (simp_all add: shown_mail_of_def s ends split: option.split refresh_outcome.split)
  qed
  then show "shown_mail_of w = ShownMessages shown read rows banner \<Longrightarrow> shown_stored w = StoredRead (Some (read, rows)) \<and> shown = the (selected_mailbox w)"
    "shown_mail_of w = EmptyMailbox banner \<Longrightarrow> \<exists>read. shown_stored w = StoredRead (Some (read, []))"
    "shown_mail_of w = ShownReading again \<Longrightarrow> shown_stored w = Reading again" by blast+
qed

section \<open>A run\<close>

text \<open>
  One account whose inbox is selected and read; then a load changes it, the window is told and has read it
  again. The user stars the message meanwhile.
\<close>

definition demo_around :: surroundings where
  "demo_around = \<lparr>su_collation = (\<lambda>name. name), su_escape = (\<lambda>t. t)\<rparr>"

definition demo_window_inbox :: folder_ref where
  "demo_window_inbox = \<lparr>ref_account = AccountId ''a'', ref_identity = ''INBOX''\<rparr>"

definition demo_window_row :: "string \<Rightarrow> message_list_row" where
  "demo_window_row identity = \<lparr>row_identity = identity, row_fields = \<lparr>fields_subject = None, fields_from = None, fields_to = None\<rparr>,
     row_received = None, row_seen = True, row_flagged = False, row_preview = []\<rparr>"

definition demo_content :: "string list \<Rightarrow> store_content" where
  "demo_content identities = (\<lambda>folder. if folder = demo_window_inbox then Some (map demo_window_row identities) else None)"

definition demo_start :: window where
  "demo_start = apply_account_update demo_around False (demo_update (take 1 demo_accounts)) (new_window demo_around)"

definition demo_window_listed :: window where
  "demo_window_listed = the (lists_read demo_around False 1 [AccountId ''a''] (Inr [(AccountId ''a'', demo_tree_folders)]) demo_start)"

definition demo_open :: window where
  "demo_open = sidebar_acts demo_around False (select_row (SelectedMailbox demo_window_inbox)) demo_window_listed"

definition demo_read :: window where
  "demo_read = rows_read demo_around False demo_window_inbox 1 (Inr (demo_content [''m1''] demo_window_inbox)) demo_open"

definition demo_star :: window where
  "demo_star = mail_acts demo_around False (change_listed_flag ''m1'' Flagged True) demo_read"

definition demo_told :: window where
  "demo_told = show_changed_store (AccountId ''a'') demo_star"

definition demo_shown :: window where
  "demo_shown = rows_read demo_around False demo_window_inbox 2 (Inr (demo_content [''m2'', ''m1''] demo_window_inbox)) demo_told"

text \<open>The window once the folders are read, for what is evaluated from there on.\<close>

lemma demo_window_listed_value [code]: "demo_window_listed = \<lparr>
   wi_sidebar = \<lparr>
     sb_accounts = \<lparr>al_visible = [(AccountId ''a'', \<lparr>acr_label = ''Work'', acr_provider = GenericImap, acr_icon = ''mail-unread-symbolic'',
         acr_problems = [], acr_base_label = ''Work'', acr_number = 1\<rparr>)],
       al_selection = None, al_last_check = CheckComplete, al_retry_pending = False, al_excluded = {}, al_next_number = 2\<rparr>,
     sb_nodes = [(AccountId ''a'', \<lparr>an_title = ''Work'', an_icon = ''mail-unread-symbolic'', an_explanation = [], an_settings_shown = False,
       an_retry_shown = False, an_retry_label = ''Retry Check'', an_selectable = False, an_hide_expander = False,
       an_folders = [demo_folder ''INBOX'' None, demo_folder ''a'' None, demo_folder ''a/x'' (Some ''a''), demo_folder ''lost'' (Some ''gone'')],
       an_children =
         [FolderNode demo_window_inbox ''Inbox'' ''folder-symbolic'' True [],
          FolderNode \<lparr>ref_account = AccountId ''a'', ref_identity = ''a''\<rparr> ''a'' ''folder-symbolic'' True
            [FolderNode \<lparr>ref_account = AccountId ''a'', ref_identity = ''a/x''\<rparr> ''a/x'' ''folder-symbolic'' True []]]\<rparr>)],
     sb_collapsed = [], sb_marked = None, sb_toasts = [], sb_show_content = False, sb_narrow = False, sb_show_sidebar = True\<rparr>,
   wi_refreshes = no_refreshes, wi_lists = \<lparr>fl_latest = 1, fl_reading = False, fl_failure = None\<rparr>, wi_shown = no_mailbox_shown,
   wi_mail = new_mail_ui, wi_flag_writes = [], wi_content_reads = 0, wi_pool = [DeleteOthers [AccountId ''a'']], wi_loads = [],
   wi_screen = \<lparr>sc_title = (''Mailbag'', []), sc_page = ''empty'', sc_status = (''Select a mailbox'', None), sc_retry_check = None,
     sc_online_accounts = False, sc_failure = ([], []), sc_failure_button = None, sc_banner = None, sc_spinner = False,
     sc_refresh_mailbox = False, sc_refresh_account = False\<rparr>\<rparr>"
  by code_simp

lemma demo_star_run: "window_run demo_around demo_star (demo_content [''m1'']) [] [1 \<mapsto> Inr (demo_content [''m1''] demo_window_inbox)]"
proof -
  have start: "window_run demo_around demo_start (demo_content [''m1'']) [] Map.empty"
    unfolding demo_start_def by (rule window_run.accounts_updated [OF window_run.start])
  have distinct: "distinct (map folder_identity demo_tree_folders)" by code_simp
  have "lists_read demo_around False 1 [AccountId ''a''] (Inr [(AccountId ''a'', demo_tree_folders)]) demo_start = Some demo_window_listed"
    unfolding demo_window_listed_def by code_simp
  from window_run.lists_answered [OF start _ this] distinct
  have listed: "window_run demo_around demo_window_listed (demo_content [''m1'']) [] Map.empty" by simp
  have "(SelectedMailbox demo_window_inbox, True, ''Inbox'') \<in> set (tree_rows (wi_sidebar demo_window_listed))" by code_simp
  from window_run.row_selected [OF listed this, of False]
  have opened: "window_run demo_around demo_open (demo_content [''m1'']) [] Map.empty" unfolding demo_open_def .
  have job: "ReadRows demo_window_inbox 1 \<in> set (wi_pool demo_open)" by code_simp
  have found: "window_run demo_around demo_open (demo_content [''m1'']) [] [1 \<mapsto> Inr (demo_content [''m1''] demo_window_inbox)]"
    by (rule window_run.rows_found [OF opened job]) simp
  have "window_run demo_around demo_read (demo_content [''m1'']) [] [1 \<mapsto> Inr (demo_content [''m1''] demo_window_inbox)]"
    unfolding demo_read_def by (rule window_run.rows_answered [OF found job]) simp
  then show ?thesis unfolding demo_star_def by (rule window_run.acted)
qed

lemma demo_shown_run:
  "\<exists>got. window_run demo_around demo_shown (demo_content [''m2'', ''m1'']) [] got"
proof -
  let ?got = "[1 \<mapsto> Inr (demo_content [''m1''] demo_window_inbox)]"
  have "window_run demo_around demo_star (demo_content [''m2'', ''m1'']) ([] @ [Told (AccountId ''a'')]) ?got"
    by (rule window_run.load_wrote [OF demo_star_run]) (auto simp: demo_content_def demo_window_inbox_def)
  from window_run.told [OF this, of "AccountId ''a''"]
  have told: "window_run demo_around demo_told (demo_content [''m2'', ''m1'']) [] ?got" by (simp add: demo_told_def)
  have job: "ReadRows demo_window_inbox 2 \<in> set (wi_pool demo_told)" by code_simp
  have found: "window_run demo_around demo_told (demo_content [''m2'', ''m1'']) [] (?got(2 \<mapsto> Inr (demo_content [''m2'', ''m1''] demo_window_inbox)))"
    by (rule window_run.rows_found [OF told job]) simp
  show ?thesis
    unfolding demo_shown_def by (intro exI) (rule window_run.rows_answered [OF found job], simp)
qed

section \<open>Claims\<close>





text \<open>
  Outcomes of refreshes are kept, and a load may record one, only for accounts that are shown: what a
  load tells after its account was hidden is not recorded, even when the account is shown again by then.
\<close>

theorem outcomes_of_shown_accounts:
  assumes "window_run su w content pending got" and "outcome_of (wi_refreshes (finish_window_load su animates account target result w)) hidden \<noteq> None"
  shows "shows_account (wi_sidebar (finish_window_load su animates account target result w)) hidden"
proof -
  have "outcomes_ok (finish_window_load su animates account target result w)"
    using load_ended_window_ok [OF window_run_ok [OF assms(1)]] by (simp add: window_ok_def)
  then show ?thesis using assms(2) by (auto simp: outcomes_ok_def outcome_of_def dest: map_of_SomeD)
qed

theorem outcomes_of_shown_accounts_witness:
  "shows_account (wi_sidebar (finish_window_load demo_around False (AccountId ''a'') (Mailbox demo_window_inbox) (ResultStored None)
     (refresh_mailbox demo_around False demo_star))) (AccountId ''a'')"
proof -
  have run: "window_run demo_around (refresh_mailbox demo_around False demo_star) (demo_content [''m1'']) [] [1 \<mapsto> Inr (demo_content [''m1''] demo_window_inbox)]"
    by (rule window_run.mailbox_refreshed [OF demo_star_run])
  have "outcome_of (wi_refreshes (finish_window_load demo_around False (AccountId ''a'') (Mailbox demo_window_inbox) (ResultStored None)
     (refresh_mailbox demo_around False demo_star))) (AccountId ''a'') = Some (Mailbox demo_window_inbox, OutcomeStored None)" by code_simp
  then show ?thesis using outcomes_of_shown_accounts [OF run] by simp
qed

end
