(* ===== verification/Loader.thy ===== *)
theory Loader
  imports Worker Refreshes Accounts
begin

text \<open>
  The loads between the window and the mail worker (crate \<open>mailbag-providers\<close>, \<open>lib.rs\<close>, \<open>worker.rs\<close> and
  \<open>renewal.rs\<close>), as the parts take turns: the requests for access that Online Accounts has not answered,
  the queue of the worker's thread, the load it runs, the events that wait in the channel of each load,
  and what cancels a load when the window lets go of it. \<open>Worker\<close> says what one load does.
\<close>

section \<open>Access\<close>

definition microsoft_graph :: string where
  "microsoft_graph = ''https://graph.microsoft.com/v1.0''"

text \<open>What Online Accounts answers when the load asks for its token again.\<close>

definition answer_renewals :: "goa_bus option \<Rightarrow> account_id \<Rightarrow> string option" where
  "answer_renewals bus account = (case snd (request_graph_access bus False account) of
     Inr access \<Rightarrow> Some (ga_token access)
   | Inl _ \<Rightarrow> None)"

text \<open>\<open>bus\<close> is what Online Accounts answers now, \<open>later\<close> what it answers to a renewal.\<close>

definition request_load_access :: "mail_provider \<Rightarrow> goa_bus option \<Rightarrow> goa_bus option \<Rightarrow> bool \<Rightarrow> account_id \<Rightarrow> access_error + load_kind" where
  "request_load_access provider bus later cancelled account = (case provider of
     GenericImap \<Rightarrow> map_sum id GenericImapKind (snd (request_imap_access bus cancelled account))
   | GmailMail \<Rightarrow> map_sum id GmailKind (snd (request_imap_access bus cancelled account))
   | Microsoft365Mail \<Rightarrow> map_sum id (\<lambda>access. Microsoft365Kind access microsoft_graph (answer_renewals later account))
       (snd (request_graph_access bus cancelled account)))"

section \<open>The loads\<close>

text \<open>
  A load is named by its place in the list of the loads that were asked for. \<open>ak_held\<close>: the window holds
  what cancels it. \<open>ak_events\<close> are the events sent for it and not yet passed on, \<open>ak_ended\<close> says that its
  end was passed on.
\<close>

record asked_load =
  ak_account :: account_id
  ak_provider :: mail_provider
  ak_target :: load_target
  ak_held :: bool
  ak_events :: "load_event list"
  ak_ended :: bool

text \<open>
  \<open>lo_open\<close>: a thread takes requests from the queue. When the thread dies, the requests that it did not
  take stay in its queue, which the next load replaces.
\<close>

record mail_loader =
  lo_loads :: "asked_load list"
  lo_asking :: "nat list"
  lo_queue :: "nat list"
  lo_running :: "nat option"
  lo_open :: bool

definition new_loader :: mail_loader where
  "new_loader = \<lparr>lo_loads = [], lo_asking = [], lo_queue = [], lo_running = None, lo_open = False\<rparr>"

definition change_load :: "nat \<Rightarrow> (asked_load \<Rightarrow> asked_load) \<Rightarrow> mail_loader \<Rightarrow> mail_loader" where
  "change_load n f lo = lo\<lparr>lo_loads := (lo_loads lo)[n := f (lo_loads lo ! n)]\<rparr>"

text \<open>An event of a load is sent through its channel.\<close>

definition send_event :: "nat \<Rightarrow> load_event \<Rightarrow> mail_loader \<Rightarrow> mail_loader" where
  "send_event n event = change_load n (\<lambda>ak. ak\<lparr>ak_events := ak_events ak @ [event]\<rparr>)"

text \<open>\<open>MailLoader::start_load\<close> asks Online Accounts; the rest of the load follows its answer.\<close>

definition ask_load :: "account_id \<Rightarrow> mail_provider \<Rightarrow> load_target \<Rightarrow> mail_loader \<Rightarrow> mail_loader" where
  "ask_load account provider target lo = lo\<lparr>
     lo_loads := lo_loads lo @ [\<lparr>ak_account = account, ak_provider = provider, ak_target = target, ak_held = True,
       ak_events = [], ak_ended = False\<rparr>],
     lo_asking := lo_asking lo @ [length (lo_loads lo)]\<rparr>"

text \<open>The window lets go of a load: its request for access is cancelled, and so is its transfer.\<close>

definition let_go :: "nat \<Rightarrow> mail_loader \<Rightarrow> mail_loader" where
  "let_go n = change_load n (\<lambda>ak. ak\<lparr>ak_held := False\<rparr>)"

section \<open>The worker\<close>

definition stop_thread :: "mail_loader \<Rightarrow> mail_loader" where
  "stop_thread lo = lo\<lparr>lo_running := None, lo_open := False\<rparr>"

text \<open>The queue of a running thread; a thread is started when there is none.\<close>

definition open_queue :: "mail_loader \<Rightarrow> mail_loader" where
  "open_queue lo = (if lo_open lo then lo else lo\<lparr>lo_queue := [], lo_open := True\<rparr>)"

text \<open>
  \<open>MailWorker::start_load\<close>. When the thread dies before the request reaches its queue, the request is
  dropped and the load has nobody to send its events.
\<close>

definition queue_load :: "bool \<Rightarrow> nat \<Rightarrow> mail_loader \<Rightarrow> mail_loader" where
  "queue_load dies n lo =
     (let lo1 = open_queue lo in if dies then stop_thread lo1 else lo1\<lparr>lo_queue := lo_queue lo1 @ [n]\<rparr>)"

text \<open>The answer of Online Accounts: the event the window hears at once, if any, and the loads.\<close>

definition take_access :: "bool \<Rightarrow> nat \<Rightarrow> access_error + load_kind \<Rightarrow> mail_loader \<Rightarrow> load_event option \<times> mail_loader" where
  "take_access dies n access lo0 =
     (let lo = lo0\<lparr>lo_asking := remove1 n (lo_asking lo0)\<rparr>
      in case access of
        Inl AccessCancelled \<Rightarrow> (Some (Finished ResultCancelled), change_load n (\<lambda>ak. ak\<lparr>ak_ended := True\<rparr>) lo)
      | Inl error \<Rightarrow> (Some (Finished (give_up (OnlineAccounts error))), change_load n (\<lambda>ak. ak\<lparr>ak_ended := True\<rparr>) lo)
      | Inr kind \<Rightarrow> (None, queue_load dies n lo))"

text \<open>The thread's loop: it takes a request, runs its load and sends the end.\<close>

definition take_request :: "mail_loader \<Rightarrow> mail_loader" where
  "take_request lo = (case lo_queue lo of
     n # rest \<Rightarrow> if lo_open lo \<and> lo_running lo = None then lo\<lparr>lo_queue := rest, lo_running := Some n\<rparr> else lo
   | [] \<Rightarrow> lo)"

text \<open>\<open>run_load\<close>: the load's own result, or its cancellation when that came first.\<close>

definition run_load :: "bool \<Rightarrow> load_result \<Rightarrow> load_result" where
  "run_load cancelled_first own = (if cancelled_first then ResultCancelled else own)"

definition end_request :: "bool \<Rightarrow> load_result \<Rightarrow> mail_loader \<Rightarrow> mail_loader" where
  "end_request cancelled_first own lo = (case lo_running lo of
     Some n \<Rightarrow> (send_event n (Finished (run_load cancelled_first own)) lo)\<lparr>lo_running := None\<rparr>
   | None \<Rightarrow> lo)"

section \<open>What the window hears\<close>

text \<open>A load has somebody to send its events while its request waits or runs.\<close>

definition has_sender :: "mail_loader \<Rightarrow> nat \<Rightarrow> bool" where
  "has_sender lo n \<longleftrightarrow> n \<in> set (lo_queue lo) \<or> lo_running lo = Some n"

text \<open>One turn of \<open>report_events\<close>; \<open>None\<close> while it waits.\<close>

definition pass_event :: "nat \<Rightarrow> mail_loader \<Rightarrow> (load_event \<times> mail_loader) option" where
  "pass_event n lo = (case ak_events (lo_loads lo ! n) of
     event # events \<Rightarrow>
       Some (event, change_load n (\<lambda>ak. ak\<lparr>ak_events := events, ak_ended := is_finished event\<rparr>) lo)
   | [] \<Rightarrow>
       if has_sender lo n then None
       else Some (Finished (give_up (WorkerStopped None)), change_load n (\<lambda>ak. ak\<lparr>ak_ended := True\<rparr>) lo))"

section \<open>The window's side\<close>

text \<open>
  The window holds what cancels the load it shows as running, and nothing of the earlier ones. \<open>cl_quit\<close>:
  the window is gone, and hears no event any more.
\<close>

record mail_client =
  cl_refreshes :: refreshes
  cl_loader :: mail_loader
  cl_quit :: bool

definition new_client :: mail_client where
  "new_client = \<lparr>cl_refreshes = no_refreshes, cl_loader = new_loader, cl_quit = False\<rparr>"

definition held_loads :: "mail_loader \<Rightarrow> nat list" where
  "held_loads lo = filter (\<lambda>n. ak_held (lo_loads lo ! n)) [0..<length (lo_loads lo)]"

definition change_refreshes :: "(refreshes \<Rightarrow> refreshes) \<Rightarrow> mail_client \<Rightarrow> mail_client" where
  "change_refreshes f cl =
     (let rf = f (cl_refreshes cl);
          holds_on = (case rf_running rf of Some running \<Rightarrow> rl_cancellable running | None \<Rightarrow> False)
      in cl\<lparr>cl_refreshes := rf, cl_loader := (if holds_on then cl_loader cl else foldr let_go (held_loads (cl_loader cl)) (cl_loader cl))\<rparr>)"

text \<open>The refreshes' part of the window's \<open>start_load\<close>.\<close>

definition refresh :: "account_id \<Rightarrow> mail_provider \<Rightarrow> load_target \<Rightarrow> mail_client \<Rightarrow> mail_client" where
  "refresh account provider target cl =
     (if is_loading (cl_refreshes cl) then cl
      else cl\<lparr>cl_loader := ask_load account provider target (cl_loader cl),
              cl_refreshes := begin_load account target (cl_refreshes cl)\<rparr>)"

definition hear_event :: "nat \<Rightarrow> load_event \<Rightarrow> mail_client \<Rightarrow> mail_client" where
  "hear_event n event cl = (if cl_quit cl then cl else case event of
     StoreChanged \<Rightarrow> cl
   | Finished result \<Rightarrow> change_refreshes (end_load (ak_account (lo_loads (cl_loader cl) ! n)) result) cl)"

end
