(* ===== verification/Loader_Claims.thy ===== *)
theory Loader_Claims
  imports Loader Goa_Claims Accounts_Claims
begin

text \<open>
  A refresh always ends for the window: the load it started is somewhere between the window and the worker
  as long as its end was not heard, and every turn brings the end nearer.
\<close>

section \<open>What happens to the loads\<close>

text \<open>
  The turns of Online Accounts, of the worker's thread and of the channels. The thread only runs code that
  may panic, and so may only stop, while it runs a load, or by dropping what it was handed.
\<close>

inductive own_step :: "mail_client \<Rightarrow> mail_client \<Rightarrow> bool" where
  answered: "n \<in> set (lo_asking (cl_loader cl)) \<Longrightarrow> ak = lo_loads (cl_loader cl) ! n \<Longrightarrow>
    take_access dies n (request_load_access (ak_provider ak) bus later (\<not> ak_held ak) (ak_account ak)) (cl_loader cl) = (event, lo) \<Longrightarrow>
    own_step cl (case event of None \<Rightarrow> cl\<lparr>cl_loader := lo\<rparr> | Some e \<Rightarrow> hear_event n e (cl\<lparr>cl_loader := lo\<rparr>))"
| taken: "lo_open (cl_loader cl) \<Longrightarrow> lo_running (cl_loader cl) = None \<Longrightarrow> lo_queue (cl_loader cl) \<noteq> [] \<Longrightarrow>
    own_step cl (cl\<lparr>cl_loader := take_request (cl_loader cl)\<rparr>)"
| ended: "lo_running (cl_loader cl) = Some n \<Longrightarrow> (cancelled_first \<longrightarrow> \<not> ak_held (lo_loads (cl_loader cl) ! n)) \<Longrightarrow>
    own_step cl (cl\<lparr>cl_loader := end_request cancelled_first result (cl_loader cl)\<rparr>)"
| thread_stopped: "lo_running (cl_loader cl) = Some n \<Longrightarrow> own_step cl (cl\<lparr>cl_loader := stop_thread (cl_loader cl)\<rparr>)"
| passed: "n < length (lo_loads (cl_loader cl)) \<Longrightarrow> n \<notin> set (lo_asking (cl_loader cl)) \<Longrightarrow>
    \<not> ak_ended (lo_loads (cl_loader cl) ! n) \<Longrightarrow> pass_event n (cl_loader cl) = Some (event, lo) \<Longrightarrow>
    own_step cl (hear_event n event (cl\<lparr>cl_loader := lo\<rparr>))"

text \<open>Beside them, the running load changes the store, and the user refreshes, hides accounts and quits.\<close>

inductive client_run :: "mail_client \<Rightarrow> bool" where
  start: "client_run new_client"
| own: "client_run cl \<Longrightarrow> own_step cl cl' \<Longrightarrow> client_run cl'"
| store_changed: "client_run cl \<Longrightarrow> lo_running (cl_loader cl) = Some n \<Longrightarrow>
    client_run (cl\<lparr>cl_loader := send_event n StoreChanged (cl_loader cl)\<rparr>)"
| refreshed: "client_run cl \<Longrightarrow> \<not> cl_quit cl \<Longrightarrow> client_run (refresh account provider target cl)"
| accounts_hidden: "client_run cl \<Longrightarrow> \<not> cl_quit cl \<Longrightarrow> client_run (change_refreshes (discard_excluded visible) cl)"
| quit: "client_run cl \<Longrightarrow> client_run ((change_refreshes cancel_load cl)\<lparr>cl_quit := True\<rparr>)"

section \<open>Where a load is\<close>

definition idle :: "mail_loader \<Rightarrow> bool" where
  "idle lo \<longleftrightarrow> lo_asking lo = [] \<and> lo_queue lo = [] \<and> lo_running lo = None"

abbreviation only_changes :: "load_event list \<Rightarrow> bool" where
  "only_changes events \<equiv> list_all (\<lambda>event. event = StoreChanged) events"

text \<open>Asked for, queued, running, or at its end: its last event is on the way, or nobody sends one.\<close>

definition placed :: "mail_loader \<Rightarrow> nat \<Rightarrow> asked_load \<Rightarrow> bool" where
  "placed lo n ak \<longleftrightarrow>
     (lo_asking lo = [n] \<and> lo_queue lo = [] \<and> lo_running lo = None \<and> ak_events ak = []) \<or>
     (lo_asking lo = [] \<and> lo_queue lo = [n] \<and> lo_running lo = None \<and> lo_open lo \<and> ak_events ak = []) \<or>
     (lo_asking lo = [] \<and> lo_queue lo = [] \<and> lo_running lo = Some n \<and> lo_open lo \<and> only_changes (ak_events ak)) \<or>
     (idle lo \<and> (\<exists>changes result. only_changes changes \<and> (ak_events ak = changes \<or> ak_events ak = changes @ [Finished result])))"

text \<open>The window's side of the load that is not over.\<close>

definition shown_running :: "mail_client \<Rightarrow> asked_load \<Rightarrow> bool" where
  "shown_running cl ak \<longleftrightarrow>
     (if cl_quit cl then rf_running (cl_refreshes cl) = None \<and> \<not> ak_held ak
      else rf_running (cl_refreshes cl) =
        Some \<lparr>rl_account = ak_account ak, rl_target = ak_target ak, rl_cancellable = ak_held ak\<rparr>)"

definition client_ok :: "mail_client \<Rightarrow> bool" where
  "client_ok cl \<longleftrightarrow> (\<exists>old. list_all (\<lambda>ak. ak_ended ak \<and> \<not> ak_held ak) old \<and>
     ((lo_loads (cl_loader cl) = old \<and> idle (cl_loader cl) \<and> rf_running (cl_refreshes cl) = None) \<or>
      (\<exists>ak. lo_loads (cl_loader cl) = old @ [ak] \<and> \<not> ak_ended ak \<and> placed (cl_loader cl) (length old) ak \<and> shown_running cl ak)))"

lemma client_okI_idle:
  "list_all (\<lambda>ak. ak_ended ak \<and> \<not> ak_held ak) (lo_loads (cl_loader cl)) \<Longrightarrow> idle (cl_loader cl) \<Longrightarrow>
    rf_running (cl_refreshes cl) = None \<Longrightarrow> client_ok cl"
  unfolding client_ok_def by blast

lemma client_okI_load:
  "lo_loads (cl_loader cl) = old @ [ak] \<Longrightarrow> list_all (\<lambda>ak. ak_ended ak \<and> \<not> ak_held ak) old \<Longrightarrow> \<not> ak_ended ak \<Longrightarrow>
    placed (cl_loader cl) (length old) ak \<Longrightarrow> shown_running cl ak \<Longrightarrow> client_ok cl"
  unfolding client_ok_def by blast

lemma client_okE:
  assumes "client_ok cl"
  obtains (none) "list_all (\<lambda>ak. ak_ended ak \<and> \<not> ak_held ak) (lo_loads (cl_loader cl))" "idle (cl_loader cl)"
      "rf_running (cl_refreshes cl) = None"
    | (one) old ak where "lo_loads (cl_loader cl) = old @ [ak]" "list_all (\<lambda>ak. ak_ended ak \<and> \<not> ak_held ak) old" "\<not> ak_ended ak"
      "placed (cl_loader cl) (length old) ak" "shown_running cl ak"
  using assms unfolding client_ok_def by (elim exE conjE disjE) auto

section \<open>Letting go\<close>

lemma held_none: "list_all (\<lambda>ak. ak_ended ak \<and> \<not> ak_held ak) (lo_loads lo) \<Longrightarrow> held_loads lo = []"
  by (auto simp: held_loads_def filter_empty_conv list_all_length)

lemma held_one:
  assumes "lo_loads lo = old @ [ak]" and "list_all (\<lambda>ak. ak_ended ak \<and> \<not> ak_held ak) old"
  shows "held_loads lo = (if ak_held ak then [length old] else [])"
proof -
  have "filter (\<lambda>n. ak_held ((old @ [ak]) ! n)) [0..<length old] = []"
    using assms(2) by (auto simp: filter_empty_conv list_all_length nth_append)
  then show ?thesis using assms(1) by (simp add: held_loads_def)
qed

lemma change_last:
  "lo_loads lo = old @ [ak] \<Longrightarrow> change_load (length old) f lo = lo\<lparr>lo_loads := old @ [f ak]\<rparr>"
  by (simp add: change_load_def)

lemma let_go_all:
  assumes "lo_loads lo = old @ [ak]" and "list_all (\<lambda>ak. ak_ended ak \<and> \<not> ak_held ak) old"
  shows "foldr let_go (held_loads lo) lo = lo\<lparr>lo_loads := old @ [ak\<lparr>ak_held := False\<rparr>]\<rparr>"
  using assms by (simp add: held_one let_go_def change_last)

section \<open>Every event keeps its place\<close>

lemmas loader_defs = take_access_def queue_load_def open_queue_def stop_thread_def take_request_def end_request_def

lemma refresh_client_ok:
  assumes "client_ok cl" and "\<not> cl_quit cl"
  shows "client_ok (refresh account provider target cl)"
proof (cases "is_loading (cl_refreshes cl)")
  case False
  from assms(1) show ?thesis
  proof (cases rule: client_okE)
    case none
    let ?cl = "refresh account provider target cl"
    let ?ak = "\<lparr>ak_account = account, ak_provider = provider, ak_target = target, ak_held = True, ak_events = [], ak_ended = False\<rparr>"
    have "lo_loads (cl_loader ?cl) = lo_loads (cl_loader cl) @ [?ak]"
      using False by (simp add: refresh_def ask_load_def)
    moreover have "placed (cl_loader ?cl) (length (lo_loads (cl_loader cl))) ?ak" "shown_running ?cl ?ak"
      using False none assms(2) by (simp_all add: refresh_def ask_load_def placed_def idle_def shown_running_def begin_load_def)
    ultimately show ?thesis using none by (intro client_okI_load) simp_all
  next
    case (one old ak)
    then show ?thesis using False assms(2) by (simp add: shown_running_def is_loading_def)
  qed
qed (use assms in \<open>simp add: refresh_def\<close>)

lemma quit_client_ok:
  assumes "client_ok cl"
  shows "client_ok ((change_refreshes cancel_load cl)\<lparr>cl_quit := True\<rparr>)"
  using assms
proof (cases rule: client_okE)
  case none
  then show ?thesis
    by (intro client_okI_idle) (simp_all add: change_refreshes_def cancel_load_def held_none)
next
  case (one old ak)
  then show ?thesis
    by (intro client_okI_load [of _ old "ak\<lparr>ak_held := False\<rparr>"])
       (simp_all add: change_refreshes_def cancel_load_def let_go_all placed_def idle_def shown_running_def)
qed

lemma hidden_client_ok:
  assumes "client_ok cl" and "\<not> cl_quit cl"
  shows "client_ok (change_refreshes (discard_excluded visible) cl)"
  using assms(1)
proof (cases rule: client_okE)
  case none
  then show ?thesis
    by (intro client_okI_idle) (simp_all add: change_refreshes_def discard_excluded_def held_none)
next
  case (one old ak)
  then have running: "rf_running (cl_refreshes cl) =
      Some \<lparr>rl_account = ak_account ak, rl_target = ak_target ak, rl_cancellable = ak_held ak\<rparr>"
    using assms(2) by (simp add: shown_running_def)
  let ?held = "ak_held ak \<and> visible (ak_account ak)"
  show ?thesis
    by (rule client_okI_load [of _ old "ak\<lparr>ak_held := ?held\<rparr>"])
       (use one running assms(2) in \<open>auto simp: change_refreshes_def discard_excluded_def let_go_all placed_def idle_def
          shown_running_def Let_def\<close>)
qed

lemma store_change_client_ok:
  assumes "client_ok cl" and "lo_running (cl_loader cl) = Some n"
  shows "client_ok (cl\<lparr>cl_loader := send_event n StoreChanged (cl_loader cl)\<rparr>)"
  using assms(1)
proof (cases rule: client_okE)
  case (one old ak)
  then have "n = length old" "only_changes (ak_events ak)" "lo_asking (cl_loader cl) = []" "lo_queue (cl_loader cl) = []" "lo_open (cl_loader cl)"
    using assms(2) by (auto simp: placed_def idle_def)
  then show ?thesis
    using one assms(2)
    by (intro client_okI_load [of _ old "ak\<lparr>ak_events := ak_events ak @ [StoreChanged]\<rparr>"])
       (simp_all add: send_event_def change_last placed_def shown_running_def)
qed (use assms in \<open>simp add: idle_def\<close>)

text \<open>The window hears the end of the load that is not over.\<close>

lemma heard_end_ok:
  assumes "lo_loads (cl_loader cl) = old @ [ak\<lparr>ak_ended := True\<rparr>]" and "list_all (\<lambda>ak. ak_ended ak \<and> \<not> ak_held ak) old"
    and "idle (cl_loader cl)" and "shown_running cl ak"
  shows "client_ok (hear_event (length old) (Finished result) cl)"
    and "rf_running (cl_refreshes (hear_event (length old) (Finished result) cl)) = None"
proof -
  let ?cl = "hear_event (length old) (Finished result) cl"
  have rest: "idle (cl_loader ?cl) \<and> rf_running (cl_refreshes ?cl) = None \<and>
      lo_loads (cl_loader ?cl) = old @ [ak\<lparr>ak_ended := True, ak_held := False\<rparr>]"
  proof (cases "cl_quit cl")
    case True
    then show ?thesis using assms by (simp add: hear_event_def shown_running_def)
  next
    case False
    let ?rf = "end_load (ak_account ak) result (cl_refreshes cl)"
    have ended: "rf_running ?rf = None"
      using assms(4) False by (auto simp: shown_running_def end_load_def Let_def split: option.split)
    have "?cl = change_refreshes (end_load (ak_account ak) result) cl"
      using False assms(1) by (simp add: hear_event_def)
    then show ?thesis
      using ended assms(3) let_go_all [OF assms(1,2)] by (simp add: change_refreshes_def idle_def)
  qed
  then show "client_ok ?cl" using assms(2) by (intro client_okI_idle) simp_all
  show "rf_running (cl_refreshes ?cl) = None" using rest by simp
qed

section \<open>Turns\<close>

text \<open>How many turns of its own a load is away from its end, while it changes the store no more.\<close>

definition load_left :: "mail_loader \<Rightarrow> nat \<Rightarrow> nat" where
  "load_left lo n = (let ak = lo_loads lo ! n in
     if ak_ended ak then 0
     else (if n \<in> set (lo_asking lo) then 5 else if n \<in> set (lo_queue lo) then 4 else if lo_running lo = Some n then 3 else 1) +
       length (ak_events ak))"

definition loads_left :: "mail_client \<Rightarrow> nat" where
  "loads_left cl = sum_list (map (load_left (cl_loader cl)) [0..<length (lo_loads (cl_loader cl))])"

lemma left_old:
  assumes "lo_loads lo = old @ rest" and "list_all (\<lambda>ak. ak_ended ak \<and> \<not> ak_held ak) old"
  shows "sum_list (map (load_left lo) [0..<length old]) = 0"
  using assms by (auto simp: load_left_def list_all_length nth_append Let_def)

lemma left_one:
  assumes "lo_loads (cl_loader cl) = old @ [ak]" and "list_all (\<lambda>ak. ak_ended ak \<and> \<not> ak_held ak) old"
  shows "loads_left cl = load_left (cl_loader cl) (length old)"
  using left_old [OF assms] assms(1) by (simp add: loads_left_def)

lemma left_none:
  assumes "list_all (\<lambda>ak. ak_ended ak \<and> \<not> ak_held ak) (lo_loads (cl_loader cl))"
  shows "loads_left cl = 0"
  using left_old [of "cl_loader cl" _ "[]", OF _ assms] by (simp add: loads_left_def)

lemma heard_end:
  assumes "lo_loads (cl_loader cl) = old @ [ak\<lparr>ak_ended := True\<rparr>]" and "list_all (\<lambda>ak. ak_ended ak \<and> \<not> ak_held ak) old"
    and "idle (cl_loader cl)" and "shown_running cl ak"
  shows "client_ok (hear_event (length old) (Finished result) cl) \<and> loads_left (hear_event (length old) (Finished result) cl) = 0"
proof -
  let ?cl = "hear_event (length old) (Finished result) cl"
  note ok = heard_end_ok [OF assms, of result]
  from ok(1) have "loads_left ?cl = 0"
  proof (cases rule: client_okE)
    case (one older late)
    have "ak_ended late"
    proof -
      have "map ak_ended (lo_loads (cl_loader ?cl)) = map ak_ended (lo_loads (cl_loader cl))"
        using let_go_all [OF assms(1,2)] assms(1) by (simp add: hear_event_def change_refreshes_def Let_def)
      then show ?thesis using one(1) assms(1) by simp
    qed
    then show ?thesis using one(3) by simp
  qed (rule left_none)
  then show ?thesis using ok(1) by simp
qed

text \<open>A turn that keeps the load: its place and what is left of it.\<close>

lemma turned:
  assumes "lo_loads (cl_loader cl') = old @ [ak']" and "list_all (\<lambda>ak. ak_ended ak \<and> \<not> ak_held ak) old" and "\<not> ak_ended ak'"
    and "placed (cl_loader cl') (length old) ak'" and "shown_running cl' ak'"
    and "lo_loads (cl_loader cl) = old @ [ak]" and "load_left (cl_loader cl') (length old) < load_left (cl_loader cl) (length old)"
  shows "client_ok cl' \<and> loads_left cl' < loads_left cl"
  using client_okI_load [OF assms(1-5)] left_one [OF assms(1,2)] left_one [OF assms(6,2)] assms(7) by simp

lemma answer_turn:
  assumes one: "lo_loads (cl_loader cl) = old @ [ak]" "list_all (\<lambda>ak. ak_ended ak \<and> \<not> ak_held ak) old" "\<not> ak_ended ak"
    and place: "lo_asking (cl_loader cl) = [length old]" "lo_queue (cl_loader cl) = []" "lo_running (cl_loader cl) = None" "ak_events ak = []"
    and shown: "shown_running cl ak"
    and taken: "take_access dies (length old) access (cl_loader cl) = (event, lo)"
    and cl': "cl' = (case event of None \<Rightarrow> cl\<lparr>cl_loader := lo\<rparr> | Some e \<Rightarrow> hear_event (length old) e (cl\<lparr>cl_loader := lo\<rparr>))"
  shows "client_ok cl' \<and> loads_left cl' < loads_left cl"
proof -
  have left: "load_left (cl_loader cl) (length old) = 5" using one place by (simp add: load_left_def)
  show ?thesis
  proof (cases access)
    case (Inl error)
    then obtain result where result: "event = Some (Finished result)"
      and lo: "lo = (cl_loader cl)\<lparr>lo_asking := [], lo_loads := old @ [ak\<lparr>ak_ended := True\<rparr>]\<rparr>"
      using taken place one(1) by (auto simp: take_access_def Let_def change_last split: access_error.splits)
    have "client_ok cl' \<and> loads_left cl' = 0"
      unfolding cl' result using one(2) place shown lo
      by (simp only: option.case) (rule heard_end, auto simp: idle_def shown_running_def split: if_splits)
    then show ?thesis using left_one [OF one(1,2)] left by simp
  next
    case (Inr kind)
    then have event: "event = None" and lo: "lo = queue_load dies (length old) ((cl_loader cl)\<lparr>lo_asking := []\<rparr>)"
      using taken place by (auto simp: take_access_def Let_def)
    show ?thesis
      unfolding cl' event option.case
      by (rule turned [OF _ one(2) one(3) _ _ one(1)])
         (use one place shown lo left in \<open>simp_all add: queue_load_def open_queue_def stop_thread_def placed_def idle_def shown_running_def
            load_left_def Let_def\<close>)
  qed
qed

lemma pass_turn:
  assumes one: "lo_loads (cl_loader cl) = old @ [ak]" "list_all (\<lambda>ak. ak_ended ak \<and> \<not> ak_held ak) old" "\<not> ak_ended ak"
    and place: "placed (cl_loader cl) (length old) ak" "lo_asking (cl_loader cl) = []" and shown: "shown_running cl ak"
    and passed: "pass_event (length old) (cl_loader cl) = Some (event, lo)"
  shows "client_ok (hear_event (length old) event (cl\<lparr>cl_loader := lo\<rparr>)) \<and>
    loads_left (hear_event (length old) event (cl\<lparr>cl_loader := lo\<rparr>)) < loads_left cl"
proof -
  have left: "load_left (cl_loader cl) (length old) > 0" using one by (simp add: load_left_def)
  have over: ?thesis
    if event: "event = Finished result" and at: "idle (cl_loader cl)"
      and lo: "lo = (cl_loader cl)\<lparr>lo_loads := old @ [ak\<lparr>ak_events := events, ak_ended := True\<rparr>]\<rparr>" for result events
    using heard_end [of "cl\<lparr>cl_loader := lo\<rparr>" old "ak\<lparr>ak_events := events\<rparr>" result] one shown at left left_one [OF one(1,2)]
    unfolding event lo by (simp add: idle_def shown_running_def)
  show ?thesis
  proof (cases "ak_events ak")
    case Nil
    then have "\<not> has_sender (cl_loader cl) (length old)" and "event = Finished (give_up (WorkerStopped None))"
      and lo: "lo = (cl_loader cl)\<lparr>lo_loads := old @ [ak\<lparr>ak_ended := True\<rparr>]\<rparr>"
      using passed one(1) by (auto simp: pass_event_def change_last split: if_splits)
    moreover then have "idle (cl_loader cl)" using place by (auto simp: placed_def has_sender_def)
    ultimately show ?thesis using over [of _ "[]"] Nil by (cases ak) simp
  next
    case (Cons e events)
    then have event: "event = e" and lo: "lo = (cl_loader cl)\<lparr>lo_loads := old @ [ak\<lparr>ak_events := events, ak_ended := is_finished e\<rparr>]\<rparr>"
      using passed one(1) by (auto simp: pass_event_def change_last)
    show ?thesis
    proof (cases e)
      case StoreChanged
      have heard: "hear_event (length old) event (cl\<lparr>cl_loader := lo\<rparr>) = cl\<lparr>cl_loader := lo\<rparr>"
        using event StoreChanged by (simp add: hear_event_def)
      have "placed lo (length old) (ak\<lparr>ak_events := events\<rparr>)"
        using place Cons lo StoreChanged by (auto simp: placed_def idle_def append_eq_Cons_conv Cons_eq_append_conv)
      then show ?thesis
        unfolding heard
        by (intro turned [where ak' = "ak\<lparr>ak_events := events\<rparr>", OF _ one(2) _ _ _ one(1)])
           (use one shown lo Cons StoreChanged in \<open>simp_all add: shown_running_def load_left_def is_finished_def Let_def\<close>)
    next
      case (Finished result)
      then have "idle (cl_loader cl)" using place Cons by (auto simp: placed_def)
      then show ?thesis using over [of result events] event lo Finished by (simp add: is_finished_def)
    qed
  qed
qed

lemma own_step_turn:
  assumes "client_ok cl" and "own_step cl cl'"
  shows "client_ok cl' \<and> loads_left cl' < loads_left cl"
  using assms(1)
proof (cases rule: client_okE)
  case none
  from assms(2) none show ?thesis by (cases rule: own_step.cases) (auto simp: idle_def list_all_length)
next
  case (one old ak)
  from assms(2) show ?thesis
  proof (cases rule: own_step.cases)
    case (answered n asked dies bus later event lo)
    then have "n = length old" "lo_asking (cl_loader cl) = [length old]" "lo_queue (cl_loader cl) = []" "lo_running (cl_loader cl) = None"
      "ak_events ak = []"
      using one(4) by (auto simp: placed_def idle_def)
    then show ?thesis using answer_turn [OF one(1-3) _ _ _ _ one(5)] answered by blast
  next
    case taken
    then have at: "lo_queue (cl_loader cl) = [length old]" "lo_asking (cl_loader cl) = []" "ak_events ak = []"
      using one(4) by (auto simp: placed_def idle_def)
    show ?thesis
      by (rule turned [OF _ one(2,3) _ _ one(1)])
         (use taken one at in \<open>simp_all add: take_request_def placed_def shown_running_def load_left_def Let_def\<close>)
  next
    case (ended n cancelled_first result)
    then have at: "n = length old" "lo_queue (cl_loader cl) = []" "lo_asking (cl_loader cl) = []" "only_changes (ak_events ak)"
      using one(4) by (auto simp: placed_def idle_def)
    show ?thesis
      by (rule turned [where ak' = "ak\<lparr>ak_events := ak_events ak @ [Finished (run_load cancelled_first result)]\<rparr>", OF _ one(2) _ _ _ one(1)])
         (use ended one at in \<open>auto simp: end_request_def send_event_def change_last placed_def idle_def shown_running_def load_left_def Let_def\<close>)
  next
    case (thread_stopped n)
    then have at: "n = length old" "lo_queue (cl_loader cl) = []" "lo_asking (cl_loader cl) = []" "only_changes (ak_events ak)"
      using one(4) by (auto simp: placed_def idle_def)
    show ?thesis
      by (rule turned [OF _ one(2,3) _ _ one(1)])
         (use thread_stopped one at in \<open>auto simp: stop_thread_def placed_def idle_def shown_running_def load_left_def Let_def\<close>)
  next
    case (passed n event lo)
    then have n: "n = length old" using one(1,2) by (auto simp: list_all_length nth_append less_Suc_eq split: if_splits)
    then have "lo_asking (cl_loader cl) = []" using passed one(4) by (auto simp: placed_def idle_def)
    then show ?thesis using pass_turn [OF one(1-4) _ one(5)] passed n by blast
  qed
qed

lemma client_run_ok: "client_run cl \<Longrightarrow> client_ok cl"
proof (induction rule: client_run.induct)
  case start
  show ?case
    by (rule client_okI_idle) (simp_all add: new_client_def new_loader_def no_refreshes_def idle_def)
next
  case (own cl cl')
  then show ?case using own_step_turn by blast
qed (simp_all add: store_change_client_ok refresh_client_ok hidden_client_ok quit_client_ok)

text \<open>There is a turn while a load is not over.\<close>

lemma own_step_exists:
  assumes "client_ok cl" and "is_loading (cl_refreshes cl)"
  shows "\<exists>cl'. own_step cl cl'"
  using assms(1)
proof (cases rule: client_okE)
  case (one old ak)
  let ?lo = "cl_loader cl"
  consider (asking) "lo_asking ?lo = [length old]"
    | (queued) "lo_queue ?lo = [length old]" "lo_running ?lo = None" "lo_open ?lo"
    | (running) "lo_running ?lo = Some (length old)"
    | (over) "idle ?lo"
    using one(4) by (auto simp: placed_def)
  then show ?thesis
  proof cases
    case asking
    obtain event lo where "take_access False (length old)
        (request_load_access (ak_provider (lo_loads ?lo ! length old)) None None (\<not> ak_held (lo_loads ?lo ! length old))
          (ak_account (lo_loads ?lo ! length old))) ?lo = (event, lo)" by fastforce
    then show ?thesis using own_step.answered [of "length old" cl, OF _ refl] asking by force
  next
    case queued
    then show ?thesis using own_step.taken by fastforce
  next
    case running
    then show ?thesis using own_step.thread_stopped by blast
  next
    case over
    then have "pass_event (length old) ?lo \<noteq> None" by (simp add: pass_event_def has_sender_def idle_def split: list.split)
    then obtain event lo where "pass_event (length old) ?lo = Some (event, lo)" by auto
    then show ?thesis using own_step.passed [of "length old" cl event lo] one over by (force simp: idle_def)
  qed
qed (use assms(2) in \<open>simp add: is_loading_def\<close>)

lemma turns_to_the_end:
  assumes "client_ok cl"
  shows "\<exists>cl'. own_step\<^sup>*\<^sup>* cl cl' \<and> \<not> is_loading (cl_refreshes cl')"
  using assms
proof (induction "loads_left cl" arbitrary: cl rule: less_induct)
  case less
  show ?case
  proof (cases "is_loading (cl_refreshes cl)")
    case True
    then obtain next_cl where step: "own_step cl next_cl" using own_step_exists less.prems by blast
    then show ?thesis using less.hyps [of next_cl] own_step_turn [OF less.prems step] by (meson converse_rtranclp_into_rtranclp)
  qed blast
qed

text \<open>The outcomes are kept in the order of their accounts.\<close>

abbreviation outcomes_sorted :: "mail_client \<Rightarrow> bool" where
  "outcomes_sorted cl \<equiv> sorted_wrt (<) (map fst (rf_outcomes (cl_refreshes cl)))"

lemma end_load_sorted:
  "sorted_wrt (<) (map fst (rf_outcomes rf)) \<Longrightarrow> sorted_wrt (<) (map fst (rf_outcomes (end_load account result rf)))"
  by (simp add: end_load_def ordered_update_sorted Let_def split: option.split)

lemma hear_event_sorted: "outcomes_sorted cl \<Longrightarrow> outcomes_sorted (hear_event n event cl)"
  by (cases event) (simp_all add: hear_event_def change_refreshes_def end_load_sorted Let_def)

lemma own_step_sorted: "own_step cl cl' \<Longrightarrow> outcomes_sorted cl \<Longrightarrow> outcomes_sorted cl'"
  by (induction rule: own_step.induct) (auto simp: hear_event_sorted split: option.split)

lemma client_run_sorted: "client_run cl \<Longrightarrow> outcomes_sorted cl"
proof (induction rule: client_run.induct)
  case (own cl cl')
  then show ?case using own_step_sorted by blast
qed (simp_all add: new_client_def no_refreshes_def refresh_def begin_load_def change_refreshes_def discard_excluded_def cancel_load_def
    sorted_filter Let_def)

text \<open>A load of an account that Online Accounts knows, while the thread runs it.\<close>

definition demo_refreshed :: mail_client where
  "demo_refreshed = refresh (AccountId ''a1'') GenericImap FolderList new_client"

definition demo_queued :: mail_client where
  "demo_queued = demo_refreshed\<lparr>cl_loader :=
     snd (take_access False 0 (request_load_access GenericImap (Some demo_bus) None False (AccountId ''a1'')) (cl_loader demo_refreshed))\<rparr>"

definition demo_running :: mail_client where
  "demo_running = demo_queued\<lparr>cl_loader := take_request (cl_loader demo_queued)\<rparr>"

lemma demo_running_run: "client_run demo_running"
proof -
  let ?ak = "lo_loads (cl_loader demo_refreshed) ! 0"
  have "client_run demo_refreshed"
    unfolding demo_refreshed_def by (rule client_run.refreshed [OF client_run.start]) (simp add: new_client_def)
  moreover have "own_step demo_refreshed demo_queued"
  proof -
    have asked: "0 \<in> set (lo_asking (cl_loader demo_refreshed))" by code_simp
    have given: "ak_provider ?ak = GenericImap" "ak_account ?ak = AccountId ''a1''" "ak_held ?ak" by code_simp+
    have none: "fst (take_access False 0 (request_load_access GenericImap (Some demo_bus) None False (AccountId ''a1'')) (cl_loader demo_refreshed)) = None"
      by code_simp
    show ?thesis
      using own_step.answered [OF asked refl, of False "Some demo_bus" None None "cl_loader demo_queued"] none
      by (simp add: given demo_queued_def prod_eq_iff)
  qed
  moreover have "own_step demo_queued demo_running"
    unfolding demo_running_def by (rule own_step.taken) code_simp+
  ultimately show ?thesis using client_run.own by blast
qed

section \<open>Claims\<close>

text \<open>
  C5: a refresh never hangs: while the window shows a load as running, exactly the load it started last is not
  over, for the account and the target it shows; Online Accounts, the worker or a channel has a turn,
  every such turn brings the end nearer, and turns lead to the window hearing of it, also when the thread
  of the worker stops or the account was hidden meanwhile.
\<close>

theorem refresh_always_ends:
  assumes "client_run cl" and "rf_running (cl_refreshes cl) = Some running"
  shows "(\<forall>n < length (lo_loads (cl_loader cl)). \<not> ak_ended (lo_loads (cl_loader cl) ! n) \<longleftrightarrow> Suc n = length (lo_loads (cl_loader cl))) \<and>
    (\<exists>ak. last (lo_loads (cl_loader cl)) = ak \<and> rl_account running = ak_account ak \<and> rl_target running = ak_target ak \<and>
      rl_cancellable running = ak_held ak) \<and>
    (\<exists>cl'. own_step cl cl') \<and> (\<forall>cl'. own_step cl cl' \<longrightarrow> loads_left cl' < loads_left cl) \<and>
    (\<exists>cl'. own_step\<^sup>*\<^sup>* cl cl' \<and> \<not> is_loading (cl_refreshes cl'))"
proof -
  note ok = client_run_ok [OF assms(1)]
  have loading: "is_loading (cl_refreshes cl)" using assms(2) by (simp add: is_loading_def)
  from ok obtain old ak where one: "lo_loads (cl_loader cl) = old @ [ak]" "list_all (\<lambda>ak. ak_ended ak \<and> \<not> ak_held ak) old"
    "\<not> ak_ended ak" "shown_running cl ak"
    by (rule client_okE) (use assms(2) in auto)
  have "\<forall>n < length (old @ [ak]). \<not> ak_ended ((old @ [ak]) ! n) \<longleftrightarrow> Suc n = length (old @ [ak])"
    using one(2,3) by (auto simp: list_all_length nth_append less_Suc_eq)
  then show ?thesis
    using one assms(2) own_step_exists [OF ok loading] own_step_turn [OF ok] turns_to_the_end [OF ok]
    by (auto simp: shown_running_def split: if_splits)
qed

theorem refresh_always_ends_witness:
  "rf_running (cl_refreshes demo_running) = Some \<lparr>rl_account = AccountId ''a1'', rl_target = FolderList, rl_cancellable = True\<rparr> \<and>
    lo_running (cl_loader demo_running) = Some 0 \<and> (\<exists>cl'. own_step\<^sup>*\<^sup>* demo_running cl' \<and> \<not> is_loading (cl_refreshes cl'))"
proof -
  have running: "rf_running (cl_refreshes demo_running) = Some \<lparr>rl_account = AccountId ''a1'', rl_target = FolderList, rl_cancellable = True\<rparr>"
    and "lo_running (cl_loader demo_running) = Some 0"
    by code_simp+
  then show ?thesis using refresh_always_ends [OF demo_running_run running] by blast
qed

text \<open>
  C7: what the window keeps of a load that ends is that load's: when it hears the end, its account's outcome is
  the one of the target it loaded, unless it was cancelled or its account was hidden meanwhile, and the
  outcomes of the other accounts stay; the refresh actions are available again.
\<close>

theorem outcome_of_the_load:
  assumes "client_run cl" and "\<not> cl_quit cl" and "n < length (lo_loads (cl_loader cl))" and "\<not> ak_ended (lo_loads (cl_loader cl) ! n)"
    and "ak = lo_loads (cl_loader cl) ! n"
  shows "\<not> is_loading (cl_refreshes (hear_event n (Finished result) cl)) \<and>
    outcome_of (cl_refreshes (hear_event n (Finished result) cl)) account =
      (if account = ak_account ak \<and> ak_held ak \<and> result \<noteq> ResultCancelled
       then map_option (\<lambda>outcome. (ak_target ak, outcome)) (outcome_recorded result)
       else outcome_of (cl_refreshes cl) account)"
proof -
  from client_run_ok [OF assms(1)] obtain old where one: "lo_loads (cl_loader cl) = old @ [ak]" and shown: "shown_running cl ak"
  proof (cases rule: client_okE)
    case none
    then show ?thesis using assms(3,4) by (simp add: list_all_length)
  next
    case (one old' ak')
    then have "n = length old'" using assms(3,4) by (auto simp: list_all_length nth_append less_Suc_eq split: if_splits)
    then show ?thesis using one assms(5) by (intro that [of old']) simp_all
  qed
  have "hear_event n (Finished result) cl = change_refreshes (end_load (ak_account ak) result) cl"
    using assms(2,5) by (simp add: hear_event_def)
  moreover note ordered_update_lookup [OF client_run_sorted [OF assms(1)]]
  ultimately show ?thesis
    using shown assms(2)
    by (cases result) (auto simp: change_refreshes_def shown_running_def end_load_def outcome_recorded_def outcome_of_def is_loading_def Let_def)
qed

theorem outcome_of_the_load_witness:
  "outcome_of (cl_refreshes (hear_event 0 (Finished (ResultStored None)) demo_running)) (AccountId ''a1'') = Some (FolderList, OutcomeStored None)"
proof -
  have "\<not> cl_quit demo_running" "0 < length (lo_loads (cl_loader demo_running))" "\<not> ak_ended (lo_loads (cl_loader demo_running) ! 0)"
    and load: "ak_account (lo_loads (cl_loader demo_running) ! 0) = AccountId ''a1''" "ak_held (lo_loads (cl_loader demo_running) ! 0)"
      "ak_target (lo_loads (cl_loader demo_running) ! 0) = FolderList"
    by code_simp+
  from outcome_of_the_load [OF demo_running_run this(1-3) refl] load show ?thesis by (simp add: outcome_recorded_def)
qed

end
