(* ===== verification/Application.thy ===== *)
theory Application
  imports Window_Events
begin

text \<open>
  The application (crate \<open>mailbag\<close>, \<open>main.rs\<close>, \<open>logging.rs\<close> and the launcher of \<open>settings.rs\<close>): how it starts with
  \<open>--log-level\<close>, its one window with the observer of Online Accounts that reports to it, the settings
  panel it opens, and what closing the window stops. The widgets, the resources and the other actions of
  the menu are GTK.
\<close>

section \<open>The log level\<close>

datatype log_level = LogError | LogWarning | LogInfo | LogDebug

definition log_level_name :: "log_level \<Rightarrow> string" where
  "log_level_name level = (case level of
     LogError \<Rightarrow> ''error'' | LogWarning \<Rightarrow> ''warning'' | LogInfo \<Rightarrow> ''info'' | LogDebug \<Rightarrow> ''debug'')"

definition parse_log_level :: "string \<Rightarrow> string + log_level" where
  "parse_log_level requested = (case find (\<lambda>level. log_level_name level = requested) [LogError, LogWarning, LogInfo, LogDebug] of
     Some level \<Rightarrow> Inr level
   | None \<Rightarrow> Inl (''Unknown log level '' @ [CHR 0x22] @ requested @ [CHR 0x22] @ ''. Use error, warning, info or debug.''))"

definition provider_type :: "account_provider \<Rightarrow> string" where
  "provider_type provider = (case provider of
     ImapSmtp \<Rightarrow> ''imap'' | Google \<Rightarrow> ''google'' | Microsoft365 \<Rightarrow> ''microsoft365'' | OtherProvider \<Rightarrow> ''other'')"

text \<open>What registering the application finds, and how the start goes on: with a record, or not at all.\<close>

datatype registration = FirstStart | AlreadyRunning | NotRegistered

datatype start_answer = GoesOn "log_level option" | GivesUp string

definition start_requested_logging :: "string option \<Rightarrow> registration \<Rightarrow> start_answer" where
  "start_requested_logging requested found = (case requested of
     None \<Rightarrow> GoesOn None
   | Some requested_level \<Rightarrow>
       (case parse_log_level requested_level of
         Inl message \<Rightarrow> GivesUp message
       | Inr level \<Rightarrow>
           (case found of
             FirstStart \<Rightarrow> GoesOn (Some level)
           | AlreadyRunning \<Rightarrow> GivesUp (''Mailbag is already running, so logging was not turned on. '' @
               ''Quit Mailbag and start it again with this option.'')
           | NotRegistered \<Rightarrow> GoesOn None)))"

section \<open>The window\<close>

text \<open>\<open>ap_launches\<close> counts the requests sent to the settings panel.\<close>

record app_window =
  ap_observer :: account_observer
  ap_window :: window
  ap_launch_pending :: bool
  ap_launches :: nat
  ap_open :: bool

definition connect_account_updates :: "surroundings \<Rightarrow> app_window" where
  "connect_account_updates su = \<lparr>ap_observer = start_observer, ap_window = new_window su, ap_launch_pending = False, ap_launches = 0,
     ap_open = True\<rparr>"

text \<open>Starting the application again only presents its window.\<close>

definition build_window :: "surroundings \<Rightarrow> app_window option \<Rightarrow> app_window" where
  "build_window su active = (case active of Some ap \<Rightarrow> ap | None \<Rightarrow> connect_account_updates su)"

text \<open>The observer acts; the window, as long as it is there, takes the updates that it published.\<close>

definition observer_acts :: "surroundings \<Rightarrow> bool \<Rightarrow> (account_observer \<Rightarrow> account_observer) \<Rightarrow> app_window \<Rightarrow> app_window" where
  "observer_acts su animates act ap =
     (let ob = act (ap_observer ap);
          updates = drop (length (ob_published (ap_observer ap))) (ob_published ob)
      in ap\<lparr>ap_observer := ob,
           ap_window := (if ap_open ap then foldl (\<lambda>w update. apply_account_update su animates update w) (ap_window ap) updates
             else ap_window ap)\<rparr>)"

definition retry_check :: "surroundings \<Rightarrow> bool \<Rightarrow> app_window \<Rightarrow> app_window" where
  "retry_check su animates = observer_acts su animates refresh_accounts"

section \<open>The settings panel\<close>

definition open_settings :: "app_window \<Rightarrow> app_window" where
  "open_settings ap = (if ap_launch_pending ap then ap
     else ap\<lparr>ap_launch_pending := True, ap_launches := ap_launches ap + 1\<rparr>)"

definition settings_answered :: "glib_error option \<Rightarrow> app_window \<Rightarrow> app_window" where
  "settings_answered failed ap =
     (let ap1 = ap\<lparr>ap_launch_pending := False\<rparr>
      in case failed of
        Some error \<Rightarrow> if ap_open ap1
          then ap1\<lparr>ap_window := (ap_window ap1)\<lparr>wi_sidebar := show_settings_error (launch_error_of error) (wi_sidebar (ap_window ap1))\<rparr>\<rparr>
          else ap1
      | None \<Rightarrow> ap1)"

section \<open>The end\<close>

definition close_window :: "app_window \<Rightarrow> app_window" where
  "close_window ap = ap\<lparr>ap_window := cancel_loads (ap_window ap), ap_observer := stop_observer (ap_observer ap), ap_open := False\<rparr>"

end
