(* ===== verification/Application_Claims.thy ===== *)
theory Application_Claims
  imports Application Goa_Claims Window_Claims
begin

text \<open>
  The accounts on their whole way: from the objects of Online Accounts, through the observer and its updates,
  to the rows of the window's sidebar.
\<close>

section \<open>What the window does beside the updates\<close>

inductive window_turn :: "surroundings \<Rightarrow> window \<Rightarrow> window \<Rightarrow> bool" for su w where
  store_changed: "window_turn su w (show_changed_store account w)"
| load_ended: "window_turn su w (finish_window_load su animates account target result w)"
| flag_answered: "window_turn su w (flag_written change written w)"
| rows_answered: "window_turn su w (rows_read su animates folder n answer w)"
| lists_answered: "lists_read su animates n accounts answer w = Some w' \<Longrightarrow> window_turn su w w'"
| content_answered: "window_turn su w (content_read account identity content w)"
| row_selected: "window_turn su w (sidebar_acts su animates (select_row key) w)"
| rows_collapsed: "window_turn su w (sidebar_acts su animates (collapse_rows rows) w)"
| mailbox_refreshed: "window_turn su w (refresh_mailbox su animates w)"
| account_refreshed: "window_turn su w (refresh_account su animates w)"
| acted: "window_turn su w (mail_acts su animates act w)"
| reread: "window_turn su w (read_stored_mail su animates w)"
| filtered: "window_turn su w (unread_filter_toggled su animates unread_only w)"

text \<open>None of it changes the rows of the accounts; a selection is of a row.\<close>

definition same_rows :: "account_list \<Rightarrow> account_list \<Rightarrow> bool" where
  "same_rows al al' \<longleftrightarrow> al_visible al' = al_visible al \<and> al_next_number al' = al_next_number al \<and> (selection_ok al \<longrightarrow> selection_ok al')"

lemma same_rows_refl [simp]: "same_rows al al"
  by (simp add: same_rows_def)

lemma same_rows_trans: "same_rows al1 al2 \<Longrightarrow> same_rows al2 al3 \<Longrightarrow> same_rows al1 al3"
  by (simp add: same_rows_def)

lemma same_rows_select: "same_rows al (select s al)"
  by (auto simp: same_rows_def select_def selection_ok_def is_visible_def)

lemma same_rows_clear: "same_rows al (clear_selection al)"
  by (simp add: same_rows_def clear_selection_def selection_ok_def)

lemma same_rows_ok: "same_rows al al' \<Longrightarrow> accounts_ok al \<Longrightarrow> accounts_ok al'"
  by (simp add: same_rows_def accounts_ok_def numbers_ok_def)

abbreviation accounts_of :: "window \<Rightarrow> account_list" where
  "accounts_of w \<equiv> sb_accounts (wi_sidebar w)"

lemma lists_same_rows: "show_folder_lists su found w = Some w' \<Longrightarrow> same_rows (accounts_of w) (accounts_of w')"
proof (induction su found w rule: show_folder_lists.induct)
  case (2 su account folders found w)
  then obtain gone sb where shown: "show_folders (su_collation su) account folders (wi_sidebar w) = Some (gone, sb)"
    and rest: "show_folder_lists su found (w\<lparr>wi_sidebar := sb, wi_shown := (if gone then forget (wi_shown w) else wi_shown w)\<rparr>) = Some w'"
    by (auto split: option.splits prod.splits)
  have "same_rows (accounts_of w) (sb_accounts sb)"
    using shown same_rows_clear by (auto simp: show_folders_def Let_def split: option.splits if_splits)
  then show ?case using 2(1) [OF shown refl] rest same_rows_trans by simp
qed simp

lemma finish_load_sidebar: "wi_sidebar (finish_window_load su animates account target result w) = wi_sidebar w"
  by (simp add: finish_window_load_def Let_def split: load_target.split option.split)

lemma turn_same_rows: "window_turn su w w' \<Longrightarrow> same_rows (accounts_of w) (accounts_of w')"
proof (induction rule: window_turn.induct)
  case (lists_answered animates n accounts answer w')
  then show ?case
    by (auto simp: lists_read_def finish_lists_read_def Let_def split: if_splits sum.splits dest!: lists_same_rows)
next
  case (flag_answered change written)
  then show ?case by (cases written) (simp_all add: flag_written_def write_oldest_flag_def show_toast_def Let_def split: list.split)
next
  case (row_selected animates key)
  then show ?case using same_rows_select by (simp add: sidebar_acts_parts select_row_def)
next
  case (rows_collapsed animates rows)
  then show ?case using same_rows_clear by (simp add: sidebar_acts_parts collapse_rows_def clear_hidden_selection_def Let_def)
qed (simp_all add: show_changed_store_def finish_load_sidebar rows_read_def finish_rows_read_def content_read_def refresh_mailbox_def
  refresh_account_def start_window_load_def read_stored_mail_def unread_filter_toggled_def Let_def
  split: option.split selection.split)

section \<open>The application\<close>

text \<open>
  What happens to the observer (as in \<open>observed\<close>, with the same counts), what the window does, the settings
  panel, and the end.
\<close>

inductive app_run :: "surroundings \<Rightarrow> app_window \<Rightarrow> nat \<Rightarrow> nat \<Rightarrow> nat \<Rightarrow> bool" for su where
  created: "app_run su (connect_account_updates su) 1 1 0"
| signalled: "app_run su ap asked since known \<Longrightarrow> signal \<in> set account_change_signals \<Longrightarrow> ob_subscribed (ap_observer ap) \<Longrightarrow>
    (case cs_accepted_path_prefix signal of None \<Rightarrow> True | Some accepted_prefix \<Rightarrow> starts_with accepted_prefix path) \<Longrightarrow>
    app_run su (observer_acts su animates (change_signalled signal path) ap) (Suc asked)
      (if ob_read (ap_observer ap) = None then Suc asked else since) known"
| retried: "app_run su ap asked since known \<Longrightarrow>
    app_run su (retry_check su animates ap) (Suc asked) (if ob_read (ap_observer ap) = None then Suc asked else since) known"
| connected: "app_run su ap asked since known \<Longrightarrow> ob_read (ap_observer ap) = Some ConnectsToBus \<Longrightarrow>
    app_run su (observer_acts su animates (bus_connected None) ap) asked since known"
| unconnected: "app_run su ap asked since known \<Longrightarrow> ob_read (ap_observer ap) = Some ConnectsToBus \<Longrightarrow>
    app_run su (observer_acts su animates (bus_connected (Some error)) ap) asked
      (if ob_refetch_needed (ap_observer ap) then asked else since) since"
| answered: "app_run su ap asked since known \<Longrightarrow> ob_read (ap_observer ap) = Some ReadsAccounts \<Longrightarrow>
    app_run su (observer_acts su animates (accounts_answered reply) ap) asked
      (if ob_refetch_needed (ap_observer ap) then asked else since) since"
| turned: "app_run su ap asked since known \<Longrightarrow> ap_open ap \<Longrightarrow> window_turn su (ap_window ap) w \<Longrightarrow>
    app_run su (ap\<lparr>ap_window := w\<rparr>) asked since known"
| opened_settings: "app_run su ap asked since known \<Longrightarrow> app_run su (open_settings ap) asked since known"
| settings: "app_run su ap asked since known \<Longrightarrow> ap_launch_pending ap \<Longrightarrow> app_run su (settings_answered failed ap) asked since known"
| closed: "app_run su ap asked since known \<Longrightarrow> ap_open ap \<Longrightarrow> app_run su (close_window ap) asked since known"

lemma acting_observer [simp]: "ap_observer (observer_acts su animates act ap) = act (ap_observer ap)"
  by (simp add: observer_acts_def Let_def)

lemma app_run_observed: "app_run su ap asked since known \<Longrightarrow> observed (ap_observer ap) asked since known"
proof (induction rule: app_run.induct)
  case created
  show ?case using observed.started by (simp add: connect_account_updates_def)
next
  case (settings ap asked since known failed)
  then show ?case by (simp add: settings_answered_def Let_def split: option.split)
qed (simp_all add: connect_account_updates_def retry_check_def open_settings_def close_window_def observed.intros)

section \<open>The rows follow the updates\<close>

text \<open>An account that Mailbag shows when an update lists it so and its mail service is there.\<close>

definition shown_by :: "account_update \<Rightarrow> account_id \<Rightarrow> account_details \<Rightarrow> bool" where
  "shown_by update account details \<longleftrightarrow> map_of (au_accounts update) account = Some details \<and>
     mail_provider_of (ad_provider details) \<noteq> None \<and> ad_mail_enabled details"

definition follows_update :: "account_list \<Rightarrow> account_update \<Rightarrow> bool" where
  "follows_update al update \<longleftrightarrow> (is_complete (au_last_check update) \<longrightarrow>
     (\<forall>account. is_visible al account \<longrightarrow> (\<exists>details. shown_by update account details)) \<and>
     (\<forall>account details. shown_by update account details \<longrightarrow> ad_mail_service_available details \<longrightarrow> is_visible al account))"

text \<open>The list follows the latest of the updates it was handed.\<close>

definition follows :: "account_list \<Rightarrow> account_update list \<Rightarrow> bool" where
  "follows al updates \<longleftrightarrow> accounts_ok al \<and> (updates \<noteq> [] \<longrightarrow> follows_update al (last updates))"

lemma same_rows_follows: "same_rows al al' \<Longrightarrow> follows al updates \<Longrightarrow> follows al' updates"
  using same_rows_ok by (auto simp: follows_def follows_update_def same_rows_def is_visible_def)

lemma applied_accounts: "accounts_of (apply_account_update su animates update w) = snd (apply_update update (accounts_of w))"
  by (simp add: apply_account_update_def delete_removed_accounts_def updated_accounts Let_def)

lemma applied_follows:
  assumes "follows al updates" and "well_formed_update update"
  shows "follows (snd (apply_update update al)) (updates @ [update])"
proof -
  have ok: "accounts_ok al" using assms(1) by (simp add: follows_def)
  have "follows_update (snd (apply_update update al)) update"
  proof (cases "is_complete (au_last_check update)")
    case True
    have "distinct (map fst (au_accounts update))" using assms(2) by (simp add: well_formed_update_def strict_sorted_iff)
    from applied_visible [OF ok this True prod.collapse [symmetric]] show ?thesis
      by (auto simp: follows_update_def shown_by_def)
  qed (simp add: follows_update_def)
  then show ?thesis using apply_update_ok [OF ok] by (simp add: follows_def)
qed

lemma taken_follows:
  assumes "follows (accounts_of w) updates" and "list_all well_formed_update new"
  shows "follows (accounts_of (foldl (\<lambda>w update. apply_account_update su animates update w) w new)) (updates @ new)"
  using assms
proof (induction new arbitrary: w updates)
  case (Cons update new)
  then show ?case
    using Cons.IH [of "apply_account_update su animates update w" "updates @ [update]"] applied_follows [of "accounts_of w" updates update]
    by (simp add: applied_accounts)
qed simp

text \<open>An observer only adds to what it published.\<close>

lemma published_grows:
  "\<exists>new. ob_published (change_signalled signal path ob) = ob_published ob @ new"
  "\<exists>new. ob_published (refresh_accounts ob) = ob_published ob @ new"
  "\<exists>new. ob_published (bus_connected failed ob) = ob_published ob @ new"
  "\<exists>new. ob_published (accounts_answered reply ob) = ob_published ob @ new"
  by (auto simp: change_signalled_def refresh_accounts_def bus_connected_def accounts_answered_def finish_read_def publish_update_def
      request_read_def Let_def split: option.split)

definition app_follows :: "app_window \<Rightarrow> bool" where
  "app_follows ap \<longleftrightarrow> (ap_open ap \<longrightarrow> follows (accounts_of (ap_window ap)) (ob_published (ap_observer ap)))"

lemma acting_follows:
  assumes "app_follows ap" and "\<exists>new. ob_published (act (ap_observer ap)) = ob_published (ap_observer ap) @ new"
    and "well_formed_observer (act (ap_observer ap))"
  shows "app_follows (observer_acts su animates act ap)"
proof -
  obtain new where new: "ob_published (act (ap_observer ap)) = ob_published (ap_observer ap) @ new" using assms(2) by blast
  have "list_all well_formed_update new" using assms(3) by (simp add: new)
  then show ?thesis
    using taken_follows [of "ap_window ap" "ob_published (ap_observer ap)" new su animates] assms(1)
    by (simp add: app_follows_def observer_acts_def new Let_def)
qed

lemma app_run_follows: "app_run su ap asked since known \<Longrightarrow> app_follows ap"
proof (induction rule: app_run.induct)
  case created
  show ?case
    using accounts_start_ok
    by (simp add: app_follows_def connect_account_updates_def follows_def start_observer_def request_read_def new_observer_def new_window_def new_sidebar_def)
next
  case (turned ap asked since known w)
  then show ?case using same_rows_follows [OF turn_same_rows [OF turned(3)]] by (simp add: app_follows_def)
next
  case (settings ap asked since known failed)
  then show ?case by (simp add: app_follows_def settings_answered_def show_settings_error_def show_toast_def Let_def split: option.split)
next
  case (signalled ap asked since known signal path animates)
  then show ?case
    using observed_well_formed [OF app_run_observed [OF app_run.signalled [OF signalled(1-4)]]]
    by (intro acting_follows published_grows) simp_all
next
  case (retried ap asked since known animates)
  then show ?case
    using observed_well_formed [OF app_run_observed [OF app_run.retried [OF retried(1)]]]
    unfolding retry_check_def by (intro acting_follows published_grows) simp_all
next
  case (connected ap asked since known animates)
  then show ?case
    using observed_well_formed [OF app_run_observed [OF app_run.connected [OF connected(1,2)]]]
    by (intro acting_follows published_grows) simp_all
next
  case (unconnected ap asked since known animates error)
  then show ?case
    using observed_well_formed [OF app_run_observed [OF app_run.unconnected [OF unconnected(1,2)]]]
    by (intro acting_follows published_grows) simp_all
next
  case (answered ap asked since known animates reply)
  then show ?case
    using observed_well_formed [OF app_run_observed [OF app_run.answered [OF answered(1,2)]]]
    by (intro acting_follows published_grows) simp_all
qed (simp_all add: app_follows_def open_settings_def close_window_def)

text \<open>The observer stops with the window.\<close>

lemma acting_keeps_running:
  "ob_stopped (change_signalled signal path ob) = ob_stopped ob" "ob_stopped (refresh_accounts ob) = ob_stopped ob"
  "ob_stopped (bus_connected failed ob) = ob_stopped ob" "ob_stopped (accounts_answered reply ob) = ob_stopped ob"
  by (auto simp: change_signalled_def refresh_accounts_def bus_connected_def accounts_answered_def finish_read_def publish_update_def
      request_read_def Let_def split: option.split)

lemma acting_open [simp]: "ap_open (observer_acts su animates act ap) = ap_open ap"
  by (simp add: observer_acts_def Let_def)

lemma app_run_running: "app_run su ap asked since known \<Longrightarrow> ap_open ap \<longleftrightarrow> \<not> ob_stopped (ap_observer ap)"
proof (induction rule: app_run.induct)
  case (settings ap asked since known failed)
  then show ?case by (auto simp: settings_answered_def Let_def split: option.split)
qed (simp_all add: connect_account_updates_def start_observer_def request_read_def new_observer_def retry_check_def acting_keeps_running
  open_settings_def close_window_def stop_observer_def)

text \<open>The first accounts of a start, answered while the window is open.\<close>

definition demo_app :: app_window where
  "demo_app = observer_acts demo_around False (accounts_answered (Inr (Some [demo_object])))
     (observer_acts demo_around False (bus_connected None) (connect_account_updates demo_around))"

lemma demo_app_run: "app_run demo_around demo_app 1 1 1"
proof -
  let ?connected = "observer_acts demo_around False (bus_connected None) (connect_account_updates demo_around)"
  have "app_run demo_around ?connected 1 1 0"
    by (rule app_run.connected [OF app_run.created]) (simp add: connect_account_updates_def start_observer_def request_read_def new_observer_def)
  moreover have "ap_observer ?connected = bus_connected None start_observer" by (simp add: connect_account_updates_def)
  moreover have "ob_read (bus_connected None start_observer) = Some ReadsAccounts" "\<not> ob_refetch_needed (bus_connected None start_observer)"
    by code_simp+
  ultimately show ?thesis
    unfolding demo_app_def using app_run.answered [of demo_around ?connected 1 1 0 False "Inr (Some [demo_object])"] by simp
qed

text \<open>Labels looked up by their accounts.\<close>

lemma distinct_labels:
  assumes "distinct (map fst (al_visible (sb_accounts sb)))" and "distinct (row_labels (al_visible (sb_accounts sb)))"
  shows "distinct (map (\<lambda>account. label_of sb account) (shown_accounts sb))"
proof -
  have "map (\<lambda>account. label_of sb account) (shown_accounts sb) = map (\<lambda>(_, row). Some (acr_label row)) (al_visible (sb_accounts sb))"
    using assms(1) by (auto simp: shown_accounts_def label_of_def)
  also have "\<dots> = map Some (row_labels (al_visible (sb_accounts sb)))" by (simp add: case_prod_beta)
  finally have labels: "map (\<lambda>account. label_of sb account) (shown_accounts sb) = map Some (row_labels (al_visible (sb_accounts sb)))" .
  show ?thesis unfolding labels using assms(2) by (subst distinct_map) simp
qed

section \<open>Claims\<close>

text \<open>
  C16: the window shows the accounts of Online Accounts: while it is open, whenever no reading runs and the last
  one was complete, that reading began after the latest change that was signalled or asked for, every
  account shown is one it lists with Mail on and a provider Mailbag can load, every such account whose
  mail service is there is shown, and no two under the same label.
\<close>

theorem online_accounts_shown:
  assumes "app_run su ap asked since known" and "ap_open ap" and "ob_read (ap_observer ap) = None"
    and "is_complete (au_last_check (ob_update (ap_observer ap)))"
  shows "known = asked \<and>
    (\<forall>account. shows_account (wi_sidebar (ap_window ap)) account \<longrightarrow> (\<exists>details. shown_by (ob_update (ap_observer ap)) account details)) \<and>
    (\<forall>account details. shown_by (ob_update (ap_observer ap)) account details \<longrightarrow> ad_mail_service_available details \<longrightarrow>
      shows_account (wi_sidebar (ap_window ap)) account) \<and>
    distinct (map (\<lambda>account. label_of (wi_sidebar (ap_window ap)) account) (shown_accounts (wi_sidebar (ap_window ap))))"
proof -
  have ok: "observer_ok (ap_observer ap) asked since known" by (rule observed_ok [OF app_run_observed [OF assms(1)]])
  have running: "\<not> ob_stopped (ap_observer ap)" using app_run_running [OF assms(1)] assms(2) by simp
  have published: "ob_published (ap_observer ap) \<noteq> []" "last (ob_published (ap_observer ap)) = ob_update (ap_observer ap)"
    using ok assms(4) by (auto simp: observer_ok_def default_update_def is_complete_def split: if_splits)
  have "follows (accounts_of (ap_window ap)) (ob_published (ap_observer ap))"
    using app_run_follows [OF assms(1)] assms(2) by (simp add: app_follows_def)
  then have update: "follows_update (accounts_of (ap_window ap)) (ob_update (ap_observer ap))" and rows: "accounts_ok (accounts_of (ap_window ap))"
    using published by (simp_all add: follows_def)
  have "distinct (map fst (al_visible (accounts_of (ap_window ap))))" "distinct (row_labels (al_visible (accounts_of (ap_window ap))))"
    using rows by (simp_all add: accounts_ok_def strict_sorted_iff)
  then have "distinct (map (\<lambda>account. label_of (wi_sidebar (ap_window ap)) account) (shown_accounts (wi_sidebar (ap_window ap))))"
    by (rule distinct_labels)
  then show ?thesis
    using update ok running assms(3,4) by (auto simp: follows_update_def observer_ok_def shows_account_def)
qed

theorem online_accounts_shown_witness:
  "shows_account (wi_sidebar (ap_window demo_app)) (AccountId ''a1'') \<and> \<not> shows_account (wi_sidebar (ap_window demo_app)) (AccountId ''a2'')"
proof -
  have state: "ap_open demo_app" "ob_read (ap_observer demo_app) = None" "is_complete (au_last_check (ob_update (ap_observer demo_app)))"
    by code_simp+
  have listed: "shown_by (ob_update (ap_observer demo_app)) (AccountId ''a1'') (the (map_of (au_accounts (ob_update (ap_observer demo_app))) (AccountId ''a1'')))"
    "ad_mail_service_available (the (map_of (au_accounts (ob_update (ap_observer demo_app))) (AccountId ''a1'')))"
    "map_of (au_accounts (ob_update (ap_observer demo_app))) (AccountId ''a2'') = None"
    by code_simp+
  show ?thesis
    using online_accounts_shown [OF demo_app_run state] listed by (auto simp: shown_by_def)
qed

end
